(* ===== verification/Prelude.thy ===== *)
theory Prelude
  imports Main "HOL-Library.Word"
begin

text \<open>
  Shared vocabulary of the development.

  \<^item> Rust's machine integers: \<open>u8\<close>, \<open>u16\<close>, \<open>u32\<close>, \<open>u64\<close> are words; quantities of type
    \<open>u64\<close>/\<open>usize\<close> whose arithmetic cannot wrap are \<open>nat\<close>, with every cast of the source written
    as a conversion to a word.
  \<^item> Rust's \<open>Result\<close>: \<open>'e + 'a\<close> with \<open>Inl\<close> for \<open>Err\<close>; the \<open>?\<close> operator is \<open>and_then\<close>.
  \<^item> Rust's \<open>String\<close>: the list of its UTF-8 bytes, an Isabelle \<open>string\<close> (a \<open>char\<close> is a byte);
    the type's guarantee that the bytes are well formed is the predicate \<open>utf8_valid\<close>.
  \<^item> Big-endian byte strings, decimal printing, \<open>str\<close> methods used by several components.
\<close>

named_theorems result_simps \<open>rewrite rules for the result combinators\<close>
named_theorems bytes_simps \<open>rewrite rules for big-endian byte strings\<close>

type_synonym u8 = "8 word"
type_synonym u16 = "16 word"
type_synonym u32 = "32 word"
type_synonym u64 = "64 word"

subsection \<open>Lists\<close>

lemma map_filter_cong: "(\<And>x. x \<in> set xs \<Longrightarrow> f x = g x) \<Longrightarrow> List.map_filter f xs = List.map_filter g xs"
  by (induction xs) (auto simp: List.map_filter_def)

lemma set_map_filter: "y \<in> set (List.map_filter f xs) \<longleftrightarrow> (\<exists>x\<in>set xs. f x = Some y)"
  by (induction xs) (force simp: List.map_filter_def)+

subsection \<open>Results\<close>

text \<open>The \<open>?\<close> operator: continue with the value, or return the error at once.\<close>

definition and_then :: "'e + 'a \<Rightarrow> ('a \<Rightarrow> 'e + 'b) \<Rightarrow> 'e + 'b" where
  "and_then r f = (case r of Inl e \<Rightarrow> Inl e | Inr x \<Rightarrow> f x)"

text \<open>Rust's \<open>Result::map_err\<close> and \<open>Result::map\<close>.\<close>

definition map_err :: "('e \<Rightarrow> 'f) \<Rightarrow> 'e + 'a \<Rightarrow> 'f + 'a" where
  "map_err g r = (case r of Inl e \<Rightarrow> Inl (g e) | Inr x \<Rightarrow> Inr x)"

definition map_ok :: "('a \<Rightarrow> 'b) \<Rightarrow> 'e + 'a \<Rightarrow> 'e + 'b" where
  "map_ok g r = (case r of Inl e \<Rightarrow> Inl e | Inr x \<Rightarrow> Inr (g x))"

definition is_ok :: "'e + 'a \<Rightarrow> bool" where
  "is_ok r = (case r of Inl _ \<Rightarrow> False | Inr _ \<Rightarrow> True)"

lemma and_then_simps [simp, result_simps]:
  "and_then (Inl e) f = Inl e"
  "and_then (Inr x) f = f x"
  by (simp_all add: and_then_def)

lemma and_then_eq_Inr_iff [result_simps]:
  "and_then r f = Inr y \<longleftrightarrow> (\<exists>x. r = Inr x \<and> f x = Inr y)"
  by (cases r) auto

lemma and_then_eq_InrE:
  assumes "and_then r f = Inr y"
  obtains x where "r = Inr x" and "f x = Inr y"
  using assms by (cases r) auto

lemma and_then_assoc:
  "and_then (and_then r f) g = and_then r (\<lambda>x. and_then (f x) g)"
  by (cases r) auto

lemma and_then_cong [fundef_cong]:
  assumes "r = r'" and "\<And>x. r' = Inr x \<Longrightarrow> f x = f' x"
  shows "and_then r f = and_then r' f'"
  using assms by (cases r') auto

lemma map_err_simps [simp, result_simps]:
  "map_err g (Inl e) = Inl (g e)"
  "map_err g (Inr x) = Inr x"
  by (simp_all add: map_err_def)

lemma map_err_eq_Inr_iff [simp, result_simps]: "map_err g r = Inr y \<longleftrightarrow> r = Inr y"
  by (cases r) auto

lemma map_ok_simps [simp, result_simps]:
  "map_ok g (Inl e) = Inl e"
  "map_ok g (Inr x) = Inr (g x)"
  by (simp_all add: map_ok_def)

lemma is_ok_simps [simp]: "is_ok (Inr x)" "\<not> is_ok (Inl e)"
  by (simp_all add: is_ok_def)

lemma is_ok_iff: "is_ok r \<longleftrightarrow> (\<exists>x. r = Inr x)"
  by (cases r) auto

subsection \<open>Big-endian byte strings\<close>

text \<open>\<open>be_bytes k n\<close>: the \<open>k\<close> low bytes of \<open>n\<close>, most significant first (\<open>to_be_bytes\<close>).\<close>

fun be_bytes :: "nat \<Rightarrow> nat \<Rightarrow> u8 list" where
  "be_bytes 0 n = []"
| "be_bytes (Suc k) n = be_bytes k (n div 256) @ [word_of_nat n]"

text \<open>\<open>be_nat\<close>: the number a big-endian byte string denotes.\<close>

definition be_nat :: "u8 list \<Rightarrow> nat" where
  "be_nat bs = foldl (\<lambda>acc b. acc * 256 + unat b) 0 bs"

lemma length_be_bytes [simp, bytes_simps]: "length (be_bytes k n) = k"
  by (induction k arbitrary: n) auto

lemma be_bytes_4: "be_bytes 4 n =
    [word_of_nat (n div 16777216), word_of_nat (n div 65536), word_of_nat (n div 256), word_of_nat n]"
proof -
  have "be_bytes 4 n = be_bytes (Suc (Suc (Suc (Suc 0)))) n"
    by (rule arg_cong) simp
  then show ?thesis
    by (simp add: div_mult2_eq[symmetric])
qed

lemma be_bytes_eq_Nil_iff [simp, bytes_simps]: "be_bytes k n = [] \<longleftrightarrow> k = 0"
  by (metis length_be_bytes length_0_conv)

lemma be_nat_Nil [simp, bytes_simps]: "be_nat [] = 0"
  by (simp add: be_nat_def)

lemma be_nat_snoc [simp, bytes_simps]: "be_nat (bs @ [b]) = be_nat bs * 256 + unat b"
  by (simp add: be_nat_def)

lemma unat_word_of_nat_u8 [simp, bytes_simps]: "unat (word_of_nat n :: u8) = n mod 256"
  by (simp add: unat_of_nat)

lemma unat_u8_less [simp]: "unat (b :: u8) < 256"
  using unsigned_less[of b] by simp

lemma be_nat_be_bytes_mod: "be_nat (be_bytes k n) = n mod 256 ^ k"
proof (induction k arbitrary: n)
  case 0
  then show ?case by simp
next
  case (Suc k)
  have "n mod (256 ^ k * 256) = 256 * (n div 256 mod 256 ^ k) + n mod 256"
    by (subst mult.commute) (rule mod_mult2_eq)
  with Suc show ?case by (simp add: mult.commute)
qed

lemma be_nat_be_bytes [bytes_simps]: "n < 256 ^ k \<Longrightarrow> be_nat (be_bytes k n) = n"
  by (simp add: be_nat_be_bytes_mod)

lemma be_nat_less: "be_nat bs < 256 ^ length bs"
proof (induction bs rule: rev_induct)
  case Nil
  then show ?case by simp
next
  case (snoc b bs)
  from snoc have "be_nat bs * 256 + 256 \<le> 256 ^ length bs * 256"
    by simp
  then have "be_nat bs * 256 + unat b < 256 ^ length bs * 256"
    using unat_u8_less[of b] by linarith
  then show ?case
    by (simp add: mult.commute)
qed

lemma be_bytes_be_nat [bytes_simps]: "length bs = k \<Longrightarrow> be_bytes k (be_nat bs) = bs"
proof (induction bs arbitrary: k rule: rev_induct)
  case Nil
  then show ?case by simp
next
  case (snoc b bs)
  have b: "unat b < 256"
    by (rule unat_u8_less)
  have "(be_nat bs * 256 + unat b) div 256 = be_nat bs"
    using b by simp
  moreover have "word_of_nat (be_nat bs * 256 + unat b) = b"
  proof -
    have "unat (word_of_nat (be_nat bs * 256 + unat b) :: u8) = unat b"
      unfolding unat_word_of_nat_u8 using b by simp
    then show ?thesis by (simp only: word_unat_eq_iff)
  qed
  ultimately show ?case
    using snoc by auto
qed

subsection \<open>Strings: UTF-8 bytes\<close>

text \<open>\<open>str::as_bytes\<close> and its inverse on bytes.\<close>

definition as_bytes :: "string \<Rightarrow> u8 list" where
  "as_bytes s = map (\<lambda>c. word_of_nat (of_char c)) s"

definition string_of_bytes :: "u8 list \<Rightarrow> string" where
  "string_of_bytes bs = map (\<lambda>b. char_of (unat b)) bs"

lemma length_as_bytes [simp]: "length (as_bytes s) = length s"
  by (simp add: as_bytes_def)

lemma of_char_less_256 [simp]: "(of_char c :: nat) < 256"
  by (cases c) (simp add: of_char_def)

lemma string_of_bytes_as_bytes [simp]: "string_of_bytes (as_bytes s) = s"
  by (induction s) (simp_all add: string_of_bytes_def as_bytes_def)

lemma as_bytes_string_of_bytes [simp]: "as_bytes (string_of_bytes bs) = bs"
  by (induction bs) (simp_all add: string_of_bytes_def as_bytes_def)

text \<open>A continuation byte, and the well-formed byte sequences \<open>std::str::from_utf8\<close> accepts.\<close>

definition utf8_cont :: "nat \<Rightarrow> bool" where
  "utf8_cont b \<longleftrightarrow> 0x80 \<le> b \<and> b \<le> 0xBF"

fun utf8_ok :: "nat list \<Rightarrow> bool" where
  "utf8_ok [] = True"
| "utf8_ok (b # bs) =
    (if b < 0x80 then utf8_ok bs
     else if 0xC2 \<le> b \<and> b \<le> 0xDF then
       (case bs of c # cs \<Rightarrow> utf8_cont c \<and> utf8_ok cs | _ \<Rightarrow> False)
     else if 0xE0 \<le> b \<and> b \<le> 0xEF then
       (case bs of c # d # ds \<Rightarrow>
            (if b = 0xE0 then 0xA0 else 0x80) \<le> c \<and> c \<le> (if b = 0xED then 0x9F else 0xBF) \<and>
            utf8_cont d \<and> utf8_ok ds
        | _ \<Rightarrow> False)
     else if 0xF0 \<le> b \<and> b \<le> 0xF4 then
       (case bs of c # d # e # es \<Rightarrow>
            (if b = 0xF0 then 0x90 else 0x80) \<le> c \<and> c \<le> (if b = 0xF4 then 0x8F else 0xBF) \<and>
            utf8_cont d \<and> utf8_cont e \<and> utf8_ok es
        | _ \<Rightarrow> False)
     else False)"

definition utf8_valid :: "string \<Rightarrow> bool" where
  "utf8_valid s = utf8_ok (map of_char s)"

definition from_utf8 :: "u8 list \<Rightarrow> string option" where
  "from_utf8 bs = (if utf8_ok (map unat bs) then Some (string_of_bytes bs) else None)"

lemma from_utf8_as_bytes: "from_utf8 (as_bytes s) = (if utf8_valid s then Some s else None)"
  by (simp add: from_utf8_def utf8_valid_def as_bytes_def[of s] comp_def)
    (simp add: as_bytes_def[symmetric])

lemma from_utf8_eq_Some_iff: "from_utf8 bs = Some s \<longleftrightarrow> bs = as_bytes s \<and> utf8_valid s"
proof
  assume a: "from_utf8 bs = Some s"
  then have s: "s = string_of_bytes bs"
    by (simp add: from_utf8_def split: if_splits)
  then have "bs = as_bytes s" by simp
  with a show "bs = as_bytes s \<and> utf8_valid s"
    by (simp add: from_utf8_as_bytes split: if_splits)
qed (simp add: from_utf8_as_bytes)

text \<open>
  The \<open>char\<close>s of a string, each as its own bytes: a lead byte with the continuation bytes after
  it. \<open>chars().count()\<close> and \<open>chars().take(n).collect()\<close> are \<open>length\<close> and \<open>take\<close> on this list.
\<close>

function chars :: "string \<Rightarrow> string list" where
  "chars [] = []"
| "chars (c # cs) =
    (c # takeWhile (\<lambda>x. utf8_cont (of_char x)) cs) # chars (dropWhile (\<lambda>x. utf8_cont (of_char x)) cs)"
  by pat_completeness auto
termination
  by (relation "measure length") (simp_all add: le_imp_less_Suc length_dropWhile_le)

lemma concat_chars [simp]: "concat (chars s) = s"
  by (induction s rule: chars.induct) simp_all

lemma length_chars_le: "length (chars s) \<le> length s"
proof (induction s rule: chars.induct)
  case (2 c cs)
  have "length (dropWhile (\<lambda>x. utf8_cont (of_char x)) cs) \<le> length cs"
    by (rule length_dropWhile_le)
  with 2 show ?case by simp
qed simp

text \<open>\<open>char::is_whitespace\<close> (Unicode White_Space) on one character's bytes.\<close>

definition is_whitespace :: "string \<Rightarrow> bool" where
  "is_whitespace ch =
    (case map of_char ch of
       [b] \<Rightarrow> (9 \<le> b \<and> b \<le> 13) \<or> b = (32::nat)
     | [b, c] \<Rightarrow> b = 0xC2 \<and> (c = 0x85 \<or> c = 0xA0)
     | [b, c, d] \<Rightarrow>
         (b = 0xE1 \<and> c = 0x9A \<and> d = 0x80) \<or>
         (b = 0xE2 \<and> c = 0x80 \<and> ((0x80 \<le> d \<and> d \<le> 0x8A) \<or> d = 0xA8 \<or> d = 0xA9 \<or> d = 0xAF)) \<or>
         (b = 0xE2 \<and> c = 0x81 \<and> d = 0x9F) \<or>
         (b = 0xE3 \<and> c = 0x80 \<and> d = 0x80)
     | _ \<Rightarrow> False)"

definition trim_start :: "string \<Rightarrow> string" where
  "trim_start s = concat (dropWhile is_whitespace (chars s))"

definition trim :: "string \<Rightarrow> string" where
  "trim s = concat (rev (dropWhile is_whitespace (rev (dropWhile is_whitespace (chars s)))))"

text \<open>\<open>str::split_whitespace\<close>.\<close>

fun split_ws_aux :: "string list \<Rightarrow> string \<Rightarrow> string list" where
  "split_ws_aux [] acc = (if acc = [] then [] else [acc])"
| "split_ws_aux (ch # chs) acc =
    (if is_whitespace ch then (if acc = [] then split_ws_aux chs [] else acc # split_ws_aux chs [])
     else split_ws_aux chs (acc @ ch))"

definition split_whitespace :: "string \<Rightarrow> string list" where
  "split_whitespace s = split_ws_aux (chars s) []"

definition starts_with :: "string \<Rightarrow> string \<Rightarrow> bool" where
  "starts_with s p \<longleftrightarrow> take (length p) s = p"

definition strip_prefix :: "string \<Rightarrow> string \<Rightarrow> string option" where
  "strip_prefix s p = (if starts_with s p then Some (drop (length p) s) else None)"

text \<open>\<open>str::to_ascii_lowercase\<close>, \<open>[&str]::join\<close>.\<close>

definition to_ascii_lowercase :: "string \<Rightarrow> string" where
  "to_ascii_lowercase s =
    map (\<lambda>c. if 65 \<le> (of_char c :: nat) \<and> of_char c \<le> (90::nat) then char_of (of_char c + 32 :: nat) else c) s"

fun join :: "string \<Rightarrow> string list \<Rightarrow> string" where
  "join sep [] = []"
| "join sep [x] = x"
| "join sep (x # y # xs) = x @ sep @ join sep (y # xs)"

text \<open>\<open>str::replace\<close> of a single ASCII character.\<close>

definition replace_char :: "char \<Rightarrow> string \<Rightarrow> string \<Rightarrow> string" where
  "replace_char c r s = concat (map (\<lambda>x. if x = c then r else [x]) s)"

text \<open>Characters outside the source's ASCII; \<open>newline\<close> is the line feed.\<close>

definition newline :: char where "newline = char_of (10 :: nat)"
definition em_dash :: string where "em_dash = map char_of [0xE2, 0x80, 0x94 :: nat]"
definition replacement :: string where "replacement = map char_of [0xEF, 0xBF, 0xBD :: nat]"
definition ellipsis :: string where "ellipsis = map char_of [0xE2, 0x80, 0xA6 :: nat]"

text \<open>The length in UTF-16 units (\<open>encode_utf16().count()\<close>) of a list of characters.\<close>

definition utf16_units :: "string list \<Rightarrow> nat" where
  "utf16_units chs = sum_list (map (\<lambda>ch. if length ch = 4 then 2 else 1) chs)"

text \<open>The first \<open>k\<close> UTF-16 units; half of a surrogate pair is read back as U+FFFD.\<close>

fun utf16_prefix :: "nat \<Rightarrow> string list \<Rightarrow> string" where
  "utf16_prefix 0 chs = []"
| "utf16_prefix (Suc k) [] = []"
| "utf16_prefix (Suc k) (ch # chs) =
    (if length ch = 4 then
       (case k of 0 \<Rightarrow> replacement | Suc k' \<Rightarrow> ch @ utf16_prefix k' chs)
     else ch @ utf16_prefix k chs)"

text \<open>\<open>str::split\<close> on an ASCII character.\<close>

fun split_on :: "char \<Rightarrow> string \<Rightarrow> string list" where
  "split_on c [] = [[]]"
| "split_on c (x # xs) =
    (if x = c then [] # split_on c xs
     else (case split_on c xs of [] \<Rightarrow> [[x]] | s # ss \<Rightarrow> (x # s) # ss))"

text \<open>
  \<open>String::from_utf8_lossy\<close>: every maximal ill-formed run becomes U+FFFD.
\<close>

function utf8_lossy :: "nat list \<Rightarrow> nat list" where
  "utf8_lossy [] = []"
| "utf8_lossy (b # bs) =
    (if b < 0x80 then b # utf8_lossy bs
     else if 0xC2 \<le> b \<and> b \<le> 0xDF then
       (case bs of
          c # cs \<Rightarrow> if utf8_cont c then b # c # utf8_lossy cs else [0xEF, 0xBF, 0xBD] @ utf8_lossy bs
        | [] \<Rightarrow> [0xEF, 0xBF, 0xBD])
     else if 0xE0 \<le> b \<and> b \<le> 0xEF then
       (case bs of
          c # cs \<Rightarrow>
            if (if b = 0xE0 then 0xA0 else 0x80) \<le> c \<and> c \<le> (if b = 0xED then 0x9F else 0xBF) then
              (case cs of
                 d # ds \<Rightarrow> if utf8_cont d then b # c # d # utf8_lossy ds else [0xEF, 0xBF, 0xBD] @ utf8_lossy cs
               | [] \<Rightarrow> [0xEF, 0xBF, 0xBD])
            else [0xEF, 0xBF, 0xBD] @ utf8_lossy bs
        | [] \<Rightarrow> [0xEF, 0xBF, 0xBD])
     else if 0xF0 \<le> b \<and> b \<le> 0xF4 then
       (case bs of
          c # cs \<Rightarrow>
            if (if b = 0xF0 then 0x90 else 0x80) \<le> c \<and> c \<le> (if b = 0xF4 then 0x8F else 0xBF) then
              (case cs of
                 d # ds \<Rightarrow>
                   if utf8_cont d then
                     (case ds of
                        e # es \<Rightarrow> if utf8_cont e then b # c # d # e # utf8_lossy es
                                  else [0xEF, 0xBF, 0xBD] @ utf8_lossy ds
                      | [] \<Rightarrow> [0xEF, 0xBF, 0xBD])
                   else [0xEF, 0xBF, 0xBD] @ utf8_lossy cs
               | [] \<Rightarrow> [0xEF, 0xBF, 0xBD])
            else [0xEF, 0xBF, 0xBD] @ utf8_lossy bs
        | [] \<Rightarrow> [0xEF, 0xBF, 0xBD])
     else [0xEF, 0xBF, 0xBD] @ utf8_lossy bs)"
  by pat_completeness auto
termination
  by (relation "measure length") auto

declare utf8_lossy.simps(2) [simp del]

definition from_utf8_lossy :: "string \<Rightarrow> string" where
  "from_utf8_lossy s = map char_of (utf8_lossy (map of_char s))"

lemma utf8_lossy_ok: "utf8_ok bs \<Longrightarrow> utf8_lossy bs = bs"
proof (induction bs rule: length_induct)
  case (1 bs)
  then have IH: "\<And>ys. length ys < length bs \<Longrightarrow> utf8_ok ys \<Longrightarrow> utf8_lossy ys = ys"
    and ok: "utf8_ok bs"
    by blast+
  show ?case
  proof (cases bs)
    case bs: (Cons b rest)
    consider "b < 0x80" | "0xC2 \<le> b" "b \<le> 0xDF" | "0xE0 \<le> b" "b \<le> 0xEF" | "0xF0 \<le> b" "b \<le> 0xF4"
      using ok bs by (auto split: if_splits)
    then show ?thesis
    proof cases
      case 1
      then have "utf8_ok rest" using ok bs by simp
      then show ?thesis using 1 bs IH[of rest] by (subst bs, subst utf8_lossy.simps) simp
    next
      case 2
      then obtain c cs where r: "rest = c # cs" "utf8_cont c" "utf8_ok cs"
        using ok bs by (auto split: list.splits)
      then show ?thesis using 2 bs IH[of cs] by (subst bs, subst utf8_lossy.simps) simp
    next
      case 3
      then obtain c d ds where r: "rest = c # d # ds" and
        c: "(if b = 0xE0 then 0xA0 else 0x80) \<le> c \<and> c \<le> (if b = 0xED then 0x9F else 0xBF)"
        and d: "utf8_cont d" "utf8_ok ds"
        using ok bs by (auto split: list.splits)
      have l: "length ds < length bs" using bs r by simp
      show ?thesis
        unfolding bs r by (subst utf8_lossy.simps) (use 3 c d IH[OF l] in simp)
    next
      case 4
      then obtain c d e es where r: "rest = c # d # e # es" and
        c: "(if b = 0xF0 then 0x90 else 0x80) \<le> c \<and> c \<le> (if b = 0xF4 then 0x8F else 0xBF)"
        and d: "utf8_cont d" "utf8_cont e" "utf8_ok es"
        using ok bs by (auto split: list.splits)
      have l: "length es < length bs" using bs r by simp
      show ?thesis
        unfolding bs r by (subst utf8_lossy.simps) (use 4 c d IH[OF l] in simp)
    qed
  qed simp
qed

lemma from_utf8_lossy_valid: "utf8_valid s \<Longrightarrow> from_utf8_lossy s = s"
  by (simp add: from_utf8_lossy_def utf8_valid_def utf8_lossy_ok comp_def)

text \<open>Decimal printing of integers (\<open>Display\<close>).\<close>

definition digit_char :: "nat \<Rightarrow> char" where
  "digit_char d = char_of (48 + d)"

fun show_nat :: "nat \<Rightarrow> string" where
  "show_nat n = (if n < 10 then [digit_char n] else show_nat (n div 10) @ [digit_char (n mod 10)])"

declare show_nat.simps [simp del]

definition show_int :: "int \<Rightarrow> string" where
  "show_int i = (if i < 0 then CHR ''-'' # show_nat (nat (- i)) else show_nat (nat i))"

text \<open>Decimal digits, as \<open>str::parse\<close> of the integer types reads them; printing and reading agree.\<close>

definition is_digit :: "char \<Rightarrow> bool" where
  "is_digit c \<longleftrightarrow> 48 \<le> (of_char c :: nat) \<and> (of_char c :: nat) \<le> 57"

definition digits_value :: "string \<Rightarrow> nat" where
  "digits_value s = foldl (\<lambda>n c. n * 10 + (of_char c - 48)) 0 s"

lemma of_char_digit_char [simp]: "d < 10 \<Longrightarrow> (of_char (digit_char d) :: nat) = 48 + d"
  by (simp add: digit_char_def)

lemma is_digit_digit_char [simp]: "d < 10 \<Longrightarrow> is_digit (digit_char d)"
  by (simp add: is_digit_def)

lemma show_nat_digits [simp]: "list_all is_digit (show_nat n)" "show_nat n \<noteq> []"
  by (induction n rule: show_nat.induct) (subst show_nat.simps; simp)+

lemma digits_value_snoc [simp]: "digits_value (s @ [c]) = digits_value s * 10 + (of_char c - 48)"
  by (simp add: digits_value_def)

lemma digits_value_show_nat [simp]: "digits_value (show_nat n) = n"
proof (induction n rule: show_nat.induct)
  case (1 n)
  show ?case
  proof (cases "n < 10")
    case True
    then show ?thesis using digits_value_snoc [of "[]" "digit_char n"]
      by (simp add: show_nat.simps [of n] digits_value_def)
  next
    case False
    then show ?thesis using 1 by (simp add: show_nat.simps [of n])
  qed
qed

text \<open>Sixty-four-bit signed and unsigned integers, as \<open>int\<close> and \<open>nat\<close> with their bounds.\<close>

definition I64_MAX :: int where "I64_MAX = 9223372036854775807"
definition I64_MIN :: int where "I64_MIN = - 9223372036854775808"

definition is_i64 :: "int \<Rightarrow> bool" where "is_i64 i \<longleftrightarrow> I64_MIN \<le> i \<and> i \<le> I64_MAX"

definition wrap_i64 :: "int \<Rightarrow> int" where
  "wrap_i64 i = (i - I64_MIN) mod 18446744073709551616 + I64_MIN"

definition i64_saturating_add :: "int \<Rightarrow> int \<Rightarrow> int" where
  "i64_saturating_add a b = max I64_MIN (min I64_MAX (a + b))"

definition U64_MAX :: nat where "U64_MAX = 18446744073709551615"

text \<open>\<open>i64::max(0) as u64\<close>.\<close>

definition clamp_u64 :: "int \<Rightarrow> nat" where
  "clamp_u64 i = nat (max i 0)"

end
