(* ===== verification/Float64.thy ===== *)
theory Float64
  imports Prelude
begin

text \<open>
  Rust's \<open>f64\<close> as its IEEE-754 bit pattern: one sign bit, eleven exponent bits (bias 1023) and
  fifty-two fraction bits. Only the operations the protocol code uses are defined, on the bits and
  executably: classification (\<open>is_finite\<close>, \<open>fract() == 0.0\<close>, comparisons with an integer
  constant), the saturating casts \<open>as u64\<close>/\<open>as i64\<close>, the rounding cast from an unsigned integer,
  and \<open>-1.0 - x\<close> on integral \<open>x\<close>. The lemmas show that integers below \<open>2^53\<close> have exactly one
  representation apart from the sign of zero, which is what makes the casts inverse to each other.
\<close>

type_synonym f64 = "64 word"

subsection \<open>Fields\<close>

definition f64_negative :: "f64 \<Rightarrow> bool" where
  "f64_negative v \<longleftrightarrow> 2 ^ 63 \<le> unat v"

definition f64_exponent :: "f64 \<Rightarrow> nat" where
  "f64_exponent v = unat v div 2 ^ 52 mod 2048"

definition f64_fraction :: "f64 \<Rightarrow> nat" where
  "f64_fraction v = unat v mod 2 ^ 52"

definition f64_make :: "bool \<Rightarrow> nat \<Rightarrow> nat \<Rightarrow> f64" where
  "f64_make neg e f = word_of_nat ((if neg then 2 ^ 63 else 0) + e * 2 ^ 52 + f)"

text \<open>
  A finite value is \<open>\<plusminus> f64_significand v * 2 ^ (f64_scale v - 1075)\<close>; subnormals share the scale
  of the smallest normal exponent.
\<close>

definition f64_significand :: "f64 \<Rightarrow> nat" where
  "f64_significand v = (if f64_exponent v = 0 then f64_fraction v else 2 ^ 52 + f64_fraction v)"

definition f64_scale :: "f64 \<Rightarrow> nat" where
  "f64_scale v = max 1 (f64_exponent v)"

definition f64_is_finite :: "f64 \<Rightarrow> bool" where
  "f64_is_finite v \<longleftrightarrow> f64_exponent v \<noteq> 2047"

definition f64_is_nan :: "f64 \<Rightarrow> bool" where
  "f64_is_nan v \<longleftrightarrow> f64_exponent v = 2047 \<and> f64_fraction v \<noteq> 0"

text \<open>\<open>v == 0.0\<close>, true of both zeros.\<close>

definition f64_is_zero :: "f64 \<Rightarrow> bool" where
  "f64_is_zero v \<longleftrightarrow> f64_exponent v = 0 \<and> f64_fraction v = 0"

text \<open>\<open>v >= 0.0\<close>.\<close>

definition f64_ge_zero :: "f64 \<Rightarrow> bool" where
  "f64_ge_zero v \<longleftrightarrow> \<not> f64_is_nan v \<and> (\<not> f64_negative v \<or> f64_is_zero v)"

text \<open>\<open>v.fract() == 0.0\<close> for finite \<open>v\<close>, and the magnitude of \<open>v.trunc()\<close>.\<close>

definition f64_fract_is_zero :: "f64 \<Rightarrow> bool" where
  "f64_fract_is_zero v \<longleftrightarrow>
     1075 \<le> f64_scale v \<or> f64_significand v mod 2 ^ (1075 - f64_scale v) = 0"

definition f64_trunc_abs :: "f64 \<Rightarrow> nat" where
  "f64_trunc_abs v =
     (if 1075 \<le> f64_scale v then f64_significand v * 2 ^ (f64_scale v - 1075)
      else f64_significand v div 2 ^ (1075 - f64_scale v))"

definition f64_trunc :: "f64 \<Rightarrow> int" where
  "f64_trunc v = (if f64_negative v then - int (f64_trunc_abs v) else int (f64_trunc_abs v))"

text \<open>\<open>v.abs() <= n\<close> for an integer constant \<open>n\<close>.\<close>

definition f64_abs_le :: "f64 \<Rightarrow> nat \<Rightarrow> bool" where
  "f64_abs_le v n \<longleftrightarrow> f64_is_finite v \<and>
     (f64_trunc_abs v < n \<or> f64_trunc_abs v = n \<and> f64_fract_is_zero v)"

subsection \<open>Casts\<close>

text \<open>\<open>v as u64\<close> and \<open>v as i64\<close>: truncation towards zero, saturating, \<open>0\<close> for NaN.\<close>

definition f64_as_u64 :: "f64 \<Rightarrow> nat" where
  "f64_as_u64 v =
     (if f64_is_nan v \<or> f64_negative v then 0
      else if f64_is_finite v then min (f64_trunc_abs v) (2 ^ 64 - 1) else 2 ^ 64 - 1)"

definition f64_as_i64 :: "f64 \<Rightarrow> int" where
  "f64_as_i64 v =
     (if f64_is_nan v then 0
      else if f64_is_finite v then max (- (2 ^ 63)) (min (f64_trunc v) (2 ^ 63 - 1))
      else if f64_negative v then - (2 ^ 63) else 2 ^ 63 - 1)"

fun nat_bits :: "nat \<Rightarrow> nat" where
  "nat_bits n = (if n = 0 then 0 else Suc (nat_bits (n div 2)))"

declare nat_bits.simps [simp del]

text \<open>
  \<open>n as f64\<close> for an unsigned \<open>n\<close>: exact up to 53 significant bits, then rounded to the nearest
  value, ties to the even significand. A carry out of the fraction increments the exponent field.
\<close>

definition f64_of_nat :: "nat \<Rightarrow> f64" where
  "f64_of_nat n =
     (if n = 0 then 0
      else let k = nat_bits n in
        if k \<le> 53 then f64_make False (k + 1022) (n * 2 ^ (53 - k) - 2 ^ 52)
        else let s = k - 53; q = n div 2 ^ s; r = n mod 2 ^ s;
                 q' = (if 2 ^ s < 2 * r \<or> 2 ^ s = 2 * r \<and> odd q then q + 1 else q)
             in f64_make False (k + 1022) (q' - 2 ^ 52))"

definition f64_of_int :: "int \<Rightarrow> f64" where
  "f64_of_int i = (if i < 0 then 2 ^ 63 + f64_of_nat (nat (- i)) else f64_of_nat (nat i))"

text \<open>\<open>-1.0 - v\<close> for integral \<open>v\<close>: the exact difference is an integer, then rounded.\<close>

definition f64_minus_one_minus :: "f64 \<Rightarrow> f64" where
  "f64_minus_one_minus v = f64_of_int (- 1 - f64_trunc v)"

subsection \<open>Field lemmas\<close>

lemma unat_f64_less: "unat (v :: f64) < 2 ^ 64"
  using unsigned_less[of v] by simp

lemma f64_fraction_less [simp]: "f64_fraction v < 2 ^ 52"
  by (simp add: f64_fraction_def)

lemma f64_exponent_less [simp]: "f64_exponent v < 2048"
  by (simp add: f64_exponent_def)

lemma f64_unat_split:
  "unat v = (if f64_negative v then 2 ^ 63 else 0) + f64_exponent v * 2 ^ 52 + f64_fraction v"
proof -
  define q where "q = unat v div 2 ^ 52"
  have q: "q < 4096"
    using unat_f64_less[of v] by (simp add: q_def less_mult_imp_div_less)
  have "unat v = q * 2 ^ 52 + f64_fraction v"
    by (simp add: q_def f64_fraction_def)
  moreover have "f64_negative v \<longleftrightarrow> 2048 \<le> q"
    by (simp add: f64_negative_def q_def less_eq_div_iff_mult_less_eq)
  moreover have "f64_exponent v = q mod 2048"
    by (simp add: f64_exponent_def q_def)
  moreover have "q mod 2048 = (if 2048 \<le> q then q - 2048 else q)"
    using q by (simp add: le_mod_geq)
  ultimately show ?thesis
    using q by (auto simp: algebra_simps)
qed

lemma f64_make_fields [simp]: "f64_make (f64_negative v) (f64_exponent v) (f64_fraction v) = v"
  unfolding f64_make_def f64_unat_split[symmetric] by simp

lemma f64_make_parts:
  assumes "e < 2048" and "f < 2 ^ 52"
  shows "f64_negative (f64_make neg e f) = neg"
    and "f64_exponent (f64_make neg e f) = e"
    and "f64_fraction (f64_make neg e f) = f"
proof -
  define n where "n = (if neg then 2048 else 0) + e"
  have small: "n * 2 ^ 52 + f < 2 ^ 64"
    using assms by (simp add: n_def)
  have "f64_make neg e f = word_of_nat (n * 2 ^ 52 + f)"
    by (simp add: f64_make_def n_def)
  then have u: "unat (f64_make neg e f) = n * 2 ^ 52 + f"
    using small by (simp only: unat_of_nat) simp
  show "f64_negative (f64_make neg e f) = neg"
    using assms by (simp add: f64_negative_def u n_def)
  show "f64_exponent (f64_make neg e f) = e" "f64_fraction (f64_make neg e f) = f"
    using assms by (simp_all add: f64_exponent_def f64_fraction_def u) (simp add: n_def)
qed

lemma f64_eqI:
  assumes "f64_negative v = f64_negative w" "f64_exponent v = f64_exponent w"
    and "f64_fraction v = f64_fraction w"
  shows "v = w"
proof -
  have "v = f64_make (f64_negative v) (f64_exponent v) (f64_fraction v)"
    by (rule f64_make_fields[symmetric])
  also have "\<dots> = w"
    unfolding assms by (rule f64_make_fields)
  finally show ?thesis .
qed

subsection \<open>Integers below \<open>2^53\<close>\<close>

lemma nat_bits_1: "nat_bits (Suc 0) = 1"
  by (simp add: nat_bits.simps[of "Suc 0"] nat_bits.simps[of 0])

lemma nat_bits_bounds:
  assumes "0 < n"
  shows "2 ^ (nat_bits n - 1) \<le> n \<and> n < 2 ^ nat_bits n \<and> 0 < nat_bits n"
  using assms
proof (induction n rule: nat_bits.induct)
  case (1 n)
  show ?case
  proof (cases "n = 1")
    case True
    then show ?thesis by (simp add: nat_bits_1)
  next
    case False
    with 1 have ih: "2 ^ (nat_bits (n div 2) - 1) \<le> n div 2" "n div 2 < 2 ^ nat_bits (n div 2)"
      "0 < nat_bits (n div 2)"
      by simp_all
    have "nat_bits n = Suc (nat_bits (n div 2))"
      using "1.prems" by (simp add: nat_bits.simps[of n])
    moreover from ih obtain k where "nat_bits (n div 2) = Suc k"
      by (cases "nat_bits (n div 2)") auto
    ultimately show ?thesis
      using ih by auto
  qed
qed

lemma nat_bits_unique:
  assumes "2 ^ k \<le> n" and "n < 2 ^ Suc k"
  shows "nat_bits n = Suc k"
proof -
  have pos: "0 < n"
    using assms(1) by (metis zero_less_power less_le_trans zero_less_numeral)
  note b = nat_bits_bounds[OF pos]
  then have "(2::nat) ^ (nat_bits n - 1) < 2 ^ Suc k" "(2::nat) ^ k < 2 ^ nat_bits n"
    using assms by linarith+
  then have "nat_bits n - 1 < Suc k" "k < nat_bits n"
    by (auto intro: power_less_imp_less_exp[of "2::nat"])
  with b show ?thesis by linarith
qed

lemma nat_bits_le:
  assumes "n < 2 ^ k"
  shows "nat_bits n \<le> k"
proof (cases "n = 0")
  case True
  then show ?thesis by (simp add: nat_bits.simps)
next
  case False
  then have "2 ^ (nat_bits n - 1) \<le> n"
    using nat_bits_bounds[of n] by simp
  then have "(2::nat) ^ (nat_bits n - 1) < 2 ^ k"
    using assms by (rule le_less_trans)
  then have "nat_bits n - 1 < k"
    using power_less_imp_less_exp[of "2::nat" "nat_bits n - 1" k] by simp
  then show ?thesis by simp
qed

lemma f64_of_nat_small:
  assumes "0 < n" and "n < 2 ^ 53"
  shows "f64_of_nat n = f64_make False (nat_bits n + 1022) (n * 2 ^ (53 - nat_bits n) - 2 ^ 52)"
  using assms nat_bits_le[OF assms(2)] by (simp add: f64_of_nat_def Let_def)

lemma scaled_bounds:
  assumes "0 < n" and "n < 2 ^ 53"
  shows "2 ^ 52 \<le> n * 2 ^ (53 - nat_bits n)" and "n * 2 ^ (53 - nat_bits n) < 2 ^ 53"
proof -
  let ?k = "nat_bits n"
  have k: "?k \<le> 53" "0 < ?k" "2 ^ (?k - 1) \<le> n" "n < 2 ^ ?k"
    using nat_bits_le[OF assms(2)] nat_bits_bounds[OF assms(1)] by auto
  have "(2::nat) ^ 52 = 2 ^ (?k - 1) * 2 ^ (53 - ?k)"
    unfolding power_add[symmetric] using k by simp
  also have "\<dots> \<le> n * 2 ^ (53 - ?k)"
    using k by simp
  finally show "2 ^ 52 \<le> n * 2 ^ (53 - ?k)" .
  have "n * 2 ^ (53 - ?k) < 2 ^ ?k * 2 ^ (53 - ?k)"
    using k by simp
  also have "\<dots> = 2 ^ 53"
    unfolding power_add[symmetric] using k by simp
  finally show "n * 2 ^ (53 - ?k) < 2 ^ 53" .
qed

lemma f64_of_nat_parts:
  assumes "0 < n" and "n < 2 ^ 53"
  shows "\<not> f64_negative (f64_of_nat n)"
    and "f64_exponent (f64_of_nat n) = nat_bits n + 1022"
    and "f64_significand (f64_of_nat n) = n * 2 ^ (53 - nat_bits n)"
proof -
  have e: "nat_bits n + 1022 < 2048"
    using nat_bits_le[OF assms(2)] by simp
  have f: "n * 2 ^ (53 - nat_bits n) - 2 ^ 52 < 2 ^ 52"
    using scaled_bounds[OF assms] by simp
  note parts = f64_make_parts[OF e f, of False, folded f64_of_nat_small[OF assms]]
  from parts show "\<not> f64_negative (f64_of_nat n)"
    and "f64_exponent (f64_of_nat n) = nat_bits n + 1022" by simp_all
  with parts show "f64_significand (f64_of_nat n) = n * 2 ^ (53 - nat_bits n)"
    using scaled_bounds[OF assms] by (simp only: f64_significand_def) simp
qed

lemma f64_zero_fields [simp]:
  "f64_exponent 0 = 0" "f64_fraction 0 = 0" "\<not> f64_negative 0"
  by (simp_all add: f64_exponent_def f64_fraction_def f64_negative_def)

lemma f64_of_nat_0 [simp]: "f64_of_nat 0 = 0"
  by (simp add: f64_of_nat_def)

text \<open>The unsigned cast is exact below \<open>2^53\<close>.\<close>

lemma f64_of_nat_exact:
  assumes "n < 2 ^ 53"
  shows "f64_is_finite (f64_of_nat n)" and "f64_fract_is_zero (f64_of_nat n)"
    and "f64_trunc_abs (f64_of_nat n) = n" and "\<not> f64_negative (f64_of_nat n)"
proof -
  have "f64_is_finite (f64_of_nat n) \<and> f64_fract_is_zero (f64_of_nat n) \<and>
    f64_trunc_abs (f64_of_nat n) = n \<and> \<not> f64_negative (f64_of_nat n)"
  proof (cases "n = 0")
    case True
    then show ?thesis
      by (simp add: f64_is_finite_def f64_fract_is_zero_def f64_trunc_abs_def f64_significand_def
          f64_scale_def)
  next
    case False
    then have n: "0 < n" by simp
    note p = f64_of_nat_parts[OF n assms]
    have k: "nat_bits n \<le> 53" "0 < nat_bits n"
      using nat_bits_le[OF assms] nat_bits_bounds[OF n] by auto
    have sc: "f64_scale (f64_of_nat n) = nat_bits n + 1022"
      by (simp add: f64_scale_def p)
    have d: "1075 - (nat_bits n + 1022) = 53 - nat_bits n" by simp
    show ?thesis
      unfolding f64_is_finite_def f64_fract_is_zero_def f64_trunc_abs_def sc p d
      using k p(1) by auto
  qed
  then show "f64_is_finite (f64_of_nat n)" "f64_fract_is_zero (f64_of_nat n)"
    "f64_trunc_abs (f64_of_nat n) = n" "\<not> f64_negative (f64_of_nat n)" by simp_all
qed

text \<open>Conversely, an integral value below \<open>2^53\<close> is what its truncation is cast to.\<close>

lemma f64_integral_zero:
  assumes "f64_fract_is_zero v" and "f64_trunc_abs v = 0"
  shows "f64_is_zero v"
proof -
  have "f64_significand v = 0"
    using assms by (auto simp: f64_fract_is_zero_def f64_trunc_abs_def split: if_splits)
  then show ?thesis
    by (auto simp: f64_significand_def f64_is_zero_def split: if_splits)
qed

lemma f64_integral_scaled:
  assumes "f64_fract_is_zero v" and "0 < f64_trunc_abs v" and "f64_trunc_abs v < 2 ^ 53"
  shows "f64_exponent v = nat_bits (f64_trunc_abs v) + 1022"
    and "f64_significand v = f64_trunc_abs v * 2 ^ (53 - nat_bits (f64_trunc_abs v))"
    and "0 < f64_exponent v"
proof -
  let ?n = "f64_trunc_abs v" and ?m = "f64_significand v" and ?E = "f64_scale v"
  have m53: "?m < 2 ^ 53"
    using f64_fraction_less[of v] by (simp add: f64_significand_def)
  have pos: "0 < f64_exponent v"
  proof (rule ccontr)
    assume "\<not> 0 < f64_exponent v"
    then have "?E = 1" "?m < 2 ^ 52"
      using f64_fraction_less[of v] by (simp_all add: f64_scale_def f64_significand_def)
    then have "?m < 2 ^ (1075 - ?E)"
      by (simp add: less_le_trans[OF _ power_increasing[of 52 1074 "2::nat"]])
    then have "?n = 0"
      using \<open>?E = 1\<close> by (simp add: f64_trunc_abs_def)
    with assms(2) show False by simp
  qed
  then have E: "?E = f64_exponent v" and m52: "2 ^ 52 \<le> ?m"
    by (simp_all add: f64_scale_def f64_significand_def)
  have E1075: "?E \<le> 1075"
  proof (rule ccontr)
    assume "\<not> ?E \<le> 1075"
    then have "?n = ?m * 2 ^ (?E - 1075)" "1 \<le> ?E - 1075"
      by (simp_all add: f64_trunc_abs_def)
    moreover from this have "(2::nat) ^ 1 \<le> 2 ^ (?E - 1075)"
      by (intro power_increasing) simp_all
    ultimately have "2 ^ 52 * 2 \<le> ?n"
      using m52 by (metis mult_le_mono power_one_right)
    with assms(3) show False by simp
  qed
  define d where "d = 1075 - ?E"
  have nm: "?n * 2 ^ d = ?m"
  proof (cases "?E = 1075")
    case True
    then show ?thesis by (simp add: f64_trunc_abs_def d_def)
  next
    case False
    with E1075 have "\<not> 1075 \<le> ?E" by simp
    with assms(1) show ?thesis
      by (simp add: f64_trunc_abs_def f64_fract_is_zero_def d_def[symmetric] dvd_div_mult_self
          mod_0_imp_dvd)
  qed
  have "1 * 2 ^ d \<le> ?n * 2 ^ d"
    using assms(2) by (intro mult_le_mono1) simp
  then have "(2::nat) ^ d < 2 ^ 53"
    using nm m53 by linarith
  then have d52: "d < 53"
    by (rule power_less_imp_less_exp[rotated]) simp
  define j where "j = 52 - d"
  have j: "(2::nat) ^ j * 2 ^ d = 2 ^ 52" "(2::nat) ^ Suc j * 2 ^ d = 2 ^ 53"
    unfolding power_add[symmetric] using d52 by (simp_all add: j_def)
  have "2 ^ j * 2 ^ d \<le> ?n * 2 ^ d" "?n * 2 ^ d < 2 ^ Suc j * 2 ^ d"
    unfolding j nm using m52 m53 .
  then have "2 ^ j \<le> ?n" "?n < 2 ^ Suc j"
    by simp_all
  then have "nat_bits ?n = Suc j"
    by (rule nat_bits_unique)
  then have k: "nat_bits ?n = 53 - d"
    using d52 by (simp add: j_def)
  show "0 < f64_exponent v" by (rule pos)
  show "f64_exponent v = nat_bits ?n + 1022"
    using k E E1075 d52 by (simp add: d_def)
  show "?m = ?n * 2 ^ (53 - nat_bits ?n)"
    using nm k d52 by simp
qed

lemma f64_of_nat_trunc_abs:
  assumes "f64_fract_is_zero v" and "f64_trunc_abs v < 2 ^ 53"
  shows "f64_of_nat (f64_trunc_abs v) = f64_make False (f64_exponent v) (f64_fraction v)"
proof (cases "f64_trunc_abs v = 0")
  case True
  with f64_integral_zero[OF assms(1)] show ?thesis
    by (simp add: f64_is_zero_def f64_make_def)
next
  case False
  then have pos: "0 < f64_trunc_abs v" by simp
  note sc = f64_integral_scaled[OF assms(1) pos assms(2)]
  have "f64_significand v - 2 ^ 52 = f64_fraction v"
    using sc(3) by (simp add: f64_significand_def)
  with sc show ?thesis
    unfolding f64_of_nat_small[OF pos assms(2)] by simp
qed

lemma f64_of_nat_roundtrip:
  assumes "f64_fract_is_zero v" and "f64_trunc_abs v < 2 ^ 53" and "\<not> f64_negative v"
  shows "f64_of_nat (f64_trunc_abs v) = v"
  using f64_of_nat_trunc_abs[OF assms(1,2)] f64_make_fields[of v] assms(3) by simp

lemma f64_make_True: "f64_make True e f = 2 ^ 63 + f64_make False e f"
  by (simp add: f64_make_def)

lemma f64_of_int_roundtrip:
  assumes "f64_fract_is_zero v" and "f64_trunc_abs v < 2 ^ 53"
    and "\<not> (f64_is_zero v \<and> f64_negative v)"
  shows "f64_of_int (f64_trunc v) = v"
proof (cases "f64_negative v")
  case True
  with assms have "f64_trunc_abs v \<noteq> 0"
    using f64_integral_zero by blast
  with True show ?thesis
    using f64_of_nat_trunc_abs[OF assms(1,2)] f64_make_fields[of v]
    by (simp add: f64_of_int_def f64_trunc_def f64_make_True)
next
  case False
  with assms show ?thesis
    by (simp add: f64_of_int_def f64_trunc_def f64_of_nat_roundtrip)
qed

text \<open>Setting the sign bit changes nothing but the sign.\<close>

lemma f64_set_sign:
  assumes "\<not> f64_negative w"
  shows "f64_negative (2 ^ 63 + w)" and "f64_exponent (2 ^ 63 + w) = f64_exponent w"
    and "f64_fraction (2 ^ 63 + w) = f64_fraction w"
proof -
  have "2 ^ 63 + w = f64_make True (f64_exponent w) (f64_fraction w)"
    using f64_make_fields[of w] assms by (simp add: f64_make_True)
  then show "f64_negative (2 ^ 63 + w)" "f64_exponent (2 ^ 63 + w) = f64_exponent w"
    "f64_fraction (2 ^ 63 + w) = f64_fraction w"
    using f64_make_parts[OF f64_exponent_less f64_fraction_less, of True w w] by simp_all
qed

lemma f64_set_sign_magnitude:
  assumes "\<not> f64_negative w"
  shows "f64_is_finite (2 ^ 63 + w) = f64_is_finite w"
    and "f64_fract_is_zero (2 ^ 63 + w) = f64_fract_is_zero w"
    and "f64_trunc_abs (2 ^ 63 + w) = f64_trunc_abs w"
  unfolding f64_is_finite_def f64_fract_is_zero_def f64_trunc_abs_def f64_scale_def
    f64_significand_def f64_set_sign[OF assms] by simp_all

lemma f64_of_int_exact:
  assumes "\<bar>i\<bar> < 2 ^ 53"
  shows "f64_is_finite (f64_of_int i)" and "f64_fract_is_zero (f64_of_int i)"
    and "f64_trunc (f64_of_int i) = i" and "f64_negative (f64_of_int i) \<longleftrightarrow> i < 0"
    and "f64_trunc_abs (f64_of_int i) = nat \<bar>i\<bar>"
proof -
  define n where "n = nat \<bar>i\<bar>"
  have n: "n < 2 ^ 53"
    using assms by (simp add: n_def)
  note ex = f64_of_nat_exact[OF n]
  have eq: "f64_of_int i = (if i < 0 then 2 ^ 63 + f64_of_nat n else f64_of_nat n)"
    by (simp add: f64_of_int_def n_def)
  show "f64_is_finite (f64_of_int i)" "f64_fract_is_zero (f64_of_int i)"
    and neg: "f64_negative (f64_of_int i) \<longleftrightarrow> i < 0"
    and tr: "f64_trunc_abs (f64_of_int i) = nat \<bar>i\<bar>"
    unfolding eq n_def[symmetric]
    using ex f64_set_sign[OF ex(4)] f64_set_sign_magnitude[OF ex(4)] by simp_all
  show "f64_trunc (f64_of_int i) = i"
    using neg tr by (simp add: f64_trunc_def)
qed

text \<open>The first integer beyond the exact range, \<open>-2^53\<close>, is representable too.\<close>

lemma f64_of_int_min:
  "f64_is_finite (f64_of_int (- (2 ^ 53)))" "f64_fract_is_zero (f64_of_int (- (2 ^ 53)))"
  "f64_trunc_abs (f64_of_int (- (2 ^ 53))) = 2 ^ 53"
proof -
  let ?w = "f64_make False 1076 0"
  have "nat_bits (2 ^ 53) = Suc 53"
    by (rule nat_bits_unique) simp_all
  then have "f64_of_nat (2 ^ 53) = ?w"
    by (simp add: f64_of_nat_def Let_def)
  then have eq: "f64_of_int (- (2 ^ 53)) = 2 ^ 63 + ?w"
    by (simp add: f64_of_int_def)
  have p: "\<not> f64_negative ?w" "f64_exponent ?w = 1076" "f64_fraction ?w = 0"
    by (simp_all add: f64_make_parts)
  have "f64_is_finite ?w" "f64_fract_is_zero ?w" "f64_trunc_abs ?w = 2 ^ 53"
    by (simp_all add: f64_is_finite_def f64_fract_is_zero_def f64_trunc_abs_def f64_scale_def
        f64_significand_def p)
  then show "f64_is_finite (f64_of_int (- (2 ^ 53)))" "f64_fract_is_zero (f64_of_int (- (2 ^ 53)))"
    "f64_trunc_abs (f64_of_int (- (2 ^ 53))) = 2 ^ 53"
    unfolding eq f64_set_sign_magnitude[OF p(1)] .
qed

end
