(* ===== verification/Json.thy ===== *)
theory Json
  imports Float64 "HOL-Library.AList"
begin

text \<open>
  The JSON value type shared by the protocol codec, the tool-call arguments and the permission
  context: \<open>serde_json::Value\<close> built with \<open>preserve_order\<close>, so an object is an association list in
  insertion order with distinct keys, and \<open>Map::insert\<close> of a present key replaces its value in place
  (\<open>AList.update\<close>). Numbers keep the three representations of \<open>serde_json::Number\<close>.
\<close>

datatype JNum = PosInt nat | NegInt int | JFloat f64

datatype Json =
    JNull
  | JBool bool
  | JNumber JNum
  | JString string
  | JArray "Json list"
  | JObject "(string \<times> Json) list"

type_synonym json_map = "(string \<times> Json) list"

text \<open>\<open>Number::as_f64\<close>, \<open>Number::from_f64\<close>, \<open>Value::as_str\<close>, \<open>Map::get\<close>.\<close>

fun as_f64 :: "JNum \<Rightarrow> f64" where
  "as_f64 (PosInt n) = f64_of_nat n"
| "as_f64 (NegInt i) = f64_of_int i"
| "as_f64 (JFloat v) = v"

definition number_from_f64 :: "f64 \<Rightarrow> JNum option" where
  "number_from_f64 v = (if f64_is_finite v then Some (JFloat v) else None)"

fun as_str :: "Json \<Rightarrow> string option" where
  "as_str (JString s) = Some s"
| "as_str _ = None"

definition json_get :: "json_map \<Rightarrow> string \<Rightarrow> Json option" where
  "json_get m k = map_of m k"

text \<open>\<open>Value::get\<close> with a string key, \<open>Value::as_i64\<close>, \<open>Value::as_u64\<close>, \<open>Value::as_bool\<close>.\<close>

definition value_get :: "Json \<Rightarrow> string \<Rightarrow> Json option" where
  "value_get v k = (case v of JObject m \<Rightarrow> json_get m k | _ \<Rightarrow> None)"

fun as_i64 :: "Json \<Rightarrow> int option" where
  "as_i64 (JNumber (PosInt n)) = (if int n \<le> I64_MAX then Some (int n) else None)"
| "as_i64 (JNumber (NegInt i)) = Some i"
| "as_i64 _ = None"

fun as_u64 :: "Json \<Rightarrow> nat option" where
  "as_u64 (JNumber (PosInt n)) = Some n"
| "as_u64 _ = None"

fun as_bool :: "Json \<Rightarrow> bool option" where
  "as_bool (JBool b) = Some b"
| "as_bool _ = None"

fun as_object :: "Json \<Rightarrow> json_map option" where
  "as_object (JObject m) = Some m"
| "as_object _ = None"

text \<open>\<open>value.get(key).and_then(Value::as_str)\<close>.\<close>

definition get_str :: "Json \<Rightarrow> string \<Rightarrow> string option" where
  "get_str v k = Option.bind (value_get v k) as_str"

text \<open>Building an object by successive \<open>Map::insert\<close>.\<close>

definition json_inserts :: "(string \<times> 'a) list \<Rightarrow> (string \<times> 'a) list" where
  "json_inserts kvs = fold (\<lambda>(k, v) m. AList.update k v m) kvs []"

lemma update_new: "k \<notin> fst ` set m \<Longrightarrow> AList.update k v m = m @ [(k, v)]"
  by (induction m) auto

lemma fold_update_distinct:
  "distinct (map fst kvs) \<Longrightarrow> set (map fst kvs) \<inter> set (map fst m) = {} \<Longrightarrow>
   fold (\<lambda>(k, v) m. AList.update k v m) kvs m = m @ kvs"
proof (induction kvs arbitrary: m)
  case Nil
  then show ?case by simp
next
  case (Cons kv kvs)
  obtain k v where kv: "kv = (k, v)" by (cases kv)
  have "k \<notin> fst ` set m"
    using Cons.prems kv by auto
  then have "AList.update k v m = m @ [(k, v)]"
    by (rule update_new)
  then show ?case
    using Cons kv by auto
qed

lemma json_inserts_distinct: "distinct (map fst kvs) \<Longrightarrow> json_inserts kvs = kvs"
  by (simp add: json_inserts_def fold_update_distinct)

end
