(* ===== verification/Cbor_Value.thy ===== *)
theory Cbor_Value
  imports Json
begin

text \<open>
  Limits, errors and values of the protocol's CBOR subset
  (\<open>crates/notagent-protocol/src/cbor/options.rs\<close> and \<open>value.rs\<close>): the configured limits and their
  resolution, the value type, and the conversions between CBOR and JSON values, with the proof that
  the conversion to JSON loses nothing.
\<close>

subsection \<open>Options\<close>

definition UINT32_BASE :: nat where "UINT32_BASE = 0x100000000"
definition MAX_UINT32 :: nat where "MAX_UINT32 = 0xffffffff"
definition MAX_CONFIGURED_DEPTH :: nat where "MAX_CONFIGURED_DEPTH = 512"
definition DEFAULT_MAX_CBOR_BYTE_LENGTH :: nat where
  "DEFAULT_MAX_CBOR_BYTE_LENGTH = 16 * 1024 * 1024"
definition DEFAULT_MAX_CBOR_CONTAINER_LENGTH :: nat where
  "DEFAULT_MAX_CBOR_CONTAINER_LENGTH = 1000000"
definition DEFAULT_MAX_CBOR_DEPTH :: nat where "DEFAULT_MAX_CBOR_DEPTH = 64"

record CborOptions =
  opt_max_byte_length :: "nat option"
  opt_max_container_length :: "nat option"
  opt_max_depth :: "nat option"

definition default_CborOptions :: CborOptions where
  "default_CborOptions =
     \<lparr>opt_max_byte_length = None, opt_max_container_length = None, opt_max_depth = None\<rparr>"

definition with_max_byte_length :: "nat \<Rightarrow> CborOptions" where
  "with_max_byte_length n = default_CborOptions\<lparr>opt_max_byte_length := Some n\<rparr>"

definition with_max_container_length :: "nat \<Rightarrow> CborOptions" where
  "with_max_container_length n = default_CborOptions\<lparr>opt_max_container_length := Some n\<rparr>"

record ResolvedCborOptions =
  max_byte_length :: nat
  max_container_length :: nat
  max_depth :: nat

datatype CborError = CborErr string | RangeErr string

fun cbor_error_message :: "CborError \<Rightarrow> string" where
  "cbor_error_message (CborErr m) = m"
| "cbor_error_message (RangeErr m) = m"

definition resolve_limit :: "string \<Rightarrow> nat \<Rightarrow> nat \<Rightarrow> CborError + nat" where
  "resolve_limit name value maximum =
     (if maximum < value
      then Inl (RangeErr (name @ '' must be an integer between 0 and '' @ show_nat maximum))
      else Inr value)"

definition unwrap_or :: "'a option \<Rightarrow> 'a \<Rightarrow> 'a" where
  "unwrap_or x d = (case x of None \<Rightarrow> d | Some y \<Rightarrow> y)"

definition resolve_options :: "CborOptions option \<Rightarrow> CborError + ResolvedCborOptions" where
  "resolve_options options =
    (let options = unwrap_or options default_CborOptions in
     and_then (resolve_limit ''maxByteLength''
       (unwrap_or (opt_max_byte_length options) DEFAULT_MAX_CBOR_BYTE_LENGTH) MAX_UINT32) (\<lambda>b.
     and_then (resolve_limit ''maxContainerLength''
       (unwrap_or (opt_max_container_length options) DEFAULT_MAX_CBOR_CONTAINER_LENGTH) MAX_UINT32) (\<lambda>c.
     and_then (resolve_limit ''maxDepth''
       (unwrap_or (opt_max_depth options) DEFAULT_MAX_CBOR_DEPTH) MAX_CONFIGURED_DEPTH) (\<lambda>d.
     Inr \<lparr>max_byte_length = b, max_container_length = c, max_depth = d\<rparr>))))"

subsection \<open>Numbers and values\<close>

definition MAX_SAFE_INTEGER :: nat where "MAX_SAFE_INTEGER = 9007199254740991"

definition is_integer :: "f64 \<Rightarrow> bool" where
  "is_integer value \<longleftrightarrow> f64_is_finite value \<and> f64_fract_is_zero value"

definition is_safe_integer :: "f64 \<Rightarrow> bool" where
  "is_safe_integer value \<longleftrightarrow> is_integer value \<and> f64_abs_le value MAX_SAFE_INTEGER"

definition is_negative_zero :: "f64 \<Rightarrow> bool" where
  "is_negative_zero value \<longleftrightarrow> f64_is_zero value \<and> f64_negative value"

datatype CborValue =
    CNull
  | CBool bool
  | CNumber f64
  | CText string
  | CBytes "u8 list"
  | CArray "CborValue list"
  | CMap "(string \<times> CborValue) list"

fun cbor_get :: "CborValue \<Rightarrow> string \<Rightarrow> CborValue option" where
  "cbor_get (CMap entries) key = map_option snd (find (\<lambda>(entry, _). entry = key) entries)"
| "cbor_get _ key = None"

definition number_to_json :: "f64 \<Rightarrow> Json option" where
  "number_to_json value =
     (if is_integer value \<and> \<not> is_negative_zero value \<and> f64_abs_le value MAX_SAFE_INTEGER
      then if f64_ge_zero value then Some (JNumber (PosInt (f64_as_u64 value)))
           else Some (JNumber (NegInt (f64_as_i64 value)))
      else map_option JNumber (number_from_f64 value))"

fun to_json_value :: "CborValue \<Rightarrow> Json option" where
  "to_json_value CNull = Some JNull"
| "to_json_value (CBool value) = Some (JBool value)"
| "to_json_value (CNumber value) = number_to_json value"
| "to_json_value (CText value) = Some (JString value)"
| "to_json_value (CBytes _) = None"
| "to_json_value (CArray items) = map_option JArray (those (map to_json_value items))"
| "to_json_value (CMap entries) =
     map_option (\<lambda>kvs. JObject (json_inserts kvs))
       (those (map (\<lambda>(key, value). map_option (Pair key) (to_json_value value)) entries))"

fun from_json_value :: "Json \<Rightarrow> CborValue" where
  "from_json_value JNull = CNull"
| "from_json_value (JBool value) = CBool value"
| "from_json_value (JNumber value) = CNumber (as_f64 value)"
| "from_json_value (JString value) = CText value"
| "from_json_value (JArray items) = CArray (map from_json_value items)"
| "from_json_value (JObject entries) =
     CMap (map (\<lambda>(key, value). (key, from_json_value value)) entries)"

text \<open>
  What the Rust types and a decoded value guarantee: text is UTF-8, and the keys of a map are
  distinct (the decoder rejects duplicates; the type itself does not).
\<close>

fun cbor_wf :: "CborValue \<Rightarrow> bool" where
  "cbor_wf (CText s) = utf8_valid s"
| "cbor_wf (CArray items) = list_all cbor_wf items"
| "cbor_wf (CMap entries) =
     (distinct (map fst entries) \<and> list_all (\<lambda>(k, v). utf8_valid k \<and> cbor_wf v) entries)"
| "cbor_wf _ = True"

fun cbor_finite :: "CborValue \<Rightarrow> bool" where
  "cbor_finite (CNumber v) = f64_is_finite v"
| "cbor_finite (CArray items) = list_all cbor_finite items"
| "cbor_finite (CMap entries) = list_all (\<lambda>(k, v). cbor_finite v) entries"
| "cbor_finite _ = True"

fun cbor_no_bytes :: "CborValue \<Rightarrow> bool" where
  "cbor_no_bytes (CBytes _) = False"
| "cbor_no_bytes (CArray items) = list_all cbor_no_bytes items"
| "cbor_no_bytes (CMap entries) = list_all (\<lambda>(k, v). cbor_no_bytes v) entries"
| "cbor_no_bytes _ = True"

subsection \<open>Lemmas\<close>

text \<open>For evaluating the options at concrete values.\<close>

lemmas options_eval = resolve_options_def resolve_limit_def unwrap_or_def default_CborOptions_def
  DEFAULT_MAX_CBOR_BYTE_LENGTH_def DEFAULT_MAX_CBOR_CONTAINER_LENGTH_def DEFAULT_MAX_CBOR_DEPTH_def
  MAX_CONFIGURED_DEPTH_def MAX_UINT32_def with_max_byte_length_def

lemma resolve_options_limits:
  assumes "resolve_options options = Inr r"
  shows "max_byte_length r \<le> MAX_UINT32" and "max_container_length r \<le> MAX_UINT32"
    and "max_depth r \<le> MAX_CONFIGURED_DEPTH"
  using assms
  by (auto simp: resolve_options_def resolve_limit_def Let_def result_simps split: if_splits)

lemma is_safe_integer_trunc: "is_safe_integer v \<Longrightarrow> f64_trunc_abs v < 2 ^ 53"
  by (auto simp: is_safe_integer_def f64_abs_le_def MAX_SAFE_INTEGER_def)

lemma is_safe_integer_iff:
  "is_safe_integer v \<longleftrightarrow> is_integer v \<and> f64_trunc_abs v \<le> MAX_SAFE_INTEGER"
  by (auto simp: is_safe_integer_def f64_abs_le_def is_integer_def)

text \<open>A safe integer other than \<open>-0.0\<close> is recovered from its truncation.\<close>

lemma safe_integer_nonneg:
  assumes "is_safe_integer v" and "\<not> is_negative_zero v" and "f64_ge_zero v"
  shows "f64_of_nat (f64_as_u64 v) = v" and "f64_as_u64 v = f64_trunc_abs v"
proof -
  have v: "f64_is_finite v" "f64_fract_is_zero v" "f64_trunc_abs v < 2 ^ 53" "\<not> f64_negative v"
    using assms is_safe_integer_trunc[OF assms(1)]
    by (auto simp: is_safe_integer_def is_integer_def is_negative_zero_def f64_ge_zero_def)
  have "\<not> f64_is_nan v"
    using assms(3) by (simp add: f64_ge_zero_def)
  with v show u: "f64_as_u64 v = f64_trunc_abs v"
    by (simp add: f64_as_u64_def)
  show "f64_of_nat (f64_as_u64 v) = v"
    unfolding u using v by (intro f64_of_nat_roundtrip)
qed

lemma safe_integer_neg:
  assumes "is_safe_integer v" and "\<not> is_negative_zero v" and "\<not> f64_ge_zero v"
  shows "f64_of_int (f64_trunc v) = v" and "f64_as_i64 v = f64_trunc v"
    and "f64_trunc v = - int (f64_trunc_abs v)" and "0 < f64_trunc_abs v"
proof -
  have v: "f64_is_finite v" "f64_fract_is_zero v" "f64_trunc_abs v < 2 ^ 53"
    using assms(1) is_safe_integer_trunc[OF assms(1)]
    by (auto simp: is_safe_integer_def is_integer_def)
  then have nn: "\<not> f64_is_nan v"
    by (simp add: f64_is_finite_def f64_is_nan_def)
  then have neg: "f64_negative v" "\<not> f64_is_zero v"
    using assms by (auto simp: f64_ge_zero_def is_negative_zero_def)
  then show t: "f64_trunc v = - int (f64_trunc_abs v)"
    by (simp add: f64_trunc_def)
  show "f64_of_int (f64_trunc v) = v"
    using v neg by (intro f64_of_int_roundtrip) auto
  show "f64_as_i64 v = f64_trunc v"
    using v nn t by (simp add: f64_as_i64_def)
  show "0 < f64_trunc_abs v"
    using f64_integral_zero[OF v(2)] neg by auto
qed

lemma number_to_json_roundtrip:
  assumes "f64_is_finite v"
  shows "\<exists>j. number_to_json v = Some j \<and> from_json_value j = CNumber v"
proof (cases "is_safe_integer v \<and> \<not> is_negative_zero v")
  case True
  then have "is_integer v \<and> \<not> is_negative_zero v \<and> f64_abs_le v MAX_SAFE_INTEGER"
    by (simp add: is_safe_integer_def)
  then show ?thesis
    using True safe_integer_nonneg[of v] safe_integer_neg[of v] by (simp add: number_to_json_def)
next
  case False
  then have "\<not> (is_integer v \<and> \<not> is_negative_zero v \<and> f64_abs_le v MAX_SAFE_INTEGER)"
    by (auto simp: is_safe_integer_def)
  then show ?thesis
    using assms by (auto simp: number_to_json_def number_from_f64_def)
qed

lemma those_map_Some:
  "(\<And>x. x \<in> set xs \<Longrightarrow> f x = Some (g x)) \<Longrightarrow> those (map f xs) = Some (map g xs)"
  by (induction xs) auto

text \<open>
  Converting a value with no byte strings to JSON and back gives the value itself: the encode path
  (\<open>from_json_value\<close>) inverts the decode path (\<open>to_json_value\<close>).
\<close>

lemma to_json_value_roundtrip:
  assumes "cbor_no_bytes v" and "cbor_finite v" and "cbor_wf v"
  shows "\<exists>j. to_json_value v = Some j \<and> from_json_value j = v"
  using assms
proof (induction v)
  case (CNumber x)
  then show ?case using number_to_json_roundtrip by simp
next
  case (CArray items)
  then have "\<forall>x \<in> set items. \<exists>j. to_json_value x = Some j \<and> from_json_value j = x"
    by (auto simp: list_all_iff)
  then obtain g where g: "\<And>x. x \<in> set items \<Longrightarrow> to_json_value x = Some (g x) \<and> from_json_value (g x) = x"
    by metis
  then have "those (map to_json_value items) = Some (map g items)"
    by (intro those_map_Some) simp
  moreover have "map (from_json_value \<circ> g) items = items"
    using g by (simp add: map_idI)
  ultimately show ?case by simp
next
  case (CMap entries)
  then have "\<forall>e \<in> set entries. \<exists>j. to_json_value (snd e) = Some j \<and> from_json_value j = snd e"
    by (fastforce simp: list_all_iff)
  then obtain g where g: "\<And>e. e \<in> set entries \<Longrightarrow>
      to_json_value (snd e) = Some (g e) \<and> from_json_value (g e) = snd e"
    by metis
  let ?f = "\<lambda>(key, value). map_option (Pair key) (to_json_value value)"
  have "those (map ?f entries) = Some (map (\<lambda>e. (fst e, g e)) entries)"
    using g by (intro those_map_Some) (auto simp: split_beta)
  moreover have "json_inserts (map (\<lambda>e. (fst e, g e)) entries) = map (\<lambda>e. (fst e, g e)) entries"
    using CMap.prems by (intro json_inserts_distinct) (simp add: comp_def)
  moreover have "map (\<lambda>e. (fst e, from_json_value (g e))) entries = entries"
    using g by (simp add: map_idI)
  ultimately show ?case by (simp add: comp_def)
qed auto

subsection \<open>Properties\<close>

text \<open>
  Nothing is lost between CBOR and JSON: a well-formed value with finite numbers and no byte
  strings converts to JSON, and converting that JSON back gives the value itself, the sign of zero
  and every float bit included.
\<close>

theorem cbor_json_roundtrip:
  assumes "cbor_no_bytes v" and "cbor_finite v" and "cbor_wf v"
  shows "\<exists>j. to_json_value v = Some j \<and> from_json_value j = v"
  using assms by (rule to_json_value_roundtrip)

theorem cbor_json_roundtrip_witness:
  "\<exists>j. to_json_value (CArray [CNumber 0x8000000000000000, CText ''x'']) = Some j \<and>
    from_json_value j = CArray [CNumber 0x8000000000000000, CText ''x'']"
  by (rule cbor_json_roundtrip)
    (simp_all add: f64_is_finite_def f64_exponent_def utf8_valid_def)

end
