(* ===== verification/Cbor.thy ===== *)
theory Cbor
  imports Cbor_Value
begin

unbundle bit_operations_syntax

text \<open>
  The CBOR encoder and decoder (\<open>crates/notagent-protocol/src/cbor/encoder.rs\<close>, \<open>decoder.rs\<close>).

  The encoder threads a bounded writer (a byte buffer that refuses to grow past the configured
  length) through a recursion over the value; the decoder threads a reader (the input and an offset).
  Both check the same limits. Recursion of the decoder is bounded by the nesting limit, which is its
  termination argument: every nested item is read one level deeper, and a level beyond the limit is
  refused. The loops over the announced number of elements are recursions on that number.
\<close>

subsection \<open>The encoder\<close>

record CborWriter =
  buffer :: "u8 list"
  writer_max_byte_length :: nat

definition new_writer :: "nat \<Rightarrow> CborWriter" where
  "new_writer n = \<lparr>buffer = [], writer_max_byte_length = n\<rparr>"

definition ensure_capacity :: "CborWriter \<Rightarrow> nat \<Rightarrow> CborError + unit" where
  "ensure_capacity w additional_bytes =
     (let required = length (buffer w) + additional_bytes in
      if writer_max_byte_length w < required
      then Inl (CborErr (''CBOR byte length exceeds configured limit of '' @
             show_nat (writer_max_byte_length w)))
      else Inr ())"

definition write_bytes :: "CborWriter \<Rightarrow> u8 list \<Rightarrow> CborError + CborWriter" where
  "write_bytes w bytes =
     and_then (ensure_capacity w (length bytes)) (\<lambda>_. Inr (w\<lparr>buffer := buffer w @ bytes\<rparr>))"

definition write_byte :: "CborWriter \<Rightarrow> u8 \<Rightarrow> CborError + CborWriter" where
  "write_byte w value =
     and_then (ensure_capacity w 1) (\<lambda>_. Inr (w\<lparr>buffer := buffer w @ [value]\<rparr>))"

definition write_uint16 :: "CborWriter \<Rightarrow> u16 \<Rightarrow> CborError + CborWriter" where
  "write_uint16 w value =
     and_then (ensure_capacity w 2) (\<lambda>_. Inr (w\<lparr>buffer := buffer w @ be_bytes 2 (unat value)\<rparr>))"

definition write_uint32 :: "CborWriter \<Rightarrow> u32 \<Rightarrow> CborError + CborWriter" where
  "write_uint32 w value =
     and_then (ensure_capacity w 4) (\<lambda>_. Inr (w\<lparr>buffer := buffer w @ be_bytes 4 (unat value)\<rparr>))"

definition write_uint64 :: "CborWriter \<Rightarrow> nat \<Rightarrow> CborError + CborWriter" where
  "write_uint64 w value =
     (let high = value div UINT32_BASE; low = value - high * UINT32_BASE in
      and_then (write_uint32 w (word_of_nat high)) (\<lambda>w. write_uint32 w (word_of_nat low)))"

definition write_float64 :: "CborWriter \<Rightarrow> f64 \<Rightarrow> CborError + CborWriter" where
  "write_float64 w value =
     and_then (ensure_capacity w 9) (\<lambda>_.
       Inr (w\<lparr>buffer := buffer w @ [0xfb] @ be_bytes 8 (unat value)\<rparr>))"

definition write_argument :: "CborWriter \<Rightarrow> u8 \<Rightarrow> nat \<Rightarrow> CborError + CborWriter" where
  "write_argument w major_type value =
     (let prefix = push_bit 5 major_type in
      if value < 24 then write_byte w (prefix OR word_of_nat value)
      else if value \<le> 0xff then
        and_then (write_byte w (prefix OR 24)) (\<lambda>w. write_byte w (word_of_nat value))
      else if value \<le> 0xffff then
        and_then (write_byte w (prefix OR 25)) (\<lambda>w. write_uint16 w (word_of_nat value))
      else if value \<le> MAX_UINT32 then
        and_then (write_byte w (prefix OR 26)) (\<lambda>w. write_uint32 w (word_of_nat value))
      else
        and_then (write_byte w (prefix OR 27)) (\<lambda>w. write_uint64 w value))"

definition encode_text ::
    "CborWriter \<Rightarrow> ResolvedCborOptions \<Rightarrow> string \<Rightarrow> CborError + CborWriter" where
  "encode_text w options value =
     (let bytes = as_bytes value in
      if max_byte_length options < length bytes
      then Inl (CborErr (''CBOR text string length exceeds configured limit of '' @
             show_nat (max_byte_length options)))
      else and_then (write_argument w 3 (length bytes)) (\<lambda>w. write_bytes w bytes))"

definition encode_number :: "CborWriter \<Rightarrow> f64 \<Rightarrow> CborError + CborWriter" where
  "encode_number w value =
     (if \<not> f64_is_finite value then Inl (CborErr ''CBOR numbers must be finite'')
      else if is_integer value \<and> \<not> is_negative_zero value then
        (if \<not> is_safe_integer value
         then Inl (CborErr ''CBOR integers must be safe JavaScript integers'')
         else if f64_ge_zero value then write_argument w 0 (f64_as_u64 value)
         else write_argument w 1 (f64_as_u64 (f64_minus_one_minus value)))
      else write_float64 w value)"

definition check_depth :: "ResolvedCborOptions \<Rightarrow> nat \<Rightarrow> CborError + unit" where
  "check_depth options depth =
     (if max_depth options < depth
      then Inl (CborErr (''CBOR nesting depth exceeds configured limit of '' @
             show_nat (max_depth options)))
      else Inr ())"

definition container_limit :: "string \<Rightarrow> ResolvedCborOptions \<Rightarrow> nat \<Rightarrow> CborError + unit" where
  "container_limit kind options n =
     (if max_container_length options < n
      then Inl (CborErr (''CBOR '' @ kind @ '' length exceeds configured limit of '' @
             show_nat (max_container_length options)))
      else Inr ())"

fun encode_value ::
      "ResolvedCborOptions \<Rightarrow> nat \<Rightarrow> CborWriter \<Rightarrow> CborValue \<Rightarrow> CborError + CborWriter"
  and encode_items ::
      "ResolvedCborOptions \<Rightarrow> nat \<Rightarrow> CborWriter \<Rightarrow> CborValue list \<Rightarrow> CborError + CborWriter"
  and encode_entries ::
      "ResolvedCborOptions \<Rightarrow> nat \<Rightarrow> CborWriter \<Rightarrow> (string \<times> CborValue) list \<Rightarrow>
       CborError + CborWriter" where
  "encode_value options depth w CNull =
     and_then (check_depth options depth) (\<lambda>_. write_byte w 0xf6)"
| "encode_value options depth w (CBool value) =
     and_then (check_depth options depth) (\<lambda>_. write_byte w (if value then 0xf5 else 0xf4))"
| "encode_value options depth w (CNumber value) =
     and_then (check_depth options depth) (\<lambda>_. encode_number w value)"
| "encode_value options depth w (CText value) =
     and_then (check_depth options depth) (\<lambda>_. encode_text w options value)"
| "encode_value options depth w (CBytes value) =
     and_then (check_depth options depth) (\<lambda>_.
     if max_byte_length options < length value
     then Inl (CborErr (''CBOR byte string length exceeds configured limit of '' @
            show_nat (max_byte_length options)))
     else and_then (write_argument w 2 (length value)) (\<lambda>w. write_bytes w value))"
| "encode_value options depth w (CArray items) =
     and_then (check_depth options depth) (\<lambda>_.
     and_then (container_limit ''array'' options (length items)) (\<lambda>_.
     and_then (write_argument w 4 (length items)) (\<lambda>w.
     encode_items options (depth + 1) w items)))"
| "encode_value options depth w (CMap entries) =
     and_then (check_depth options depth) (\<lambda>_.
     and_then (container_limit ''map'' options (length entries)) (\<lambda>_.
     and_then (write_argument w 5 (length entries)) (\<lambda>w.
     encode_entries options (depth + 1) w entries)))"
| "encode_items options depth w [] = Inr w"
| "encode_items options depth w (item # items) =
     and_then (encode_value options depth w item) (\<lambda>w. encode_items options depth w items)"
| "encode_entries options depth w [] = Inr w"
| "encode_entries options depth w ((key, entry_value) # entries) =
     and_then (encode_text w options key) (\<lambda>w.
     and_then (encode_value options depth w entry_value) (\<lambda>w.
     encode_entries options depth w entries))"

definition encode_cbor :: "CborValue \<Rightarrow> CborOptions option \<Rightarrow> CborError + u8 list" where
  "encode_cbor value options =
     and_then (resolve_options options) (\<lambda>resolved.
     map_ok buffer (encode_value resolved 0 (new_writer (max_byte_length resolved)) value))"

subsection \<open>The decoder\<close>

record CborReader =
  bytes :: "u8 list"
  offset :: nat

definition truncated :: CborError where
  "truncated = CborErr ''Truncated CBOR payload''"

definition read_byte :: "CborReader \<Rightarrow> CborError + (u8 \<times> CborReader)" where
  "read_byte r =
     (if length (bytes r) \<le> offset r then Inl truncated
      else Inr (bytes r ! offset r, r\<lparr>offset := offset r + 1\<rparr>))"

definition read_bytes :: "CborReader \<Rightarrow> nat \<Rightarrow> CborError + (u8 list \<times> CborReader)" where
  "read_bytes r len =
     (let remaining = length (bytes r) - offset r in
      if remaining < len then Inl truncated
      else Inr (take len (drop (offset r) (bytes r)), r\<lparr>offset := offset r + len\<rparr>))"

function read_argument :: "CborReader \<Rightarrow> u8 \<Rightarrow> CborError + (nat \<times> CborReader)" where
  "read_argument r additional_information =
     (if additional_information < 24 then Inr (unat additional_information, r)
      else if additional_information = 24 then
        and_then (read_byte r) (\<lambda>(b, r). Inr (unat b, r))
      else if additional_information = 25 then
        and_then (read_bytes r 2) (\<lambda>(bs, r). Inr (unat (bs ! 0) * 0x100 + unat (bs ! 1), r))
      else if additional_information = 26 then
        and_then (read_bytes r 4) (\<lambda>(bs, r).
          Inr (unat (bs ! 0) * 0x1000000 + unat (bs ! 1) * 0x10000 + unat (bs ! 2) * 0x100 +
               unat (bs ! 3), r))
      else if additional_information = 27 then
        and_then (read_argument r 26) (\<lambda>(high, r).
        and_then (read_argument r 26) (\<lambda>(low, r).
        if 0x1fffff < high
        then Inl (CborErr ''Decoded CBOR integer or length is outside the safe range'')
        else Inr (high * UINT32_BASE + low, r)))
      else if additional_information = 31
        then Inl (CborErr ''Indefinite-length CBOR items are not supported'')
      else Inl (CborErr ''Malformed CBOR additional information''))"
  by pat_completeness auto
termination
  by (relation "measure (\<lambda>(r, ai). unat ai)") simp_all

declare read_argument.simps [simp del]

definition read_length ::
    "CborReader \<Rightarrow> u8 \<Rightarrow> string \<Rightarrow> nat \<Rightarrow> CborError + (nat \<times> CborReader)" where
  "read_length r additional_information kind limit =
     (if additional_information = 31
      then Inl (CborErr (''Indefinite-length CBOR '' @ kind @ ''s are not supported''))
      else and_then (read_argument r additional_information) (\<lambda>(len, r).
        if limit < len
        then Inl (CborErr (''CBOR '' @ kind @ '' length exceeds configured limit of '' @ show_nat limit))
        else Inr (len, r)))"

definition read_simple :: "CborReader \<Rightarrow> u8 \<Rightarrow> CborError + (CborValue \<times> CborReader)" where
  "read_simple r additional_information =
     (if additional_information = 20 then Inr (CBool False, r)
      else if additional_information = 21 then Inr (CBool True, r)
      else if additional_information = 22 then Inr (CNull, r)
      else if additional_information = 27 then
        and_then (read_bytes r 8) (\<lambda>(bs, r).
        let value = word_of_nat (be_nat bs) :: f64 in
        if \<not> f64_is_finite value then Inl (CborErr ''Decoded CBOR number must be finite'')
        else if is_integer value \<and> \<not> is_safe_integer value
        then Inl (CborErr ''Decoded CBOR integer is outside the safe range'')
        else Inr (CNumber value, r))
      else if additional_information = 31
        then Inl (CborErr ''CBOR break marker is not supported'')
      else Inl (CborErr ''Unsupported CBOR simple value or floating-point width''))"

function read_item ::
      "ResolvedCborOptions \<Rightarrow> nat \<Rightarrow> CborReader \<Rightarrow> CborError + (CborValue \<times> CborReader)"
  and read_items ::
      "ResolvedCborOptions \<Rightarrow> nat \<Rightarrow> CborReader \<Rightarrow> nat \<Rightarrow> CborError + (CborValue list \<times> CborReader)"
  and read_entries ::
      "ResolvedCborOptions \<Rightarrow> nat \<Rightarrow> CborReader \<Rightarrow> string set \<Rightarrow> nat \<Rightarrow>
       CborError + ((string \<times> CborValue) list \<times> CborReader)" where
  "read_item options depth r =
     (if max_depth options < depth
      then Inl (CborErr (''CBOR nesting depth exceeds configured limit of '' @
             show_nat (max_depth options)))
      else and_then (read_byte r) (\<lambda>(initial, r).
       let major_type = drop_bit 5 initial; additional_information = initial AND 0x1f in
       if major_type = 0 then
         and_then (read_argument r additional_information) (\<lambda>(n, r). Inr (CNumber (f64_of_nat n), r))
       else if major_type = 1 then
         and_then (read_argument r additional_information) (\<lambda>(n, r).
         let value = f64_minus_one_minus (f64_of_nat n) in
         if \<not> is_safe_integer value
         then Inl (CborErr ''Decoded CBOR integer is outside the safe range'')
         else Inr (CNumber value, r))
       else if major_type = 2 then
         and_then (read_length r additional_information ''byte string'' (max_byte_length options)) (\<lambda>(len, r).
         and_then (read_bytes r len) (\<lambda>(bs, r). Inr (CBytes bs, r)))
       else if major_type = 3 then
         and_then (read_length r additional_information ''text string'' (max_byte_length options)) (\<lambda>(len, r).
         and_then (read_bytes r len) (\<lambda>(bs, r).
         case from_utf8 bs of
           Some value \<Rightarrow> Inr (CText value, r)
         | None \<Rightarrow> Inl (CborErr ''CBOR text string contains invalid UTF-8'')))
       else if major_type = 4 then
         and_then (read_length r additional_information ''array'' (max_container_length options)) (\<lambda>(len, r).
         and_then (read_items options (depth + 1) r len) (\<lambda>(items, r). Inr (CArray items, r)))
       else if major_type = 5 then
         and_then (read_length r additional_information ''map'' (max_container_length options)) (\<lambda>(len, r).
         and_then (read_entries options (depth + 1) r {} len) (\<lambda>(entries, r). Inr (CMap entries, r)))
       else if major_type = 6 then Inl (CborErr ''CBOR tags are not supported'')
       else if major_type = 7 then read_simple r additional_information
       else Inl (CborErr ''Malformed CBOR major type'')))"
| "read_items options depth r 0 = Inr ([], r)"
| "read_items options depth r (Suc n) =
     and_then (read_item options depth r) (\<lambda>(item, r).
     and_then (read_items options depth r n) (\<lambda>(items, r). Inr (item # items, r)))"
| "read_entries options depth r keys 0 = Inr ([], r)"
| "read_entries options depth r keys (Suc n) =
     and_then (read_item options depth r) (\<lambda>(item, r).
     case item of
       CText key \<Rightarrow>
         if key \<in> keys then Inl (CborErr ''CBOR map contains a duplicate key'')
         else
           and_then (read_item options depth r) (\<lambda>(value, r).
           and_then (read_entries options depth r (insert key keys) n) (\<lambda>(entries, r).
           Inr ((key, value) # entries, r)))
     | _ \<Rightarrow> Inl (CborErr ''CBOR map keys must be strings''))"
  by pat_completeness auto
termination
  by (relation "measures
       [\<lambda>x. case x of Inl (opt, d, _) \<Rightarrow> Suc (max_depth opt) - d
                 | Inr (Inl (opt, d, _, _)) \<Rightarrow> Suc (max_depth opt) - d
                 | Inr (Inr (opt, d, _, _, _)) \<Rightarrow> Suc (max_depth opt) - d,
        \<lambda>x. case x of Inl _ \<Rightarrow> 0
                 | Inr (Inl (_, _, _, n)) \<Rightarrow> Suc n
                 | Inr (Inr (_, _, _, _, n)) \<Rightarrow> Suc n]") auto

declare read_item.simps [simp del]

definition decode :: "ResolvedCborOptions \<Rightarrow> CborReader \<Rightarrow> CborError + CborValue" where
  "decode options r =
     and_then (read_item options 0 r) (\<lambda>(value, r).
     if offset r \<noteq> length (bytes r) then Inl (CborErr ''CBOR payload contains trailing data'')
     else Inr value)"

definition decode_cbor :: "u8 list \<Rightarrow> CborOptions option \<Rightarrow> CborError + CborValue" where
  "decode_cbor bs options =
     and_then (resolve_options options) (\<lambda>resolved.
     if max_byte_length resolved < length bs
     then Inl (CborErr (''CBOR byte length exceeds configured limit of '' @
            show_nat (max_byte_length resolved)))
     else decode resolved \<lparr>bytes = bs, offset = 0\<rparr>)"

end
