(* ===== verification/Cbor_Proofs.thy ===== *)
theory Cbor_Proofs
  imports Cbor
begin

unbundle bit_operations_syntax

text \<open>
  Correctness of the CBOR codec. The encoder is first reduced to appending a canonical byte string
  (\<open>cbor_bytes\<close>) to the buffer under an explicit admissibility predicate (\<open>enc_ok\<close>); the decoder is
  shown to read that byte string back. Two converse results follow: what a decoded value satisfies,
  and that a decoded value can be encoded again within the same limits.
\<close>

subsection \<open>The writer appends or refuses\<close>

definition cbor_head :: "u8 \<Rightarrow> nat \<Rightarrow> u8 list" where
  "cbor_head m n =
     (let prefix = push_bit 5 m in
      if n < 24 then [prefix OR word_of_nat n]
      else if n \<le> 0xff then (prefix OR 24) # be_bytes 1 n
      else if n \<le> 0xffff then (prefix OR 25) # be_bytes 2 n
      else if n \<le> MAX_UINT32 then (prefix OR 26) # be_bytes 4 n
      else (prefix OR 27) # be_bytes 8 n)"

definition capacity_error :: "CborWriter \<Rightarrow> CborError" where
  "capacity_error w = CborErr (''CBOR byte length exceeds configured limit of '' @
     show_nat (writer_max_byte_length w))"

lemma write_bytes_eq:
  "write_bytes w bs =
     (if length (buffer w) + length bs \<le> writer_max_byte_length w
      then Inr (w\<lparr>buffer := buffer w @ bs\<rparr>) else Inl (capacity_error w))"
  by (auto simp: write_bytes_def ensure_capacity_def capacity_error_def Let_def)

lemma write_byte_eq: "write_byte w b = write_bytes w [b]"
  by (simp add: write_byte_def write_bytes_def)

lemma write_uint16_eq: "write_uint16 w v = write_bytes w (be_bytes 2 (unat v))"
  by (simp add: write_uint16_def write_bytes_def)

lemma write_uint32_eq: "write_uint32 w v = write_bytes w (be_bytes 4 (unat v))"
  by (simp add: write_uint32_def write_bytes_def)

lemma write_float64_eq: "write_float64 w v = write_bytes w ([0xfb] @ be_bytes 8 (unat v))"
  by (simp add: write_float64_def write_bytes_def)

lemma write_bytes_append:
  "and_then (write_bytes w xs) (\<lambda>w. write_bytes w ys) = write_bytes w (xs @ ys)"
  by (simp add: write_bytes_eq capacity_error_def)

lemma be_bytes_append: "be_bytes (j + k) n = be_bytes j (n div 256 ^ k) @ be_bytes k n"
proof (induction k arbitrary: n)
  case 0
  then show ?case by simp
next
  case (Suc k)
  then show ?case by (simp add: div_mult2_eq)
qed

lemma be_bytes_mod: "be_bytes k (n mod 256 ^ k) = be_bytes k n"
  by (metis be_bytes_be_nat be_nat_be_bytes_mod length_be_bytes)

lemma be_bytes_word:
  assumes "256 ^ k = (2::nat) ^ LENGTH('a::len)"
  shows "be_bytes k (unat (word_of_nat n :: 'a word)) = be_bytes k n"
  by (simp add: unat_of_nat assms[symmetric] be_bytes_mod)

lemma write_uint64_eq: "write_uint64 w n = write_bytes w (be_bytes 8 n)"
proof -
  have 1: "be_bytes 4 (unat (word_of_nat k :: u32)) = be_bytes 4 k" for k
    by (rule be_bytes_word) simp
  have low: "n - n div UINT32_BASE * UINT32_BASE = n mod 256 ^ 4"
    by (simp add: minus_div_mult_eq_mod UINT32_BASE_def)
  have 8: "be_bytes 8 n = be_bytes 4 (n div 256 ^ 4) @ be_bytes 4 n"
    using be_bytes_append[of 4 4 n] by simp
  show ?thesis
    unfolding write_uint64_def Let_def write_uint32_eq write_bytes_append 1 low be_bytes_mod 8
    by (simp add: UINT32_BASE_def)
qed

lemma write_argument_eq: "write_argument w m n = write_bytes w (cbor_head m n)"
proof -
  have 2: "be_bytes 2 (unat (word_of_nat k :: u16)) = be_bytes 2 k" for k
    by (rule be_bytes_word) simp
  have 4: "be_bytes 4 (unat (word_of_nat k :: u32)) = be_bytes 4 k" for k
    by (rule be_bytes_word) simp
  have 1: "be_bytes 1 k = [word_of_nat k]" for k
    by (simp add: One_nat_def del: One_nat_def[symmetric])
  show ?thesis
    unfolding write_argument_def cbor_head_def Let_def write_byte_eq write_uint16_eq
      write_uint32_eq write_uint64_eq write_bytes_append 1 2 4
    by simp
qed

subsection \<open>The canonical encoding\<close>

definition number_bytes :: "f64 \<Rightarrow> u8 list" where
  "number_bytes v =
     (if is_integer v \<and> \<not> is_negative_zero v then
        (if f64_ge_zero v then cbor_head 0 (f64_trunc_abs v) else cbor_head 1 (f64_trunc_abs v - 1))
      else 0xfb # be_bytes 8 (unat v))"

definition text_bytes :: "string \<Rightarrow> u8 list" where
  "text_bytes s = cbor_head 3 (length s) @ as_bytes s"

fun cbor_bytes :: "CborValue \<Rightarrow> u8 list" where
  "cbor_bytes CNull = [0xf6]"
| "cbor_bytes (CBool b) = [if b then 0xf5 else 0xf4]"
| "cbor_bytes (CNumber v) = number_bytes v"
| "cbor_bytes (CText s) = text_bytes s"
| "cbor_bytes (CBytes bs) = cbor_head 2 (length bs) @ bs"
| "cbor_bytes (CArray items) = cbor_head 4 (length items) @ concat (map cbor_bytes items)"
| "cbor_bytes (CMap entries) =
     cbor_head 5 (length entries) @ concat (map (\<lambda>(k, v). text_bytes k @ cbor_bytes v) entries)"

definition number_ok :: "f64 \<Rightarrow> bool" where
  "number_ok v \<longleftrightarrow> f64_is_finite v \<and> (is_integer v \<longrightarrow> is_safe_integer v)"

fun enc_ok :: "ResolvedCborOptions \<Rightarrow> nat \<Rightarrow> CborValue \<Rightarrow> bool" where
  "enc_ok opt d (CNumber v) = (d \<le> max_depth opt \<and> number_ok v)"
| "enc_ok opt d (CText s) = (d \<le> max_depth opt \<and> length s \<le> max_byte_length opt)"
| "enc_ok opt d (CBytes bs) = (d \<le> max_depth opt \<and> length bs \<le> max_byte_length opt)"
| "enc_ok opt d (CArray items) =
     (d \<le> max_depth opt \<and> length items \<le> max_container_length opt \<and>
      list_all (enc_ok opt (d + 1)) items)"
| "enc_ok opt d (CMap entries) =
     (d \<le> max_depth opt \<and> length entries \<le> max_container_length opt \<and>
      list_all (\<lambda>(k, v). length k \<le> max_byte_length opt \<and> enc_ok opt (d + 1) v) entries)"
| "enc_ok opt d _ = (d \<le> max_depth opt)"

lemma negative_zero_safe: "is_negative_zero v \<Longrightarrow> is_safe_integer v"
  by (simp add: is_negative_zero_def f64_is_zero_def is_safe_integer_def is_integer_def
      f64_is_finite_def f64_fract_is_zero_def f64_significand_def f64_abs_le_def f64_trunc_abs_def
      f64_scale_def MAX_SAFE_INTEGER_def)

lemma encode_number_ok:
  assumes "number_ok v"
  shows "encode_number w v = write_bytes w (number_bytes v)"
proof (cases "is_integer v \<and> \<not> is_negative_zero v")
  case False
  with assms show ?thesis
    by (auto simp: encode_number_def number_bytes_def number_ok_def write_float64_eq)
next
  case True
  with assms have safe: "is_safe_integer v" and fin: "f64_is_finite v"
    by (simp_all add: number_ok_def)
  show ?thesis
  proof (cases "f64_ge_zero v")
    case ge: True
    then show ?thesis
      using True safe fin safe_integer_nonneg[of v]
      by (simp add: encode_number_def number_bytes_def write_argument_eq)
  next
    case ge: False
    note neg = safe_integer_neg[OF safe _ ge]
    let ?i = "- 1 - f64_trunc v"
    have i: "?i = int (f64_trunc_abs v - 1)"
      using neg True by simp
    then have "\<bar>?i\<bar> < 2 ^ 53"
      using is_safe_integer_trunc[OF safe] by simp
    note ex = f64_of_int_exact[OF this]
    have "\<not> f64_is_nan (f64_of_int ?i)"
      using ex(1) by (simp add: f64_is_nan_def f64_is_finite_def)
    moreover have "\<not> f64_negative (f64_of_int ?i)"
      using ex(4) i by simp
    moreover have "f64_trunc_abs (f64_of_int ?i) = f64_trunc_abs v - 1"
      using ex(5) i by simp
    ultimately have "f64_as_u64 (f64_minus_one_minus v) = f64_trunc_abs v - 1"
      using ex(1) is_safe_integer_trunc[OF safe] by (simp add: f64_as_u64_def f64_minus_one_minus_def)
    then show ?thesis
      using True safe fin ge by (simp add: encode_number_def number_bytes_def write_argument_eq)
  qed
qed

lemma encode_number_Inr: "encode_number w v = Inr w' \<Longrightarrow> number_ok v"
  using negative_zero_safe[of v] by (auto simp: encode_number_def number_ok_def split: if_splits)

lemma encode_text_eq:
  "encode_text w opt s =
     (if length s \<le> max_byte_length opt then write_bytes w (text_bytes s)
      else Inl (CborErr (''CBOR text string length exceeds configured limit of '' @
             show_nat (max_byte_length opt))))"
  by (simp add: encode_text_def Let_def write_argument_eq write_bytes_append text_bytes_def)

lemma check_depth_eq_Inr: "check_depth opt d = Inr u \<longleftrightarrow> d \<le> max_depth opt"
  by (auto simp: check_depth_def)

lemma container_limit_eq_Inr: "container_limit k opt n = Inr u \<longleftrightarrow> n \<le> max_container_length opt"
  by (auto simp: container_limit_def)

definition writer_inv :: "CborWriter \<Rightarrow> bool" where
  "writer_inv w \<longleftrightarrow> length (buffer w) \<le> writer_max_byte_length w"

lemma write_bytes_inv: "write_bytes w bs = Inr w' \<Longrightarrow> writer_inv w'"
  by (auto simp: write_bytes_eq writer_inv_def split: if_splits)

lemma write_bytes_Nil: "writer_inv w \<Longrightarrow> write_bytes w [] = Inr w"
  by (simp add: write_bytes_eq writer_inv_def)

lemma and_then_write_bytes:
  assumes "\<And>w'. writer_inv w' \<Longrightarrow> f w' = write_bytes w' ys"
  shows "and_then (write_bytes w xs) f = write_bytes w (xs @ ys)"
proof -
  have "and_then (write_bytes w xs) f = and_then (write_bytes w xs) (\<lambda>w. write_bytes w ys)"
    by (rule and_then_cong[OF refl]) (metis assms write_bytes_inv)
  then show ?thesis by (simp add: write_bytes_append)
qed

lemma encode_items_ok:
  assumes "\<And>x w. x \<in> set items \<Longrightarrow> writer_inv w \<Longrightarrow> encode_value opt d w x = write_bytes w (cbor_bytes x)"
    and "writer_inv w"
  shows "encode_items opt d w items = write_bytes w (concat (map cbor_bytes items))"
  using assms
  by (induction items arbitrary: w) (simp_all add: write_bytes_Nil and_then_write_bytes)

lemma encode_entries_ok:
  assumes "\<And>k v w. (k, v) \<in> set entries \<Longrightarrow> writer_inv w \<Longrightarrow>
      length k \<le> max_byte_length opt \<and> encode_value opt d w v = write_bytes w (cbor_bytes v)"
    and "writer_inv w"
  shows "encode_entries opt d w entries =
    write_bytes w (concat (map (\<lambda>(k, v). text_bytes k @ cbor_bytes v) entries))"
  using assms
proof (induction entries arbitrary: w)
  case Nil
  then show ?case by (simp add: write_bytes_Nil)
next
  case (Cons e entries)
  obtain k v where e: "e = (k, v)" by (cases e)
  have k: "length k \<le> max_byte_length opt"
    using Cons.prems e by (metis list.set_intros(1))
  have step: "and_then (encode_value opt d w' v) (\<lambda>w. encode_entries opt d w entries) =
      write_bytes w' (cbor_bytes v @ concat (map (\<lambda>(k, v). text_bytes k @ cbor_bytes v) entries))"
    if w': "writer_inv w'" for w'
  proof -
    have "encode_entries opt d w'' entries =
        write_bytes w'' (concat (map (\<lambda>(k, v). text_bytes k @ cbor_bytes v) entries))"
      if "writer_inv w''" for w''
      using Cons.prems(1) that by (intro Cons.IH) auto
    moreover have "encode_value opt d w' v = write_bytes w' (cbor_bytes v)"
      using Cons.prems(1)[of k v w'] w' e by simp
    ultimately show ?thesis by (simp add: and_then_write_bytes)
  qed
  show ?case
    using k by (simp add: e encode_text_eq and_then_write_bytes[OF step])
qed

text \<open>An admissible value is encoded by appending its canonical bytes, if they fit.\<close>

lemma encode_value_ok:
  "enc_ok opt d v \<Longrightarrow> writer_inv w \<Longrightarrow> encode_value opt d w v = write_bytes w (cbor_bytes v)"
proof (induction v arbitrary: d w)
  case (CArray items)
  have "encode_items opt (d + 1) w' items = write_bytes w' (concat (map cbor_bytes items))"
    if "writer_inv w'" for w'
    using CArray that by (intro encode_items_ok) (auto simp: list_all_iff)
  then show ?case
    using CArray.prems
    by (simp add: check_depth_def container_limit_def write_argument_eq and_then_write_bytes)
next
  case (CMap entries)
  have "encode_entries opt (d + 1) w' entries =
      write_bytes w' (concat (map (\<lambda>(k, v). text_bytes k @ cbor_bytes v) entries))"
    if "writer_inv w'" for w'
    using CMap that by (intro encode_entries_ok) (fastforce simp: list_all_iff)+
  then show ?case
    using CMap.prems
    by (simp add: check_depth_def container_limit_def write_argument_eq and_then_write_bytes)
qed (auto simp: check_depth_def write_byte_eq encode_number_ok encode_text_eq write_argument_eq
    write_bytes_append)

text \<open>Conversely, whatever is encoded was admissible.\<close>

lemma encode_items_Inr:
  assumes "\<And>x w w'. x \<in> set items \<Longrightarrow> encode_value opt d w x = Inr w' \<Longrightarrow> enc_ok opt d x"
    and "encode_items opt d w items = Inr w'"
  shows "list_all (enc_ok opt d) items"
  using assms
proof (induction items arbitrary: w)
  case (Cons x items)
  from Cons.prems(2) obtain w1 where
    "encode_value opt d w x = Inr w1" "encode_items opt d w1 items = Inr w'"
    by (auto elim!: and_then_eq_InrE)
  moreover from this have "list_all (enc_ok opt d) items"
    using Cons.prems(1) by (intro Cons.IH) auto
  ultimately show ?case
    using Cons.prems(1)[of x w w1] by simp
qed simp

lemma encode_entries_Inr:
  assumes "\<And>k v w w'. (k, v) \<in> set entries \<Longrightarrow> encode_value opt d w v = Inr w' \<Longrightarrow> enc_ok opt d v"
    and "encode_entries opt d w entries = Inr w'"
  shows "list_all (\<lambda>(k, v). length k \<le> max_byte_length opt \<and> enc_ok opt d v) entries"
  using assms
proof (induction entries arbitrary: w)
  case (Cons e entries)
  obtain k v where e: "e = (k, v)" by (cases e)
  with Cons.prems(2) obtain w1 w2 where
    "encode_text w opt k = Inr w1" "encode_value opt d w1 v = Inr w2"
    "encode_entries opt d w2 entries = Inr w'"
    by (auto elim!: and_then_eq_InrE)
  moreover from this have
    "list_all (\<lambda>(k, v). length k \<le> max_byte_length opt \<and> enc_ok opt d v) entries"
    using Cons.prems(1) by (intro Cons.IH) auto
  ultimately show ?case
    using Cons.prems(1)[of k v w1 w2] e by (auto simp: encode_text_eq split: if_splits)
qed simp

lemma encode_value_Inr: "encode_value opt d w v = Inr w' \<Longrightarrow> enc_ok opt d v"
proof (induction v arbitrary: d w w')
  case (CArray items)
  from CArray.prems obtain w1 where
    "d \<le> max_depth opt" "length items \<le> max_container_length opt"
    "encode_items opt (d + 1) w1 items = Inr w'"
    by (auto elim!: and_then_eq_InrE simp: check_depth_eq_Inr container_limit_eq_Inr)
  with CArray.IH show ?case
    by (simp add: encode_items_Inr)
next
  case (CMap entries)
  from CMap.prems obtain w1 where
    "d \<le> max_depth opt" "length entries \<le> max_container_length opt"
    "encode_entries opt (d + 1) w1 entries = Inr w'"
    by (auto elim!: and_then_eq_InrE simp: check_depth_eq_Inr container_limit_eq_Inr)
  with CMap.IH show ?case
    using encode_entries_Inr[of entries opt "d + 1" w1 w'] by fastforce
qed (auto elim!: and_then_eq_InrE simp: check_depth_eq_Inr encode_text_eq encode_number_Inr
    split: if_splits)

lemma encode_value_iff:
  assumes "writer_inv w"
  shows "encode_value opt d w v = Inr w' \<longleftrightarrow>
    enc_ok opt d v \<and> length (buffer w) + length (cbor_bytes v) \<le> writer_max_byte_length w \<and>
    w' = w\<lparr>buffer := buffer w @ cbor_bytes v\<rparr>"
  using encode_value_Inr[of opt d w v w'] encode_value_ok[OF _ assms, of opt d v]
  by (auto simp: write_bytes_eq split: if_splits)

lemma encode_cbor_iff:
  assumes "resolve_options options = Inr opt"
  shows "encode_cbor v options = Inr bs \<longleftrightarrow>
    enc_ok opt 0 v \<and> length (cbor_bytes v) \<le> max_byte_length opt \<and> bs = cbor_bytes v"
proof -
  let ?w = "new_writer (max_byte_length opt)"
  have "writer_inv ?w"
    by (simp add: new_writer_def writer_inv_def)
  note iff = encode_value_iff[OF this, of opt 0 v]
  have "encode_cbor v options = Inr bs \<longleftrightarrow> (\<exists>w'. encode_value opt 0 ?w v = Inr w' \<and> buffer w' = bs)"
    using assms by (cases "encode_value opt 0 ?w v") (auto simp: encode_cbor_def)
  then show ?thesis
    unfolding iff by (auto simp: new_writer_def)
qed

subsection \<open>The reader consumes from the front\<close>

definition remaining :: "CborReader \<Rightarrow> u8 list" where
  "remaining r = drop (offset r) (bytes r)"

definition skip :: "CborReader \<Rightarrow> nat \<Rightarrow> CborReader" where
  "skip r n = r\<lparr>offset := offset r + n\<rparr>"

lemma remaining_skip [simp]: "remaining (skip r n) = drop n (remaining r)"
  by (simp add: remaining_def skip_def add.commute)

lemma skip_skip [simp]: "skip (skip r m) n = skip r (m + n)"
  by (simp add: skip_def add.assoc)

lemma skip_0 [simp]: "skip r 0 = r"
  by (simp add: skip_def)

lemma read_byte_eq:
  "read_byte r = (case remaining r of [] \<Rightarrow> Inl truncated | b # _ \<Rightarrow> Inr (b, skip r 1))"
proof (cases "offset r < length (bytes r)")
  case True
  then have "remaining r = bytes r ! offset r # drop (Suc (offset r)) (bytes r)"
    by (simp add: remaining_def Cons_nth_drop_Suc)
  with True show ?thesis by (simp add: read_byte_def skip_def)
next
  case False
  then show ?thesis by (simp add: read_byte_def remaining_def)
qed

lemma read_bytes_eq:
  "read_bytes r n =
     (if length (remaining r) < n then Inl truncated else Inr (take n (remaining r), skip r n))"
  by (simp add: read_bytes_def remaining_def skip_def Let_def)

lemma read_bytes_append: "remaining r = xs @ ys \<Longrightarrow> read_bytes r (length xs) = Inr (xs, skip r (length xs))"
  by (simp add: read_bytes_eq)

lemma be_nat_numerals:
  "be_nat [a, b] = unat a * 0x100 + unat b"
  "be_nat [a, b, c, d] = unat a * 0x1000000 + unat b * 0x10000 + unat c * 0x100 + unat d"
  by (simp_all add: be_nat_def)

lemma read_argument_small: "ai < 24 \<Longrightarrow> read_argument r ai = Inr (unat ai, r)"
  by (simp add: read_argument.simps)

lemma list_of_length_2: "length xs = 2 \<Longrightarrow> xs = [xs ! 0, xs ! 1]"
  by (cases xs; cases "tl xs") auto

lemma list_of_length_4: "length xs = 4 \<Longrightarrow> xs = [xs ! 0, xs ! 1, xs ! 2, xs ! 3]"
  by (simp add: list_eq_iff_nth_eq less_Suc_eq numeral_eq_Suc)

lemma read_argument_24:
  "read_argument r 24 = and_then (read_bytes r 1) (\<lambda>(bs, r). Inr (be_nat bs, r))"
  by (auto simp: read_argument.simps read_byte_eq read_bytes_eq be_nat_def split: list.splits)

lemma read_argument_25:
  "read_argument r 25 = and_then (read_bytes r 2) (\<lambda>(bs, r). Inr (be_nat bs, r))"
proof (cases "length (remaining r) < 2")
  case True
  then show ?thesis by (simp add: read_argument.simps read_bytes_eq)
next
  case False
  then have "length (take 2 (remaining r)) = 2" by simp
  from be_nat_numerals(1)[of "take 2 (remaining r) ! 0" "take 2 (remaining r) ! 1",
      folded list_of_length_2[OF this]]
  show ?thesis
    using False by (simp add: read_argument.simps read_bytes_eq)
qed

lemma read_argument_26:
  "read_argument r 26 = and_then (read_bytes r 4) (\<lambda>(bs, r). Inr (be_nat bs, r))"
proof (cases "length (remaining r) < 4")
  case True
  then show ?thesis by (simp add: read_argument.simps read_bytes_eq)
next
  case False
  then have "length (take 4 (remaining r)) = 4" by simp
  from be_nat_numerals(2)[of "take 4 (remaining r) ! 0" "take 4 (remaining r) ! 1"
      "take 4 (remaining r) ! 2" "take 4 (remaining r) ! 3", folded list_of_length_4[OF this]]
  show ?thesis
    using False by (simp add: read_argument.simps read_bytes_eq)
qed

lemma read_argument_27:
  "read_argument r 27 =
     and_then (read_argument r 26) (\<lambda>(high, r).
     and_then (read_argument r 26) (\<lambda>(low, r).
     if 0x1fffff < high
     then Inl (CborErr ''Decoded CBOR integer or length is outside the safe range'')
     else Inr (high * UINT32_BASE + low, r)))"
  by (subst read_argument.simps) simp

lemma initial_byte:
  fixes m a :: u8
  assumes "m < 8" and "a < 32"
  shows "drop_bit 5 (push_bit 5 m OR a) = m" and "(push_bit 5 m OR a) AND 0x1f = a"
proof -
  have m: "take_bit 3 m = m" and a: "take_bit 5 a = a"
    using assms
    by (simp_all add: word_unat_eq_iff unsigned_take_bit_eq take_bit_nat_eq_self word_less_nat_alt)
  have "drop_bit 5 (push_bit 5 (take_bit 3 m) OR take_bit 5 a) = take_bit 3 m"
    by (rule bit_word_eqI) (auto simp: bit_simps)
  then show "drop_bit 5 (push_bit 5 m OR a) = m"
    by (simp add: m a)
  have "take_bit 5 (push_bit 5 m OR take_bit 5 a) = take_bit 5 a"
    by (rule bit_word_eqI) (auto simp: bit_simps)
  then have "take_bit 5 (push_bit 5 m OR a) = a"
    by (simp only: a)
  moreover have "x AND 0x1f = take_bit 5 x" for x :: u8
    by (simp add: take_bit_eq_mask mask_eq_exp_minus_1)
  ultimately show "(push_bit 5 m OR a) AND 0x1f = a"
    by simp
qed

lemma read_head:
  assumes "remaining r = cbor_head m n @ rest" and "m < 8" and "n < 2 ^ 53"
  shows "\<exists>ib. read_byte r = Inr (ib, skip r 1) \<and> drop_bit 5 ib = m \<and>
    read_argument (skip r 1) (ib AND 0x1f) = Inr (n, skip r (length (cbor_head m n))) \<and>
    ib AND 0x1f \<noteq> 31"
proof -
  have by_ai: "?thesis" if h: "cbor_head m n = (push_bit 5 m OR ai) # bs" and "ai < 28"
    and arg: "\<And>r'. remaining r' = bs @ rest \<Longrightarrow> read_argument r' ai = Inr (n, skip r' (length bs))"
    for ai bs
  proof (intro exI conjI)
    have "ai < 32"
      using \<open>ai < 28\<close> by (rule less_trans) simp
    note ib = initial_byte[OF assms(2) this]
    show "read_byte r = Inr (push_bit 5 m OR ai, skip r 1)"
      using assms(1) h by (simp add: read_byte_eq)
    show "drop_bit 5 (push_bit 5 m OR ai) = m" by (rule ib)
    show "read_argument (skip r 1) ((push_bit 5 m OR ai) AND 0x1f) =
        Inr (n, skip r (length (cbor_head m n)))"
      using arg[of "skip r 1"] assms(1) h ib(2) by simp
    show "(push_bit 5 m OR ai) AND 0x1f \<noteq> 31"
      using ib(2) \<open>ai < 28\<close> by auto
  qed
  have be: "read_bytes r' k = Inr (be_bytes k n, skip r' k)" if "remaining r' = be_bytes k n @ rest"
    for r' k
    using read_bytes_append[OF that] by simp
  consider "n < 24" | "24 \<le> n" "n \<le> 0xff" | "0xff < n" "n \<le> 0xffff" | "0xffff < n" "n \<le> MAX_UINT32"
    | "MAX_UINT32 < n"
    by linarith
  then show ?thesis
  proof cases
    case 1
    have n24: "(word_of_nat n :: u8) < 24"
      using 1 by (simp add: word_less_nat_alt)
    show ?thesis
    proof (rule by_ai[of "word_of_nat n" "[]"])
      show "cbor_head m n = (push_bit 5 m OR word_of_nat n) # []"
        using 1 by (simp add: cbor_head_def)
      show "(word_of_nat n :: u8) < 28"
        using n24 by (rule less_trans) simp
      show "read_argument r' (word_of_nat n) = Inr (n, skip r' (length []))" for r'
        using 1 by (simp add: read_argument_small[OF n24])
    qed
  next
    case 2
    then show ?thesis
      using be[of _ 1]
      by (intro by_ai[of 24 "be_bytes 1 n"])
        (simp_all add: cbor_head_def read_argument_24 be_nat_def)
  next
    case 3
    then show ?thesis
      using be[of _ 2]
      by (intro by_ai[of 25 "be_bytes 2 n"])
        (simp_all add: cbor_head_def read_argument_25 be_nat_be_bytes)
  next
    case 4
    then show ?thesis
      using be[of _ 4]
      by (intro by_ai[of 26 "be_bytes 4 n"])
        (simp_all add: cbor_head_def read_argument_26 be_nat_be_bytes MAX_UINT32_def)
  next
    case 5
    let ?h = "n div 256 ^ 4"
    have split: "be_bytes 8 n = be_bytes 4 ?h @ be_bytes 4 n"
      using be_bytes_append[of 4 4 n] by simp
    have h: "?h < 2 ^ 21"
      using assms(3) by (simp add: less_mult_imp_div_less)
    show ?thesis
    proof (rule by_ai[of 27 "be_bytes 8 n"])
      fix r' assume r': "remaining r' = be_bytes 8 n @ rest"
      have 1: "read_bytes r' 4 = Inr (be_bytes 4 ?h, skip r' 4)"
        using read_bytes_append[of r' "be_bytes 4 ?h" "be_bytes 4 n @ rest"] r' split by simp
      have 2: "read_bytes (skip r' 4) 4 = Inr (be_bytes 4 n, skip r' 8)"
        using read_bytes_append[of "skip r' 4" "be_bytes 4 n" rest] r' split by simp
      have "be_nat (be_bytes 4 ?h) = ?h"
        using h by (intro be_nat_be_bytes) simp
      moreover have "be_nat (be_bytes 4 n) = n mod 256 ^ 4"
        by (rule be_nat_be_bytes_mod)
      ultimately show "read_argument r' 27 = Inr (n, skip r' (length (be_bytes 8 n)))"
        using h by (simp add: read_argument_27 read_argument_26 1 2 UINT32_BASE_def)
    qed (use 5 in \<open>simp_all add: cbor_head_def MAX_UINT32_def\<close>)
  qed
qed

subsection \<open>Decoding what was encoded\<close>

lemma read_length_head:
  assumes "read_argument r ai = Inr (n, r')" and "ai \<noteq> 31" and "n \<le> limit"
  shows "read_length r ai kind limit = Inr (n, r')"
  using assms by (simp add: read_length_def)

lemma number_bytes_less:
  assumes "number_ok v" and "is_integer v"
  shows "f64_trunc_abs v < 2 ^ 53"
  using assms is_safe_integer_trunc by (simp add: number_ok_def)

lemma read_simple_float:
  assumes "remaining r = be_bytes 8 (unat v) @ rest" and "number_ok v"
  shows "read_simple r 27 = Inr (CNumber v, skip r 8)"
proof -
  have "be_nat (be_bytes 8 (unat v)) = unat v"
    using unat_f64_less[of v] by (intro be_nat_be_bytes) simp
  then have "word_of_nat (be_nat (be_bytes 8 (unat v))) = v" by simp
  moreover have "read_bytes r 8 = Inr (be_bytes 8 (unat v), skip r 8)"
    using read_bytes_append[OF assms(1)] by simp
  ultimately show ?thesis
    using assms(2) by (auto simp: read_simple_def number_ok_def Let_def)
qed

lemma read_number:
  assumes "remaining r = number_bytes v @ rest" and "number_ok v" and "d \<le> max_depth opt"
  shows "read_item opt d r = Inr (CNumber v, skip r (length (number_bytes v)))"
proof (cases "is_integer v \<and> \<not> is_negative_zero v")
  case False
  then have nb: "number_bytes v = 0xfb # be_bytes 8 (unat v)"
    by (auto simp: number_bytes_def)
  then have "read_byte r = Inr (0xfb, skip r 1)"
    using assms(1) by (simp add: read_byte_eq)
  moreover have "read_simple (skip r 1) 27 = Inr (CNumber v, skip r (length (number_bytes v)))"
    using read_simple_float[of "skip r 1" v rest] assms nb by simp
  ultimately show ?thesis
    using assms(3) by (simp add: read_item.simps)
next
  case True
  then have safe: "is_safe_integer v"
    using assms(2) by (simp add: number_ok_def)
  note small = is_safe_integer_trunc[OF safe]
  show ?thesis
  proof (cases "f64_ge_zero v")
    case ge: True
    then have nb: "number_bytes v = cbor_head 0 (f64_trunc_abs v)"
      using True by (simp add: number_bytes_def)
    obtain ib where ib: "read_byte r = Inr (ib, skip r 1)" "drop_bit 5 ib = 0"
      "read_argument (skip r 1) (ib AND 0x1f) = Inr (f64_trunc_abs v, skip r (length (number_bytes v)))"
      using read_head[of r 0 "f64_trunc_abs v" rest] assms(1) small nb by auto
    moreover have "f64_of_nat (f64_trunc_abs v) = v"
      using safe_integer_nonneg[OF safe _ ge] True by simp
    ultimately show ?thesis
      using assms(3) by (simp add: read_item.simps)
  next
    case ge: False
    note neg = safe_integer_neg[OF safe _ ge]
    let ?n = "f64_trunc_abs v - 1"
    have nb: "number_bytes v = cbor_head 1 ?n"
      using True ge by (simp add: number_bytes_def)
    have n53: "?n < 2 ^ 53"
      using small by simp
    obtain ib where ib: "read_byte r = Inr (ib, skip r 1)" "drop_bit 5 ib = 1"
      "read_argument (skip r 1) (ib AND 0x1f) = Inr (?n, skip r (length (number_bytes v)))"
      using read_head[of r 1 ?n rest] assms(1) n53 nb by auto
    have "f64_trunc (f64_of_nat ?n) = int ?n"
      using f64_of_nat_exact[OF n53] by (simp add: f64_trunc_def)
    then have "f64_minus_one_minus (f64_of_nat ?n) = f64_of_int (f64_trunc v)"
      using neg True by (simp add: f64_minus_one_minus_def)
    then have "f64_minus_one_minus (f64_of_nat ?n) = v"
      using neg True by simp
    with ib safe show ?thesis
      using assms(3) by (simp add: read_item.simps)
  qed
qed

lemma read_text:
  assumes "remaining r = text_bytes s @ rest" and "utf8_valid s"
    and "length s \<le> max_byte_length opt" and "max_byte_length opt \<le> MAX_UINT32"
    and "d \<le> max_depth opt"
  shows "read_item opt d r = Inr (CText s, skip r (length (text_bytes s)))"
proof -
  let ?h = "cbor_head 3 (length s)"
  have "length s < 2 ^ 53"
    using assms(3,4) by (simp add: MAX_UINT32_def)
  then obtain ib where ib: "read_byte r = Inr (ib, skip r 1)" "drop_bit 5 ib = 3"
    "read_argument (skip r 1) (ib AND 0x1f) = Inr (length s, skip r (length ?h))" "ib AND 0x1f \<noteq> 31"
    using read_head[of r 3 "length s" "as_bytes s @ rest"] assms(1) by (auto simp: text_bytes_def)
  have "read_bytes (skip r (length ?h)) (length s) = Inr (as_bytes s, skip r (length (text_bytes s)))"
    using read_bytes_append[of "skip r (length ?h)" "as_bytes s" rest] assms(1)
    by (simp add: text_bytes_def)
  with ib show ?thesis
    using assms read_length_head[OF ib(3,4) assms(3)]
    by (simp add: read_item.simps from_utf8_as_bytes)
qed

lemma read_items_ok:
  assumes "\<And>x r rest. x \<in> set items \<Longrightarrow> remaining r = cbor_bytes x @ rest \<Longrightarrow>
      read_item opt d r = Inr (x, skip r (length (cbor_bytes x)))"
    and "remaining r = concat (map cbor_bytes items) @ rest"
  shows "read_items opt d r (length items) = Inr (items, skip r (length (concat (map cbor_bytes items))))"
  using assms
proof (induction items arbitrary: r)
  case (Cons x items)
  have 1: "read_item opt d r = Inr (x, skip r (length (cbor_bytes x)))"
    using Cons.prems by (intro Cons.prems(1)) auto
  have "read_items opt d (skip r (length (cbor_bytes x))) (length items) =
    Inr (items, skip (skip r (length (cbor_bytes x))) (length (concat (map cbor_bytes items))))"
    using Cons.prems by (intro Cons.IH) auto
  with 1 show ?case by (simp add: add.assoc)
qed simp

lemma read_entries_ok:
  assumes "\<And>k v r rest. (k, v) \<in> set entries \<Longrightarrow> remaining r = cbor_bytes v @ rest \<Longrightarrow>
      read_item opt d r = Inr (v, skip r (length (cbor_bytes v)))"
    and "\<And>k v r rest. (k, v) \<in> set entries \<Longrightarrow> remaining r = text_bytes k @ rest \<Longrightarrow>
      read_item opt d r = Inr (CText k, skip r (length (text_bytes k)))"
    and "remaining r = concat (map (\<lambda>(k, v). text_bytes k @ cbor_bytes v) entries) @ rest"
    and "distinct (map fst entries)" and "keys \<inter> set (map fst entries) = {}"
  shows "read_entries opt d r keys (length entries) =
    Inr (entries, skip r (length (concat (map (\<lambda>(k, v). text_bytes k @ cbor_bytes v) entries))))"
  using assms
proof (induction entries arbitrary: r keys)
  case (Cons e entries)
  obtain k v where e: "e = (k, v)" by (cases e)
  let ?rest = "concat (map (\<lambda>(k, v). text_bytes k @ cbor_bytes v) entries) @ rest"
  have 1: "read_item opt d r = Inr (CText k, skip r (length (text_bytes k)))"
    using Cons.prems(2)[of k v r "cbor_bytes v @ ?rest"] Cons.prems(3) e by simp
  have 2: "read_item opt d (skip r (length (text_bytes k))) =
      Inr (v, skip r (length (text_bytes k) + length (cbor_bytes v)))"
    using Cons.prems(1)[of k v "skip r (length (text_bytes k))" ?rest] Cons.prems(3) e by simp
  have 3: "read_entries opt d (skip r (length (text_bytes k) + length (cbor_bytes v)))
      (insert k keys) (length entries) =
      Inr (entries, skip (skip r (length (text_bytes k) + length (cbor_bytes v)))
        (length (concat (map (\<lambda>(k, v). text_bytes k @ cbor_bytes v) entries))))"
  proof (rule Cons.IH)
    show "remaining (skip r (length (text_bytes k) + length (cbor_bytes v))) = ?rest"
      using Cons.prems(3) e by simp
    show "distinct (map fst entries)" "insert k keys \<inter> set (map fst entries) = {}"
      using Cons.prems(4,5) e by auto
    show "read_item opt d r' = Inr (v', skip r' (length (cbor_bytes v')))"
      if "(k', v') \<in> set entries" "remaining r' = cbor_bytes v' @ rest'" for k' v' r' rest'
      using that by (intro Cons.prems(1)) auto
    show "read_item opt d r' = Inr (CText k', skip r' (length (text_bytes k')))"
      if "(k', v') \<in> set entries" "remaining r' = text_bytes k' @ rest'" for k' v' r' rest'
      using that by (intro Cons.prems(2)) auto
  qed
  have "k \<notin> keys"
    using Cons.prems(5) e by auto
  with 1 2 3 show ?case by (simp add: e add.assoc)
qed simp

lemma read_item_ok:
  assumes "enc_ok opt d v" and "cbor_wf v" and "remaining r = cbor_bytes v @ rest"
    and "max_byte_length opt \<le> MAX_UINT32" and "max_container_length opt \<le> MAX_UINT32"
  shows "read_item opt d r = Inr (v, skip r (length (cbor_bytes v)))"
  using assms(1-3)
proof (induction v arbitrary: d r rest)
  case CNull
  then show ?case by (simp add: read_item.simps read_byte_eq read_simple_def)
next
  case (CBool b)
  then show ?case by (cases b) (simp_all add: read_item.simps read_byte_eq read_simple_def)
next
  case (CNumber v)
  then show ?case by (simp add: read_number)
next
  case (CText s)
  then show ?case using assms(4) by (simp add: read_text)
next
  case (CBytes bs)
  let ?h = "cbor_head 2 (length bs)"
  have "length bs < 2 ^ 53"
    using CBytes.prems assms(4) by (simp add: MAX_UINT32_def)
  then obtain ib where ib: "read_byte r = Inr (ib, skip r 1)" "drop_bit 5 ib = 2"
    "read_argument (skip r 1) (ib AND 0x1f) = Inr (length bs, skip r (length ?h))" "ib AND 0x1f \<noteq> 31"
    using read_head[of r 2 "length bs" "bs @ rest"] CBytes.prems by auto
  have "read_bytes (skip r (length ?h)) (length bs) = Inr (bs, skip r (length (?h @ bs)))"
    using read_bytes_append[of "skip r (length ?h)" bs rest] CBytes.prems by simp
  with ib show ?case
    using CBytes.prems read_length_head[OF ib(3,4), of "max_byte_length opt"]
    by (simp add: read_item.simps)
next
  case (CArray items)
  let ?h = "cbor_head 4 (length items)"
  have "length items < 2 ^ 53"
    using CArray.prems assms(5) by (simp add: MAX_UINT32_def)
  then obtain ib where ib: "read_byte r = Inr (ib, skip r 1)" "drop_bit 5 ib = 4"
    "read_argument (skip r 1) (ib AND 0x1f) = Inr (length items, skip r (length ?h))" "ib AND 0x1f \<noteq> 31"
    using read_head[of r 4 "length items" "concat (map cbor_bytes items) @ rest"] CArray.prems by auto
  have "read_items opt (d + 1) (skip r (length ?h)) (length items) =
      Inr (items, skip (skip r (length ?h)) (length (concat (map cbor_bytes items))))"
    using CArray by (intro read_items_ok[where rest = rest]) (auto simp: list_all_iff)
  with ib show ?case
    using CArray.prems read_length_head[OF ib(3,4), of "max_container_length opt"]
    by (simp add: read_item.simps)
next
  case (CMap entries)
  let ?h = "cbor_head 5 (length entries)"
  let ?body = "concat (map (\<lambda>(k, v). text_bytes k @ cbor_bytes v) entries)"
  have "length entries < 2 ^ 53"
    using CMap.prems assms(5) by (simp add: MAX_UINT32_def)
  then obtain ib where ib: "read_byte r = Inr (ib, skip r 1)" "drop_bit 5 ib = 5"
    "read_argument (skip r 1) (ib AND 0x1f) = Inr (length entries, skip r (length ?h))" "ib AND 0x1f \<noteq> 31"
    using read_head[of r 5 "length entries" "?body @ rest"] CMap.prems by auto
  have deeper: "d + 1 \<le> max_depth opt" if "(k, v) \<in> set entries" for k v
    using CMap.prems(1) that by (cases v) (fastforce simp: list_all_iff)+
  have "read_entries opt (d + 1) (skip r (length ?h)) {} (length entries) =
      Inr (entries, skip (skip r (length ?h)) (length ?body))"
  proof (rule read_entries_ok[where rest = rest])
    fix k v r rest assume e: "(k, v) \<in> set entries"
    show "remaining r = cbor_bytes v @ rest \<Longrightarrow>
        read_item opt (d + 1) r = Inr (v, skip r (length (cbor_bytes v)))"
      using CMap.IH[of "(k, v)" v "d + 1" r rest] CMap.prems e by (fastforce simp: list_all_iff)
    show "remaining r = text_bytes k @ rest \<Longrightarrow>
        read_item opt (d + 1) r = Inr (CText k, skip r (length (text_bytes k)))"
      using CMap.prems e assms(4) deeper[OF e]
      by (intro read_text[where rest = rest]) (auto simp: list_all_iff)
  qed (use CMap.prems in auto)
  with ib show ?case
    using CMap.prems read_length_head[OF ib(3,4), of "max_container_length opt"]
    by (simp add: read_item.simps)
qed

lemma decode_encode:
  assumes "encode_cbor v options = Inr bs" and "cbor_wf v"
  shows "decode_cbor bs options = Inr v"
proof -
  from assms(1) obtain opt where opt: "resolve_options options = Inr opt"
    by (auto simp: encode_cbor_def elim: and_then_eq_InrE)
  have ok: "enc_ok opt 0 v" "length bs \<le> max_byte_length opt" "bs = cbor_bytes v"
    using assms(1) encode_cbor_iff[OF opt] by auto
  let ?r = "\<lparr>bytes = bs, offset = 0\<rparr>"
  have "read_item opt 0 ?r = Inr (v, skip ?r (length bs))"
    using read_item_ok[OF ok(1) assms(2), of ?r "[]"] resolve_options_limits[OF opt] ok(3)
    by (simp add: remaining_def)
  then show ?thesis
    using opt ok(2) by (simp add: decode_cbor_def decode_def skip_def)
qed

subsection \<open>What a decoded value satisfies\<close>

text \<open>
  \<open>reads r r' k\<close>: the reader \<open>r'\<close> is \<open>r\<close> after consuming at least \<open>k\<close> bytes, without passing the
  end of the input.
\<close>

definition reads :: "CborReader \<Rightarrow> CborReader \<Rightarrow> nat \<Rightarrow> bool" where
  "reads r r' k \<longleftrightarrow> bytes r' = bytes r \<and> offset r + k \<le> offset r' \<and> offset r' \<le> length (bytes r)"

lemma reads_trans: "reads r r' j \<Longrightarrow> reads r' r'' k \<Longrightarrow> i \<le> j + k \<Longrightarrow> reads r r'' i"
  by (simp add: reads_def)

lemma read_byte_reads: "read_byte r = Inr (b, r') \<Longrightarrow> reads r r' 1"
  by (auto simp: read_byte_def reads_def split: if_splits)

lemma read_bytes_reads:
  "read_bytes r n = Inr (bs, r') \<Longrightarrow> offset r \<le> length (bytes r) \<Longrightarrow> reads r r' n \<and> length bs = n"
  by (auto simp: read_bytes_def reads_def Let_def split: if_splits)

lemma length_cbor_head_le:
  "length (cbor_head m n) \<le> 9"
  "n < 24 \<Longrightarrow> length (cbor_head m n) \<le> Suc 0"
  "n < 256 ^ 1 \<Longrightarrow> length (cbor_head m n) \<le> Suc 1"
  "n < 256 ^ 2 \<Longrightarrow> length (cbor_head m n) \<le> Suc 2"
  "n < 256 ^ 4 \<Longrightarrow> length (cbor_head m n) \<le> Suc 4"
  by (auto simp: cbor_head_def Let_def MAX_UINT32_def)

text \<open>An argument is a safe integer, and takes no fewer bytes than its shortest encoding.\<close>

lemma read_argument_Inr:
  assumes "read_argument r ai = Inr (n, r')" and "offset r \<le> length (bytes r)"
  shows "n < 2 ^ 53 \<and> (\<exists>k. reads r r' k \<and> (\<forall>m. length (cbor_head m n) \<le> Suc k))"
proof -
  have fixed: "n < 256 ^ k \<and> reads r r' k"
    if "and_then (read_bytes r k) (\<lambda>(bs, r). Inr (be_nat bs, r)) = Inr (n, r')"
      and "offset r \<le> length (bytes r)" for k r n r'
    using that read_bytes_reads[of r k] be_nat_less by (force elim!: and_then_eq_InrE)
  consider "ai < 24" | "ai = 24" | "ai = 25" | "ai = 26" | "ai = 27"
    using assms(1) by (auto simp: read_argument.simps[of r ai] split: if_splits)
  then show ?thesis
  proof cases
    case 1
    then have "n = unat ai" "r' = r" "n < 24"
      using assms(1) by (simp_all add: read_argument_small word_less_nat_alt)
    then show ?thesis
      using assms(2) length_cbor_head_le(2)[of n]
      by (intro conjI exI[of _ 0]) (simp_all add: reads_def)
  next
    case 2
    with assms fixed[of r 1 n r'] have "n < 256 ^ 1" "reads r r' 1"
      by (simp_all add: read_argument_24)
    then show ?thesis
      using length_cbor_head_le(3)[of n] by (intro conjI exI[of _ 1]) auto
  next
    case 3
    with assms fixed[of r 2 n r'] have "n < 256 ^ 2" "reads r r' 2"
      by (simp_all add: read_argument_25)
    then show ?thesis
      using length_cbor_head_le(4)[of n] by (intro conjI exI[of _ 2]) auto
  next
    case 4
    with assms fixed[of r 4 n r'] have "n < 256 ^ 4" "reads r r' 4"
      by (simp_all add: read_argument_26)
    then show ?thesis
      using length_cbor_head_le(5)[of n] by (intro conjI exI[of _ 4]) auto
  next
    case 5
    with assms(1) obtain high r1 low where hl: "read_argument r 26 = Inr (high, r1)"
      "read_argument r1 26 = Inr (low, r')" "high \<le> 0x1fffff" "n = high * UINT32_BASE + low"
      by (auto simp: read_argument_27 elim!: and_then_eq_InrE split: if_splits)
    have 1: "reads r r1 4"
      using fixed[of r 4 high r1] hl(1) assms(2) by (simp add: read_argument_26)
    then have "offset r1 \<le> length (bytes r1)"
      by (simp add: reads_def)
    then have 2: "low < 256 ^ 4" "reads r1 r' 4"
      using fixed[of r1 4 low r'] hl(2) by (simp_all add: read_argument_26)
    have "reads r r' 8"
      using reads_trans[OF 1 2(2)] by simp
    then show ?thesis
      using 2(1) hl(3,4) length_cbor_head_le(1)[of _ n]
      by (intro conjI exI[of _ 8]) (simp_all add: UINT32_BASE_def)
  qed
qed

lemma read_length_Inr:
  assumes "read_length r ai kind limit = Inr (n, r')"
  shows "read_argument r ai = Inr (n, r') \<and> n \<le> limit"
  using assms by (auto simp: read_length_def elim!: and_then_eq_InrE split: if_splits)

lemma number_ok_of_nat:
  assumes "n < 2 ^ 53"
  shows "number_ok (f64_of_nat n)" and "number_bytes (f64_of_nat n) = cbor_head 0 n"
proof -
  note ex = f64_of_nat_exact[OF assms]
  then have int: "is_integer (f64_of_nat n)"
    by (simp add: is_integer_def)
  then show "number_ok (f64_of_nat n)"
    using ex assms by (simp add: number_ok_def is_safe_integer_iff MAX_SAFE_INTEGER_def)
  show "number_bytes (f64_of_nat n) = cbor_head 0 n"
    using ex int
    by (simp add: number_bytes_def is_negative_zero_def f64_ge_zero_def f64_is_nan_def f64_is_finite_def)
qed

lemma number_ok_negative:
  assumes "n < 2 ^ 53" and "is_safe_integer (f64_minus_one_minus (f64_of_nat n))"
  shows "number_ok (f64_minus_one_minus (f64_of_nat n))"
    and "number_bytes (f64_minus_one_minus (f64_of_nat n)) = cbor_head 1 n"
proof -
  let ?i = "- 1 - int n"
  have eq: "f64_minus_one_minus (f64_of_nat n) = f64_of_int ?i"
    using f64_of_nat_exact[OF assms(1)] by (simp add: f64_minus_one_minus_def f64_trunc_def)
  show ok: "number_ok (f64_minus_one_minus (f64_of_nat n))"
    using assms(2) by (simp add: number_ok_def is_safe_integer_def is_integer_def)
  have "n \<noteq> 2 ^ 53 - 1"
  proof
    assume "n = 2 ^ 53 - 1"
    then have "?i = - (2 ^ 53)" by simp
    then have "f64_trunc_abs (f64_of_int ?i) = 2 ^ 53"
      using f64_of_int_min(3) by simp
    with assms(2) eq show False
      by (simp add: is_safe_integer_iff MAX_SAFE_INTEGER_def)
  qed
  then have "\<bar>?i\<bar> < 2 ^ 53"
    using assms(1) by (simp add: abs_less_iff)
  note ex = f64_of_int_exact[OF this]
  have tr: "f64_trunc_abs (f64_of_int ?i) = Suc n"
    using ex(5) by simp
  have "\<not> f64_is_zero (f64_of_int ?i)"
  proof
    assume "f64_is_zero (f64_of_int ?i)"
    then have "f64_trunc_abs (f64_of_int ?i) = 0"
      by (simp add: f64_is_zero_def f64_trunc_abs_def f64_significand_def f64_scale_def)
    with tr show False by simp
  qed
  then have "\<not> f64_ge_zero (f64_of_int ?i)" "\<not> is_negative_zero (f64_of_int ?i)"
    using ex(4) by (simp_all add: f64_ge_zero_def is_negative_zero_def)
  then show "number_bytes (f64_minus_one_minus (f64_of_nat n)) = cbor_head 1 n"
    using ex(1,2) tr by (simp add: eq number_bytes_def is_integer_def)
qed

lemma length_number_bytes: "length (number_bytes v) \<le> 9"
  using length_cbor_head_le(1) by (simp add: number_bytes_def)

lemma read_simple_Inr:
  assumes "read_simple r ai = Inr (v, r')" and "offset r \<le> length (bytes r)"
  shows "cbor_wf v \<and> (d \<le> max_depth opt \<longrightarrow> enc_ok opt d v) \<and>
    (\<exists>k. reads r r' k \<and> length (cbor_bytes v) \<le> Suc k)"
proof (cases "ai = 27")
  case True
  with assms(1) obtain bs where "read_bytes r 8 = Inr (bs, r')" and
    v: "v = CNumber (word_of_nat (be_nat bs))" "number_ok (word_of_nat (be_nat bs))"
    by (auto simp: read_simple_def number_ok_def Let_def elim!: and_then_eq_InrE split: if_splits)
  then have "reads r r' 8"
    using read_bytes_reads assms(2) by blast
  then show ?thesis
    using v length_number_bytes by (auto intro!: exI[of _ 8])
next
  case False
  with assms have "r' = r" "v = CNull \<or> (\<exists>b. v = CBool b)"
    by (auto simp: read_simple_def split: if_splits)
  then show ?thesis
    using assms(2) by (auto simp: reads_def intro!: exI[of _ 0])
qed

definition decoded ::
    "ResolvedCborOptions \<Rightarrow> nat \<Rightarrow> CborReader \<Rightarrow> CborReader \<Rightarrow> CborValue \<Rightarrow> bool" where
  "decoded opt d r r' v \<longleftrightarrow>
     cbor_wf v \<and> enc_ok opt d v \<and> reads r r' (length (cbor_bytes v))"

lemma decoded_head:
  assumes "read_byte r = Inr (ib, r1)" and "read_argument r1 ai = Inr (n, r2)"
  shows "n < 2 ^ 53" and "reads r r2 (length (cbor_head m n))"
proof -
  have 1: "reads r r1 1"
    using assms(1) by (rule read_byte_reads)
  then have "offset r1 \<le> length (bytes r1)"
    by (simp add: reads_def)
  from read_argument_Inr[OF assms(2) this] obtain k where
    k: "n < 2 ^ 53" "reads r1 r2 k" "length (cbor_head m n) \<le> Suc k" by blast
  show "n < 2 ^ 53" by (rule k)
  show "reads r r2 (length (cbor_head m n))"
    using reads_trans[OF 1 k(2)] k(3) by simp
qed

lemma reads_inv: "reads r r' k \<Longrightarrow> offset r' \<le> length (bytes r')"
  by (simp add: reads_def)

lemma read_items_decoded:
  assumes item: "\<And>r v r'. read_item opt d r = Inr (v, r') \<Longrightarrow> decoded opt d r r' v"
    and "offset r \<le> length (bytes r)" and "read_items opt d r n = Inr (items, r')"
  shows "length items = n \<and> list_all cbor_wf items \<and> list_all (enc_ok opt d) items \<and>
    reads r r' (length (concat (map cbor_bytes items)))"
  using assms(2,3)
proof (induction n arbitrary: r items)
  case 0
  then show ?case by (simp add: reads_def)
next
  case (Suc n)
  from Suc.prems(2) obtain x r1 xs where x: "read_item opt d r = Inr (x, r1)"
    and xs: "read_items opt d r1 n = Inr (xs, r')" and items: "items = x # xs"
    by (auto elim!: and_then_eq_InrE)
  have dx: "decoded opt d r r1 x"
    using x by (rule item)
  then have "offset r1 \<le> length (bytes r1)"
    by (auto simp: decoded_def intro: reads_inv)
  from Suc.IH[OF this xs] dx show ?case
    by (auto simp: items decoded_def intro: reads_trans)
qed

lemma read_entries_decoded:
  assumes item: "\<And>r v r'. read_item opt d r = Inr (v, r') \<Longrightarrow> decoded opt d r r' v"
    and "offset r \<le> length (bytes r)" and "read_entries opt d r keys n = Inr (entries, r')"
  shows "length entries = n \<and> distinct (map fst entries) \<and> keys \<inter> set (map fst entries) = {} \<and>
    list_all (\<lambda>(k, v). utf8_valid k \<and> cbor_wf v) entries \<and>
    list_all (\<lambda>(k, v). length k \<le> max_byte_length opt \<and> enc_ok opt d v) entries \<and>
    reads r r' (length (concat (map (\<lambda>(k, v). text_bytes k @ cbor_bytes v) entries)))"
  using assms(2,3)
proof (induction n arbitrary: r keys entries)
  case 0
  then show ?case by (simp add: reads_def)
next
  case (Suc n)
  from Suc.prems(2) obtain k r1 x r2 es where k: "read_item opt d r = Inr (CText k, r1)"
    and x: "read_item opt d r1 = Inr (x, r2)" and "k \<notin> keys"
    and es: "read_entries opt d r2 (insert k keys) n = Inr (es, r')" and entries: "entries = (k, x) # es"
    by (auto elim!: and_then_eq_InrE split: CborValue.splits if_splits)
  have dk: "decoded opt d r r1 (CText k)" and dx: "decoded opt d r1 r2 x"
    using k x by (auto intro: item)
  then have "offset r2 \<le> length (bytes r2)"
    by (auto simp: decoded_def intro: reads_inv)
  note IH = Suc.IH[OF this es]
  have "reads r r2 (length (text_bytes k) + length (cbor_bytes x))"
    using dk dx by (auto simp: decoded_def intro: reads_trans)
  with IH have "reads r r' (length (concat (map (\<lambda>(k, v). text_bytes k @ cbor_bytes v) entries)))"
    by (auto simp: entries intro: reads_trans)
  with IH dk dx \<open>k \<notin> keys\<close> show ?case
    by (auto simp: entries decoded_def)
qed

lemma read_item_decoded: "read_item opt d r = Inr (v, r') \<Longrightarrow> decoded opt d r r' v"
proof (induction "Suc (max_depth opt) - d" arbitrary: d r v r' rule: less_induct)
  case less
  from less.prems obtain ib r1 where d: "d \<le> max_depth opt" and ib: "read_byte r = Inr (ib, r1)"
    by (auto simp: read_item.simps[of opt d r] elim!: and_then_eq_InrE split: if_splits)
  then have deeper: "decoded opt (d + 1) s s' x" if "read_item opt (d + 1) s = Inr (x, s')" for s s' x
    using that by (intro less.hyps) auto
  let ?m = "drop_bit 5 ib" and ?ai = "ib AND 0x1f"
  note item = less.prems[unfolded read_item.simps[of opt d r] ib and_then_simps Let_def prod.case]
  have r1: "offset r1 \<le> length (bytes r1)"
    using read_byte_reads[OF ib] by (rule reads_inv)
  consider "?m = 0" | "?m = 1" | "?m = 2" | "?m = 3" | "?m = 4" | "?m = 5" | "?m = 7"
    using item d by (auto split: if_splits)
  then show ?case
  proof cases
    case 1
    then obtain n where n: "read_argument r1 ?ai = Inr (n, r')" "v = CNumber (f64_of_nat n)"
      using item d by (auto elim!: and_then_eq_InrE)
    then show ?thesis
      using decoded_head(1)[OF ib n(1)] decoded_head(2)[OF ib n(1), of 0] number_ok_of_nat d by (simp add: decoded_def)
  next
    case 2
    then obtain n where n: "read_argument r1 ?ai = Inr (n, r')"
      "v = CNumber (f64_minus_one_minus (f64_of_nat n))" "is_safe_integer (f64_minus_one_minus (f64_of_nat n))"
      using item d by (auto elim!: and_then_eq_InrE split: if_splits)
    then show ?thesis
      using decoded_head(1)[OF ib n(1)] decoded_head(2)[OF ib n(1), of 1] number_ok_negative[OF _ n(3)] d by (simp add: decoded_def)
  next
    case 3
    then obtain n r2 bs where n: "read_length r1 ?ai ''byte string'' (max_byte_length opt) = Inr (n, r2)"
      "read_bytes r2 n = Inr (bs, r')" "v = CBytes bs"
      using item d by (auto elim!: and_then_eq_InrE)
    note n1 = read_length_Inr[OF n(1)]
    note h = decoded_head(2)[OF ib n1[THEN conjunct1], of 2]
    have "reads r2 r' n" "length bs = n"
      using read_bytes_reads[OF n(2) reads_inv[OF h]] by auto
    then show ?thesis
      using reads_trans[OF h] n1 n(3) d by (simp add: decoded_def)
  next
    case 4
    then obtain n r2 bs s where n: "read_length r1 ?ai ''text string'' (max_byte_length opt) = Inr (n, r2)"
      "read_bytes r2 n = Inr (bs, r')" "from_utf8 bs = Some s" "v = CText s"
      using item d by (auto elim!: and_then_eq_InrE split: option.splits)
    note n1 = read_length_Inr[OF n(1)]
    note h = decoded_head(2)[OF ib n1[THEN conjunct1], of 3]
    have "reads r2 r' n" "length bs = n"
      using read_bytes_reads[OF n(2) reads_inv[OF h]] by auto
    then show ?thesis
      using reads_trans[OF h] n1 n(3,4) d
      by (auto simp: decoded_def from_utf8_eq_Some_iff text_bytes_def)
  next
    case 5
    then obtain n r2 xs where n: "read_length r1 ?ai ''array'' (max_container_length opt) = Inr (n, r2)"
      "read_items opt (d + 1) r2 n = Inr (xs, r')" "v = CArray xs"
      using item d by (auto elim!: and_then_eq_InrE)
    note n1 = read_length_Inr[OF n(1)]
    note h = decoded_head(2)[OF ib n1[THEN conjunct1], of 4]
    from read_items_decoded[OF deeper reads_inv[OF h] n(2)] show ?thesis
      using reads_trans[OF h] n1 n(3) d by (auto simp: decoded_def)
  next
    case 6
    then obtain n r2 es where n: "read_length r1 ?ai ''map'' (max_container_length opt) = Inr (n, r2)"
      "read_entries opt (d + 1) r2 {} n = Inr (es, r')" "v = CMap es"
      using item d by (auto elim!: and_then_eq_InrE)
    note n1 = read_length_Inr[OF n(1)]
    note h = decoded_head(2)[OF ib n1[THEN conjunct1], of 5]
    from read_entries_decoded[OF deeper reads_inv[OF h] n(2)] show ?thesis
      using reads_trans[OF h] n1 n(3) d by (auto simp: decoded_def)
  next
    case 7
    then have "read_simple r1 ?ai = Inr (v, r')"
      using item d by simp
    from read_simple_Inr[OF this r1, of d opt] show ?thesis
      using reads_trans[OF read_byte_reads[OF ib]] d by (auto simp: decoded_def)
  qed
qed

lemma decode_cbor_sound:
  assumes "decode_cbor bs options = Inr v"
  obtains opt where "resolve_options options = Inr opt" and "cbor_wf v" and "enc_ok opt 0 v"
    and "length (cbor_bytes v) \<le> length bs" and "length bs \<le> max_byte_length opt"
proof -
  let ?r = "\<lparr>bytes = bs, offset = 0\<rparr>"
  from assms obtain opt r' where opt: "resolve_options options = Inr opt"
    and len: "length bs \<le> max_byte_length opt" and item: "read_item opt 0 ?r = Inr (v, r')"
    by (auto simp: decode_cbor_def decode_def elim!: and_then_eq_InrE split: if_splits)
  have "decoded opt 0 ?r r' v"
    using item by (rule read_item_decoded)
  then show thesis
    using that[OF opt] len by (auto simp: decoded_def reads_def)
qed

subsection \<open>Properties\<close>

text \<open>For evaluating the encoder at concrete values.\<close>

lemmas encoder_eval = encode_cbor_def check_depth_def container_limit_def write_argument_def write_byte_def
  new_writer_def ensure_capacity_def write_bytes_def encode_text_def as_bytes_def

text \<open>
  C1: what the encoder writes, the decoder reads back: for every value the Rust type and the
  protocol's producers guarantee (UTF-8 text, distinct keys), if \<open>encode_cbor\<close> accepts it under some
  options then \<open>decode_cbor\<close> under the same options returns exactly that value.
\<close>

theorem cbor_decode_encode:
  assumes "encode_cbor v options = Inr bs" and "cbor_wf v"
  shows "decode_cbor bs options = Inr v"
  using assms by (rule decode_encode)

theorem cbor_decode_encode_witness:
  "decode_cbor [0xa1, 0x61, 0x61, 0x82, 0xf5, 0xf6] None = Inr (CMap [(''a'', CArray [CBool True, CNull])])"
  by (rule cbor_decode_encode) (simp_all add: encoder_eval options_eval utf8_valid_def)

text \<open>
  The decoder accepts only values the encoder can write back under the same limits. A decoded
  value is well formed (UTF-8, no duplicate key), re-encodes without error to at most as many bytes
  as were read, and decoding that canonical form gives the same value again.
\<close>

theorem cbor_decoded_reencodes:
  assumes "decode_cbor bs options = Inr v"
  shows "cbor_wf v \<and> (\<exists>bs'. encode_cbor v options = Inr bs' \<and> length bs' \<le> length bs \<and>
    decode_cbor bs' options = Inr v)"
proof -
  from assms obtain opt where opt: "resolve_options options = Inr opt" and v: "cbor_wf v" "enc_ok opt 0 v"
    and len: "length (cbor_bytes v) \<le> length bs" "length bs \<le> max_byte_length opt"
    by (rule decode_cbor_sound)
  then have "encode_cbor v options = Inr (cbor_bytes v)"
    by (simp add: encode_cbor_iff)
  with v len decode_encode show ?thesis by blast
qed

theorem cbor_decoded_reencodes_witness:
  "cbor_wf (CNumber (f64_of_nat 5)) \<and> (\<exists>bs'. encode_cbor (CNumber (f64_of_nat 5)) None = Inr bs' \<and>
    length bs' \<le> length [0x19, 0x00, 0x05 :: u8] \<and> decode_cbor bs' None = Inr (CNumber (f64_of_nat 5)))"
  by (rule cbor_decoded_reencodes)
    (simp add: decode_cbor_def decode_def options_eval read_item.simps[of _ _ "\<lparr>bytes = _, offset = _\<rparr>"]
      read_byte_def read_bytes_def read_argument.simps drop_bit_eq_div)

text \<open>
  C2: the encoder is exact about its limits. Under resolved options it succeeds precisely on the
  values whose nesting, container sizes, text and byte lengths and numbers are within the limits
  (\<open>enc_ok\<close>) and whose encoding fits the byte limit, and it then returns that encoding.
\<close>

theorem cbor_encode_exact:
  assumes "resolve_options options = Inr opt"
  shows "encode_cbor v options = Inr bs \<longleftrightarrow>
    enc_ok opt 0 v \<and> length (cbor_bytes v) \<le> max_byte_length opt \<and> bs = cbor_bytes v"
  using assms by (rule encode_cbor_iff)

theorem cbor_encode_exact_witness:
  "encode_cbor (CArray [CArray []]) (Some (default_CborOptions\<lparr>opt_max_depth := Some 0\<rparr>)) = Inr [0x81, 0x80] \<longleftrightarrow>
    enc_ok \<lparr>max_byte_length = 16777216, max_container_length = 1000000, max_depth = 0\<rparr> 0 (CArray [CArray []]) \<and>
    length (cbor_bytes (CArray [CArray []])) \<le>
      max_byte_length \<lparr>max_byte_length = 16777216, max_container_length = 1000000, max_depth = 0\<rparr> \<and>
    [0x81, 0x80] = cbor_bytes (CArray [CArray []])"
  by (rule cbor_encode_exact) (simp add: options_eval)

end
