(* ===== verification/Framing.thy ===== *)
theory Framing
  imports Prelude
begin

text \<open>
  Length-prefixed framing (\<open>crates/notagent-protocol/src/framing.rs\<close>).

  \<^item> \<open>encode_frame\<close>, \<open>assert_complete_frame\<close> and the incremental \<open>FrameDecoder\<close> with its four-byte
    header buffer, its 64 KiB payload blocks and its three states. The loop of \<open>push\<close> is a
    \<open>partial_function\<close>: \<open>None\<close> stands for a panic (a slice out of range, the \<open>expect\<close>) and for not
    returning, and both are proved impossible on every decoder the constructor and the operations
    produce.
  \<^item> The specification \<open>split_frames\<close> cuts a whole byte string into frames; \<open>pending\<close> is the
    abstraction, the bytes of the frame being received. \<open>push\<close> refines \<open>split_frames\<close>.
  \<^item> The locale \<open>stream_decoder\<close> is the contract of an incremental decoder; it gives independence
    of the chunking, and is interpreted here on \<open>FrameDecoder\<close> and in \<open>Codec\<close> on the message
    decoder built from it.
\<close>

subsection \<open>Model\<close>

definition FRAME_HEADER_LENGTH :: nat where "FRAME_HEADER_LENGTH = 4"
definition MAX_UINT32 :: nat where "MAX_UINT32 = 0xffffffff"
definition PAYLOAD_BLOCK_SIZE :: nat where "PAYLOAD_BLOCK_SIZE = 64 * 1024"
definition DEFAULT_MAX_FRAME_LENGTH :: nat where "DEFAULT_MAX_FRAME_LENGTH = 16 * 1024 * 1024"

record FrameDecoderOptions =
  opt_max_frame_length :: "nat option"

definition with_max_frame_length :: "nat \<Rightarrow> FrameDecoderOptions" where
  "with_max_frame_length n = \<lparr>opt_max_frame_length = Some n\<rparr>"

datatype FrameError = Frame string | Range string

fun frame_error_message :: "FrameError \<Rightarrow> string" where
  "frame_error_message (Frame m) = m"
| "frame_error_message (Range m) = m"

text \<open>The limit an options value asks for, the default where it asks for none.\<close>

definition requested_max_frame_length :: "FrameDecoderOptions option \<Rightarrow> nat" where
  "requested_max_frame_length options =
    (case Option.bind options opt_max_frame_length of None \<Rightarrow> DEFAULT_MAX_FRAME_LENGTH | Some n \<Rightarrow> n)"

definition resolve_max_frame_length :: "FrameDecoderOptions option \<Rightarrow> FrameError + nat" where
  "resolve_max_frame_length options =
    (let value = requested_max_frame_length options in
     if value > MAX_UINT32
     then Inl (Range (''maxFrameLength must be an integer between 0 and '' @ show_nat MAX_UINT32))
     else Inr value)"

definition encode_frame :: "u8 list \<Rightarrow> FrameError + u8 list" where
  "encode_frame payload =
    (if length payload > MAX_UINT32
     then Inl (Range ''Frame payload exceeds the unsigned 32-bit length limit'')
     else Inr (be_bytes 4 (unat (word_of_nat (length payload) :: u32)) @ payload))"

definition read_frame_length :: "u8 list \<Rightarrow> nat" where
  "read_frame_length h =
    unat (h ! 0) * 0x1000000 + unat (h ! 1) * 0x10000 + unat (h ! 2) * 0x100 + unat (h ! 3)"

definition exceeds_limit :: "nat \<Rightarrow> nat \<Rightarrow> string" where
  "exceeds_limit n limit =
    ''Frame length '' @ show_nat n @ '' exceeds configured limit of '' @ show_nat limit"

definition assert_complete_frame ::
    "u8 list \<Rightarrow> FrameDecoderOptions option \<Rightarrow> FrameError + unit" where
  "assert_complete_frame frame options =
    (if length frame < FRAME_HEADER_LENGTH
     then Inl (Frame ''Frame does not contain a complete length prefix'')
     else let n = read_frame_length frame in
       and_then (resolve_max_frame_length options) (\<lambda>limit.
         if n > limit then Inl (Frame (exceeds_limit n limit))
         else if length frame \<noteq> FRAME_HEADER_LENGTH + n
         then Inl (Frame ''Frame must contain exactly one complete payload'')
         else Inr ()))"

datatype DecoderState = Open | Ended | Failed

record FrameDecoder =
  header :: "u8 list"
  header_length :: nat
  max_frame_length :: nat
  payload_blocks :: "u8 list list"
  payload_length :: nat
  expected_payload_length :: "nat option"
  state :: DecoderState

definition frame_decoder_new :: "FrameDecoderOptions option \<Rightarrow> FrameError + FrameDecoder" where
  "frame_decoder_new options =
    map_ok (\<lambda>limit. \<lparr>header = replicate FRAME_HEADER_LENGTH 0, header_length = 0,
        max_frame_length = limit, payload_blocks = [], payload_length = 0,
        expected_payload_length = None, state = Open\<rparr>)
      (resolve_max_frame_length options)"

text \<open>\<open>fail\<close>: the decoder it leaves; the error is the message given.\<close>

definition fail :: "FrameDecoder \<Rightarrow> FrameDecoder" where
  "fail d = d\<lparr>state := Failed, header_length := 0, payload_blocks := [],
     expected_payload_length := None, payload_length := 0\<rparr>"

text \<open>
  One round of the payload loop: \<open>n\<close> is the expected length, \<open>off\<close> the offset in the chunk. \<open>None\<close> is
  the panic of \<open>last_mut().expect(..)\<close>.
\<close>

definition fill_block ::
    "nat \<Rightarrow> u8 list \<Rightarrow> nat \<Rightarrow> FrameDecoder \<Rightarrow> (nat \<times> FrameDecoder) option" where
  "fill_block n chunk off d =
    (let offset_in_block = payload_length d mod PAYLOAD_BLOCK_SIZE;
         blocks = (if offset_in_block = 0 then payload_blocks d @ [[]] else payload_blocks d);
         block_free = min (PAYLOAD_BLOCK_SIZE - offset_in_block) (n - payload_length d);
         payload_bytes = min block_free (length chunk - off)
     in if blocks = [] then None
        else Some (off + payload_bytes,
          d\<lparr>payload_blocks := butlast blocks @ [last blocks @ take payload_bytes (drop off chunk)],
            payload_length := payload_length d + payload_bytes\<rparr>))"

text \<open>The payload loop.\<close>

partial_function (option) fill_payload ::
    "nat \<Rightarrow> u8 list \<Rightarrow> nat \<Rightarrow> FrameDecoder \<Rightarrow> (nat \<times> FrameDecoder) option" where
  "fill_payload n chunk off d =
    (if off < length chunk \<and> payload_length d < n
     then Option.bind (fill_block n chunk off d) (\<lambda>s. fill_payload n chunk (fst s) (snd s))
     else Some (off, d))"

text \<open>
  The header phase of a round: the bytes copied into the header, and what the round does next: go
  on with the next round (\<open>continue\<close>), fail, or receive a payload of known length.
\<close>

datatype header_outcome = Continue "u8 list list" | Oversize string | Receive

definition copy_header :: "u8 list \<Rightarrow> nat \<Rightarrow> FrameDecoder \<Rightarrow> (nat \<times> FrameDecoder) option" where
  "copy_header chunk off d =
    (if header_length d > FRAME_HEADER_LENGTH then None
     else let header_bytes = min (FRAME_HEADER_LENGTH - header_length d) (length chunk - off) in
       Some (off + header_bytes,
         d\<lparr>header := take (header_length d) (header d) @ take header_bytes (drop off chunk)
             @ drop (header_length d + header_bytes) (header d),
           header_length := header_length d + header_bytes\<rparr>))"

definition read_header :: "FrameDecoder \<Rightarrow> header_outcome \<times> FrameDecoder" where
  "read_header d =
    (if header_length d < FRAME_HEADER_LENGTH then (Continue [], d)
     else let n = read_frame_length (header d); d1 = d\<lparr>header_length := 0\<rparr> in
       if n > max_frame_length d1
       then (Oversize (exceeds_limit n (max_frame_length d1)), fail d1)
       else if n = 0 then (Continue [[]], d1)
       else (Receive, d1\<lparr>expected_payload_length := Some n, payload_blocks := [], payload_length := 0\<rparr>))"

text \<open>The frame taken out once its payload is complete.\<close>

definition finish_payload :: "FrameDecoder \<Rightarrow> u8 list \<times> FrameDecoder" where
  "finish_payload d =
    (if length (payload_blocks d) = 1 then hd (payload_blocks d) else concat (payload_blocks d),
     d\<lparr>payload_blocks := [], expected_payload_length := None, payload_length := 0\<rparr>)"

text \<open>The loop of \<open>push\<close>: the result with the decoder it leaves, or \<open>None\<close>.\<close>

partial_function (option) push_loop ::
    "u8 list \<Rightarrow> nat \<Rightarrow> u8 list list \<Rightarrow> FrameDecoder \<Rightarrow>
      ((FrameError + u8 list list) \<times> FrameDecoder) option" where
  "push_loop chunk off frames d =
    (if off < length chunk then
       Option.bind
         (if expected_payload_length d = None
          then Option.bind (copy_header chunk off d) (\<lambda>s. Some (fst s, read_header (snd s)))
          else Some (off, Receive, d))
         (\<lambda>s. case fst (snd s) of
            Continue fs \<Rightarrow> push_loop chunk (fst s) (frames @ fs) (snd (snd s))
          | Oversize m \<Rightarrow> Some (Inl (Frame m), snd (snd s))
          | Receive \<Rightarrow>
              (case expected_payload_length (snd (snd s)) of
                 None \<Rightarrow> push_loop chunk (fst s) frames (snd (snd s))
               | Some n \<Rightarrow>
                   Option.bind (fill_payload n chunk (fst s) (snd (snd s))) (\<lambda>t.
                     if payload_length (snd t) = n
                     then push_loop chunk (fst t) (frames @ [fst (finish_payload (snd t))])
                       (snd (finish_payload (snd t)))
                     else push_loop chunk (fst t) frames (snd t))))
     else Some (Inr frames, d))"

definition not_open :: "DecoderState \<Rightarrow> FrameError option" where
  "not_open s = (case s of
     Ended \<Rightarrow> Some (Frame ''Frame decoder has ended'')
   | Failed \<Rightarrow> Some (Frame ''Frame decoder has failed'')
   | Open \<Rightarrow> None)"

definition frame_push ::
    "FrameDecoder \<Rightarrow> u8 list \<Rightarrow> ((FrameError + u8 list list) \<times> FrameDecoder) option" where
  "frame_push d chunk =
    (case not_open (state d) of Some e \<Rightarrow> Some (Inl e, d) | None \<Rightarrow> push_loop chunk 0 [] d)"

definition frame_end :: "FrameDecoder \<Rightarrow> (FrameError + unit) \<times> FrameDecoder" where
  "frame_end d =
    (case not_open (state d) of
       Some e \<Rightarrow> (Inl e, d)
     | None \<Rightarrow>
         if header_length d \<noteq> 0 \<or> expected_payload_length d \<noteq> None
         then (Inl (Frame ''Truncated frame at end of stream''), fail d)
         else (Inr (), d\<lparr>state := Ended\<rparr>))"

subsection \<open>Specification\<close>

text \<open>
  \<open>split_frames limit bs\<close>: the complete frames of \<open>bs\<close> and the bytes after them, or the error of the
  first length prefix over the limit.
\<close>

function split_frames :: "nat \<Rightarrow> u8 list \<Rightarrow> FrameError + (u8 list list \<times> u8 list)" where
  "split_frames limit bs =
    (if length bs < 4 then Inr ([], bs)
     else let n = be_nat (take 4 bs) in
       if n > limit then Inl (Frame (exceeds_limit n limit))
       else if length bs < 4 + n then Inr ([], bs)
       else map_ok (\<lambda>(fs, rest). (take n (drop 4 bs) # fs, rest)) (split_frames limit (drop (4 + n) bs)))"
  by pat_completeness auto
termination
  by (relation "measure (\<lambda>(_, bs). length bs)") auto

declare split_frames.simps [simp del]

text \<open>The bytes received of the frame that is not complete yet.\<close>

definition pending :: "FrameDecoder \<Rightarrow> u8 list" where
  "pending d = (case expected_payload_length d of
     None \<Rightarrow> take (header_length d) (header d)
   | Some n \<Rightarrow> be_bytes 4 n @ concat (payload_blocks d))"

text \<open>
  The invariant of an open decoder: a header in progress, or a payload of known length within the
  limit, with as many blocks as its received bytes fill.
\<close>

definition blocks_for :: "nat \<Rightarrow> nat" where
  "blocks_for k = (k + (PAYLOAD_BLOCK_SIZE - 1)) div PAYLOAD_BLOCK_SIZE"

definition frame_inv :: "nat \<Rightarrow> FrameDecoder \<Rightarrow> bool" where
  "frame_inv limit d \<longleftrightarrow>
    state d = Open \<and> max_frame_length d = limit \<and> limit \<le> MAX_UINT32 \<and>
    length (header d) = FRAME_HEADER_LENGTH \<and> header_length d < FRAME_HEADER_LENGTH \<and>
    length (concat (payload_blocks d)) = payload_length d \<and>
    length (payload_blocks d) = blocks_for (payload_length d) \<and>
    (case expected_payload_length d of
       None \<Rightarrow> payload_length d = 0
     | Some n \<Rightarrow> header_length d = 0 \<and> payload_length d < n \<and> n \<le> limit)"

subsection \<open>The specification\<close>

lemma read_frame_length_eq: "length h \<ge> 4 \<Longrightarrow> read_frame_length h = be_nat (take 4 h)"
proof -
  assume "length h \<ge> 4"
  then have "Suc (Suc (Suc (Suc 0))) \<le> length h" by simp
  then obtain a b c d hs where h: "h = a # b # c # d # hs"
    by (auto simp: Suc_le_length_iff)
  show ?thesis
    by (simp add: h read_frame_length_def be_nat_def)
qed

lemma split_frames_short: "length bs < 4 \<Longrightarrow> split_frames limit bs = Inr ([], bs)"
  by (simp add: split_frames.simps)

text \<open>The three outcomes on a byte string that starts with the header of a frame of length \<open>n\<close>.\<close>

lemma split_frames_header:
  assumes "n < 2 ^ 32"
  shows "split_frames limit (be_bytes 4 n @ bs) =
    (if n > limit then Inl (Frame (exceeds_limit n limit))
     else if length bs < n then Inr ([], be_bytes 4 n @ bs)
     else map_ok (\<lambda>(fs, rest). (take n bs # fs, rest)) (split_frames limit (drop n bs)))"
  using be_nat_be_bytes[of n 4] assms
  by (subst split_frames.simps) (simp add: Let_def del: be_bytes.simps)

text \<open>Cutting a string in two and going on with the rest gives the same frames.\<close>

lemma split_frames_append:
  "split_frames limit (a @ b) = and_then (split_frames limit a) (\<lambda>(fs, rest).
     map_ok (\<lambda>(gs, r). (fs @ gs, r)) (split_frames limit (rest @ b)))"
proof (induction limit a rule: split_frames.induct)
  case (1 limit a)
  show ?case
  proof (cases "length a < 4")
    case True
    then show ?thesis by (cases "split_frames limit (a @ b)") (auto simp: split_frames_short)
  next
    case False
    define n where "n = be_nat (take 4 a)"
    have n: "n < 2 ^ 32"
      using be_nat_less[of "take 4 a"] False by (simp add: n_def)
    have a: "a = be_bytes 4 n @ drop 4 a"
      using False by (simp add: n_def be_bytes_be_nat del: be_bytes.simps)
    note spl = split_frames_header[OF n]
    consider "n > limit" | "n \<le> limit" "length (drop 4 a) < n" | "n \<le> limit" "n \<le> length (drop 4 a)"
      by linarith
    then show ?thesis
    proof cases
      case 1
      then show ?thesis
        by (subst (1 2) a) (simp add: spl del: be_bytes.simps)
    next
      case 2
      then have "split_frames limit a = Inr ([], a)"
        by (subst a, subst spl) (use a in simp)
      then show ?thesis
        by (cases "split_frames limit (a @ b)") auto
    next
      case 3
      then have IH: "split_frames limit (drop (4 + n) a @ b) = and_then (split_frames limit (drop (4 + n) a))
          (\<lambda>(fs, rest). map_ok (\<lambda>(gs, r). (fs @ gs, r)) (split_frames limit (rest @ b)))"
        using "1.IH"[OF False n_def] False by simp
      have "split_frames limit a = map_ok (\<lambda>(fs, rest). (take n (drop 4 a) # fs, rest))
          (split_frames limit (drop (4 + n) a))"
        by (subst a, subst spl) (use 3 in \<open>simp add: add.commute\<close>)
      moreover have "split_frames limit (a @ b) = map_ok (\<lambda>(fs, rest). (take n (drop 4 a) # fs, rest))
          (split_frames limit (drop (4 + n) a @ b))"
        by (subst a, subst append_assoc, subst spl) (use 3 in \<open>simp add: add.commute\<close>)
      ultimately show ?thesis
        using IH by (cases "split_frames limit (drop (4 + n) a)")
          (auto split: sum.splits prod.splits simp: map_ok_def)
    qed
  qed
qed

text \<open>The rest holds no complete frame.\<close>

lemma split_frames_rest:
  "split_frames limit bs = Inr (fs, rest) \<Longrightarrow> split_frames limit rest = Inr ([], rest)"
proof (induction limit bs arbitrary: fs rule: split_frames.induct)
  case (1 limit bs)
  show ?case
  proof (cases "length bs < 4 \<or> length bs < 4 + be_nat (take 4 bs)")
    case True
    then have "rest = bs \<and> fs = []"
      using "1.prems" by (subst (asm) split_frames.simps) (auto simp: Let_def split: if_splits)
    then show ?thesis
      using "1.prems" by simp
  next
    case False
    then obtain gs where "\<not> be_nat (take 4 bs) > limit"
      and "split_frames limit (drop (4 + be_nat (take 4 bs)) bs) = Inr (gs, rest)"
      using "1.prems" by (subst (asm) split_frames.simps) (auto simp: Let_def map_ok_def split: if_splits sum.splits)
    then show ?thesis
      using "1.IH" False by blast
  qed
qed

subsection \<open>The decoder refines the specification\<close>

lemma blocks_for_0 [simp]: "blocks_for 0 = 0"
  by (simp add: blocks_for_def PAYLOAD_BLOCK_SIZE_def)

lemma blocks_for_add:
  assumes "0 < k" and "k \<le> PAYLOAD_BLOCK_SIZE - pl mod PAYLOAD_BLOCK_SIZE"
  shows "blocks_for (pl + k) = blocks_for pl + (if pl mod PAYLOAD_BLOCK_SIZE = 0 then 1 else 0)"
proof -
  define q where "q = pl div PAYLOAD_BLOCK_SIZE"
  define m where "m = pl mod PAYLOAD_BLOCK_SIZE"
  have pl: "pl = PAYLOAD_BLOCK_SIZE * q + m" and m: "m < PAYLOAD_BLOCK_SIZE"
    by (simp_all add: q_def m_def PAYLOAD_BLOCK_SIZE_def)
  have div: "(PAYLOAD_BLOCK_SIZE * p + x) div PAYLOAD_BLOCK_SIZE = p" if "x < PAYLOAD_BLOCK_SIZE" for p x
    using that by simp
  show ?thesis
  proof (cases "m = 0")
    case True
    then have "pl + k + (PAYLOAD_BLOCK_SIZE - 1) = PAYLOAD_BLOCK_SIZE * (q + 1) + (k - 1)"
      and "pl + (PAYLOAD_BLOCK_SIZE - 1) = PAYLOAD_BLOCK_SIZE * q + (PAYLOAD_BLOCK_SIZE - 1)"
      using pl assms m by (auto simp: PAYLOAD_BLOCK_SIZE_def)
    then have "blocks_for (pl + k) = q + 1" and "blocks_for pl = q"
      using assms True unfolding blocks_for_def m_def[symmetric]
      by (simp_all only:) (rule div; simp add: PAYLOAD_BLOCK_SIZE_def)+
    then show ?thesis
      using True by (simp add: m_def)
  next
    case False
    then have "pl + k + (PAYLOAD_BLOCK_SIZE - 1) = PAYLOAD_BLOCK_SIZE * (q + 1) + (m + k - 1)"
      and "pl + (PAYLOAD_BLOCK_SIZE - 1) = PAYLOAD_BLOCK_SIZE * (q + 1) + (m - 1)"
      using pl assms m by (auto simp: PAYLOAD_BLOCK_SIZE_def)
    moreover have "m + k - 1 < PAYLOAD_BLOCK_SIZE" "m - 1 < PAYLOAD_BLOCK_SIZE"
      using assms m False by (auto simp: m_def[symmetric])
    ultimately have "blocks_for (pl + k) = q + 1" and "blocks_for pl = q + 1"
      unfolding blocks_for_def by (simp_all only: div)
    then show ?thesis
      using False by (simp add: m_def)
  qed
qed

text \<open>The payload loop copies as much of the chunk as the payload still lacks, and returns.\<close>

lemma fill_payload_ok:
  assumes "length (concat (payload_blocks d)) = payload_length d"
    and "length (payload_blocks d) = blocks_for (payload_length d)"
    and "payload_length d \<le> n" and "off \<le> length chunk"
    and "m = min (length chunk - off) (n - payload_length d)"
  obtains bs where "fill_payload n chunk off d =
      Some (off + m, d\<lparr>payload_blocks := bs, payload_length := payload_length d + m\<rparr>)"
    and "concat bs = concat (payload_blocks d) @ take m (drop off chunk)"
    and "length bs = blocks_for (payload_length d + m)"
  using assms
proof (induction "length chunk - off" arbitrary: off d m thesis rule: less_induct)
  case less
  show ?case
  proof (cases "off < length chunk \<and> payload_length d < n")
    case False
    then have "m = 0"
      using less.prems by auto
    moreover have "fill_payload n chunk off d = Some (off, d)"
      using False by (subst fill_payload.simps) (rule if_not_P)
    ultimately show ?thesis
      using less.prems(1)[of "payload_blocks d"] less.prems(3) by simp
  next
    case True
    define pl where "pl = payload_length d"
    define r where "r = pl mod PAYLOAD_BLOCK_SIZE"
    define blocks where "blocks = (if r = 0 then payload_blocks d @ [[]] else payload_blocks d)"
    define k where "k = min (min (PAYLOAD_BLOCK_SIZE - r) (n - pl)) (length chunk - off)"
    define d1 where "d1 = d\<lparr>payload_blocks := butlast blocks @ [last blocks @ take k (drop off chunk)],
      payload_length := pl + k\<rparr>"
    have r: "r < PAYLOAD_BLOCK_SIZE"
      by (simp add: r_def PAYLOAD_BLOCK_SIZE_def)
    then have k: "0 < k" "k \<le> PAYLOAD_BLOCK_SIZE - r" "k \<le> n - pl" "k \<le> length chunk - off"
      using True by (auto simp: k_def pl_def)
    have "blocks \<noteq> []"
      using less.prems(2) by (auto simp: blocks_def r_def pl_def)
    then have fill: "fill_payload n chunk off d = fill_payload n chunk (off + k) d1"
      using True by (subst fill_payload.simps)
        (simp add: fill_block_def Let_def d1_def k_def blocks_def r_def pl_def)
    have "concat blocks = concat (payload_blocks d)"
      by (simp add: blocks_def)
    with \<open>blocks \<noteq> []\<close> have cat: "concat (payload_blocks d1) = concat (payload_blocks d) @ take k (drop off chunk)"
      by (cases blocks rule: rev_cases) (auto simp: d1_def)
    have len: "length (payload_blocks d1) = blocks_for (pl + k)"
      using \<open>blocks \<noteq> []\<close> less.prems(3) blocks_for_add[of k pl] k
      by (auto simp: d1_def blocks_def r_def pl_def)
    have pl1: "payload_length d1 = pl + k"
      by (simp add: d1_def)
    let ?m = "min (length chunk - (off + k)) (n - payload_length d1)"
    have "min a b = k + min (a - k) (b - k)" if "k \<le> a" "k \<le> b" for a b
      using that by arith
    from this[OF k(4,3)] have m: "m = k + ?m"
      using less.prems(6) by (simp add: pl1 pl_def)
    have "\<exists>bs. fill_payload n chunk (off + k) d1 =
          Some (off + k + ?m, d1\<lparr>payload_blocks := bs, payload_length := payload_length d1 + ?m\<rparr>) \<and>
        concat bs = concat (payload_blocks d1) @ take ?m (drop (off + k) chunk) \<and>
        length bs = blocks_for (payload_length d1 + ?m)"
      by (rule less.hyps[OF _ _ _ _ _ _ refl, where off = "off + k" and d = d1])
        (use k len cat less.prems in \<open>auto simp: pl1 pl_def\<close>)
    then obtain bs where bs: "fill_payload n chunk (off + k) d1 =
        Some (off + k + ?m, d1\<lparr>payload_blocks := bs, payload_length := payload_length d1 + ?m\<rparr>)"
      "concat bs = concat (payload_blocks d1) @ take ?m (drop (off + k) chunk)"
      "length bs = blocks_for (payload_length d1 + ?m)"
      by blast
    show ?thesis
    proof (rule less.prems(1))
      show "fill_payload n chunk off d =
          Some (off + m, d\<lparr>payload_blocks := bs, payload_length := payload_length d + m\<rparr>)"
        unfolding fill bs(1) m by (simp add: d1_def pl_def)
      show "concat bs = concat (payload_blocks d) @ take m (drop off chunk)"
        unfolding bs(2) cat m by (simp add: take_add add.commute)
      show "length bs = blocks_for (payload_length d + m)"
        unfolding bs(3) m by (simp add: pl1 pl_def add.assoc)
    qed
  qed
qed

text \<open>What a call of the loop returns, for the frames and the rest of the whole byte string.\<close>

definition loop_refines ::
    "nat \<Rightarrow> FrameError + (u8 list list \<times> u8 list) \<Rightarrow> u8 list list \<Rightarrow>
      ((FrameError + u8 list list) \<times> FrameDecoder) option \<Rightarrow> bool" where
  "loop_refines limit spec frames res \<longleftrightarrow> (case spec of
     Inl e \<Rightarrow> (\<exists>d'. res = Some (Inl e, d') \<and> state d' = Failed)
   | Inr (fs, rest) \<Rightarrow>
       (\<exists>d'. res = Some (Inr (frames @ fs), d') \<and> frame_inv limit d' \<and> pending d' = rest))"

lemma frame_inv_expected:
  "frame_inv limit d \<Longrightarrow> expected_payload_length d = Some n \<Longrightarrow> n < 2 ^ 32"
  by (auto simp: frame_inv_def MAX_UINT32_def)

lemma split_frames_pending:
  assumes "frame_inv limit d"
  shows "split_frames limit (pending d) = Inr ([], pending d)"
proof (cases "expected_payload_length d")
  case None
  then show ?thesis
    using assms by (simp add: pending_def frame_inv_def split_frames_short FRAME_HEADER_LENGTH_def)
next
  case (Some n)
  then show ?thesis
    using assms frame_inv_expected[OF assms Some]
    by (simp add: pending_def frame_inv_def split_frames_header del: be_bytes.simps)
qed

lemma loop_refines_cons:
  "loop_refines limit spec (frames @ [f]) res \<Longrightarrow>
    loop_refines limit (map_ok (\<lambda>(fs, rest). (f # fs, rest)) spec) frames res"
  by (auto simp: loop_refines_def split: sum.splits)

lemma fst_finish_payload [simp]: "fst (finish_payload d) = concat (payload_blocks d)"
  by (auto simp: finish_payload_def length_Suc_conv)

text \<open>
  The payload phase, from a decoder that knows its payload's length. \<open>next\<close> is the rest of the
  loop, run at the offset the payload loop stops at.
\<close>

lemma payload_phase_refines:
  assumes inv: "frame_inv limit d" and n: "expected_payload_length d = Some n"
    and off: "off \<le> length chunk"
    and rest: "\<And>fs d'. frame_inv limit d' \<Longrightarrow>
      loop_refines limit (split_frames limit (pending d' @ drop off' chunk)) fs (next off' fs d')"
    and off': "off' = off + min (length chunk - off) (n - payload_length d)"
  shows "loop_refines limit (split_frames limit (pending d @ drop off chunk)) frames
    (Option.bind (fill_payload n chunk off d) (\<lambda>t.
       if payload_length (snd t) = n
       then next (fst t) (frames @ [fst (finish_payload (snd t))]) (snd (finish_payload (snd t)))
       else next (fst t) frames (snd t)))"
proof -
  define m where "m = min (length chunk - off) (n - payload_length d)"
  have pl: "payload_length d < n" "n < 2 ^ 32" "n \<le> limit"
    using inv n frame_inv_expected[OF inv n] by (auto simp: frame_inv_def)
  obtain bs where fill: "fill_payload n chunk off d =
        Some (off', d\<lparr>payload_blocks := bs, payload_length := payload_length d + m\<rparr>)"
    and bs: "concat bs = concat (payload_blocks d) @ take m (drop off chunk)"
      "length bs = blocks_for (payload_length d + m)"
    by (rule fill_payload_ok[of d n off chunk m])
      (use inv pl off in \<open>auto simp: frame_inv_def m_def off'\<close>)
  let ?d = "d\<lparr>payload_blocks := bs, payload_length := payload_length d + m\<rparr>"
  have drop: "drop off chunk = take m (drop off chunk) @ drop off' chunk"
    by (simp add: off' m_def[symmetric] add.commute) (metis append_take_drop_id drop_drop)
  then have all: "pending d @ drop off chunk = be_bytes 4 n @ concat bs @ drop off' chunk"
    by (simp add: pending_def n bs del: be_bytes.simps)
  have len: "length (concat bs) = payload_length d + m"
    using inv by (simp add: bs frame_inv_def m_def del: length_concat)
  show ?thesis
  proof (cases "payload_length d + m = n")
    case True
    have "frame_inv limit (snd (finish_payload ?d))" and "pending (snd (finish_payload ?d)) = []"
      using inv n by (auto simp: frame_inv_def finish_payload_def pending_def)
    from rest[OF this(1), of "frames @ [concat bs]"] this(2) show ?thesis
      using True pl(2,3) len unfolding all
      by (auto simp: fill split_frames_header intro!: loop_refines_cons simp del: be_bytes.simps)
  next
    case False
    have "frame_inv limit ?d"
      using inv n len False by (auto simp: frame_inv_def bs(2) m_def)
    moreover have "pending ?d = be_bytes 4 n @ concat bs"
      by (simp add: pending_def n)
    ultimately show ?thesis
      using rest[of ?d frames] False unfolding all by (simp add: fill)
  qed
qed

text \<open>The header phase: the bytes it copies, and the decoder it leaves.\<close>

lemma copy_header_ok:
  assumes inv: "frame_inv limit d" and "expected_payload_length d = None"
    and "k = min (4 - header_length d) (length chunk - off)"
  obtains d1 where "copy_header chunk off d = Some (off + k, d1)"
    and "d1 = d\<lparr>header := header d1, header_length := header_length d + k\<rparr>"
    and "length (header d1) = 4"
    and "take (header_length d + k) (header d1) = pending d @ take k (drop off chunk)"
proof -
  define d1 where "d1 = d\<lparr>header := take (header_length d) (header d) @ take k (drop off chunk)
      @ drop (header_length d + k) (header d), header_length := header_length d + k\<rparr>"
  have inv': "length (header d) = 4" "header_length d < 4"
    using inv by (simp_all add: frame_inv_def FRAME_HEADER_LENGTH_def)
  have k: "header_length d + k \<le> 4" "length (take k (drop off chunk)) = k"
    using assms(3) inv' by (auto simp: min_def)
  have "copy_header chunk off d = Some (off + k, d1)"
    using inv' by (simp add: copy_header_def FRAME_HEADER_LENGTH_def Let_def d1_def assms(3))
  moreover have "d1 = d\<lparr>header := header d1, header_length := header_length d + k\<rparr>"
    by (simp add: d1_def)
  moreover have "length (header d1) = 4"
    using inv' k by (simp add: d1_def)
  moreover have "take (header_length d + k) (header d1) = pending d @ take k (drop off chunk)"
    using inv' k assms(2) by (simp add: d1_def pending_def)
  ultimately show thesis
    by (rule that)
qed

text \<open>After the header: the outcome and the decoder, by the length \<open>n\<close> the header holds.\<close>

lemma read_header_ok:
  assumes inv: "frame_inv limit d" and d1: "d1 = d\<lparr>header := h, header_length := l\<rparr>"
    and "length h = 4" and "l \<le> 4" and "expected_payload_length d = None" and n: "n = be_nat h"
  shows "l < 4 \<Longrightarrow> read_header d1 = (Continue [], d1) \<and> frame_inv limit d1 \<and> pending d1 = take l h"
    and "l = 4 \<Longrightarrow> n > limit \<Longrightarrow>
      read_header d1 = (Oversize (exceeds_limit n limit), fail (d1\<lparr>header_length := 0\<rparr>))"
    and "l = 4 \<Longrightarrow> n = 0 \<Longrightarrow> \<exists>d2. read_header d1 = (Continue [[]], d2) \<and> frame_inv limit d2 \<and> pending d2 = []"
    and "l = 4 \<Longrightarrow> 0 < n \<Longrightarrow> n \<le> limit \<Longrightarrow> \<exists>d2. read_header d1 = (Receive, d2) \<and>
      expected_payload_length d2 = Some n \<and> frame_inv limit d2 \<and> pending d2 = be_bytes 4 n \<and> payload_length d2 = 0"
  using assms read_frame_length_eq[of h]
  by (auto simp: read_header_def FRAME_HEADER_LENGTH_def frame_inv_def pending_def Let_def)

lemma push_loop_refines:
  "frame_inv limit d \<Longrightarrow> off \<le> length chunk \<Longrightarrow>
    loop_refines limit (split_frames limit (pending d @ drop off chunk)) frames (push_loop chunk off frames d)"
proof (induction "length chunk - off" arbitrary: off frames d rule: less_induct)
  case less
  note inv = less.prems(1)
  show ?case
  proof (cases "off < length chunk")
    case False
    then show ?thesis
      using less.prems split_frames_pending[OF inv]
      by (subst push_loop.simps) (simp add: loop_refines_def)
  next
    case True
    have IH: "loop_refines limit (split_frames limit (pending d' @ drop off' chunk)) fs (push_loop chunk off' fs d')"
      if "frame_inv limit d'" "off < off'" "off' \<le> length chunk" for d' off' fs
      using that True by (intro less.hyps) auto
    show ?thesis
    proof (cases "expected_payload_length d")
      case (Some n)
      have "payload_length d < n"
        using inv Some by (simp add: frame_inv_def)
      with True show ?thesis
        using payload_phase_refines[OF inv Some less.prems(2), of _ "push_loop chunk"] IH Some
        by (subst push_loop.simps) simp
    next
      case None
      define k where "k = min (4 - header_length d) (length chunk - off)"
      define l where "l = header_length d + k"
      have l: "header_length d < 4" "0 < k" "off + k \<le> length chunk" "l \<le> 4"
        using inv True by (auto simp: frame_inv_def FRAME_HEADER_LENGTH_def k_def l_def)
      obtain d1 where copy: "copy_header chunk off d = Some (off + k, d1)"
        and d1: "d1 = d\<lparr>header := header d1, header_length := l\<rparr>" "length (header d1) = 4"
        and pend: "take l (header d1) = pending d @ take k (drop off chunk)"
        using copy_header_ok[OF inv None k_def] by (auto simp: l_def)
      have all: "pending d @ drop off chunk = take l (header d1) @ drop (off + k) chunk"
        unfolding pend by (simp add: add.commute[of off] flip: drop_drop)
      define n where "n = be_nat (header d1)"
      note hdr = read_header_ok[OF inv d1 l(4) None n_def]
      have push: "push_loop chunk off frames d = (case read_header d1 of
          (Continue fs, d2) \<Rightarrow> push_loop chunk (off + k) (frames @ fs) d2
        | (Oversize m, d2) \<Rightarrow> Some (Inl (Frame m), d2)
        | (Receive, d2) \<Rightarrow>
            (case expected_payload_length d2 of
               None \<Rightarrow> push_loop chunk (off + k) frames d2
             | Some n \<Rightarrow> Option.bind (fill_payload n chunk (off + k) d2) (\<lambda>t.
                 if payload_length (snd t) = n
                 then push_loop chunk (fst t) (frames @ [fst (finish_payload (snd t))]) (snd (finish_payload (snd t)))
                 else push_loop chunk (fst t) frames (snd t))))"
        using True None copy by (subst push_loop.simps, cases "read_header d1") (simp split: header_outcome.split option.split)
      show ?thesis
      proof (cases "l < 4")
        case True
        then show ?thesis
          using hdr(1) IH[of d1 "off + k" frames] l unfolding all push by simp
      next
        case False
        then have l4: "l = 4" using l(4) by simp
        have n: "n < 2 ^ 32" "take l (header d1) = be_bytes 4 n"
          using be_nat_less[of "header d1"] d1(2) by (simp_all add: n_def l4 be_bytes_be_nat del: be_bytes.simps)
        note spec = split_frames_header[OF n(1), of limit "drop (off + k) chunk", folded n(2)]
        consider "n > limit" | "n = 0" | "0 < n" "n \<le> limit" by linarith
        then show ?thesis
        proof cases
          case 1
          then show ?thesis
            using hdr(2)[OF l4] unfolding all push spec by (simp add: loop_refines_def fail_def)
        next
          case 2
          then obtain d2 where "read_header d1 = (Continue [[]], d2)" "frame_inv limit d2" "pending d2 = []"
            using hdr(3)[OF l4] by auto
          then show ?thesis
            using IH[of d2 "off + k" "frames @ [[]]"] l 2 unfolding all push spec
            by (auto intro: loop_refines_cons)
        next
          case 3
          then obtain d2 where "read_header d1 = (Receive, d2)" and e: "expected_payload_length d2 = Some n"
            and inv2: "frame_inv limit d2" and "pending d2 = be_bytes 4 n"
            using hdr(4)[OF l4] by blast
          then show ?thesis
            using payload_phase_refines[OF inv2 e l(3), of _ "push_loop chunk"] IH l unfolding all push n(2)
            by (simp del: be_bytes.simps)
        qed
      qed
    qed
  qed
qed

subsection \<open>The contract of an incremental decoder\<close>

text \<open>Feeding chunks one after the other, up to the first error (or a push that does not return).\<close>

fun push_all ::
    "('s \<Rightarrow> 'b list \<Rightarrow> (('e + 'f list) \<times> 's) option) \<Rightarrow> 's \<Rightarrow> 'b list list \<Rightarrow> (('e + 'f list) \<times> 's) option" where
  "push_all push s [] = Some (Inr [], s)"
| "push_all push s (c # cs) = Option.bind (push s c) (\<lambda>(r, s1). case r of
     Inl e \<Rightarrow> Some (Inl e, s1)
   | Inr fs \<Rightarrow> map_option (\<lambda>(r', s2). (map_ok (\<lambda>gs. fs @ gs) r', s2)) (push_all push s1 cs))"

text \<open>
  \<open>split\<close> says what a whole byte string holds: its items with the bytes left over, or an error.
  A decoder keeps the left-over bytes (\<open>pending\<close>); pushing a chunk gives the items of the left-over
  bytes followed by the chunk, and \<open>finish\<close> accepts exactly when nothing is left over.
\<close>

locale stream_decoder =
  fixes push :: "'s \<Rightarrow> 'b list \<Rightarrow> (('e + 'f list) \<times> 's) option"
    and finish :: "'s \<Rightarrow> ('e + unit) \<times> 's"
    and invar :: "'s \<Rightarrow> bool"
    and pend :: "'s \<Rightarrow> 'b list"
    and split :: "'b list \<Rightarrow> 'x + ('f list \<times> 'b list)"
  assumes push_ok: "invar s \<Longrightarrow> split (pend s @ c) = Inr (fs, rest) \<Longrightarrow>
      \<exists>s'. push s c = Some (Inr fs, s') \<and> invar s' \<and> pend s' = rest"
    and push_err: "invar s \<Longrightarrow> split (pend s @ c) = Inl x \<Longrightarrow>
      \<exists>e s'. push s c = Some (Inl e, s') \<and> \<not> invar s'"
    and split_append: "split (a @ b) = and_then (split a) (\<lambda>(fs, rest).
      map_ok (\<lambda>(gs, r). (fs @ gs, r)) (split (rest @ b)))"
    and finish_ok: "invar s \<Longrightarrow> is_ok (fst (finish s)) \<longleftrightarrow> pend s = []"
    and split_pend: "invar s \<Longrightarrow> split (pend s) = Inr ([], pend s)"
begin

lemma push_all_ok:
  assumes "invar s" and "split (pend s @ concat cs) = Inr (fs, rest)"
  shows "\<exists>s'. push_all push s cs = Some (Inr fs, s') \<and> invar s' \<and> pend s' = rest"
  using assms
proof (induction cs arbitrary: s fs)
  case Nil
  then show ?case using split_pend by simp
next
  case (Cons c cs)
  from Cons.prems(2) obtain gs r hs where 1: "split (pend s @ c) = Inr (gs, r)"
    and 2: "split (r @ concat cs) = Inr (hs, rest)" and fs: "fs = gs @ hs"
    using split_append[of "pend s @ c" "concat cs"]
    by (auto simp: and_then_def map_ok_def split: sum.splits)
  from push_ok[OF Cons.prems(1) 1] obtain s1 where "push s c = Some (Inr gs, s1)" "invar s1" "pend s1 = r"
    by blast
  with Cons.IH[of s1 hs] 2 show ?case
    by (auto simp: fs)
qed

lemma push_all_err:
  assumes "invar s" and "split (pend s @ concat cs) = Inl x"
  shows "\<exists>e s'. push_all push s cs = Some (Inl e, s') \<and> \<not> invar s'"
  using assms
proof (induction cs arbitrary: s)
  case Nil
  then show ?case using split_pend by simp
next
  case (Cons c cs)
  show ?case
  proof (cases "split (pend s @ c)")
    case (Inl y)
    then show ?thesis
      using push_err[OF Cons.prems(1) Inl] by auto
  next
    case (Inr p)
    then obtain gs r where 1: "split (pend s @ c) = Inr (gs, r)"
      by (cases p) auto
    then have 2: "split (r @ concat cs) = Inl x"
      using Cons.prems(2) split_append[of "pend s @ c" "concat cs"]
      by (auto simp: map_ok_def split: sum.splits)
    from push_ok[OF Cons.prems(1) 1] obtain s1 where "push s c = Some (Inr gs, s1)" "invar s1" "pend s1 = r"
      by blast
    with Cons.IH[of s1] 2 show ?thesis by auto
  qed
qed

lemma push_all_iff:
  assumes "invar s"
  shows "(\<exists>s'. push_all push s cs = Some (Inr fs, s') \<and> invar s' \<and> pend s' = rest) \<longleftrightarrow>
    split (pend s @ concat cs) = Inr (fs, rest)"
  using push_all_ok[OF assms] push_all_err[OF assms]
  by (cases "split (pend s @ concat cs)") fastforce+

text \<open>How a byte string is cut into chunks does not matter.\<close>

lemma chunking_irrelevant:
  assumes "invar s" and "concat cs = concat cs'" and "push_all push s cs = Some (Inr fs, s1)"
  shows "\<exists>s2. push_all push s cs' = Some (Inr fs, s2) \<and> pend s2 = pend s1"
proof (cases "split (pend s @ concat cs)")
  case (Inl x)
  then show ?thesis using push_all_err[OF assms(1), of cs] assms(3) by auto
next
  case (Inr p)
  then obtain gs r where "split (pend s @ concat cs) = Inr (gs, r)" by (cases p) auto
  with push_all_ok[OF assms(1), of cs gs r] push_all_ok[OF assms(1), of cs' gs r] show ?thesis
    using assms(2,3) by auto
qed

lemma push_all_returns: "invar s \<Longrightarrow> push_all push s cs \<noteq> None"
  using push_all_ok[of s cs] push_all_err[of s cs]
  by (cases "split (pend s @ concat cs)") fastforce+

text \<open>A stream is accepted to its end exactly when it is a sequence of whole items.\<close>

lemma accepts_iff:
  assumes "invar s"
  shows "(\<exists>s'. push_all push s cs = Some (Inr fs, s') \<and> is_ok (fst (finish s'))) \<longleftrightarrow>
    split (pend s @ concat cs) = Inr (fs, [])"
proof
  assume "\<exists>s'. push_all push s cs = Some (Inr fs, s') \<and> is_ok (fst (finish s'))"
  then obtain s' where s': "push_all push s cs = Some (Inr fs, s')" "is_ok (fst (finish s'))" by blast
  show "split (pend s @ concat cs) = Inr (fs, [])"
    using s' push_all_ok[OF assms, of cs] push_all_err[OF assms, of cs] finish_ok[of s']
    by (cases "split (pend s @ concat cs)") fastforce+
next
  assume "split (pend s @ concat cs) = Inr (fs, [])"
  from push_all_ok[OF assms this] show "\<exists>s'. push_all push s cs = Some (Inr fs, s') \<and> is_ok (fst (finish s'))"
    using finish_ok by auto
qed

end

text \<open>The frame decoder meets the contract, for every limit.\<close>

lemma frame_push_refines:
  "frame_inv limit d \<Longrightarrow> loop_refines limit (split_frames limit (pending d @ chunk)) [] (frame_push d chunk)"
  using push_loop_refines[of limit d 0 chunk "[]"] by (simp add: frame_push_def frame_inv_def not_open_def)

lemma frame_inv_Open: "frame_inv limit d \<Longrightarrow> state d = Open"
  by (simp add: frame_inv_def)

lemma pending_Nil_iff:
  "frame_inv limit d \<Longrightarrow> pending d = [] \<longleftrightarrow> header_length d = 0 \<and> expected_payload_length d = None"
  by (cases "header d") (auto simp: pending_def frame_inv_def FRAME_HEADER_LENGTH_def split: option.splits)

interpretation fd: stream_decoder frame_push frame_end "frame_inv limit" pending "split_frames limit" for limit
proof (unfold_locales, goal_cases)
  case (1 s c fs rest)
  then show ?case using frame_push_refines[of limit s c] by (auto simp: loop_refines_def)
next
  case (2 s c x)
  then show ?case using frame_push_refines[of limit s c] by (auto simp: loop_refines_def frame_inv_def)
next
  case (3 a b)
  show ?case by (rule split_frames_append)
next
  case (4 s)
  then show ?case
    using frame_inv_Open[of limit s]
    by (auto simp: frame_end_def not_open_def pending_Nil_iff[of limit s])
next
  case (5 s)
  then show ?case by (rule split_frames_pending)
qed

subsection \<open>Properties\<close>

text \<open>
  C3: \<open>push\<close> always returns (it neither panics nor loops) and does what the specification says of
  the bytes received so far: it returns exactly the completed frames and keeps exactly the bytes of
  the unfinished one, or it fails on a length over the limit, is then in the state \<open>Failed\<close>, and the
  error is that of the offending length.
\<close>

theorem frame_push_spec:
  assumes "frame_inv limit d"
  shows "case split_frames limit (pending d @ chunk) of
      Inl e \<Rightarrow> (\<exists>d'. frame_push d chunk = Some (Inl e, d') \<and> state d' = Failed)
    | Inr (fs, rest) \<Rightarrow>
        (\<exists>d'. frame_push d chunk = Some (Inr fs, d') \<and> frame_inv limit d' \<and> pending d' = rest)"
  using frame_push_refines[OF assms, of chunk] unfolding loop_refines_def append_Nil .

definition fresh_decoder :: "nat \<Rightarrow> FrameDecoder" where
  "fresh_decoder limit = \<lparr>header = [0, 0, 0, 0], header_length = 0, max_frame_length = limit,
     payload_blocks = [], payload_length = 0, expected_payload_length = None, state = Open\<rparr>"

lemma fresh_decoder_inv: "limit \<le> MAX_UINT32 \<Longrightarrow> frame_inv limit (fresh_decoder limit)"
  and fresh_decoder_pending: "pending (fresh_decoder limit) = []"
  by (simp_all add: frame_inv_def fresh_decoder_def FRAME_HEADER_LENGTH_def pending_def)

theorem frame_push_spec_witness:
  "(\<exists>d'. frame_push (fresh_decoder 10) [0, 0, 0, 1, 7, 0] = Some (Inr [[7]], d') \<and>
     frame_inv 10 d' \<and> pending d' = [0]) \<and>
   (\<exists>d'. frame_push (fresh_decoder 10) [0, 0, 0, 11] = Some (Inl (Frame (exceeds_limit 11 10)), d') \<and>
     state d' = Failed)"
  using frame_push_spec[OF fresh_decoder_inv, of 10 "[0, 0, 0, 1, 7, 0]"]
    frame_push_spec[OF fresh_decoder_inv, of 10 "[0, 0, 0, 11]"]
  by (simp add: fresh_decoder_pending split_frames.simps be_nat_def MAX_UINT32_def)

text \<open>
  How a transport cuts the byte stream into chunks does not matter: two cuts of the same bytes
  give the same frames, and leave the same bytes waiting.
\<close>

theorem frame_chunking_irrelevant:
  assumes "frame_inv limit d" and "concat cs = concat cs'"
    and "push_all frame_push d cs = Some (Inr fs, d1)"
  shows "\<exists>d2. push_all frame_push d cs' = Some (Inr fs, d2) \<and> pending d2 = pending d1"
  using assms by (rule fd.chunking_irrelevant)

theorem frame_chunking_irrelevant_witness:
  "\<exists>d1 d2. push_all frame_push (fresh_decoder 10) [[0, 0, 0, 1, 7], [0, 0, 0]] = Some (Inr [[7]], d1) \<and>
    push_all frame_push (fresh_decoder 10) [[0, 0], [], [0, 1, 7, 0], [0, 0]] = Some (Inr [[7]], d2) \<and>
    pending d2 = pending d1"
proof -
  have inv: "frame_inv 10 (fresh_decoder 10)"
    by (rule fresh_decoder_inv) (simp add: MAX_UINT32_def)
  have "split_frames 10 (pending (fresh_decoder 10) @ concat [[0, 0, 0, 1, 7], [0, 0, 0]]) = Inr ([[7]], [0, 0, 0])"
    by (simp add: fresh_decoder_pending split_frames.simps be_nat_def)
  from fd.push_all_ok[OF inv this] obtain d1 where
    d1: "push_all frame_push (fresh_decoder 10) [[0, 0, 0, 1, 7], [0, 0, 0]] = Some (Inr [[7]], d1)"
    by blast
  have "concat [[0, 0, 0, 1, 7], [0, 0, 0 :: u8]] = concat [[0, 0], [], [0, 1, 7, 0], [0, 0]]"
    by simp
  from frame_chunking_irrelevant[OF inv this d1] d1 show ?thesis
    by blast
qed

end
