(* ===== verification/Codec.thy ===== *)
theory Codec
  imports Cbor_Proofs Framing
begin

text \<open>
  The message codec (\<open>crates/notagent-protocol/src/codec.rs\<close>): a message is serialised to JSON,
  converted to CBOR, encoded under the frame limit and framed; the decoder undoes this incrementally
  and stops for good at the first error.

  The message types and their derived \<open>serde\<close> implementations are parameters: \<open>ser\<close> is
  \<open>serde_json::to_value\<close> and \<open>de\<close> is \<open>serde_json::from_value\<close> at the message type. What the round trip
  needs of them is the predicate \<open>serde_ok\<close>. The message decoder meets the contract
  \<open>stream_decoder\<close> of \<open>Framing\<close>.
\<close>

subsection \<open>Model\<close>

definition PROTOCOL_VERSION :: nat where "PROTOCOL_VERSION = 1"

datatype ProtocolValidationError = ProtocolValidationError (pve_message: string)

type_synonym 'm serializer = "'m \<Rightarrow> string + Json"
type_synonym 'm deserializer = "Json \<Rightarrow> 'm option"
type_synonym 'm parser = "CborValue \<Rightarrow> ProtocolValidationError + 'm"

definition invalid_message :: "string \<Rightarrow> ProtocolValidationError" where
  "invalid_message kind = ProtocolValidationError (''Invalid '' @ kind @ '' protocol message'')"

definition parse_protocol_message :: "'m deserializer \<Rightarrow> CborValue \<Rightarrow> string \<Rightarrow> ProtocolValidationError + 'm" where
  "parse_protocol_message de value kind =
    (case to_json_value value of
       None \<Rightarrow> Inl (invalid_message kind)
     | Some json \<Rightarrow> (case de json of None \<Rightarrow> Inl (invalid_message kind) | Some m \<Rightarrow> Inr m))"

definition parse_client_message :: "'m deserializer \<Rightarrow> 'm parser" where
  "parse_client_message de value = parse_protocol_message de value ''client''"

definition parse_server_message :: "'m deserializer \<Rightarrow> 'm parser" where
  "parse_server_message de value = parse_protocol_message de value ''server''"

definition bounded_error_message :: "string \<Rightarrow> string" where
  "bounded_error_message message =
    (if length (chars message) \<le> 500 then message
     else concat (take 497 (chars message)) @ ''...'')"

definition unable_to_encode :: "string \<Rightarrow> string \<Rightarrow> ProtocolValidationError" where
  "unable_to_encode kind message = ProtocolValidationError
    (''Unable to encode '' @ kind @ '' protocol message: '' @ bounded_error_message message)"

definition to_cbor_value :: "'m serializer \<Rightarrow> 'm \<Rightarrow> string \<Rightarrow> ProtocolValidationError + CborValue" where
  "to_cbor_value ser value kind =
    and_then (map_err (unable_to_encode kind) (ser value)) (\<lambda>json. Inr (from_json_value json))"

text \<open>The closure \<open>encode\<close> of \<open>encode_protocol_message\<close>: payload, frame, check.\<close>

definition encode_payload :: "nat \<Rightarrow> CborValue \<Rightarrow> string + u8 list" where
  "encode_payload limit validated =
    and_then (map_err cbor_error_message (encode_cbor validated (Some (with_max_byte_length limit)))) (\<lambda>payload.
    and_then (map_err frame_error_message (encode_frame payload)) (\<lambda>frame.
    and_then (map_err frame_error_message
      (assert_complete_frame frame (Some (with_max_frame_length limit)))) (\<lambda>_.
    Inr frame)))"

definition encode_protocol_message ::
    "'m serializer \<Rightarrow> 'm \<Rightarrow> 'm parser \<Rightarrow> string \<Rightarrow> FrameDecoderOptions option \<Rightarrow>
      ProtocolValidationError + u8 list" where
  "encode_protocol_message ser value parse kind options =
    and_then (to_cbor_value ser value kind) (\<lambda>candidate.
    and_then (parse candidate) (\<lambda>message.
    and_then (to_cbor_value ser message kind) (\<lambda>validated.
    map_err (unable_to_encode kind) (encode_payload (requested_max_frame_length options) validated))))"

definition encode_client_message ::
    "'m serializer \<Rightarrow> 'm deserializer \<Rightarrow> 'm \<Rightarrow> FrameDecoderOptions option \<Rightarrow> ProtocolValidationError + u8 list" where
  "encode_client_message ser de message options =
    encode_protocol_message ser message (parse_client_message de) ''client'' options"

definition encode_server_message ::
    "'m serializer \<Rightarrow> 'm deserializer \<Rightarrow> 'm \<Rightarrow> FrameDecoderOptions option \<Rightarrow> ProtocolValidationError + u8 list" where
  "encode_server_message ser de message options =
    encode_protocol_message ser message (parse_server_message de) ''server'' options"

record 'm ValidatedMessageDecoder =
  failed :: bool
  frames :: FrameDecoder
  kind :: string
  vmd_max_frame_length :: nat
  parse :: "'m parser"

definition message_decoder_new ::
    "string \<Rightarrow> 'm parser \<Rightarrow> FrameDecoderOptions option \<Rightarrow> FrameError + 'm ValidatedMessageDecoder" where
  "message_decoder_new k p options =
    and_then (frame_decoder_new options) (\<lambda>fd.
      Inr \<lparr>failed = False, frames = fd, kind = k,
        vmd_max_frame_length = requested_max_frame_length options, parse = p\<rparr>)"

definition decoder_failed :: "string \<Rightarrow> ProtocolValidationError" where
  "decoder_failed k = ProtocolValidationError (k @ '' message decoder has failed'')"

definition wrap_frame_error :: "string \<Rightarrow> string \<Rightarrow> string \<Rightarrow> ProtocolValidationError" where
  "wrap_frame_error k what message = ProtocolValidationError
    (''Invalid '' @ k @ '' protocol '' @ what @ '': '' @ bounded_error_message message)"

text \<open>One frame, and the loop over the frames of a push.\<close>

definition decode_frame :: "string \<Rightarrow> 'm parser \<Rightarrow> nat \<Rightarrow> u8 list \<Rightarrow> ProtocolValidationError + 'm" where
  "decode_frame k p limit frame =
    and_then (map_err (\<lambda>e. wrap_frame_error k ''frame'' (cbor_error_message e))
      (decode_cbor frame (Some (with_max_byte_length limit)))) p"

fun decode_frames :: "(u8 list \<Rightarrow> 'e + 'm) \<Rightarrow> 'm list \<Rightarrow> u8 list list \<Rightarrow> 'e + 'm list" where
  "decode_frames f messages [] = Inr messages"
| "decode_frames f messages (frame # fs) = and_then (f frame) (\<lambda>m. decode_frames f (messages @ [m]) fs)"

definition message_push ::
    "'m ValidatedMessageDecoder \<Rightarrow> u8 list \<Rightarrow>
      ((ProtocolValidationError + 'm list) \<times> 'm ValidatedMessageDecoder) option" where
  "message_push d chunk =
    (if failed d then Some (Inl (decoder_failed (kind d)), d)
     else Option.bind (frame_push (frames d) chunk) (\<lambda>(pushed, fd).
       let d1 = d\<lparr>frames := fd\<rparr>;
           result = and_then (map_err (\<lambda>e. wrap_frame_error (kind d) ''frame'' (frame_error_message e)) pushed)
             (decode_frames (decode_frame (kind d) (parse d) (vmd_max_frame_length d)) [])
       in Some (case result of
            Inr messages \<Rightarrow> (Inr messages, d1)
          | Inl e \<Rightarrow> (Inl e, d1\<lparr>failed := True\<rparr>))))"

definition message_end ::
    "'m ValidatedMessageDecoder \<Rightarrow> (ProtocolValidationError + unit) \<times> 'm ValidatedMessageDecoder" where
  "message_end d =
    (if failed d then (Inl (decoder_failed (kind d)), d)
     else case frame_end (frames d) of
       (Inr u, fd) \<Rightarrow> (Inr u, d\<lparr>frames := fd\<rparr>)
     | (Inl e, fd) \<Rightarrow>
         (Inl (wrap_frame_error (kind d) ''framing'' (frame_error_message e)), d\<lparr>frames := fd, failed := True\<rparr>))"

definition create_client_message_decoder ::
    "'m deserializer \<Rightarrow> FrameDecoderOptions option \<Rightarrow> FrameError + 'm ValidatedMessageDecoder" where
  "create_client_message_decoder de options = message_decoder_new ''client'' (parse_client_message de) options"

definition create_server_message_decoder ::
    "'m deserializer \<Rightarrow> FrameDecoderOptions option \<Rightarrow> FrameError + 'm ValidatedMessageDecoder" where
  "create_server_message_decoder de options = message_decoder_new ''server'' (parse_server_message de) options"

definition is_supported_protocol_version :: "nat \<Rightarrow> bool" where
  "is_supported_protocol_version version \<longleftrightarrow> version = PROTOCOL_VERSION"

subsection \<open>JSON values that cross the wire unchanged\<close>

text \<open>
  The guarantees of \<open>serde_json\<close>'s types (UTF-8 text, distinct keys), and the numbers in the form the
  decode path produces: safe integers as integers, everything else as a float.
\<close>

fun num_canonical :: "JNum \<Rightarrow> bool" where
  "num_canonical (PosInt n) = (n \<le> MAX_SAFE_INTEGER)"
| "num_canonical (NegInt i) = (i < 0 \<and> - int MAX_SAFE_INTEGER \<le> i)"
| "num_canonical (JFloat v) = (f64_is_finite v \<and> (is_safe_integer v \<longrightarrow> is_negative_zero v))"

fun json_canonical :: "Json \<Rightarrow> bool" where
  "json_canonical (JNumber n) = num_canonical n"
| "json_canonical (JString s) = utf8_valid s"
| "json_canonical (JArray items) = list_all json_canonical items"
| "json_canonical (JObject entries) =
     (distinct (map fst entries) \<and> list_all (\<lambda>(k, v). utf8_valid k \<and> json_canonical v) entries)"
| "json_canonical _ = True"

definition serde_ok :: "'m serializer \<Rightarrow> 'm deserializer \<Rightarrow> bool" where
  "serde_ok ser de \<longleftrightarrow> (\<forall>m j. ser m = Inr j \<longrightarrow> json_canonical j \<and> de j = Some m)"

lemma number_to_json_of_nat:
  assumes "n \<le> MAX_SAFE_INTEGER"
  shows "number_to_json (f64_of_nat n) = Some (JNumber (PosInt n))"
proof -
  have "n < 2 ^ 53"
    using assms by (simp add: MAX_SAFE_INTEGER_def)
  note ex = f64_of_nat_exact[OF this]
  have "f64_ge_zero (f64_of_nat n)" "\<not> is_negative_zero (f64_of_nat n)"
    using ex by (simp_all add: f64_ge_zero_def is_negative_zero_def f64_is_nan_def f64_is_finite_def)
  moreover have safe: "is_safe_integer (f64_of_nat n)"
    using ex assms by (simp add: is_safe_integer_iff is_integer_def)
  ultimately show ?thesis
    using safe_integer_nonneg(2)[OF safe] ex by (simp add: number_to_json_def is_safe_integer_def)
qed

lemma f64_zero_trunc_abs: "f64_is_zero v \<Longrightarrow> f64_trunc_abs v = 0"
  by (simp add: f64_is_zero_def f64_trunc_abs_def f64_significand_def f64_scale_def)

lemma number_to_json_of_int:
  assumes "i < 0" and "- int MAX_SAFE_INTEGER \<le> i"
  shows "number_to_json (f64_of_int i) = Some (JNumber (NegInt i))"
proof -
  have "\<bar>i\<bar> < 2 ^ 53"
    using assms by (simp add: MAX_SAFE_INTEGER_def)
  note ex = f64_of_int_exact[OF this]
  have nz: "\<not> f64_is_zero (f64_of_int i)"
    using ex(5) assms(1) f64_zero_trunc_abs[of "f64_of_int i"] by auto
  then have nn: "\<not> f64_ge_zero (f64_of_int i)" "\<not> is_negative_zero (f64_of_int i)"
    using ex(4) assms(1) by (simp_all add: f64_ge_zero_def is_negative_zero_def)
  moreover have safe: "is_safe_integer (f64_of_int i)"
    using ex assms by (simp add: is_safe_integer_iff is_integer_def nat_le_iff)
  ultimately show ?thesis
    using safe_integer_neg(2)[OF safe] ex by (simp add: number_to_json_def is_safe_integer_def)
qed

lemma number_to_json_canonical: "num_canonical n \<Longrightarrow> number_to_json (as_f64 n) = Some (JNumber n)"
proof (cases n)
  case (JFloat v)
  assume "num_canonical n"
  with JFloat have "f64_is_finite v" "\<not> (is_integer v \<and> \<not> is_negative_zero v \<and> f64_abs_le v MAX_SAFE_INTEGER)"
    by (auto simp: is_safe_integer_def)
  with JFloat show ?thesis
    by (simp add: number_to_json_def number_from_f64_def)
qed (simp_all add: number_to_json_of_nat number_to_json_of_int)

lemma from_json_value_roundtrip:
  "json_canonical j \<Longrightarrow> to_json_value (from_json_value j) = Some j"
proof (induction j)
  case (JNumber n)
  then show ?case by (simp add: number_to_json_canonical)
next
  case (JArray items)
  then have "those (map (to_json_value \<circ> from_json_value) items) = Some (map id items)"
    by (intro those_map_Some) (auto simp: list_all_iff)
  then show ?case by simp
next
  case (JObject entries)
  let ?f = "\<lambda>(key, value). map_option (Pair key) (to_json_value (from_json_value value))"
  have "those (map ?f entries) = Some (map id entries)"
    using JObject by (intro those_map_Some) (force simp: list_all_iff)
  moreover have "json_inserts entries = entries"
    using JObject.prems by (intro json_inserts_distinct) simp
  ultimately show ?case
    by (simp add: comp_def case_prod_unfold)
qed auto

lemma from_json_value_wf: "json_canonical j \<Longrightarrow> cbor_wf (from_json_value j)"
  by (induction j) (force simp: list_all_iff comp_def case_prod_unfold)+

subsection \<open>The message decoder meets the decoder contract\<close>

text \<open>
  What a whole byte string holds: the messages of its frames and the bytes after them. Which error a
  bad stream gives depends on how it is cut (a frame error is found before the frames of the same
  push are decoded), so the specification only says that there is one.
\<close>

definition split_messages ::
    "(u8 list \<Rightarrow> 'e + 'm) \<Rightarrow> nat \<Rightarrow> u8 list \<Rightarrow> unit + ('m list \<times> u8 list)" where
  "split_messages f limit bs =
    and_then (map_err (\<lambda>_. ()) (split_frames limit bs)) (\<lambda>(fs, rest).
      map_ok (\<lambda>ms. (ms, rest)) (map_err (\<lambda>_. ()) (decode_frames f [] fs)))"

definition message_inv :: "string \<Rightarrow> 'm parser \<Rightarrow> nat \<Rightarrow> 'm ValidatedMessageDecoder \<Rightarrow> bool" where
  "message_inv k p limit d \<longleftrightarrow> \<not> failed d \<and> frame_inv limit (frames d) \<and>
    kind d = k \<and> vmd_max_frame_length d = limit \<and> parse d = p"

lemma decode_frames_acc: "decode_frames f acc fs = map_ok (\<lambda>ms. acc @ ms) (decode_frames f [] fs)"
proof (induction fs arbitrary: acc)
  case (Cons x xs)
  show ?case
    by (cases "f x") (simp_all add: Cons[of "acc @ _"] Cons[of "[_]"] map_ok_def split: sum.splits)
qed simp

lemma decode_frames_append:
  "decode_frames f [] (fs @ gs) = and_then (decode_frames f [] fs) (\<lambda>ms. map_ok (\<lambda>ns. ms @ ns) (decode_frames f [] gs))"
proof (induction fs)
  case Nil
  then show ?case by (cases "decode_frames f [] gs") auto
next
  case (Cons x xs)
  then show ?case
    by (cases "f x") (auto simp: decode_frames_acc[of f "[_]"] map_ok_def and_then_def split: sum.splits)
qed

lemma split_messages_append:
  "split_messages f limit (a @ b) = and_then (split_messages f limit a) (\<lambda>(ms, rest).
     map_ok (\<lambda>(ns, r). (ms @ ns, r)) (split_messages f limit (rest @ b)))"
  unfolding split_messages_def split_frames_append[of limit a b]
  by (auto simp: and_then_def map_err_def map_ok_def decode_frames_append split: sum.splits)

lemma message_push_ok:
  assumes inv: "message_inv k p limit d"
    and "split_messages (decode_frame k p limit) limit (pending (frames d) @ c) = Inr (ms, rest)"
  shows "\<exists>d'. message_push d c = Some (Inr ms, d') \<and> message_inv k p limit d' \<and> pending (frames d') = rest"
proof -
  from assms(2) obtain fs where fs: "split_frames limit (pending (frames d) @ c) = Inr (fs, rest)"
    and ms: "decode_frames (decode_frame k p limit) [] fs = Inr ms"
    by (auto simp: split_messages_def and_then_def map_err_def map_ok_def split: sum.splits)
  have "frame_inv limit (frames d)"
    using inv by (simp add: message_inv_def)
  from fd.push_ok[OF this fs] obtain d1 where
    "frame_push (frames d) c = Some (Inr fs, d1)" "frame_inv limit d1" "pending d1 = rest"
    by blast
  with inv ms show ?thesis
    by (simp add: message_push_def message_inv_def Let_def)
qed

lemma message_push_err:
  assumes inv: "message_inv k p limit d"
    and "split_messages (decode_frame k p limit) limit (pending (frames d) @ c) = Inl x"
  shows "\<exists>e d'. message_push d c = Some (Inl e, d') \<and> \<not> message_inv k p limit d'"
proof -
  have fi: "frame_inv limit (frames d)"
    using inv by (simp add: message_inv_def)
  show ?thesis
  proof (cases "split_frames limit (pending (frames d) @ c)")
    case (Inl e)
    from fd.push_err[OF fi Inl] inv show ?thesis
      by (auto simp: message_push_def message_inv_def Let_def)
  next
    case (Inr q)
    then obtain fs rest where fs: "split_frames limit (pending (frames d) @ c) = Inr (fs, rest)"
      by (cases q) auto
    with assms(2) obtain e where "decode_frames (decode_frame k p limit) [] fs = Inl e"
      by (auto simp: split_messages_def map_ok_def map_err_def split: sum.splits)
    with fd.push_ok[OF fi fs] inv show ?thesis
      by (auto simp: message_push_def message_inv_def Let_def)
  qed
qed

lemma message_end_ok_iff:
  assumes "message_inv k p limit d"
  shows "is_ok (fst (message_end d)) \<longleftrightarrow> pending (frames d) = []"
proof -
  have "is_ok (fst (message_end d)) = is_ok (fst (frame_end (frames d)))"
    using assms by (auto simp: message_end_def message_inv_def split: prod.splits sum.splits)
  then show ?thesis
    using assms fd.finish_ok[of limit "frames d"] by (simp add: message_inv_def)
qed

interpretation md: stream_decoder message_push message_end "message_inv k p limit" "\<lambda>d. pending (frames d)"
    "split_messages (decode_frame k p limit) limit" for k p limit
proof (unfold_locales, goal_cases)
  case (1 s c fs rest)
  then show ?case by (rule message_push_ok)
next
  case (2 s c x)
  then show ?case by (rule message_push_err)
next
  case (3 a b)
  show ?case by (rule split_messages_append)
next
  case (4 s)
  then show ?case by (rule message_end_ok_iff)
next
  case (5 s)
  then show ?case
    using fd.split_pend[of limit "frames s"] by (simp add: split_messages_def message_inv_def)
qed

subsection \<open>The round trip\<close>

lemma decoder_new_inv:
  assumes "message_decoder_new k p options = Inr d"
  shows "message_inv k p (requested_max_frame_length options) d \<and> pending (frames d) = []"
  using assms
  by (auto simp: message_decoder_new_def frame_decoder_new_def map_ok_def resolve_max_frame_length_def
      message_inv_def frame_inv_def pending_def Let_def and_then_def FRAME_HEADER_LENGTH_def
      split: sum.splits if_splits)

lemma encode_frame_eq: "length p \<le> Framing.MAX_UINT32 \<Longrightarrow> encode_frame p = Inr (be_bytes 4 (length p) @ p)"
  by (simp add: encode_frame_def Framing.MAX_UINT32_def unat_of_nat del: be_bytes.simps)

text \<open>The frames an accepted message becomes, and what the decoder makes of them.\<close>

lemma encode_protocol_message_decodes:
  assumes serde: "serde_ok ser de"
    and enc: "encode_protocol_message ser m (\<lambda>v. parse_protocol_message de v k) k options = Inr framed"
    and limit: "limit = requested_max_frame_length options"
  obtains payload where "framed = be_bytes 4 (length payload) @ payload" and "length payload \<le> limit"
    and "limit \<le> Framing.MAX_UINT32"
    and "decode_frame k (\<lambda>v. parse_protocol_message de v k) limit payload = Inr m"
proof -
  from enc obtain j where j: "ser m = Inr j"
    by (auto simp: encode_protocol_message_def to_cbor_value_def elim!: and_then_eq_InrE)
  then have can: "json_canonical j" "de j = Some m"
    using serde by (auto simp: serde_ok_def)
  have parse: "parse_protocol_message de (from_json_value j) k = Inr m"
    using can by (simp add: parse_protocol_message_def from_json_value_roundtrip)
  have "encode_payload limit (from_json_value j) = Inr framed"
    using enc j parse limit by (simp add: encode_protocol_message_def to_cbor_value_def)
  then obtain payload where
    cbor: "encode_cbor (from_json_value j) (Some (with_max_byte_length limit)) = Inr payload"
    and frame: "encode_frame payload = Inr framed"
    and "assert_complete_frame framed (Some (with_max_frame_length limit)) = Inr ()"
    by (auto simp: encode_payload_def elim!: and_then_eq_InrE)
  then have "limit \<le> Framing.MAX_UINT32"
    by (auto simp: assert_complete_frame_def resolve_max_frame_length_def requested_max_frame_length_def
        with_max_frame_length_def Let_def result_simps split: if_splits)
  moreover from cbor obtain opt where "resolve_options (Some (with_max_byte_length limit)) = Inr opt"
    and "length payload \<le> max_byte_length opt"
    using encode_cbor_iff by (auto simp: encode_cbor_def elim!: and_then_eq_InrE)
  then have len: "length payload \<le> limit"
    by (auto simp: resolve_options_def resolve_limit_def with_max_byte_length_def Let_def unwrap_or_def
        result_simps split: if_splits)
  moreover have "framed = be_bytes 4 (length payload) @ payload"
    using frame encode_frame_eq[of payload] len \<open>limit \<le> _\<close> by simp
  moreover have "decode_cbor payload (Some (with_max_byte_length limit)) = Inr (from_json_value j)"
    using cbor from_json_value_wf[OF can(1)] by (rule decode_encode)
  then have "decode_frame k (\<lambda>v. parse_protocol_message de v k) limit payload = Inr m"
    using parse by (simp add: decode_frame_def)
  ultimately show thesis
    using that by blast
qed

lemma split_messages_encoded:
  assumes "serde_ok ser de" and "limit = requested_max_frame_length options"
    and "list_all2 (\<lambda>m framed. encode_protocol_message ser m (\<lambda>v. parse_protocol_message de v k) k options = Inr framed) ms bss"
  shows "split_messages (decode_frame k (\<lambda>v. parse_protocol_message de v k) limit) limit (concat bss) = Inr (ms, [])"
  using assms(3)
proof (induction rule: list_all2_induct)
  case Nil
  show ?case by (simp add: split_messages_def split_frames_short)
next
  case (Cons m ms framed bss)
  let ?f = "decode_frame k (\<lambda>v. parse_protocol_message de v k) limit"
  obtain payload where b: "framed = be_bytes 4 (length payload) @ payload" "length payload \<le> limit"
    and l: "limit \<le> Framing.MAX_UINT32" and m: "?f payload = Inr m"
    using encode_protocol_message_decodes[OF assms(1) Cons.hyps(1) assms(2)] by blast
  from Cons.IH obtain fs where fs: "split_frames limit (concat bss) = Inr (fs, [])"
    and ms: "decode_frames ?f [] fs = Inr ms"
    by (auto simp: split_messages_def map_ok_def map_err_def and_then_def split: sum.splits)
  have "length payload < 2 ^ 32"
    using b l by (simp add: Framing.MAX_UINT32_def)
  then have "split_frames limit (concat (framed # bss)) = Inr (payload # fs, [])"
    using b fs by (simp add: split_frames_header del: be_bytes.simps)
  then show ?case
    using m ms decode_frames_acc[of ?f "[m]" fs] by (simp add: split_messages_def)
qed

subsection \<open>Properties\<close>


text \<open>A message type of one field, with the implementations \<open>serde\<close> derives for it.\<close>

definition ser_tag :: "string \<Rightarrow> string + Json" where
  "ser_tag t = (if utf8_valid t then Inr (JObject [(''type'', JString t)]) else Inl ''invalid utf-8'')"

definition de_tag :: "Json \<Rightarrow> string option" where
  "de_tag j = (case j of JObject m \<Rightarrow> Option.bind (json_get m ''type'') as_str | _ \<Rightarrow> None)"

lemma serde_ok_tag: "serde_ok ser_tag de_tag"
  by (auto simp: serde_ok_def ser_tag_def de_tag_def json_get_def utf8_valid_def split: if_splits)


lemma message_push_Inl: "message_push d chunk = Some (Inl e, d1) \<Longrightarrow> failed d1 \<and> kind d1 = kind d"
proof (cases "failed d \<or> frame_push (frames d) chunk = None")
  case False
  assume push: "message_push d chunk = Some (Inl e, d1)"
  from False obtain pushed fd where fp: "frame_push (frames d) chunk = Some (pushed, fd)"
    by auto
  let ?r = "and_then (map_err (\<lambda>e. wrap_frame_error (kind d) ''frame'' (frame_error_message e)) pushed)
    (decode_frames (decode_frame (kind d) (parse d) (vmd_max_frame_length d)) [])"
  from push False fp show ?thesis
    by (cases ?r) (auto simp: message_push_def Let_def)
qed (auto simp: message_push_def split: if_split_asm)

lemma message_end_Inl: "message_end d = (Inl e, d1) \<Longrightarrow> failed d1 \<and> kind d1 = kind d"
  by (auto simp: message_end_def split: if_split_asm sum.split_asm prod.split_asm)

text \<open>
  The message decoder fails closed. Once a push or the end of the stream has returned an error,
  every later push and every later end returns the \<open>has failed\<close> error and changes nothing: no message
  after a rejected one is ever delivered.
\<close>

theorem message_decoder_fails_closed:
  assumes "message_push d chunk = Some (Inl e, d1) \<or> message_end d = (Inl e, d1)"
  shows "message_push d1 chunk' = Some (Inl (decoder_failed (kind d)), d1) \<and>
    message_end d1 = (Inl (decoder_failed (kind d)), d1)"
proof -
  have "failed d1 \<and> kind d1 = kind d"
    using assms message_push_Inl message_end_Inl by blast
  then show ?thesis
    by (simp add: message_push_def message_end_def)
qed

definition unfinished_decoder :: "string ValidatedMessageDecoder" where
  "unfinished_decoder = \<lparr>failed = False, frames = (fresh_decoder 1)\<lparr>header_length := 1\<rparr>, kind = ''client'',
     vmd_max_frame_length = 1, parse = parse_client_message de_tag\<rparr>"

theorem message_decoder_fails_closed_witness:
  "message_push (snd (message_end unfinished_decoder)) [0, 0] =
    Some (Inl (decoder_failed ''client''), snd (message_end unfinished_decoder))"
proof -
  have "\<exists>e. message_end unfinished_decoder = (Inl e, snd (message_end unfinished_decoder))"
    by (simp add: message_end_def frame_end_def unfinished_decoder_def fresh_decoder_def not_open_def)
  then obtain e where "message_end unfinished_decoder = (Inl e, snd (message_end unfinished_decoder))" ..
  from message_decoder_fails_closed[OF disjI2[OF this], of "[0, 0]"] show ?thesis
    by (simp add: unfinished_decoder_def)
qed

end
