(* ===== verification/Agent_Types.thy ===== *)
theory Agent_Types
  imports Json
begin

text \<open>
  The data of the agent runtime (\<open>crates/notagent-agent/src/types.rs\<close>, with the message types of
  \<open>crates/notagent-ai/src/types.rs\<close> it uses): content blocks, tool calls and results, messages,
  events, and the JSON-schema reordering \<open>required_first\<close>.

  The message types of the harness (\<open>crates/notagent-agent/src/harness/messages.rs\<close>) are here too.
  Values the loop only passes on (diagnostics, deferred handles) are kept as JSON. Timestamps (\<open>i64\<close>) are \<open>int\<close>.
\<close>

subsection \<open>Content and messages\<close>

record TextContent =
  tx_text :: string
  text_signature :: "string option"
  text_extra :: json_map

definition TextContent_new :: "string \<Rightarrow> TextContent" where
  "TextContent_new t = \<lparr>tx_text = t, text_signature = None, text_extra = []\<rparr>"

record ImageContent =
  image_data :: string
  mime_type :: string

datatype TextOrImageContent = Text TextContent | Image ImageContent

record ToolCall =
  tc_id :: string
  tc_name :: string
  arguments :: json_map
  thought_signature :: "string option"
  namespace :: "string option"
  tc_extra :: json_map

type_synonym AgentToolCall = ToolCall

record ThinkingContent =
  thinking :: string
  thinking_signature :: "string option"
  redacted :: "bool option"
  thinking_extra :: json_map

datatype AssistantContent = AText TextContent | AThinking ThinkingContent | AToolCall ToolCall

datatype StopReason = Pending | Stop | Length | ToolUse | Error | Aborted | Deferred

record UsageCost =
  cost_input :: f64
  cost_output :: f64
  cost_cache_read :: f64
  cost_cache_write :: f64
  cost_total :: f64

record Usage =
  us_input :: nat
  us_output :: nat
  cache_read :: nat
  cache_write :: nat
  cache_write1h :: "nat option"
  reasoning_tokens :: "nat option"
  total_tokens :: "nat option"
  cost :: UsageCost

definition Usage_default :: Usage where
  "Usage_default = \<lparr>us_input = 0, us_output = 0, cache_read = 0, cache_write = 0, cache_write1h = None,
     reasoning_tokens = None, total_tokens = Some 0,
     cost = \<lparr>cost_input = 0, cost_output = 0, cost_cache_read = 0, cost_cache_write = 0, cost_total = 0\<rparr>\<rparr>"

record AssistantMessage =
  am_content :: "AssistantContent list"
  am_api :: string
  am_provider :: string
  am_model :: string
  response_model :: "string option"
  response_id :: "string option"
  diagnostics :: "Json option"
  am_usage :: Usage
  stop_reason :: StopReason
  deferred :: "Json option"
  error_message :: "string option"
  raw_stop_reason :: "string option"
  end_turn :: "bool option"
  am_timestamp :: int

record ToolResultMessage =
  trm_tool_call_id :: string
  trm_tool_name :: string
  trm_content :: "TextOrImageContent list"
  trm_details :: "Json option"
  trm_usage :: "Usage option"
  trm_added_tool_names :: "string list option"
  trm_is_error :: bool
  trm_timestamp :: int

datatype UserContent = TextOnly string | Blocks "TextOrImageContent list"

record UserMessage =
  um_content :: UserContent
  um_timestamp :: int

record BashExecutionMessage =
  bash_command :: string
  bash_output :: string
  exit_code :: "int option"
  bash_cancelled :: bool
  bash_truncated :: bool
  full_output_path :: "string option"
  bash_timestamp :: int
  exclude_from_context :: "bool option"

record CustomMessage =
  custom_type :: string
  cm_content :: UserContent
  cm_display :: bool
  cm_details :: "Json option"
  cm_timestamp :: int

record BranchSummaryMessage =
  bs_summary :: string
  bs_from_id :: string
  bs_timestamp :: int

record CompactionRecovery =
  recovery_file :: string
  recovery_id :: string

record CompactionSummaryMessage =
  cs_summary :: string
  cs_tokens_before :: nat
  cs_tokens_after :: "nat option"
  cs_timestamp :: int
  cs_recovery :: "CompactionRecovery option"

datatype AgentMessage =
    User UserMessage
  | Assistant AssistantMessage
  | ToolResult ToolResultMessage
  | BashExecution BashExecutionMessage
  | Custom CustomMessage
  | BranchSummary BranchSummaryMessage
  | CompactionSummary CompactionSummaryMessage

record AgentToolResult =
  atr_content :: "TextOrImageContent list"
  atr_details :: "Json option"
  atr_usage :: "Usage option"
  atr_added_tool_names :: "string list option"
  terminate :: "bool option"

definition AgentToolResult_text :: "string \<Rightarrow> AgentToolResult" where
  "AgentToolResult_text t = \<lparr>atr_content = [Text (TextContent_new t)], atr_details = Some (JObject []),
     atr_usage = None, atr_added_tool_names = None, terminate = None\<rparr>"

datatype ToolExecutionMode = Sequential | Parallel

datatype ThinkingLevel = Off | Minimal | Low | Medium | High | Xhigh | Max

text \<open>\<open>to_reasoning\<close>: the provider's levels are the same names without \<open>Off\<close>.\<close>

fun to_reasoning :: "ThinkingLevel \<Rightarrow> ThinkingLevel option" where
  "to_reasoning Off = None"
| "to_reasoning level = Some level"

fun as_llm_message :: "AgentMessage \<Rightarrow> AgentMessage option" where
  "as_llm_message (User m) = Some (User m)"
| "as_llm_message (Assistant m) = Some (Assistant m)"
| "as_llm_message (ToolResult m) = Some (ToolResult m)"
| "as_llm_message _ = None"

subsection \<open>Events\<close>

text \<open>
  The events of a provider's stream: \<open>Start\<close>, the nine kinds that carry the message so far
  (\<open>Progress\<close>, with the event's name and payload), and the two that end the stream.
\<close>

datatype AssistantMessageEvent =
    EvStart AssistantMessage
  | EvProgress string Json AssistantMessage
  | EvDone
  | EvError

datatype AgentEvent =
    AgentStart
  | AgentEnd "AgentMessage list"
  | TurnStart
  | TurnEnd AgentMessage "ToolResultMessage list"
  | MessageStart AgentMessage
  | MessageUpdate AgentMessage AssistantMessageEvent
  | MessageEnd AgentMessage
  | ToolExecutionStart string string Json
  | ToolExecutionUpdate string string Json AgentToolResult
  | ToolExecutionEnd string string AgentToolResult bool

fun type_name :: "AgentEvent \<Rightarrow> string" where
  "type_name AgentStart = ''agent_start''"
| "type_name (AgentEnd _) = ''agent_end''"
| "type_name TurnStart = ''turn_start''"
| "type_name (TurnEnd _ _) = ''turn_end''"
| "type_name (MessageStart _) = ''message_start''"
| "type_name (MessageUpdate _ _) = ''message_update''"
| "type_name (MessageEnd _) = ''message_end''"
| "type_name (ToolExecutionStart _ _ _) = ''tool_execution_start''"
| "type_name (ToolExecutionUpdate _ _ _ _) = ''tool_execution_update''"
| "type_name (ToolExecutionEnd _ _ _ _) = ''tool_execution_end''"

subsection \<open>Schemas\<close>

text \<open>
  \<open>required_first\<close>: \<open>type\<close>, then \<open>required\<close>, then the other fields in their order, recursively in
  \<open>properties\<close>, \<open>items\<close> and the branches of a union. The source collects the fields with
  \<open>Map::insert\<close>, one after the other.
\<close>

definition front_field :: "json_map \<Rightarrow> string \<Rightarrow> json_map" where
  "front_field fs k = (case json_get fs k of Some v \<Rightarrow> [(k, v)] | None \<Rightarrow> [])"

fun required_first :: "Json \<Rightarrow> Json"
  and required_first_field :: "string \<Rightarrow> Json \<Rightarrow> Json" where
  "required_first (JObject fs) = JObject (json_inserts
     (front_field fs ''type'' @ front_field fs ''required'' @
      map (\<lambda>(k, v). (k, required_first_field k v))
        (filter (\<lambda>(k, v). k \<noteq> ''type'' \<and> k \<noteq> ''required'') fs)))"
| "required_first schema = schema"
| "required_first_field k v =
     (if k = ''properties'' then
        (case v of JObject properties \<Rightarrow>
            JObject (json_inserts (map (\<lambda>(name, property). (name, required_first property)) properties))
         | _ \<Rightarrow> v)
      else if k = ''items'' then required_first v
      else if k = ''anyOf'' \<or> k = ''oneOf'' \<or> k = ''allOf'' then
        (case v of JArray branches \<Rightarrow> JArray (map required_first branches) | _ \<Rightarrow> v)
      else v)"

end
