(* ===== verification/Repeat_Breaker.thy ===== *)
theory Repeat_Breaker
  imports Agent_Types "HOL-Library.List_Lexorder" "HOL-Library.Char_ord" "HOL-Library.Multiset"
begin

text \<open>
  The repeat breaker (\<open>crates/notagent-agent/src/repeat_breaker.rs\<close>): it counts how often the same
  tool call is issued in a row, says which reminder each call's result gets, and after the last
  threshold asks for one text-only response.

  \<open>Display\<close> for a JSON value belongs to \<open>serde_json\<close>: \<open>to_string\<close> is a parameter. The streak is a
  \<open>u32\<close>; that it cannot overflow in the loop's use is a theorem.
\<close>

subsection \<open>Model\<close>

definition REFLECT_FROM :: u32 where "REFLECT_FROM = 3"
definition CHOOSE_FROM :: u32 where "CHOOSE_FROM = 5"
definition CONCLUDE_FROM :: u32 where "CONCLUDE_FROM = 8"
definition STOP_AT :: u32 where "STOP_AT = 12"

definition show_u32 :: "u32 \<Rightarrow> string" where "show_u32 n = show_nat (unat n)"

definition REFLECT_TEXT :: string where "REFLECT_TEXT =
  ''The same tool call has been repeated several times in a row. Before making your next call, write one sentence stating what new information you expect it to produce. Then act on that sentence: if it names something this result does not already give you, choose the action that best provides it; otherwise, continue with the evidence you already have.''"

definition CONCLUDE_TEXT :: string where "CONCLUDE_TEXT =
  ''Write your final response now, without any further tool calls. Cover: the current blocker, each approach you have tried and what it established, and the specific information or decision you need from the user to unblock progress. Text only.''"

definition handoff_refusal_text :: string where "handoff_refusal_text =
  ''This tool call was not executed: the same tool call was issued '' @ show_u32 STOP_AT @
  '' times in a row, and this response accepts text only. Reply in text: the current blocker, what you tried, and what you need next.''"

definition choose_text :: "u32 \<Rightarrow> string" where "choose_text streak =
  ''The same tool call has now been issued '' @ show_u32 streak @
  '' times in a row. Choose exactly one of the following and state your choice before acting:'' @ [newline] @
  ''(1) Falsification check: run the cheapest test that could conclusively disprove your current approach, if such a test exists.'' @ [newline] @
  ''(2) Missing input: tell the user precisely what information or decision you need to proceed, and ask for it.'' @ [newline] @
  ''(3) Conclude: deliver your best result based on the evidence already gathered, listing anything that remains uncertain.''"

datatype RepeatNudge = Reflect | Choose u32 | Conclude | StopNudge

definition for_streak :: "u32 \<Rightarrow> RepeatNudge option" where
  "for_streak s =
    (if s \<ge> STOP_AT then Some StopNudge
     else if s \<ge> CONCLUDE_FROM then Some Conclude
     else if s \<ge> CHOOSE_FROM then Some (Choose s)
     else if s \<ge> REFLECT_FROM then Some Reflect
     else None)"

fun nudge_body :: "RepeatNudge \<Rightarrow> string" where
  "nudge_body Reflect = REFLECT_TEXT"
| "nudge_body (Choose streak) = choose_text streak"
| "nudge_body Conclude = CONCLUDE_TEXT"
| "nudge_body StopNudge = CONCLUDE_TEXT"

definition nudge_text :: "RepeatNudge \<Rightarrow> string" where
  "nudge_text n = ''<system_reminder>'' @ [newline] @ nudge_body n @ [newline] @ ''</system_reminder>''"

definition nudge_apply :: "RepeatNudge \<Rightarrow> AgentToolResult \<Rightarrow> AgentToolResult" where
  "nudge_apply n result =
    (let t = nudge_text n; content = atr_content result in
     case rev content of
       Text l # _ \<Rightarrow>
         (let gap = (if tx_text l \<noteq> [] \<and> last (tx_text l) \<noteq> newline then [newline] else []) in
          result\<lparr>atr_content := butlast content @
            [Text (l\<lparr>tx_text := tx_text l @ gap @ [newline] @ t\<rparr>)]\<rparr>)
     | _ \<Rightarrow> result\<lparr>atr_content := content @ [Text (TextContent_new t)]\<rparr>)"

record RepeatBreaker =
  last_key :: "string option"
  streak :: u32
  handoff_pending :: bool

definition breaker_default :: RepeatBreaker where
  "breaker_default = \<lparr>last_key = None, streak = 0, handoff_pending = False\<rparr>"

definition breaker_reset :: "RepeatBreaker \<Rightarrow> RepeatBreaker" where
  "breaker_reset b = breaker_default"

text \<open>Object keys sorted at every level, so two calls that differ only in key order are the same.\<close>

fun canonical :: "Json \<Rightarrow> Json" where
  "canonical (JObject fs) =
    (let done = map (\<lambda>(k, v). (k, canonical v)) fs in
     JObject (json_inserts (List.map_filter (\<lambda>k. map_option (Pair k) (json_get done k)) (sort (map fst fs)))))"
| "canonical (JArray items) = JArray (map canonical items)"
| "canonical other = other"

definition call_key :: "(Json \<Rightarrow> string) \<Rightarrow> AgentToolCall \<Rightarrow> string" where
  "call_key to_string call = tc_name call @ [char_of (0 :: nat)] @ to_string (canonical (JObject (arguments call)))"

text \<open>One step of \<open>observe\<close>: the previous key of the batch, the breaker, the call's key.\<close>

definition observe_key :: "string option \<Rightarrow> RepeatBreaker \<Rightarrow> string \<Rightarrow> RepeatNudge option \<times> RepeatBreaker" where
  "observe_key previous b key =
    (if previous = Some key then (None, b)
     else
       let b1 = (if last_key b = Some key then b\<lparr>streak := streak b + 1\<rparr>
                 else b\<lparr>last_key := Some key, streak := 1\<rparr>);
           nudge = for_streak (streak b1)
       in (nudge, if nudge = Some StopNudge then b1\<lparr>handoff_pending := True\<rparr> else b1))"

fun observe_keys :: "string option \<Rightarrow> RepeatBreaker \<Rightarrow> string list \<Rightarrow> RepeatNudge option list \<times> RepeatBreaker" where
  "observe_keys previous b [] = ([], b)"
| "observe_keys previous b (key # keys) =
    (let (nudge, b1) = observe_key previous b key;
         (nudges, b2) = observe_keys (Some key) b1 keys
     in (nudge # nudges, b2))"

definition observe ::
    "(Json \<Rightarrow> string) \<Rightarrow> RepeatBreaker \<Rightarrow> AgentToolCall list \<Rightarrow> RepeatNudge option list \<times> RepeatBreaker" where
  "observe to_string b calls = observe_keys None b (map (call_key to_string) calls)"

definition take_handoff :: "RepeatBreaker \<Rightarrow> bool \<times> RepeatBreaker" where
  "take_handoff b = (handoff_pending b, if handoff_pending b then breaker_reset b else b)"

subsection \<open>The streak\<close>

lemma length_observe_keys [simp]: "length (fst (observe_keys p b keys)) = length keys"
proof (induction keys arbitrary: p b)
  case (Cons key keys)
  show ?case
    using Cons[of "Some key" "snd (observe_key p b key)"] by (simp add: Let_def case_prod_unfold)
qed simp

text \<open>
  The invariant between batches: the streak is at most the last threshold, and a hand-off is pending
  whenever it is reached. Within a batch the streak can grow by at most one, because a repetition has
  to be adjacent to count and adjacent copies of one batch count once.
\<close>

definition breaker_ok :: "RepeatBreaker \<Rightarrow> bool" where
  "breaker_ok b \<longleftrightarrow> unat (streak b) \<le> 12 \<and> (unat (streak b) = 12 \<longrightarrow> handoff_pending b)"

lemma for_streak_Stop_iff: "for_streak s = Some StopNudge \<longleftrightarrow> 12 \<le> unat s"
  by (auto simp: for_streak_def STOP_AT_def CONCLUDE_FROM_def CHOOSE_FROM_def REFLECT_FROM_def word_le_nat_alt)

lemma unat_streak_inc: "unat (s :: u32) < 12 \<Longrightarrow> unat (s + 1) = Suc (unat s)"
  by (simp add: unat_word_ariths)

lemma observe_key_first:
  assumes "breaker_ok b" and "\<not> handoff_pending b" and "previous = None"
  shows "breaker_ok (snd (observe_key previous b key)) \<and> last_key (snd (observe_key previous b key)) = Some key"
proof -
  have lt: "unat (streak b) < 12"
    using assms by (auto simp: breaker_ok_def)
  show ?thesis
    using assms lt unat_streak_inc[OF lt]
    by (simp add: observe_key_def breaker_ok_def Let_def for_streak_Stop_iff)
qed

lemma observe_key_next:
  assumes "breaker_ok b" and "last_key b = Some p"
  shows "breaker_ok (snd (observe_key (Some p) b key)) \<and> last_key (snd (observe_key (Some p) b key)) = Some key"
  using assms by (auto simp: observe_key_def breaker_ok_def Let_def for_streak_Stop_iff)

lemma observe_keys_next:
  "breaker_ok b \<Longrightarrow> last_key b = Some p \<Longrightarrow> breaker_ok (snd (observe_keys (Some p) b keys))"
proof (induction keys arbitrary: b p)
  case (Cons key keys)
  show ?case
    using Cons.IH[of "snd (observe_key (Some p) b key)" key] observe_key_next[OF Cons.prems, of key]
    by (simp add: Let_def case_prod_unfold)
qed simp

lemma observe_ok:
  assumes "breaker_ok b" and "\<not> handoff_pending b"
  shows "breaker_ok (snd (observe to_string b calls))"
proof (cases calls)
  case (Cons c cs)
  show ?thesis
    using observe_key_first[OF assms refl, of "call_key to_string c"]
      observe_keys_next[of "snd (observe_key None b (call_key to_string c))" "call_key to_string c"]
    by (simp add: observe_def Cons Let_def case_prod_unfold)
qed (use assms in \<open>simp add: observe_def\<close>)

lemma breaker_default_ok [simp]: "breaker_ok breaker_default" "breaker_ok (breaker_reset b)"
  by (simp_all add: breaker_reset_def breaker_ok_def breaker_default_def)

lemma take_handoff_ok:
  assumes "breaker_ok b"
  shows "breaker_ok (snd (take_handoff b))" and "\<not> handoff_pending (snd (take_handoff b))"
  using assms by (simp_all add: take_handoff_def)
    (simp add: breaker_reset_def breaker_default_def)

subsection \<open>Key order\<close>

text \<open>Two JSON values that differ only in the order of object fields, at any depth.\<close>

inductive same_up_to_order :: "Json \<Rightarrow> Json \<Rightarrow> bool" where
  same: "same_up_to_order j j"
| array: "list_all2 same_up_to_order xs ys \<Longrightarrow> same_up_to_order (JArray xs) (JArray ys)"
| obj: "mset (map fst fs) = mset (map fst gs) \<Longrightarrow> distinct (map fst fs) \<Longrightarrow>
    (\<And>k v. map_of fs k = Some v \<Longrightarrow> \<exists>w. map_of gs k = Some w \<and> same_up_to_order v w) \<Longrightarrow>
    same_up_to_order (JObject fs) (JObject gs)"

lemma json_get_map_values: "json_get (map (\<lambda>(k, v). (k, f v)) fs) k = map_option f (json_get fs k)"
  by (simp add: json_get_def map_of_map)

lemma map_filter_eqI: "(\<And>x. x \<in> set xs \<Longrightarrow> f x = g x) \<Longrightarrow> List.map_filter f xs = List.map_filter g xs"
  by (induction xs) (auto split: option.split)

lemma canonical_same: "same_up_to_order a b \<Longrightarrow> canonical a = canonical b"
proof (induction rule: same_up_to_order.induct)
  case (array xs ys)
  then have "map canonical xs = map canonical ys"
    by (auto simp: list_all2_conv_all_nth list_eq_iff_nth_eq)
  then show ?case by simp
next
  case (obj fs gs)
  let ?f = "\<lambda>fs k. map_option (Pair k) (json_get (map (\<lambda>(k, v). (k, canonical v)) fs) k)"
  have keys: "sort (map fst fs) = sort (map fst gs)"
    using obj.hyps(1) by (metis sorted_list_of_multiset_mset)
  have "?f fs k = ?f gs k" if k: "k \<in> set (map fst fs)" for k
  proof -
    obtain v where v: "map_of fs k = Some v"
      using k by (cases "map_of fs k") (auto simp: map_of_eq_None_iff)
    with obj.IH obtain w where "map_of gs k = Some w" "canonical v = canonical w" by blast
    with v show ?thesis
      by (simp add: json_get_map_values) (simp add: json_get_def)
  qed
  then have "List.map_filter (?f fs) (sort (map fst fs)) = List.map_filter (?f gs) (sort (map fst fs))"
    by (intro map_filter_eqI) auto
  then show ?case
    by (simp only: canonical.simps Let_def keys)
qed simp

subsection \<open>Properties\<close>

text \<open>One call per response, in order: the nudge each call gets, and the breaker after them.\<close>

fun observe_each ::
    "(Json \<Rightarrow> string) \<Rightarrow> RepeatBreaker \<Rightarrow> AgentToolCall list \<Rightarrow> RepeatNudge option list \<times> RepeatBreaker" where
  "observe_each to_string b [] = ([], b)"
| "observe_each to_string b (c # cs) =
    (let (nudges, b1) = observe to_string b [c]; (rest, b2) = observe_each to_string b1 cs
     in (nudges @ rest, b2))"

lemmas for_streak_eval = for_streak_def STOP_AT_def CONCLUDE_FROM_def CHOOSE_FROM_def REFLECT_FROM_def word_le_nat_alt

lemma observe_single:
  "observe ts b [c] = ([fst (observe_key None b (call_key ts c))], snd (observe_key None b (call_key ts c)))"
  by (simp add: observe_def Let_def case_prod_unfold)

lemma observe_each_streak:
  assumes "\<forall>c \<in> set calls. call_key ts c = k" and "last_key b = Some k"
    and "streak b = word_of_nat m" and "handoff_pending b = (12 \<le> m)" and "m + length calls \<le> 12"
  shows "fst (observe_each ts b calls) = map (\<lambda>i. for_streak (word_of_nat (m + i))) [1..<Suc (length calls)] \<and>
    handoff_pending (snd (observe_each ts b calls)) = (12 \<le> m + length calls)"
  using assms
proof (induction calls arbitrary: b m)
  case (Cons c cs)
  define b1 where "b1 = snd (observe_key None b k)"
  have "unat (word_of_nat (Suc m) :: u32) = Suc m"
    using Cons.prems(5) by (simp add: unat_of_nat del: of_nat_Suc)
  then have stop: "for_streak (word_of_nat (Suc m)) = Some StopNudge \<longleftrightarrow> 12 \<le> Suc m"
    by (simp add: for_streak_Stop_iff del: of_nat_Suc)
  have key: "call_key ts c = k" and inc: "word_of_nat m + 1 = (word_of_nat (Suc m) :: u32)"
    using Cons.prems by (simp_all add: add.commute)
  have b1: "last_key b1 = Some k" "streak b1 = word_of_nat (Suc m)" "handoff_pending b1 = (12 \<le> Suc m)"
    and n: "fst (observe_key None b k) = for_streak (word_of_nat (Suc m))"
    using Cons.prems stop by (auto simp: b1_def observe_key_def Let_def inc simp del: of_nat_Suc)
  have IH: "fst (observe_each ts b1 cs) = map (\<lambda>i. for_streak (word_of_nat (Suc m + i))) [1..<Suc (length cs)] \<and>
      handoff_pending (snd (observe_each ts b1 cs)) = (12 \<le> Suc m + length cs)"
    by (rule Cons.IH) (use Cons.prems b1 in auto)
  have "map (\<lambda>i. for_streak (word_of_nat (m + i))) [1..<Suc (length (c # cs))] =
      for_streak (word_of_nat (Suc m)) # map (\<lambda>i. for_streak (word_of_nat (Suc m + i))) [1..<Suc (length cs)]"
    by (simp add: upt_conv_Cons map_Suc_upt[symmetric] comp_def del: upt_Suc of_nat_Suc of_nat_add)
  with IH n show ?case
    by (simp add: observe_single key Let_def case_prod_unfold b1_def[symmetric] del: upt_Suc of_nat_Suc of_nat_add)
qed simp

text \<open>
  Repetition escalates exactly as documented. When responses issue the same call one after the
  other, the \<open>i\<close>-th of them (up to the twelfth) gets the reminder of streak \<open>i\<close>: none for the first
  two, \<open>Reflect\<close> from 3, \<open>Choose\<close> from 5, \<open>Conclude\<close> from 8, and with the twelfth the run is steered to
  its end.
\<close>

theorem repeat_escalates:
  assumes "calls \<noteq> []" and "\<forall>c \<in> set calls. call_key to_string c = k" and "length calls \<le> 12"
  shows "fst (observe_each to_string breaker_default calls) =
      map (\<lambda>i. for_streak (word_of_nat i)) [1..<Suc (length calls)] \<and>
    (handoff_pending (snd (observe_each to_string breaker_default calls)) \<longleftrightarrow> length calls = 12)"
proof -
  from assms(1) obtain c cs where calls: "calls = c # cs" by (cases calls) auto
  define b where "b = snd (observe_key None breaker_default k)"
  have n: "for_streak 1 = None"
    by (simp add: for_streak_eval)
  then have b: "last_key b = Some k" "streak b = word_of_nat 1" "handoff_pending b = ((12::nat) \<le> 1)"
    and fst: "fst (observe_key None breaker_default k) = None"
    by (simp_all add: b_def observe_key_def breaker_default_def Let_def)
  have all: "\<forall>c \<in> set cs. call_key to_string c = k" "1 + length cs \<le> 12" "call_key to_string c = k"
    using assms(2,3) calls by auto
  have "map (\<lambda>i. for_streak (word_of_nat i)) [1..<Suc (length calls)] =
      None # map (\<lambda>i. for_streak (word_of_nat (1 + i))) [1..<Suc (length cs)]"
    using n by (simp add: calls upt_conv_Cons map_Suc_upt[symmetric] comp_def del: upt_Suc)
  moreover note observe_each_streak[OF all(1) b all(2)]
  ultimately show ?thesis
    using all fst assms(3) by (simp add: calls observe_single Let_def case_prod_unfold b_def[symmetric]
        del: upt_Suc of_nat_Suc of_nat_add)
qed

definition example_call :: AgentToolCall where
  "example_call = \<lparr>tc_id = ''1'', tc_name = ''bash'', arguments = [(''command'', JString ''ls'')],
     thought_signature = None, namespace = None, tc_extra = []\<rparr>"

theorem repeat_escalates_witness:
  "fst (observe_each (\<lambda>j. ''json'') breaker_default [example_call, example_call, example_call]) = [None, None, Some Reflect]"
proof -
  have "[1..<Suc (length [example_call, example_call, example_call])] = [1, 2, 3]"
    by (simp add: upt_rec)
  then show ?thesis
    using repeat_escalates[of "[example_call, example_call, example_call]" "\<lambda>j. ''json''"
        "call_key (\<lambda>j. ''json'') example_call"]
    by (simp add: for_streak_eval del: observe_each.simps upt_Suc)
qed

text \<open>
  The order in which the model writes an object's fields makes no difference: two calls of one
  tool whose arguments differ only in field order, at any depth, have the same key, whatever the JSON
  printer.
\<close>

theorem call_key_ignores_field_order:
  assumes "tc_name c = tc_name d" and "same_up_to_order (JObject (arguments c)) (JObject (arguments d))"
  shows "call_key to_string c = call_key to_string d"
  using assms(1) canonical_same[OF assms(2)] by (simp add: call_key_def del: canonical.simps)

theorem call_key_ignores_field_order_witness:
  "call_key (\<lambda>j. ''json'') (example_call\<lparr>arguments := [(''a'', JNull), (''b'', JBool True)]\<rparr>) =
   call_key (\<lambda>j. ''json'') (example_call\<lparr>arguments := [(''b'', JBool True), (''a'', JNull)]\<rparr>)"
  by (rule call_key_ignores_field_order) (auto intro!: same_up_to_order.obj same_up_to_order.same split: if_splits)

end
