(* ===== verification/Agent_Stream.thy ===== *)
theory Agent_Stream
  imports Repeat_Breaker
begin

text \<open>
  The agent loop (\<open>crates/notagent-agent/src/agent_loop.rs\<close>): streaming a response, executing its
  tool calls one after the other or in parallel, recording results, and the turns of a run with
  steering, follow-up messages and cancellation.

  The code is asynchronous and talks to callbacks, tools, a provider and a cancellation token. All of
  them answer from a state \<open>'w\<close> of the outside world that they may change: a callback is a function
  \<open>'w \<Rightarrow> answer \<times> 'w\<close>, reading the token is \<open>poll\<close>, and the order in which the parallel tasks run is
  decided by \<open>pick\<close>. Because the world is arbitrary, a theorem about every world covers every
  behaviour of the callbacks, every moment of cancellation and every interleaving of the tasks. Every
  emitted event is appended to \<open>events\<close>.
\<close>

subsection \<open>The outside world\<close>

text \<open>
  How a started tool ends: with a result or an error, by a panic of its task, or not within the
  grace period after a cancellation. The updates are the progress reports it sends before.
\<close>

datatype tool_outcome = Returned AgentToolResult | Raised string | Panicked | StillRunning

record 'w AgentTool =
  tool_name :: string
  execution_mode :: "ToolExecutionMode option"
  prepare_arguments :: "Json \<Rightarrow> Json"
  tool_execute :: "string \<Rightarrow> Json \<Rightarrow> 'w \<Rightarrow> (AgentToolResult list \<times> tool_outcome) \<times> 'w"

record 'w AgentContext =
  system_prompt :: string
  messages :: "AgentMessage list"
  tools :: "'w AgentTool list option"

record Model =
  model_api :: string
  model_provider :: string
  model_id :: string

record BeforeToolCallResult =
  block :: "bool option"
  reason :: "string option"
  before_terminate :: "bool option"

record AfterToolCallResult =
  after_content :: "TextOrImageContent list option"
  after_details :: "Json option"
  after_is_error :: "bool option"
  after_usage :: "Usage option"
  after_terminate :: "bool option"

record 'w TurnInfo =
  turn_message :: AssistantMessage
  turn_tool_results :: "ToolResultMessage list"
  turn_context :: "'w AgentContext"
  turn_new_messages :: "AgentMessage list"

record 'w AgentLoopTurnUpdate =
  update_context :: "'w AgentContext option"
  update_model :: "Model option"
  update_thinking_level :: "ThinkingLevel option"

text \<open>What a provider's stream delivers, and the point at which the token is seen cancelled.\<close>

datatype stream_item = Ev AssistantMessageEvent | CancelledHere

record 'w AgentLoopConfig =
  reasoning :: "ThinkingLevel option"
  api_key :: "string option"
  model :: Model
  convert_to_llm :: "AgentMessage list \<Rightarrow> 'w \<Rightarrow> AgentMessage list \<times> 'w"
  transform_context :: "(AgentMessage list \<Rightarrow> 'w \<Rightarrow> AgentMessage list \<times> 'w) option"
  prepare_context :: "(AgentMessage list \<Rightarrow> 'w \<Rightarrow> (string + AgentMessage list) \<times> 'w) option"
  get_api_key :: "(string \<Rightarrow> 'w \<Rightarrow> string option \<times> 'w) option"
  should_stop_after_turn :: "('w TurnInfo \<Rightarrow> 'w \<Rightarrow> bool \<times> 'w) option"
  prepare_next_turn :: "('w TurnInfo \<Rightarrow> 'w \<Rightarrow> 'w AgentLoopTurnUpdate option \<times> 'w) option"
  get_steering_messages :: "('w \<Rightarrow> AgentMessage list \<times> 'w) option"
  get_follow_up_messages :: "('w \<Rightarrow> AgentMessage list \<times> 'w) option"
  tool_execution :: "ToolExecutionMode option"
  before_tool_call ::
    "(AssistantMessage \<Rightarrow> AgentToolCall \<Rightarrow> Json \<Rightarrow> 'w AgentContext \<Rightarrow> 'w \<Rightarrow> BeforeToolCallResult option \<times> 'w) option"
  after_tool_call ::
    "(AssistantMessage \<Rightarrow> AgentToolCall \<Rightarrow> Json \<Rightarrow> AgentToolResult \<Rightarrow> bool \<Rightarrow> 'w AgentContext \<Rightarrow> 'w \<Rightarrow>
      AfterToolCallResult option \<times> 'w) option"

text \<open>
  The rest of the surroundings: the token (\<open>poll\<close>), the clock, the task scheduler, the provider
  (\<open>stream_function\<close>: a response cancelled before it starts is \<open>None\<close>; otherwise the items of the
  stream and the message its \<open>result\<close> gives), argument validation against the tool's schema
  (\<open>validate_tool_arguments\<close> of \<open>notagent-ai\<close>), and the JSON printer of the repeat breaker.
\<close>

record 'w Runtime =
  poll :: "'w \<Rightarrow> bool \<times> 'w"
  now_ms :: "'w \<Rightarrow> int \<times> 'w"
  pick :: "'w \<Rightarrow> nat \<times> 'w"
  stream_function :: "Model \<Rightarrow> ThinkingLevel option \<Rightarrow> string option \<Rightarrow> string \<Rightarrow> AgentMessage list \<Rightarrow> 'w \<Rightarrow>
    (stream_item list \<times> AssistantMessage) option \<times> 'w"
  validate_tool_arguments :: "'w AgentTool \<Rightarrow> ToolCall \<Rightarrow> string + Json"
  to_string :: "Json \<Rightarrow> string"

record 'w Run =
  world :: 'w
  events :: "AgentEvent list"
  current_context :: "'w AgentContext"
  new_messages :: "AgentMessage list"

definition emit :: "AgentEvent \<Rightarrow> 'w Run \<Rightarrow> 'w Run" where
  "emit e r = r\<lparr>events := events r @ [e]\<rparr>"

definition ask :: "('w \<Rightarrow> 'a \<times> 'w) \<Rightarrow> 'w Run \<Rightarrow> 'a \<times> 'w Run" where
  "ask f r = (let (a, w) = f (world r) in (a, r\<lparr>world := w\<rparr>))"

definition push_context :: "AgentMessage \<Rightarrow> 'w Run \<Rightarrow> 'w Run" where
  "push_context m r = r\<lparr>current_context := (current_context r)\<lparr>messages := messages (current_context r) @ [m]\<rparr>\<rparr>"

definition replace_last :: "AgentMessage \<Rightarrow> 'w Run \<Rightarrow> 'w Run" where
  "replace_last m r = r\<lparr>current_context := (current_context r)\<lparr>messages := butlast (messages (current_context r)) @ [m]\<rparr>\<rparr>"

definition push_new :: "AgentMessage \<Rightarrow> 'w Run \<Rightarrow> 'w Run" where
  "push_new m r = r\<lparr>new_messages := new_messages r @ [m]\<rparr>"

subsection \<open>Streaming a response\<close>

definition check_continue_preconditions :: "'w AgentContext \<Rightarrow> string + unit" where
  "check_continue_preconditions c =
    (if messages c = [] then Inl ''Cannot continue: no messages in context''
     else case last (messages c) of
       Assistant _ \<Rightarrow> Inl ''Cannot continue from message role: assistant''
     | _ \<Rightarrow> Inr ())"

definition create_aborted_assistant_message ::
    "'w Runtime \<Rightarrow> 'w AgentLoopConfig \<Rightarrow> AssistantMessage option \<Rightarrow> 'w Run \<Rightarrow> AssistantMessage \<times> 'w Run" where
  "create_aborted_assistant_message rt cfg partial r =
    (let (now, r) = ask (now_ms rt) r in
     (case partial of
        Some p \<Rightarrow> p\<lparr>stop_reason := Aborted, deferred := None, error_message := Some ''Operation aborted'',
          raw_stop_reason := None, end_turn := None, am_timestamp := now\<rparr>
      | None \<Rightarrow> \<lparr>am_content = [], am_api = model_api (model cfg), am_provider = model_provider (model cfg),
          am_model = model_id (model cfg), response_model = None, response_id = None, diagnostics = None,
          am_usage = Usage_default, stop_reason = Aborted, deferred = None,
          error_message = Some ''Operation aborted'', raw_stop_reason = None, end_turn = None,
          am_timestamp = now\<rparr>,
      r))"

definition finish_assistant_message :: "AssistantMessage \<Rightarrow> bool \<Rightarrow> 'w Run \<Rightarrow> 'w Run" where
  "finish_assistant_message m added_partial r =
    emit (MessageEnd (Assistant m))
      (if added_partial then replace_last (Assistant m) r
       else emit (MessageStart (Assistant m)) (push_context (Assistant m) r))"

definition finish_cancelled_turn :: "'w Runtime \<Rightarrow> 'w AgentLoopConfig \<Rightarrow> 'w Run \<Rightarrow> 'w Run" where
  "finish_cancelled_turn rt cfg r =
    (let (m, r) = create_aborted_assistant_message rt cfg None r;
         r = finish_assistant_message m False r;
         r = push_new (Assistant m) r;
         r = emit (TurnEnd (Assistant m) []) r
     in emit (AgentEnd (new_messages r)) r)"

definition finish_cancelled_after_turn :: "'w Runtime \<Rightarrow> 'w AgentLoopConfig \<Rightarrow> 'w Run \<Rightarrow> bool \<times> 'w Run" where
  "finish_cancelled_after_turn rt cfg r =
    (let (cancelled, r) = ask (poll rt) r in
     if \<not> cancelled then (False, r)
     else (True, finish_cancelled_turn rt cfg (emit TurnStart r)))"

fun as_assistant :: "AgentMessage \<Rightarrow> AssistantMessage option" where
  "as_assistant (Assistant m) = Some m"
| "as_assistant _ = None"

definition finish_cancelled_response ::
    "'w Runtime \<Rightarrow> 'w AgentLoopConfig \<Rightarrow> bool \<Rightarrow> 'w Run \<Rightarrow> AssistantMessage \<times> 'w Run" where
  "finish_cancelled_response rt cfg added_partial r =
    (let ms = messages (current_context r);
         partial = (if added_partial \<and> ms \<noteq> [] then as_assistant (last ms) else None);
         (m, r) = create_aborted_assistant_message rt cfg partial r
     in (m, finish_assistant_message m added_partial r))"

text \<open>The loop over the stream's events.\<close>

fun stream_loop ::
    "'w Runtime \<Rightarrow> 'w AgentLoopConfig \<Rightarrow> AssistantMessage \<Rightarrow> stream_item list \<Rightarrow> bool \<Rightarrow> bool \<Rightarrow> 'w Run \<Rightarrow>
      AssistantMessage \<times> 'w Run" where
  "stream_loop rt cfg final [] added streaming r = (final, finish_assistant_message final added r)"
| "stream_loop rt cfg final (CancelledHere # items) added streaming r = finish_cancelled_response rt cfg added r"
| "stream_loop rt cfg final (Ev (EvStart partial) # items) added streaming r =
    stream_loop rt cfg final items True True
      (emit (MessageStart (Assistant partial)) (push_context (Assistant partial) r))"
| "stream_loop rt cfg final (Ev (EvProgress name payload partial) # items) added streaming r =
    stream_loop rt cfg final items added streaming
      (if streaming
       then emit (MessageUpdate (Assistant partial) (EvProgress name payload partial)) (replace_last (Assistant partial) r)
       else r)"
| "stream_loop rt cfg final (Ev EvDone # items) added streaming r = (final, finish_assistant_message final added r)"
| "stream_loop rt cfg final (Ev EvError # items) added streaming r = (final, finish_assistant_message final added r)"

text \<open>The request itself, once the context is prepared.\<close>

definition send_request :: "'w Runtime \<Rightarrow> 'w AgentLoopConfig \<Rightarrow> 'w Run \<Rightarrow> AssistantMessage \<times> 'w Run" where
  "send_request rt cfg r =
    (let ms = messages (current_context r);
         (ms, r) = (case transform_context cfg of Some f \<Rightarrow> ask (f ms) r | None \<Rightarrow> (ms, r));
         (llm_messages, r) = ask (convert_to_llm cfg ms) r;
         (cancelled, r) = ask (poll rt) r
     in if cancelled then finish_cancelled_response rt cfg False r
        else
          let (resolved, r) = (case get_api_key cfg of
                Some f \<Rightarrow> ask (f (model_provider (model cfg))) r | None \<Rightarrow> (None, r));
              resolved_api_key = (case resolved of Some k \<Rightarrow> Some k | None \<Rightarrow> api_key cfg);
              (cancelled, r) = ask (poll rt) r
          in if cancelled then finish_cancelled_response rt cfg False r
             else
               let (response, r) = ask (stream_function rt (model cfg) (reasoning cfg) resolved_api_key
                     (system_prompt (current_context r)) llm_messages) r
               in case response of
                    None \<Rightarrow> finish_cancelled_response rt cfg False r
                  | Some (items, final) \<Rightarrow> stream_loop rt cfg final items False False r)"

definition stream_assistant_response ::
    "'w Runtime \<Rightarrow> 'w AgentLoopConfig \<Rightarrow> 'w Run \<Rightarrow> AssistantMessage \<times> 'w Run" where
  "stream_assistant_response rt cfg r =
    (let (cancelled, r) = ask (poll rt) r in
     if cancelled then finish_cancelled_response rt cfg False r
     else case prepare_context cfg of
       None \<Rightarrow> send_request rt cfg r
     | Some f \<Rightarrow>
         let (prepared, r) = ask (f (messages (current_context r))) r;
             (cancelled, r) = ask (poll rt) r
         in if cancelled then finish_cancelled_response rt cfg False r
            else case prepared of
              Inr ms \<Rightarrow> send_request rt cfg (r\<lparr>current_context := (current_context r)\<lparr>messages := ms\<rparr>\<rparr>)
            | Inl e \<Rightarrow>
                let (m, r) = create_aborted_assistant_message rt cfg None r;
                    m = m\<lparr>stop_reason := Error, error_message := Some e\<rparr>
                in (m, finish_assistant_message m False r))"

end
