(* ===== verification/Tool_Batch.thy ===== *)
theory Tool_Batch
  imports Agent_Stream
begin

text \<open>
  Executing the tool calls of one response (\<open>crates/notagent-agent/src/agent_loop.rs\<close>, from
  \<open>create_error_tool_result\<close> to \<open>finalize_executed_tool_call\<close>): preparing a call, running it with the
  grace period after a cancellation, the hooks, the sequential batch and the parallel batch.

  In the parallel batch the preflight runs call by call while the tasks it has spawned already run;
  \<open>par_loop\<close> interleaves them as the scheduler \<open>pick\<close> decides, one emitted event at a time.
\<close>

subsection \<open>Results\<close>

record ExecutedToolCallBatch =
  batch_messages :: "ToolResultMessage list"
  batch_terminate :: bool

record FinalizedToolCall =
  fin_call :: AgentToolCall
  fin_result :: AgentToolResult
  fin_is_error :: bool

definition create_error_tool_result :: "string \<Rightarrow> AgentToolResult" where
  "create_error_tool_result message = \<lparr>atr_content = [Text (TextContent_new message)],
     atr_details = Some (JObject []), atr_usage = None, atr_added_tool_names = None, terminate = None\<rparr>"

definition apostrophe_s :: string where "apostrophe_s = [char_of (39 :: nat), CHR ''s'']"

definition quoted :: "string \<Rightarrow> string" where
  "quoted s = [char_of (34 :: nat)] @ s @ [char_of (34 :: nat)]"

definition create_aborted_tool_result :: "string \<Rightarrow> AgentToolResult" where
  "create_aborted_tool_result name = create_error_tool_result
    (''The user manually interrupted '' @ quoted name @
     '' (and anything else running at the same time). This was a deliberate user action, not a system error, timeout, or capacity limit. Do not retry automatically or guess at the cause '' @
     em_dash @ '' wait for the user'' @ apostrophe_s @ '' next instruction.'')"

definition CANCELLED_TOOL_GRACE_MS :: nat where "CANCELLED_TOOL_GRACE_MS = 2000"

definition create_grace_timeout_tool_result :: "string \<Rightarrow> AgentToolResult" where
  "create_grace_timeout_tool_result name = create_error_tool_result
    (''Tool '' @ quoted name @ '' aborted by grace timeout ('' @ show_nat CANCELLED_TOOL_GRACE_MS @ ''ms)'')"

definition should_terminate_tool_batch :: "FinalizedToolCall list \<Rightarrow> bool" where
  "should_terminate_tool_batch finalized \<longleftrightarrow>
    finalized \<noteq> [] \<and> list_all (\<lambda>f. terminate (fin_result f) = Some True) finalized"

definition create_tool_result_message :: "FinalizedToolCall \<Rightarrow> int \<Rightarrow> ToolResultMessage" where
  "create_tool_result_message f now =
    \<lparr>trm_tool_call_id = tc_id (fin_call f), trm_tool_name = tc_name (fin_call f),
     trm_content = atr_content (fin_result f), trm_details = atr_details (fin_result f),
     trm_usage = atr_usage (fin_result f),
     trm_added_tool_names = (case atr_added_tool_names (fin_result f) of
       Some names \<Rightarrow> if names = [] then None else Some names | None \<Rightarrow> None),
     trm_is_error = fin_is_error f, trm_timestamp = now\<rparr>"

definition emit_tool_execution_start :: "AgentToolCall \<Rightarrow> 'w Run \<Rightarrow> 'w Run" where
  "emit_tool_execution_start c r = emit (ToolExecutionStart (tc_id c) (tc_name c) (JObject (arguments c))) r"

definition emit_tool_execution_end :: "FinalizedToolCall \<Rightarrow> 'w Run \<Rightarrow> 'w Run" where
  "emit_tool_execution_end f r =
    emit (ToolExecutionEnd (tc_id (fin_call f)) (tc_name (fin_call f)) (fin_result f) (fin_is_error f)) r"

definition emit_tool_result_message :: "ToolResultMessage \<Rightarrow> 'w Run \<Rightarrow> 'w Run" where
  "emit_tool_result_message m r = emit (MessageEnd (ToolResult m)) (emit (MessageStart (ToolResult m)) r)"

text \<open>The message of a finalized call, stamped and announced.\<close>

definition report_result :: "'w Runtime \<Rightarrow> FinalizedToolCall \<Rightarrow> 'w Run \<Rightarrow> ToolResultMessage \<times> 'w Run" where
  "report_result rt f r =
    (let (now, r) = ask (now_ms rt) r; m = create_tool_result_message f now
     in (m, emit_tool_result_message m r))"

fun reject_messages ::
    "'w Runtime \<Rightarrow> (AgentToolCall \<Rightarrow> string) \<Rightarrow> AgentToolCall list \<Rightarrow> 'w Run \<Rightarrow> ToolResultMessage list \<times> 'w Run" where
  "reject_messages rt why [] r = ([], r)"
| "reject_messages rt why (c # cs) r =
    (let r = emit_tool_execution_start c r;
         f = \<lparr>fin_call = c, fin_result = create_error_tool_result (why c), fin_is_error = True\<rparr>;
         r = emit_tool_execution_end f r;
         (m, r) = report_result rt f r;
         (ms, r) = reject_messages rt why cs r
     in (m # ms, r))"

definition reject_tool_calls ::
    "'w Runtime \<Rightarrow> AgentToolCall list \<Rightarrow> (AgentToolCall \<Rightarrow> string) \<Rightarrow> bool \<Rightarrow> 'w Run \<Rightarrow> ExecutedToolCallBatch \<times> 'w Run" where
  "reject_tool_calls rt calls why term r =
    (let (ms, r) = reject_messages rt why calls r in (\<lparr>batch_messages = ms, batch_terminate = term\<rparr>, r))"

definition apply_nudge :: "RepeatNudge option \<Rightarrow> FinalizedToolCall \<Rightarrow> FinalizedToolCall" where
  "apply_nudge nudge f = (case nudge of
     Some n \<Rightarrow> f\<lparr>fin_result := nudge_apply n (fin_result f)\<rparr> | None \<Rightarrow> f)"

definition nudge_at :: "RepeatNudge option list \<Rightarrow> nat \<Rightarrow> RepeatNudge option" where
  "nudge_at nudges index = (if index < length nudges then nudges ! index else None)"

subsection \<open>One call\<close>

datatype 'w PreparedToolCall = Prepared "'w AgentTool" Json | Immediate AgentToolResult bool

definition find_tool :: "'w AgentContext \<Rightarrow> string \<Rightarrow> 'w AgentTool option" where
  "find_tool ctx name = Option.bind (tools ctx) (find (\<lambda>t. tool_name t = name))"

definition blocked_result :: "BeforeToolCallResult \<Rightarrow> AgentToolResult" where
  "blocked_result b =
    (let result = create_error_tool_result (case reason b of Some t \<Rightarrow> t | None \<Rightarrow> ''Tool execution was blocked'') in
     if before_terminate b = Some True then result\<lparr>terminate := Some True\<rparr> else result)"

definition prepare_tool_call ::
    "'w Runtime \<Rightarrow> 'w AgentLoopConfig \<Rightarrow> AssistantMessage \<Rightarrow> AgentToolCall \<Rightarrow> 'w Run \<Rightarrow> 'w PreparedToolCall \<times> 'w Run" where
  "prepare_tool_call rt cfg message call r =
    (case find_tool (current_context r) (tc_name call) of
       None \<Rightarrow> (Immediate (create_error_tool_result (''Tool '' @ tc_name call @ '' not found'')) True, r)
     | Some tool \<Rightarrow>
         let prepared = prepare_arguments tool (JObject (arguments call));
             prepared_call = call\<lparr>arguments := (case as_object prepared of Some m \<Rightarrow> m | None \<Rightarrow> [])\<rparr>
         in case validate_tool_arguments rt tool prepared_call of
              Inl e \<Rightarrow> (Immediate (create_error_tool_result e) True, r)
            | Inr args \<Rightarrow>
                let (hook, r) = (case before_tool_call cfg of
                      None \<Rightarrow> (None, r)
                    | Some f \<Rightarrow>
                        let (before, r) = ask (f message call args (current_context r)) r;
                            (cancelled, r) = ask (poll rt) r
                        in (if cancelled then Some (Immediate (create_aborted_tool_result (tc_name call)) True)
                            else case before of
                              Some b \<Rightarrow> if block b = Some True then Some (Immediate (blocked_result b) True) else None
                            | None \<Rightarrow> None, r))
                in case hook of
                     Some immediate \<Rightarrow> (immediate, r)
                   | None \<Rightarrow>
                       let (cancelled, r) = ask (poll rt) r in
                       if cancelled then (Immediate (create_aborted_tool_result (tc_name call)) True, r)
                       else (Prepared tool args, r))"

definition emit_update :: "AgentToolCall \<Rightarrow> AgentToolResult \<Rightarrow> 'w Run \<Rightarrow> 'w Run" where
  "emit_update c u r = emit (ToolExecutionUpdate (tc_id c) (tc_name c) (JObject (arguments c)) u) r"

text \<open>
  The result of an execution that has ended: a failure after a cancellation is reported as the
  interruption, and an execution that outlasts the grace period as a timeout. \<open>None\<close> is a panic.
\<close>

definition normalize_outcome ::
    "'w Runtime \<Rightarrow> AgentToolCall \<Rightarrow> tool_outcome \<Rightarrow> 'w Run \<Rightarrow> (AgentToolResult \<times> bool) option \<times> 'w Run" where
  "normalize_outcome rt call outcome r =
    (case outcome of
       Panicked \<Rightarrow> (None, r)
     | StillRunning \<Rightarrow> (Some (create_grace_timeout_tool_result (tc_name call), True), r)
     | Returned result \<Rightarrow> (Some (result, False), r)
     | Raised e \<Rightarrow>
         let (cancelled, r) = ask (poll rt) r in
         (Some (if cancelled then create_aborted_tool_result (tc_name call) else create_error_tool_result e, True), r))"

definition finalize_executed_tool_call ::
    "'w AgentLoopConfig \<Rightarrow> AssistantMessage \<Rightarrow> AgentToolCall \<Rightarrow> Json \<Rightarrow> AgentToolResult \<times> bool \<Rightarrow> 'w Run \<Rightarrow>
      FinalizedToolCall \<times> 'w Run" where
  "finalize_executed_tool_call cfg message call args executed r =
    (let (result, is_error) = executed in
     case after_tool_call cfg of
       None \<Rightarrow> (\<lparr>fin_call = call, fin_result = result, fin_is_error = is_error\<rparr>, r)
     | Some f \<Rightarrow>
         let (after, r) = ask (f message call args result is_error (current_context r)) r in
         (case after of
            None \<Rightarrow> \<lparr>fin_call = call, fin_result = result, fin_is_error = is_error\<rparr>
          | Some a \<Rightarrow>
              \<lparr>fin_call = call,
               fin_result = \<lparr>atr_content = (case after_content a of Some c \<Rightarrow> c | None \<Rightarrow> atr_content result),
                 atr_details = (case after_details a of Some d \<Rightarrow> Some d | None \<Rightarrow> atr_details result),
                 atr_usage = (case after_usage a of Some u \<Rightarrow> Some u | None \<Rightarrow> atr_usage result),
                 atr_added_tool_names = atr_added_tool_names result,
                 terminate = (case after_terminate a of Some t \<Rightarrow> Some t | None \<Rightarrow> terminate result)\<rparr>,
               fin_is_error = (case after_is_error a of Some e \<Rightarrow> e | None \<Rightarrow> is_error)\<rparr>, r))"

subsection \<open>The sequential batch\<close>

text \<open>\<open>execute_prepared_tool_call_with_grace\<close>, run to its end: cancelled before it starts, or executed.\<close>

definition execute_prepared ::
    "'w Runtime \<Rightarrow> 'w AgentTool \<Rightarrow> AgentToolCall \<Rightarrow> Json \<Rightarrow> 'w Run \<Rightarrow> (AgentToolResult \<times> bool) option \<times> 'w Run" where
  "execute_prepared rt tool call args r =
    (let (cancelled, r) = ask (poll rt) r in
     if cancelled then (Some (create_aborted_tool_result (tc_name call), True), r)
     else
       let ((updates, outcome), r) = ask (tool_execute tool (tc_id call) args) r;
           r = fold (emit_update call) updates r
       in normalize_outcome rt call outcome r)"

text \<open>One call of the sequential loop up to its finalized result; \<open>None\<close> unwinds with the panic.\<close>

definition sequential_call ::
    "'w Runtime \<Rightarrow> 'w AgentLoopConfig \<Rightarrow> AssistantMessage \<Rightarrow> AgentToolCall \<Rightarrow> 'w Run \<Rightarrow> FinalizedToolCall option \<times> 'w Run" where
  "sequential_call rt cfg message call r =
    (let (preparation, r) = prepare_tool_call rt cfg message call r in
     case preparation of
       Immediate result is_error \<Rightarrow> (Some \<lparr>fin_call = call, fin_result = result, fin_is_error = is_error\<rparr>, r)
     | Prepared tool args \<Rightarrow>
         let (executed, r) = execute_prepared rt tool call args r in
         (case executed of
            None \<Rightarrow> (None, r)
          | Some e \<Rightarrow> let (f, r) = finalize_executed_tool_call cfg message call args e r in (Some f, r)))"

fun sequential_loop ::
    "'w Runtime \<Rightarrow> 'w AgentLoopConfig \<Rightarrow> AssistantMessage \<Rightarrow> RepeatNudge option list \<Rightarrow> nat \<Rightarrow> AgentToolCall list \<Rightarrow>
      FinalizedToolCall list \<Rightarrow> ToolResultMessage list \<Rightarrow> 'w Run \<Rightarrow>
      (FinalizedToolCall list \<times> ToolResultMessage list) option \<times> 'w Run" where
  "sequential_loop rt cfg message nudges index [] finalized msgs r = (Some (finalized, msgs), r)"
| "sequential_loop rt cfg message nudges index (call # calls) finalized msgs r =
    (let r = emit_tool_execution_start call r;
         (done, r) = sequential_call rt cfg message call r
     in case done of
          None \<Rightarrow> (None, r)
        | Some f \<Rightarrow>
            let f = apply_nudge (nudge_at nudges index) f;
                r = emit_tool_execution_end f r;
                (m, r) = report_result rt f r
            in sequential_loop rt cfg message nudges (index + 1) calls (finalized @ [f]) (msgs @ [m]) r)"

definition execute_tool_calls_sequential ::
    "'w Runtime \<Rightarrow> 'w AgentLoopConfig \<Rightarrow> AssistantMessage \<Rightarrow> AgentToolCall list \<Rightarrow> RepeatNudge option list \<Rightarrow>
      'w Run \<Rightarrow> ExecutedToolCallBatch option \<times> 'w Run" where
  "execute_tool_calls_sequential rt cfg message calls nudges r =
    (let (done, r) = sequential_loop rt cfg message nudges 0 calls [] [] r in
     (map_option (\<lambda>(finalized, ms).
        \<lparr>batch_messages = ms, batch_terminate = should_terminate_tool_batch finalized\<rparr>) done, r))"

subsection \<open>The parallel batch\<close>

text \<open>A spawned task: its call, and once it has started, the updates still to send and its outcome.\<close>

record 'w Task =
  task_index :: nat
  task_call :: AgentToolCall
  task_tool :: "'w AgentTool"
  task_args :: Json
  task_plan :: "(AgentToolResult list \<times> tool_outcome) option"

type_synonym entry = "nat \<times> FinalizedToolCall"

datatype 'w task_result = Working "'w Task" | Ended "entry option"

text \<open>The end of a task: the after hook, the reminder, the end event.\<close>

definition task_finish ::
    "'w AgentLoopConfig \<Rightarrow> AssistantMessage \<Rightarrow> RepeatNudge option list \<Rightarrow> 'w Task \<Rightarrow> AgentToolResult \<times> bool \<Rightarrow>
      'w Run \<Rightarrow> 'w task_result \<times> 'w Run" where
  "task_finish cfg message nudges t executed r =
    (let (f, r) = finalize_executed_tool_call cfg message (task_call t) (task_args t) executed r;
         f = apply_nudge (nudge_at nudges (task_index t)) f
     in (Ended (Some (task_index t, f)), emit_tool_execution_end f r))"

text \<open>One step of a task: start it, send one update, or end it.\<close>

definition task_step ::
    "'w Runtime \<Rightarrow> 'w AgentLoopConfig \<Rightarrow> AssistantMessage \<Rightarrow> RepeatNudge option list \<Rightarrow> 'w Task \<Rightarrow> 'w Run \<Rightarrow>
      'w task_result \<times> 'w Run" where
  "task_step rt cfg message nudges t r =
    (case task_plan t of
       None \<Rightarrow>
         let (cancelled, r) = ask (poll rt) r in
         if cancelled
         then task_finish cfg message nudges t (create_aborted_tool_result (tc_name (task_call t)), True) r
         else let (plan, r) = ask (tool_execute (task_tool t) (tc_id (task_call t)) (task_args t)) r
              in (Working (t\<lparr>task_plan := Some plan\<rparr>), r)
     | Some (u # us, outcome) \<Rightarrow>
         (Working (t\<lparr>task_plan := Some (us, outcome)\<rparr>), emit_update (task_call t) u r)
     | Some ([], outcome) \<Rightarrow>
         let (executed, r) = normalize_outcome rt (task_call t) outcome r in
         (case executed of
            None \<Rightarrow> (Ended None, r)
          | Some e \<Rightarrow> task_finish cfg message nudges t e r))"

record 'w Batch =
  todo :: "(nat \<times> AgentToolCall) list"
  started :: bool
  tasks :: "'w Task list"
  immediate :: "entry list"
  joined :: "entry list"

text \<open>
  One step of the preflight: announce the next call, or prepare it and either finish it at once or
  spawn its task.
\<close>

definition preflight_step ::
    "'w Runtime \<Rightarrow> 'w AgentLoopConfig \<Rightarrow> AssistantMessage \<Rightarrow> RepeatNudge option list \<Rightarrow> 'w Batch \<Rightarrow> 'w Run \<Rightarrow>
      'w Batch \<times> 'w Run" where
  "preflight_step rt cfg message nudges b r =
    (case todo b of
       [] \<Rightarrow> (b, r)
     | (index, call) # rest \<Rightarrow>
         if \<not> started b then (b\<lparr>started := True\<rparr>, emit_tool_execution_start call r)
         else
           let (preparation, r) = prepare_tool_call rt cfg message call r in
           (case preparation of
              Immediate result is_error \<Rightarrow>
                let f = apply_nudge (nudge_at nudges index)
                      \<lparr>fin_call = call, fin_result = result, fin_is_error = is_error\<rparr>
                in (b\<lparr>todo := rest, started := False, immediate := immediate b @ [(index, f)]\<rparr>,
                    emit_tool_execution_end f r)
            | Prepared tool args \<Rightarrow>
                (b\<lparr>todo := rest, started := False, tasks := tasks b @
                   [\<lparr>task_index = index, task_call = call, task_tool = tool, task_args = args, task_plan = None\<rparr>]\<rparr>, r)))"

definition run_task ::
    "'w Runtime \<Rightarrow> 'w AgentLoopConfig \<Rightarrow> AssistantMessage \<Rightarrow> RepeatNudge option list \<Rightarrow> nat \<Rightarrow> 'w Batch \<Rightarrow> 'w Run \<Rightarrow>
      'w Batch \<times> 'w Run" where
  "run_task rt cfg message nudges i b r =
    (let (res, r) = task_step rt cfg message nudges (tasks b ! i) r in
     (case res of
        Working t \<Rightarrow> b\<lparr>tasks := (tasks b)[i := t]\<rparr>
      | Ended e \<Rightarrow> b\<lparr>tasks := take i (tasks b) @ drop (Suc i) (tasks b),
          joined := joined b @ (case e of Some x \<Rightarrow> [x] | None \<Rightarrow> [])\<rparr>, r))"

definition batch_step ::
    "'w Runtime \<Rightarrow> 'w AgentLoopConfig \<Rightarrow> AssistantMessage \<Rightarrow> RepeatNudge option list \<Rightarrow> 'w Batch \<Rightarrow> 'w Run \<Rightarrow>
      'w Batch \<times> 'w Run" where
  "batch_step rt cfg message nudges b r =
    (let (n, r) = ask (pick rt) r in
     if todo b \<noteq> [] \<and> (tasks b = [] \<or> n = 0) then preflight_step rt cfg message nudges b r
     else run_task rt cfg message nudges (n mod length (tasks b)) b r)"

text \<open>
  The work left: calls to prepare (in two steps each), tasks to start, and for a started task its
  updates and its end.
\<close>

definition plan_size :: "'w Task \<Rightarrow> nat" where
  "plan_size t = (case task_plan t of None \<Rightarrow> 0 | Some (us, _) \<Rightarrow> length us + 1)"

definition batch_measure :: "'w Batch \<Rightarrow> nat \<times> nat \<times> nat \<times> nat" where
  "batch_measure b = (length (todo b), if started b then 0 else 1,
     sum_list (map (\<lambda>t. if task_plan t = None then 1 else 0) (tasks b)), sum_list (map plan_size (tasks b)))"

definition batch_order :: "('w Batch \<times> 'w Batch) set" where
  "batch_order = inv_image (less_than <*lex*> less_than <*lex*> less_than <*lex*> less_than) batch_measure"

lemma wf_batch_order: "wf batch_order"
  by (simp add: batch_order_def wf_lex_prod)

lemma sum_list_nth_split:
  "i < length xs \<Longrightarrow> sum_list (map f xs) = sum_list (map f (take i xs)) + f (xs ! i) + sum_list (map (f :: _ \<Rightarrow> nat) (drop (Suc i) xs))"
  by (subst (1) id_take_nth_drop[of i xs]) simp_all

lemma sum_list_update_nat:
  "i < length xs \<Longrightarrow> sum_list (map f (xs[i := y])) + f (xs ! i) = sum_list (map f xs) + (f y :: nat)"
  by (simp add: sum_list_nth_split upd_conv_take_nth_drop)

lemma preflight_step_decreases:
  "todo b \<noteq> [] \<Longrightarrow> (fst (preflight_step rt cfg message nudges b r), b) \<in> batch_order"
  by (auto simp: preflight_step_def batch_order_def batch_measure_def Let_def case_prod_unfold
      split: list.split PreparedToolCall.split)

lemma task_step_plan:
  "fst (task_step rt cfg message nudges t r) = Working t' \<Longrightarrow>
    task_plan t' \<noteq> None \<and> task_index t' = task_index t \<and> task_call t' = task_call t \<and>
    (task_plan t = None \<or> plan_size t' < plan_size t)"
  by (auto simp: task_step_def task_finish_def plan_size_def Let_def case_prod_unfold
      split: option.splits list.splits if_splits)

lemma run_task_decreases:
  assumes "i < length (tasks b)"
  shows "(fst (run_task rt cfg message nudges i b r), b) \<in> batch_order"
proof -
  let ?t = "tasks b ! i" and ?unstarted = "\<lambda>t. if task_plan t = None then 1 else 0 :: nat"
  note split = sum_list_nth_split[OF assms, of ?unstarted] sum_list_nth_split[OF assms, of plan_size]
  have size: "0 < ?unstarted ?t \<or> 0 < plan_size ?t"
    by (simp add: plan_size_def split: option.split)
  show ?thesis
  proof (cases "fst (task_step rt cfg message nudges ?t r)")
    case (Working t')
    note step = task_step_plan[OF Working]
    have "sum_list (map ?unstarted ((tasks b)[i := t'])) + ?unstarted ?t = sum_list (map ?unstarted (tasks b))"
      using sum_list_update_nat[OF assms, of ?unstarted t'] step by simp
    moreover note sum_list_update_nat[OF assms, of plan_size t']
    ultimately show ?thesis
      using Working step
      by (auto simp: run_task_def batch_order_def batch_measure_def Let_def case_prod_unfold)
  next
    case (Ended e)
    then show ?thesis
      using size split
      by (auto simp: run_task_def batch_order_def batch_measure_def Let_def case_prod_unfold)
  qed
qed

lemma batch_step_decreases:
  assumes "\<not> (todo b = [] \<and> tasks b = [])"
  shows "(fst (batch_step rt cfg message nudges b r), b) \<in> batch_order"
proof (cases "todo b \<noteq> [] \<and> (tasks b = [] \<or> fst (ask (pick rt) r) = 0)")
  case True
  then show ?thesis
    by (simp add: batch_step_def Let_def case_prod_unfold preflight_step_decreases)
next
  case False
  with assms have "tasks b \<noteq> []" by auto
  with False show ?thesis
    by (auto simp: batch_step_def Let_def case_prod_unfold run_task_decreases)
qed

text \<open>The preflight and the tasks, to their end.\<close>

function par_loop ::
    "'w Runtime \<Rightarrow> 'w AgentLoopConfig \<Rightarrow> AssistantMessage \<Rightarrow> RepeatNudge option list \<Rightarrow> 'w Batch \<Rightarrow> 'w Run \<Rightarrow>
      'w Batch \<times> 'w Run" where
  "par_loop rt cfg message nudges b r =
    (if todo b = [] \<and> tasks b = [] then (b, r)
     else par_loop rt cfg message nudges
       (fst (batch_step rt cfg message nudges b r)) (snd (batch_step rt cfg message nudges b r)))"
  by pat_completeness auto
termination
  by (relation "inv_image batch_order (\<lambda>(rt, cfg, message, nudges, b, r). b)")
    (auto simp: wf_batch_order case_prod_unfold intro: batch_step_decreases)

declare par_loop.simps [simp del]

text \<open>Calls without an entry (their task panicked) are closed as errors.\<close>

fun fill_missing ::
    "'w Runtime \<Rightarrow> RepeatNudge option list \<Rightarrow> (nat \<times> AgentToolCall) list \<Rightarrow> entry list \<Rightarrow> 'w Run \<Rightarrow> entry list \<times> 'w Run" where
  "fill_missing rt nudges [] ordered r = (ordered, r)"
| "fill_missing rt nudges ((index, call) # calls) ordered r =
    (if list_ex (\<lambda>(i, _). i = index) ordered then fill_missing rt nudges calls ordered r
     else
       let (cancelled, r) = ask (poll rt) r;
           result = (if cancelled then create_aborted_tool_result (tc_name call)
             else create_error_tool_result (''Tool '' @ quoted (tc_name call) @ '' failed before producing a result''));
           f = apply_nudge (nudge_at nudges index) \<lparr>fin_call = call, fin_result = result, fin_is_error = True\<rparr>
       in fill_missing rt nudges calls (ordered @ [(index, f)]) (emit_tool_execution_end f r))"

fun report_all :: "'w Runtime \<Rightarrow> FinalizedToolCall list \<Rightarrow> 'w Run \<Rightarrow> ToolResultMessage list \<times> 'w Run" where
  "report_all rt [] r = ([], r)"
| "report_all rt (f # fs) r =
    (let (m, r) = report_result rt f r; (ms, r) = report_all rt fs r in (m # ms, r))"

definition execute_tool_calls_parallel ::
    "'w Runtime \<Rightarrow> 'w AgentLoopConfig \<Rightarrow> AssistantMessage \<Rightarrow> AgentToolCall list \<Rightarrow> RepeatNudge option list \<Rightarrow>
      'w Run \<Rightarrow> ExecutedToolCallBatch \<times> 'w Run" where
  "execute_tool_calls_parallel rt cfg message calls nudges r =
    (let indexed = enumerate 0 calls;
         (b, r) = par_loop rt cfg message nudges
           \<lparr>todo = indexed, started = False, tasks = [], immediate = [], joined = []\<rparr> r;
         (ordered, r) = fill_missing rt nudges indexed (immediate b @ joined b) r;
         finalized = map snd (sort_key fst ordered);
         (ms, r) = report_all rt finalized r
     in (\<lparr>batch_messages = ms, batch_terminate = should_terminate_tool_batch finalized\<rparr>, r))"

definition execute_tool_calls ::
    "'w Runtime \<Rightarrow> 'w AgentLoopConfig \<Rightarrow> AssistantMessage \<Rightarrow> AgentToolCall list \<Rightarrow> RepeatNudge option list \<Rightarrow>
      'w Run \<Rightarrow> ExecutedToolCallBatch option \<times> 'w Run" where
  "execute_tool_calls rt cfg message calls nudges r =
    (let has_sequential = list_ex (\<lambda>c. Option.bind (find_tool (current_context r) (tc_name c)) execution_mode
           = Some Sequential) calls
     in if tool_execution cfg = Some Sequential \<or> has_sequential
        then execute_tool_calls_sequential rt cfg message calls nudges r
        else let (batch, r) = execute_tool_calls_parallel rt cfg message calls nudges r in (Some batch, r))"

end
