(* ===== verification/Agent_Run.thy ===== *)
theory Agent_Run
  imports Tool_Batch
begin

text \<open>
  The turns of a run (\<open>crates/notagent-agent/src/agent_loop.rs\<close>: \<open>run_agent_loop\<close>,
  \<open>run_agent_loop_continue\<close>, \<open>run_loop\<close>). A run can go on for as long as the model issues tool calls
  or messages arrive, so the loop is a \<open>partial_function\<close>; \<open>round\<close> is one pass through it.
\<close>

subsection \<open>Model\<close>

record 'w LoopState =
  run :: "'w Run"
  config :: "'w AgentLoopConfig"
  first_turn :: bool
  repeat_breaker :: RepeatBreaker
  pending_messages :: "AgentMessage list"
  has_more_tool_calls :: bool

text \<open>A pass goes on, returns from \<open>run_loop\<close>, or unwinds with a panic.\<close>

datatype 'w outcome = GoOn "'w LoopState" | Return "'w Run" | Unwind "'w Run"

definition announce :: "AgentMessage \<Rightarrow> 'w Run \<Rightarrow> 'w Run" where
  "announce m r = emit (MessageEnd m) (emit (MessageStart m) r)"

definition deliver :: "AgentMessage \<Rightarrow> 'w Run \<Rightarrow> 'w Run" where
  "deliver m r = push_new m (push_context m (announce m r))"

definition tool_calls_of :: "AssistantMessage \<Rightarrow> AgentToolCall list" where
  "tool_calls_of m = List.map_filter (\<lambda>c. case c of AToolCall t \<Rightarrow> Some t | _ \<Rightarrow> None) (am_content m)"

definition length_refusal_text :: "AgentToolCall \<Rightarrow> string" where
  "length_refusal_text c = ''Tool call '' @ quoted (tc_name c) @
    '' was not executed: the response hit the output token limit, so its arguments may be truncated. Re-issue the tool call with complete arguments.''"

text \<open>The tool calls of a response: refused, or observed by the repeat breaker and executed.\<close>

definition tool_phase ::
    "'w Runtime \<Rightarrow> 'w AgentLoopConfig \<Rightarrow> AssistantMessage \<Rightarrow> AgentToolCall list \<Rightarrow> bool \<Rightarrow> RepeatBreaker \<Rightarrow> 'w Run \<Rightarrow>
      ExecutedToolCallBatch option \<times> RepeatBreaker \<times> 'w Run" where
  "tool_phase rt cfg message calls handoff b r =
    (if handoff then
       let (batch, r) = reject_tool_calls rt calls (\<lambda>_. handoff_refusal_text) True r in (Some batch, b, r)
     else if stop_reason message = Length then
       let (batch, r) = reject_tool_calls rt calls length_refusal_text False r in (Some batch, b, r)
     else
       let (nudges, b) = observe (to_string rt) b calls;
           (batch, r) = execute_tool_calls rt cfg message calls nudges r
       in (batch, b, r))"

definition record_result :: "ToolResultMessage \<Rightarrow> 'w Run \<Rightarrow> 'w Run" where
  "record_result m r = push_new (ToolResult m) (push_context (ToolResult m) r)"

definition unless_cancelled ::
    "'w Runtime \<Rightarrow> 'w AgentLoopConfig \<Rightarrow> 'w Run \<Rightarrow> ('w Run \<Rightarrow> 'w outcome) \<Rightarrow> 'w outcome" where
  "unless_cancelled rt cfg r k =
    (let (done, r) = finish_cancelled_after_turn rt cfg r in if done then Return r else k r)"

definition apply_update :: "'w AgentLoopTurnUpdate \<Rightarrow> 'w AgentLoopConfig \<Rightarrow> 'w Run \<Rightarrow> 'w AgentLoopConfig \<times> 'w Run" where
  "apply_update u cfg r =
    (let r = (case update_context u of Some c \<Rightarrow> r\<lparr>current_context := c\<rparr> | None \<Rightarrow> r);
         cfg = (case update_model u of Some m \<Rightarrow> cfg\<lparr>model := m\<rparr> | None \<Rightarrow> cfg);
         cfg = (case update_thinking_level u of Some l \<Rightarrow> cfg\<lparr>reasoning := to_reasoning l\<rparr> | None \<Rightarrow> cfg)
     in (cfg, r))"

definition turn_info :: "AssistantMessage \<Rightarrow> ToolResultMessage list \<Rightarrow> 'w Run \<Rightarrow> 'w TurnInfo" where
  "turn_info message results r = \<lparr>turn_message = message, turn_tool_results = results,
     turn_context = current_context r, turn_new_messages = new_messages r\<rparr>"

text \<open>The end of a turn: its event, the hooks, and a check of the token after each of them.\<close>

definition after_turn ::
    "'w Runtime \<Rightarrow> 'w AgentLoopConfig \<Rightarrow> AssistantMessage \<Rightarrow> ToolResultMessage list \<Rightarrow> bool \<Rightarrow> RepeatBreaker \<Rightarrow> 'w Run \<Rightarrow>
      'w outcome" where
  "after_turn rt cfg message results again b r =
    unless_cancelled rt cfg (emit (TurnEnd (Assistant message) results) r) (\<lambda>r.
      let (update, r) = (case prepare_next_turn cfg of
            Some f \<Rightarrow> ask (f (turn_info message results r)) r | None \<Rightarrow> (None, r));
          (cfg, r) = (case update of Some u \<Rightarrow> apply_update u cfg r | None \<Rightarrow> (cfg, r))
      in unless_cancelled rt cfg r (\<lambda>r.
        let (stop, r) = (case should_stop_after_turn cfg of
              Some f \<Rightarrow> ask (f (turn_info message results r)) r | None \<Rightarrow> (False, r))
        in unless_cancelled rt cfg r (\<lambda>r.
          if stop then Return (emit (AgentEnd (new_messages r)) r)
          else
            let (pending, r) = (case get_steering_messages cfg of Some f \<Rightarrow> ask f r | None \<Rightarrow> ([], r))
            in unless_cancelled rt cfg r (\<lambda>r.
              GoOn \<lparr>run = r, config = cfg, first_turn = False, repeat_breaker = b,
                pending_messages = pending, has_more_tool_calls = again\<rparr>))))"

text \<open>A response that did not fail, its tool calls and the end of its turn.\<close>

definition respond ::
    "'w Runtime \<Rightarrow> 'w AgentLoopConfig \<Rightarrow> AssistantMessage \<Rightarrow> RepeatBreaker \<Rightarrow> 'w Run \<Rightarrow> 'w outcome" where
  "respond rt cfg message b r =
    (let calls = tool_calls_of message; (handoff, b) = take_handoff b in
     if calls = [] then after_turn rt cfg message [] False b r
     else
       let (batch, b, r) = tool_phase rt cfg message calls handoff b r in
       (case batch of
          None \<Rightarrow> Unwind r
        | Some batch \<Rightarrow>
            after_turn rt cfg message (batch_messages batch) (\<not> batch_terminate batch) b
              (fold record_result (batch_messages batch) r)))"

definition turn :: "'w Runtime \<Rightarrow> 'w LoopState \<Rightarrow> 'w outcome" where
  "turn rt s =
    (let cfg = config s;
         r = (if first_turn s then run s else emit TurnStart (run s));
         (cancelled, r) = ask (poll rt) r
     in if cancelled then Return (finish_cancelled_turn rt cfg r)
        else
          let b = (if pending_messages s = [] then repeat_breaker s else breaker_reset (repeat_breaker s));
              r = fold deliver (pending_messages s) r;
              (message, r) = stream_assistant_response rt cfg r;
              r = push_new (Assistant message) r
          in if stop_reason message = Error \<or> stop_reason message = Aborted
             then Return (emit (AgentEnd (new_messages r)) (emit (TurnEnd (Assistant message) []) r))
             else respond rt cfg message b r)"

text \<open>When neither tool calls nor messages are left: follow-up messages, or the end of the run.\<close>

definition follow_up :: "'w Runtime \<Rightarrow> 'w LoopState \<Rightarrow> 'w outcome" where
  "follow_up rt s =
    (let cfg = config s;
         (queued, r) = (case get_follow_up_messages cfg of Some f \<Rightarrow> ask f (run s) | None \<Rightarrow> ([], run s))
     in unless_cancelled rt cfg r (\<lambda>r.
          if queued \<noteq> [] then GoOn (s\<lparr>run := r, pending_messages := queued, has_more_tool_calls := True\<rparr>)
          else Return (emit (AgentEnd (new_messages r)) r)))"

definition round :: "'w Runtime \<Rightarrow> 'w LoopState \<Rightarrow> 'w outcome" where
  "round rt s =
    (if has_more_tool_calls s \<or> pending_messages s \<noteq> [] then turn rt s else follow_up rt s)"

partial_function (option) rounds :: "'w Runtime \<Rightarrow> 'w LoopState \<Rightarrow> 'w outcome option" where
  "rounds rt s = (case round rt s of
     GoOn s' \<Rightarrow> rounds rt s'
   | Return r \<Rightarrow> Some (Return r)
   | Unwind r \<Rightarrow> Some (Unwind r))"

definition initial_state :: "'w Runtime \<Rightarrow> 'w AgentLoopConfig \<Rightarrow> bool \<Rightarrow> 'w Run \<Rightarrow> 'w LoopState" where
  "initial_state rt cfg drain_steering_first r =
    (let (pending, r) = (case get_steering_messages cfg of
           Some f \<Rightarrow> if drain_steering_first then ask f r else ([], r) | None \<Rightarrow> ([], r))
     in \<lparr>run = r, config = cfg, first_turn = True, repeat_breaker = breaker_default,
         pending_messages = pending, has_more_tool_calls = True\<rparr>)"

definition run_loop :: "'w Runtime \<Rightarrow> 'w AgentLoopConfig \<Rightarrow> bool \<Rightarrow> 'w Run \<Rightarrow> 'w outcome option" where
  "run_loop rt cfg drain_steering_first r = rounds rt (initial_state rt cfg drain_steering_first r)"

text \<open>The events before the first turn, and the context with the prompts.\<close>

definition start_run :: "AgentMessage list \<Rightarrow> 'w AgentContext \<Rightarrow> 'w \<Rightarrow> 'w Run" where
  "start_run prompts ctx w =
    fold announce prompts
      \<lparr>world = w, events = [AgentStart, TurnStart],
       current_context = ctx\<lparr>messages := messages ctx @ prompts\<rparr>, new_messages = prompts\<rparr>"

text \<open>Without a stream function (none given, no default registered) the loop is not entered.\<close>

definition run_agent_loop ::
    "'w Runtime option \<Rightarrow> AgentMessage list \<Rightarrow> 'w AgentContext \<Rightarrow> 'w AgentLoopConfig \<Rightarrow> 'w \<Rightarrow> 'w outcome option" where
  "run_agent_loop stream_fn prompts ctx cfg w =
    (case stream_fn of
       Some rt \<Rightarrow> run_loop rt cfg False (start_run prompts ctx w)
     | None \<Rightarrow> Some (Return (start_run prompts ctx w)))"

definition run_agent_loop_continue ::
    "'w Runtime option \<Rightarrow> 'w AgentContext \<Rightarrow> 'w AgentLoopConfig \<Rightarrow> 'w \<Rightarrow> string + 'w outcome option" where
  "run_agent_loop_continue stream_fn ctx cfg w =
    and_then (check_continue_preconditions ctx) (\<lambda>_.
      let r = \<lparr>world = w, events = [AgentStart, TurnStart], current_context = ctx, new_messages = []\<rparr>
      in Inr (case stream_fn of Some rt \<Rightarrow> run_loop rt cfg True r | None \<Rightarrow> Some (Return r)))"

end
