(* ===== verification/Agent_Proofs.thy ===== *)
theory Agent_Proofs
  imports Agent_Run
begin

text \<open>
  What the agent loop guarantees, for every world: the events and messages of a tool batch, whatever
  the interleaving of its tasks; the messages of a run; the bracket structure of its events; and the
  bound on the repeat breaker.
\<close>

subsection \<open>What an operation adds\<close>

text \<open>
  \<open>adds r r' es\<close>: from \<open>r\<close> to \<open>r'\<close> the events \<open>es\<close> are emitted and neither the context nor the new
  messages change. The world may.
\<close>

definition adds :: "'w Run \<Rightarrow> 'w Run \<Rightarrow> AgentEvent list \<Rightarrow> bool" where
  "adds r r' es \<longleftrightarrow> events r' = events r @ es \<and> current_context r' = current_context r \<and>
    new_messages r' = new_messages r"

named_theorems adds_intros \<open>what the operations of the loop emit\<close>

lemma adds_refl [adds_intros, intro]: "adds r r []"
  by (simp add: adds_def)

lemma adds_trans: "adds r r' es \<Longrightarrow> adds r' r'' es' \<Longrightarrow> adds r r'' (es @ es')"
  by (simp add: adds_def)

lemma adds_emit [adds_intros]: "adds r (emit e r) [e]"
  by (simp add: adds_def emit_def)

lemma adds_ask [adds_intros]: "adds r (snd (ask f r)) []"
  by (simp add: adds_def ask_def case_prod_unfold Let_def)

lemma ask_simps [simp]:
  "events (snd (ask f r)) = events r"
  "current_context (snd (ask f r)) = current_context r"
  "new_messages (snd (ask f r)) = new_messages r"
  using adds_ask[of r f] by (simp_all add: adds_def)

lemma emit_simps [simp]:
  "events (emit e r) = events r @ [e]"
  "current_context (emit e r) = current_context r"
  "new_messages (emit e r) = new_messages r"
  by (simp_all add: emit_def)

lemma adds_then: "adds r r' es \<Longrightarrow> adds r' r'' es' \<Longrightarrow> fs = es @ es' \<Longrightarrow> adds r r'' fs"
  by (simp add: adds_trans)

lemma adds_quiet: "adds r r' [] \<Longrightarrow> adds r' r'' es \<Longrightarrow> adds r r'' es"
  by (drule (1) adds_trans) simp

lemma adds_context: "adds r r' es \<Longrightarrow> current_context r' = current_context r"
  by (simp add: adds_def)

text \<open>The calls an event list starts and ends, by id; and the events of a batch.\<close>

definition started_ids :: "AgentEvent list \<Rightarrow> string list" where
  "started_ids es = List.map_filter (\<lambda>e. case e of ToolExecutionStart i _ _ \<Rightarrow> Some i | _ \<Rightarrow> None) es"

definition ended_ids :: "AgentEvent list \<Rightarrow> string list" where
  "ended_ids es = List.map_filter (\<lambda>e. case e of ToolExecutionEnd i _ _ _ \<Rightarrow> Some i | _ \<Rightarrow> None) es"

fun structural :: "AgentEvent \<Rightarrow> bool" where
  "structural AgentStart = True"
| "structural (AgentEnd _) = True"
| "structural TurnStart = True"
| "structural (TurnEnd _ _) = True"
| "structural _ = False"

definition skeleton :: "AgentEvent list \<Rightarrow> AgentEvent list" where
  "skeleton es = filter structural es"

lemma map_filter_append: "List.map_filter f (xs @ ys) = List.map_filter f xs @ List.map_filter f ys"
  by (simp add: List.map_filter_def)

lemma ids_append [simp]:
  "started_ids (es @ es') = started_ids es @ started_ids es'"
  "ended_ids (es @ es') = ended_ids es @ ended_ids es'"
  "skeleton (es @ es') = skeleton es @ skeleton es'"
  by (simp_all add: started_ids_def ended_ids_def skeleton_def map_filter_append)

lemma ids_simps [simp]:
  "started_ids [] = []" "ended_ids [] = []" "skeleton [] = []"
  "started_ids (e # es) = (case e of ToolExecutionStart i _ _ \<Rightarrow> i # started_ids es | _ \<Rightarrow> started_ids es)"
  "ended_ids (e # es) = (case e of ToolExecutionEnd i _ _ _ \<Rightarrow> i # ended_ids es | _ \<Rightarrow> ended_ids es)"
  "skeleton (e # es) = (if structural e then e # skeleton es else skeleton es)"
  by (simp_all add: started_ids_def ended_ids_def skeleton_def split: AgentEvent.split)

text \<open>\<open>batch_adds r r' starts ends\<close>: only events of a tool batch, starting and ending these calls.\<close>

definition batch_adds :: "'w Run \<Rightarrow> 'w Run \<Rightarrow> string list \<Rightarrow> string list \<Rightarrow> bool" where
  "batch_adds r r' starts ends \<longleftrightarrow> (\<exists>es. adds r r' es \<and> started_ids es = starts \<and> ended_ids es = ends \<and> skeleton es = [])"

lemma batch_adds_trans:
  "batch_adds r r' a b \<Longrightarrow> batch_adds r' r'' c d \<Longrightarrow> x = a @ c \<Longrightarrow> y = b @ d \<Longrightarrow> batch_adds r r'' x y"
  unfolding batch_adds_def by (metis adds_trans append_Nil ids_append)

lemma batch_adds_refl [simp, intro]: "batch_adds r r [] []"
  unfolding batch_adds_def by (intro exI[of _ "[]"]) auto

lemma batch_adds_ask [intro]: "batch_adds r (snd (ask f r)) [] []"
  unfolding batch_adds_def by (intro exI[of _ "[]"]) (auto intro: adds_ask)

lemma batch_adds_emit:
  "\<not> structural e \<Longrightarrow> a = started_ids [e] \<Longrightarrow> b = ended_ids [e] \<Longrightarrow> batch_adds r (emit e r) a b"
  unfolding batch_adds_def by (intro exI[of _ "[e]"]) (auto intro: adds_emit simp del: ids_simps(4,5))

lemma batch_adds_context: "batch_adds r r' a b \<Longrightarrow> current_context r' = current_context r"
  by (auto simp: batch_adds_def adds_def)

lemma batch_adds_events:
  "batch_adds r (emit_tool_execution_start c r) [tc_id c] []"
  "batch_adds r (emit_tool_execution_end f r) [] [tc_id (fin_call f)]"
  "batch_adds r (emit_update c u r) [] []"
  by (simp_all add: emit_tool_execution_start_def emit_tool_execution_end_def emit_update_def batch_adds_emit)

lemma batch_adds_message: "batch_adds r (emit_tool_result_message m r) [] []"
  unfolding emit_tool_result_message_def
  by (rule batch_adds_trans[OF batch_adds_emit batch_adds_emit]) auto

text \<open>Two steps in a row, the first of which only asks.\<close>

lemma batch_adds_asked: "batch_adds (snd (ask f r)) r' a b \<Longrightarrow> batch_adds r r' a b"
  by (rule batch_adds_trans[OF batch_adds_ask]) auto

subsection \<open>One call\<close>

text \<open>The operations that emit nothing.\<close>

lemma prepare_tool_call_quiet: "adds r (snd (prepare_tool_call rt cfg message call r)) []"
  by (simp add: adds_def prepare_tool_call_def Let_def case_prod_unfold split: option.split sum.split)

lemma normalize_outcome_quiet: "adds r (snd (normalize_outcome rt call outcome r)) []"
  by (simp add: adds_def normalize_outcome_def Let_def case_prod_unfold split: tool_outcome.split)

lemma finalize_quiet: "adds r (snd (finalize_executed_tool_call cfg message call args e r)) []"
  by (simp add: adds_def finalize_executed_tool_call_def Let_def case_prod_unfold split: option.split)

lemma batch_adds_quiet: "adds r r' [] \<Longrightarrow> batch_adds r r' [] []"
  unfolding batch_adds_def by (intro exI[of _ "[]"]) auto

lemma finalize_call [simp]: "fin_call (fst (finalize_executed_tool_call cfg message call args e r)) = call"
  by (simp add: finalize_executed_tool_call_def Let_def case_prod_unfold split: option.split)

lemma apply_nudge_call [simp]: "fin_call (apply_nudge n f) = fin_call f"
  by (simp add: apply_nudge_def split: option.split)

lemma create_tool_result_message_simps [simp]:
  "trm_tool_call_id (create_tool_result_message f now) = tc_id (fin_call f)"
  "trm_tool_name (create_tool_result_message f now) = tc_name (fin_call f)"
  by (simp_all add: create_tool_result_message_def)

text \<open>A result message answers a call: same id, same tool.\<close>

definition answers :: "ToolResultMessage \<Rightarrow> AgentToolCall \<Rightarrow> bool" where
  "answers m c \<longleftrightarrow> trm_tool_call_id m = tc_id c \<and> trm_tool_name m = tc_name c"

lemma report_result_ok:
  "answers (fst (report_result rt f r)) (fin_call f)"
  "batch_adds r (snd (report_result rt f r)) [] []"
proof -
  show "answers (fst (report_result rt f r)) (fin_call f)"
    by (simp add: report_result_def answers_def Let_def case_prod_unfold)
  have "batch_adds (snd (ask (now_ms rt) r)) (snd (report_result rt f r)) [] []"
    by (simp add: report_result_def Let_def case_prod_unfold batch_adds_message)
  then show "batch_adds r (snd (report_result rt f r)) [] []"
    by (rule batch_adds_asked)
qed

lemma report_all_ok:
  "list_all2 answers (fst (report_all rt fs r)) (map fin_call fs) \<and> batch_adds r (snd (report_all rt fs r)) [] []"
proof (induction fs arbitrary: r)
  case (Cons f fs)
  show ?case
    using Cons[of "snd (report_result rt f r)"] report_result_ok(1)[of rt f r] report_result_ok(2)[of r rt f]
    by (auto simp: Let_def case_prod_unfold elim: batch_adds_trans)
qed simp

lemma reject_messages_ok:
  "list_all2 answers (fst (reject_messages rt why calls r)) calls \<and>
    batch_adds r (snd (reject_messages rt why calls r)) (map tc_id calls) (map tc_id calls)"
proof (induction calls arbitrary: r)
  case (Cons c cs)
  let ?f = "\<lparr>fin_call = c, fin_result = create_error_tool_result (why c), fin_is_error = True\<rparr>"
  let ?r = "emit_tool_execution_end ?f (emit_tool_execution_start c r)"
  have "batch_adds r ?r [tc_id c] [tc_id c]"
    by (rule batch_adds_trans[OF batch_adds_events(1) batch_adds_events(2)]) auto
  then have "batch_adds r (snd (report_result rt ?f ?r)) [tc_id c] [tc_id c]"
    by (rule batch_adds_trans[OF _ report_result_ok(2)]) auto
  with Cons[of "snd (report_result rt ?f ?r)"] report_result_ok(1)[of rt ?f ?r] show ?case
    by (auto simp: Let_def case_prod_unfold elim: batch_adds_trans)
qed simp

subsection \<open>The sequential batch\<close>

lemma fold_emit_update: "batch_adds r (fold (emit_update c) us r) [] []"
proof (induction us arbitrary: r)
  case (Cons u us)
  show ?case
    using batch_adds_trans[OF batch_adds_events(3) Cons] by simp
qed simp

lemma execute_prepared_adds: "batch_adds r (snd (execute_prepared rt tool call args r)) [] []"
proof (cases "fst (ask (poll rt) r)")
  case True
  then show ?thesis
    by (auto simp: execute_prepared_def Let_def case_prod_unfold)
next
  case False
  let ?r = "snd (ask (tool_execute tool (tc_id call) args) (snd (ask (poll rt) r)))"
  let ?us = "fst (fst (ask (tool_execute tool (tc_id call) args) (snd (ask (poll rt) r))))"
  have "batch_adds r ?r [] []"
    by (rule batch_adds_asked) (rule batch_adds_ask)
  then have "batch_adds r (fold (emit_update call) ?us ?r) [] []"
    by (rule batch_adds_trans[OF _ fold_emit_update]) auto
  then have "batch_adds r (snd (normalize_outcome rt call out (fold (emit_update call) ?us ?r))) [] []" for out
    by (rule batch_adds_trans[OF _ batch_adds_quiet[OF normalize_outcome_quiet]]) auto
  with False show ?thesis
    by (simp add: execute_prepared_def Let_def case_prod_unfold)
qed

lemma sequential_call_ok:
  "batch_adds r (snd (sequential_call rt cfg message call r)) [] [] \<and>
    (fst (sequential_call rt cfg message call r) = Some f \<longrightarrow> fin_call f = call)"
proof -
  let ?r = "snd (prepare_tool_call rt cfg message call r)"
  note prep = batch_adds_quiet[OF prepare_tool_call_quiet, of r rt cfg message call]
  show ?thesis
  proof (cases "fst (prepare_tool_call rt cfg message call r)")
    case (Immediate res e)
    then show ?thesis
      using prep by (auto simp: sequential_call_def Let_def case_prod_unfold)
  next
    case (Prepared tool args)
    have "batch_adds r (snd (execute_prepared rt tool call args ?r)) [] []"
      using batch_adds_trans[OF prep execute_prepared_adds] by simp
    moreover from this have "batch_adds r (snd (finalize_executed_tool_call cfg message call args e
        (snd (execute_prepared rt tool call args ?r)))) [] []" for e
      by (rule batch_adds_trans[OF _ batch_adds_quiet[OF finalize_quiet]]) auto
    ultimately show ?thesis
      using Prepared by (auto simp: sequential_call_def Let_def case_prod_unfold split: option.split)
  qed
qed

lemma sequential_loop_ok:
  assumes "sequential_loop rt cfg message nudges index calls finalized msgs r = (Some (finalized', msgs'), r')"
  shows "(\<exists>ms. msgs' = msgs @ ms \<and> list_all2 answers ms calls) \<and>
    batch_adds r r' (map tc_id calls) (map tc_id calls)"
  using assms
proof (induction calls arbitrary: index finalized msgs r)
  case Nil
  then show ?case by auto
next
  case (Cons call calls)
  let ?r1 = "emit_tool_execution_start call r"
  let ?r2 = "snd (sequential_call rt cfg message call ?r1)"
  from Cons.prems obtain f where f: "fst (sequential_call rt cfg message call ?r1) = Some f"
    by (auto simp: Let_def case_prod_unfold split: option.splits)
  define g where "g = apply_nudge (nudge_at nudges index) f"
  let ?r3 = "emit_tool_execution_end g ?r2"
  let ?rep = "report_result rt g ?r3"
  have call: "fin_call g = call"
    using sequential_call_ok[of ?r1 rt cfg message call f] f by (simp add: g_def)
  have loop: "sequential_loop rt cfg message nudges (index + 1) calls (finalized @ [g]) (msgs @ [fst ?rep]) (snd ?rep) =
      (Some (finalized', msgs'), r')"
    using Cons.prems f by (simp add: Let_def case_prod_unfold g_def)
  have "batch_adds r ?r2 [tc_id call] []"
    by (rule batch_adds_trans[OF batch_adds_events(1) sequential_call_ok[THEN conjunct1]]) auto
  then have "batch_adds r ?r3 [tc_id call] [tc_id call]"
    by (rule batch_adds_trans[OF _ batch_adds_events(2)]) (use call in auto)
  then have rep: "batch_adds r (snd ?rep) [tc_id call] [tc_id call]"
    by (rule batch_adds_trans[OF _ report_result_ok(2)]) auto
  from Cons.IH[OF loop] obtain ms where "msgs' = (msgs @ [fst ?rep]) @ ms" "list_all2 answers ms calls"
    and tail: "batch_adds (snd ?rep) r' (map tc_id calls) (map tc_id calls)" by blast
  moreover have "answers (fst ?rep) call"
    using report_result_ok(1)[of rt g ?r3] call by simp
  moreover have "batch_adds r r' (map tc_id (call # calls)) (map tc_id (call # calls))"
    by (rule batch_adds_trans[OF rep tail]) auto
  ultimately show ?case by auto
qed

subsection \<open>The parallel batch\<close>

text \<open>
  The invariant of the interleaving: every call not yet prepared, every running task and every entry
  belongs to its own index of \<open>calls\<close>.
\<close>

definition batch_indices :: "'w Batch \<Rightarrow> nat list" where
  "batch_indices b = map fst (todo b) @ map task_index (tasks b) @ map fst (immediate b) @ map fst (joined b)"

definition entry_ok :: "AgentToolCall list \<Rightarrow> entry \<Rightarrow> bool" where
  "entry_ok calls e \<longleftrightarrow> fst e < length calls \<and> fin_call (snd e) = calls ! fst e"

definition batch_inv :: "AgentToolCall list \<Rightarrow> 'w Batch \<Rightarrow> bool" where
  "batch_inv calls b \<longleftrightarrow> distinct (batch_indices b) \<and>
    list_all (\<lambda>(i, c). i < length calls \<and> c = calls ! i) (todo b) \<and>
    list_all (\<lambda>t. task_index t < length calls \<and> task_call t = calls ! task_index t) (tasks b) \<and>
    list_all (entry_ok calls) (immediate b @ joined b)"

text \<open>The calls that have been started and ended when the batch is in a state.\<close>

definition unstarted :: "'w Batch \<Rightarrow> AgentToolCall list" where
  "unstarted b = map snd (if started b then tl (todo b) else todo b)"

definition entry_calls :: "'w Batch \<Rightarrow> AgentToolCall list" where
  "entry_calls b = map (fin_call \<circ> snd) (immediate b @ joined b)"

lemma preflight_step_ok:
  assumes inv: "batch_inv calls b" and "todo b \<noteq> []"
    and step: "preflight_step rt cfg message nudges b r = (b', r')"
  shows "batch_inv calls b' \<and> (\<exists>ids ends. batch_adds r r' ids ends \<and>
    map tc_id (unstarted b) = ids @ map tc_id (unstarted b') \<and>
    mset (map tc_id (entry_calls b')) = mset (map tc_id (entry_calls b)) + mset ends)"
proof -
  from assms(2) obtain i c rest where todo: "todo b = (i, c) # rest" by (cases "todo b") auto
  show ?thesis
  proof (cases "started b")
    case False
    then have "b' = b\<lparr>started := True\<rparr>" "r' = emit_tool_execution_start c r"
      using step todo by (auto simp: preflight_step_def)
    then show ?thesis
      using inv False todo batch_adds_events(1)[of r c]
      by (auto simp: batch_inv_def batch_indices_def unstarted_def entry_calls_def intro!: exI[of _ "[tc_id c]"] exI[of _ "[]"])
  next
    case True
    let ?r = "snd (prepare_tool_call rt cfg message c r)"
    have quiet: "batch_adds r ?r [] []"
      by (rule batch_adds_quiet[OF prepare_tool_call_quiet])
    show ?thesis
    proof (cases "fst (prepare_tool_call rt cfg message c r)")
      case (Prepared tool args)
      then have "b' = b\<lparr>todo := rest, started := False, tasks := tasks b @
          [\<lparr>task_index = i, task_call = c, task_tool = tool, task_args = args, task_plan = None\<rparr>]\<rparr>" "r' = ?r"
        using step todo True by (auto simp: preflight_step_def Let_def case_prod_unfold)
      then show ?thesis
        using inv True todo quiet
        by (auto simp: batch_inv_def batch_indices_def unstarted_def entry_calls_def intro!: exI[of _ "[]"])
    next
      case (Immediate result is_error)
      define f where "f = apply_nudge (nudge_at nudges i) \<lparr>fin_call = c, fin_result = result, fin_is_error = is_error\<rparr>"
      have f: "fin_call f = c" by (simp add: f_def)
      have b': "b' = b\<lparr>todo := rest, started := False, immediate := immediate b @ [(i, f)]\<rparr>"
        and r': "r' = emit_tool_execution_end f ?r"
        using step todo True Immediate by (auto simp: preflight_step_def Let_def case_prod_unfold f_def)
      have "batch_adds r r' [] [tc_id c]"
        unfolding r' using batch_adds_trans[OF quiet batch_adds_events(2)[of ?r f]] f by simp
      then show ?thesis
        using inv True todo f
        by (auto simp: b' batch_inv_def batch_indices_def unstarted_def entry_calls_def entry_ok_def
            intro!: exI[of _ "[]"] exI[of _ "[tc_id c]"])
    qed
  qed
qed

lemma task_finish_ok:
  "\<exists>f. fst (task_finish cfg message nudges t e r) = Ended (Some (task_index t, f)) \<and> fin_call f = task_call t \<and>
    batch_adds r (snd (task_finish cfg message nudges t e r)) [] [tc_id (task_call t)]"
proof -
  let ?fin = "finalize_executed_tool_call cfg message (task_call t) (task_args t) e r"
  let ?f = "apply_nudge (nudge_at nudges (task_index t)) (fst ?fin)"
  have "batch_adds r (emit_tool_execution_end ?f (snd ?fin)) [] [tc_id (task_call t)]"
    by (rule batch_adds_trans[OF batch_adds_quiet[OF finalize_quiet] batch_adds_events(2)]) auto
  then show ?thesis
    by (simp add: task_finish_def Let_def case_prod_unfold)
qed

text \<open>What one step of a task does to the log, by its result.\<close>

definition task_effect :: "'w Task \<Rightarrow> 'w task_result \<Rightarrow> 'w Run \<Rightarrow> 'w Run \<Rightarrow> bool" where
  "task_effect t res r r' \<longleftrightarrow> (case res of
     Working t' \<Rightarrow> task_index t' = task_index t \<and> task_call t' = task_call t \<and> batch_adds r r' [] []
   | Ended None \<Rightarrow> batch_adds r r' [] []
   | Ended (Some (i, f)) \<Rightarrow> i = task_index t \<and> fin_call f = task_call t \<and> batch_adds r r' [] [tc_id (task_call t)])"

lemma task_effect_finish:
  "batch_adds r r1 [] [] \<Longrightarrow> task_effect t (fst (task_finish cfg message nudges t e r1)) r
    (snd (task_finish cfg message nudges t e r1))"
  using task_finish_ok[of cfg message nudges t e r1] by (auto simp: task_effect_def elim: batch_adds_trans)

lemma task_step_effect:
  "task_effect t (fst (task_step rt cfg message nudges t r)) r (snd (task_step rt cfg message nudges t r))"
proof (cases "task_plan t")
  case None
  have 1: "batch_adds r (snd (ask (poll rt) r)) [] []" by (rule batch_adds_ask)
  have 2: "batch_adds r (snd (ask g (snd (ask (poll rt) r)))) [] []" for g :: "_ \<Rightarrow> _ \<times> _"
    by (rule batch_adds_asked) (rule batch_adds_ask)
  show ?thesis
    using None task_effect_finish[OF 1] 2
    by (auto simp: task_step_def Let_def case_prod_unfold) (simp add: task_effect_def)
next
  case (Some plan)
  obtain us out where plan: "plan = (us, out)" by (cases plan)
  show ?thesis
  proof (cases us)
    case Nil
    note quiet = batch_adds_quiet[OF normalize_outcome_quiet, of r rt "task_call t" out]
    show ?thesis
      using Some plan Nil quiet task_effect_finish[OF quiet]
      by (auto simp: task_step_def Let_def case_prod_unfold split: option.split) (simp add: task_effect_def)
  next
    case (Cons u us')
    then show ?thesis
      using Some plan batch_adds_events(3)[of r "task_call t" u]
      by (simp add: task_step_def task_effect_def)
  qed
qed

lemma distinct_remove_nth:
  "distinct (a @ map f xs @ b) \<Longrightarrow> i < length xs \<Longrightarrow>
    distinct (a @ map f (take i xs @ drop (Suc i) xs) @ b) \<and>
    distinct (a @ map f (take i xs @ drop (Suc i) xs) @ b @ [f (xs ! i)])"
  by (subst (asm) id_take_nth_drop[of i xs], simp) (auto simp: Int_Un_distrib)

lemma run_task_ok:
  assumes inv: "batch_inv calls b" and i: "i < length (tasks b)"
    and step: "run_task rt cfg message nudges i b r = (b', r')"
  shows "batch_inv calls b' \<and> (\<exists>ends. batch_adds r r' [] ends \<and> unstarted b' = unstarted b \<and>
    mset (map tc_id (entry_calls b')) = mset (map tc_id (entry_calls b)) + mset ends)"
proof -
  let ?t = "tasks b ! i" and ?res = "fst (task_step rt cfg message nudges (tasks b ! i) r)"
  have r': "r' = snd (task_step rt cfg message nudges ?t r)"
    using step by (auto simp: run_task_def Let_def case_prod_unfold)
  note eff = task_step_effect[of ?t rt cfg message nudges r, folded r']
  have t: "task_index ?t < length calls" "task_call ?t = calls ! task_index ?t"
    using inv i by (auto simp: batch_inv_def list_all_iff)
  have dis: "distinct (map fst (todo b) @ map task_index (tasks b) @ map fst (immediate b @ joined b))"
    using inv by (simp add: batch_inv_def batch_indices_def)
  show ?thesis
  proof (cases ?res)
    case (Working t')
    with eff have eff': "task_index t' = task_index ?t" "task_call t' = task_call ?t" "batch_adds r r' [] []"
      by (simp_all add: task_effect_def)
    have b': "b' = b\<lparr>tasks := (tasks b)[i := t']\<rparr>"
      using step Working by (auto simp: run_task_def Let_def case_prod_unfold)
    have "map task_index ((tasks b)[i := t']) = map task_index (tasks b)"
      using i eff' by (simp add: map_update list_update_same_conv)
    then have "batch_inv calls b'"
      using inv t eff' by (auto simp: b' batch_inv_def batch_indices_def list_all_iff dest!: set_update_subset_insert[THEN subsetD])
    then show ?thesis
      using eff' by (auto simp: b' unstarted_def entry_calls_def)
  next
    case (Ended e)
    let ?rest = "take i (tasks b) @ drop (Suc i) (tasks b)"
    have b': "b' = b\<lparr>tasks := ?rest, joined := joined b @ (case e of Some x \<Rightarrow> [x] | None \<Rightarrow> [])\<rparr>"
      using step Ended by (auto simp: run_task_def Let_def case_prod_unfold)
    have inv': "list_all (\<lambda>(i, c). i < length calls \<and> c = calls ! i) (todo b)"
      "list_all (entry_ok calls) (immediate b @ joined b)"
      "list_all (\<lambda>t. task_index t < length calls \<and> task_call t = calls ! task_index t) (tasks b)"
      using inv by (simp_all add: batch_inv_def)
    have rest: "list_all (\<lambda>t. task_index t < length calls \<and> task_call t = calls ! task_index t) ?rest"
      using inv'(3) by (auto simp: list_all_iff dest: in_set_takeD in_set_dropD)
    note dis' = distinct_remove_nth[OF dis i]
    show ?thesis
    proof (cases e)
      case None
      have "batch_inv calls b'"
        unfolding batch_inv_def batch_indices_def using inv'(1,2) rest dis' by (simp add: b' None)
      then show ?thesis
        using eff Ended None by (auto simp: b' task_effect_def unstarted_def entry_calls_def)
    next
      case (Some x)
      then obtain f where x: "x = (task_index ?t, f)" "fin_call f = task_call ?t"
        and add: "batch_adds r r' [] [tc_id (task_call ?t)]"
        using eff Ended by (cases x) (auto simp: task_effect_def)
      have "entry_ok calls x"
        using t x by (simp add: entry_ok_def)
      then have "batch_inv calls b'"
        unfolding batch_inv_def batch_indices_def using inv'(1,2) rest dis' x by (simp add: b' Some)
      then show ?thesis
        using add x Some by (auto simp: b' unstarted_def entry_calls_def intro!: exI[of _ "[tc_id (task_call ?t)]"])
    qed
  qed
qed

lemma batch_step_ok:
  assumes inv: "batch_inv calls b" and "\<not> (todo b = [] \<and> tasks b = [])"
    and step: "batch_step rt cfg message nudges b r = (b', r')"
  shows "batch_inv calls b' \<and> (\<exists>ids ends. batch_adds r r' ids ends \<and>
    map tc_id (unstarted b) = ids @ map tc_id (unstarted b') \<and>
    mset (map tc_id (entry_calls b')) = mset (map tc_id (entry_calls b)) + mset ends)"
proof (cases "todo b \<noteq> [] \<and> (tasks b = [] \<or> fst (ask (pick rt) r) = 0)")
  case True
  then have "preflight_step rt cfg message nudges b (snd (ask (pick rt) r)) = (b', r')"
    using step by (auto simp: batch_step_def Let_def case_prod_unfold)
  from preflight_step_ok[OF inv _ this] True show ?thesis
    by (blast intro: batch_adds_asked)
next
  case False
  let ?i = "fst (ask (pick rt) r) mod length (tasks b)"
  from False assms(2) have "?i < length (tasks b)" by auto
  moreover have "run_task rt cfg message nudges ?i b (snd (ask (pick rt) r)) = (b', r')"
    using step False by (auto simp: batch_step_def Let_def case_prod_unfold)
  ultimately have "batch_inv calls b' \<and> (\<exists>ends. batch_adds (snd (ask (pick rt) r)) r' [] ends \<and> unstarted b' = unstarted b \<and>
      mset (map tc_id (entry_calls b')) = mset (map tc_id (entry_calls b)) + mset ends)"
    using run_task_ok[OF inv] by blast
  then show ?thesis
    by (metis append_Nil batch_adds_asked)
qed

text \<open>Whatever the scheduler does, the loop ends with every call prepared and every task joined.\<close>

lemma par_loop_ok:
  "batch_inv calls b \<Longrightarrow> par_loop rt cfg message nudges b r = (b', r') \<Longrightarrow>
    batch_inv calls b' \<and> todo b' = [] \<and> tasks b' = [] \<and>
    (\<exists>ends. batch_adds r r' (map tc_id (unstarted b)) ends \<and>
      mset (map tc_id (entry_calls b')) = mset (map tc_id (entry_calls b)) + mset ends)"
proof (induction rt cfg message nudges b r rule: par_loop.induct)
  case (1 rt cfg message nudges b r)
  show ?case
  proof (cases "todo b = [] \<and> tasks b = []")
    case True
    with "1.prems" have "b' = b" "r' = r"
      by (simp_all add: par_loop.simps)
    then show ?thesis
      using True "1.prems"(1) by (auto simp: unstarted_def intro!: exI[of _ "[]"])
  next
    case False
    obtain b1 r1 where step: "batch_step rt cfg message nudges b r = (b1, r1)" by fastforce
    with False "1.prems"(2) have loop: "par_loop rt cfg message nudges b1 r1 = (b', r')"
      by (subst (asm) par_loop.simps) auto
    from batch_step_ok[OF "1.prems"(1) False step] obtain ids ends where inv1: "batch_inv calls b1"
      and s: "batch_adds r r1 ids ends" "map tc_id (unstarted b) = ids @ map tc_id (unstarted b1)"
        "mset (map tc_id (entry_calls b1)) = mset (map tc_id (entry_calls b)) + mset ends" by blast
    from "1.IH"[OF False] inv1 loop step obtain ends' where
      "batch_inv calls b'" "todo b' = []" "tasks b' = []"
      and t: "batch_adds r1 r' (map tc_id (unstarted b1)) ends'"
        "mset (map tc_id (entry_calls b')) = mset (map tc_id (entry_calls b1)) + mset ends'" by auto
    moreover have "batch_adds r r' (map tc_id (unstarted b)) (ends @ ends')"
      using s(2) by (intro batch_adds_trans[OF s(1) t(1)]) auto
    moreover have "mset (map tc_id (entry_calls b')) = mset (map tc_id (entry_calls b)) + mset (ends @ ends')"
      using s(3) t(2) by simp
    ultimately show ?thesis by blast
  qed
qed

lemma fill_missing_ok:
  assumes "list_all (\<lambda>(i, c). i < length calls \<and> c = calls ! i) ics" and "distinct (map fst ordered)"
    and "list_all (entry_ok calls) ordered" and "fill_missing rt nudges ics ordered r = (ordered', r')"
  shows "distinct (map fst ordered') \<and> list_all (entry_ok calls) ordered' \<and>
    set (map fst ordered') = set (map fst ordered) \<union> set (map fst ics) \<and>
    (\<exists>ends. batch_adds r r' [] ends \<and>
      mset (map (tc_id \<circ> fin_call \<circ> snd) ordered') = mset (map (tc_id \<circ> fin_call \<circ> snd) ordered) + mset ends)"
  using assms
proof (induction ics arbitrary: ordered r)
  case Nil
  then show ?case by (auto intro!: exI[of _ "[]"])
next
  case (Cons ic ics)
  obtain i c where ic: "ic = (i, c)" by (cases ic)
  show ?case
  proof (cases "list_ex (\<lambda>(j, _). j = i) ordered")
    case True
    then have "i \<in> set (map fst ordered)"
      by (force simp: list_ex_iff)
    moreover have "fill_missing rt nudges ics ordered r = (ordered', r')"
      using Cons.prems(4) True by (simp add: ic)
    ultimately show ?thesis
      using Cons.IH[of ordered r] Cons.prems(1-3) by (auto simp: ic)
  next
    case False
    define f where "f = apply_nudge (nudge_at nudges i) \<lparr>fin_call = c,
      fin_result = (if fst (ask (poll rt) r) then create_aborted_tool_result (tc_name c)
        else create_error_tool_result (''Tool '' @ quoted (tc_name c) @ '' failed before producing a result'')),
      fin_is_error = True\<rparr>"
    define r1 where "r1 = emit_tool_execution_end f (snd (ask (poll rt) r))"
    have f: "fin_call f = c" by (simp add: f_def)
    have loop: "fill_missing rt nudges ics (ordered @ [(i, f)]) r1 = (ordered', r')"
      using Cons.prems(4) False by (simp add: ic Let_def case_prod_unfold f_def r1_def)
    have add: "batch_adds r r1 [] [tc_id c]"
      unfolding r1_def using batch_adds_asked[OF batch_adds_events(2)] f by metis
    have "i \<notin> set (map fst ordered)"
      using False by (auto simp: list_ex_iff)
    then have "distinct (map fst (ordered @ [(i, f)]))" "list_all (entry_ok calls) (ordered @ [(i, f)])"
      using Cons.prems(1-3) f by (auto simp: ic entry_ok_def[of calls "(i, f)"])
    moreover have "list_all (\<lambda>(i, c). i < length calls \<and> c = calls ! i) ics"
      using Cons.prems(1) by simp
    ultimately have "distinct (map fst ordered') \<and> list_all (entry_ok calls) ordered' \<and>
      set (map fst ordered') = set (map fst (ordered @ [(i, f)])) \<union> set (map fst ics) \<and>
      (\<exists>ends. batch_adds r1 r' [] ends \<and> mset (map (tc_id \<circ> fin_call \<circ> snd) ordered') =
        mset (map (tc_id \<circ> fin_call \<circ> snd) (ordered @ [(i, f)])) + mset ends)"
      using Cons.IH loop by blast
    then obtain ends where
      r: "distinct (map fst ordered')" "list_all (entry_ok calls) ordered'"
        "set (map fst ordered') = set (map fst (ordered @ [(i, f)])) \<union> set (map fst ics)"
      and e: "batch_adds r1 r' [] ends" "mset (map (tc_id \<circ> fin_call \<circ> snd) ordered') =
        mset (map (tc_id \<circ> fin_call \<circ> snd) (ordered @ [(i, f)])) + mset ends" by blast
    have "batch_adds r r' [] (tc_id c # ends)"
      by (rule batch_adds_trans[OF add e(1)]) auto
    moreover have "mset (map (tc_id \<circ> fin_call \<circ> snd) ordered') =
        mset (map (tc_id \<circ> fin_call \<circ> snd) ordered) + mset (tc_id c # ends)"
      using e(2) f by simp
    moreover have "set (map fst ordered') = set (map fst ordered) \<union> set (map fst (ic # ics))"
      using r(3) by (simp add: ic)
    ultimately show ?thesis
      using r(1,2) by blast
  qed
qed

lemma sorted_entries:
  assumes "distinct (map fst entries)" and "list_all (entry_ok calls) entries"
    and "set (map fst entries) = {0..<length calls}"
  shows "map (fin_call \<circ> snd) (sort_key fst entries) = calls"
proof -
  let ?xs = "sort_key fst entries"
  have set: "set ?xs = set entries" by simp
  have "map fst ?xs = [0..<length calls]"
    using assms by (intro sorted_distinct_set_unique) (auto simp: distinct_map)
  moreover have "map (fin_call \<circ> snd) ?xs = map (\<lambda>e. calls ! fst e) ?xs"
    using assms(2) by (auto simp: list_all_iff entry_ok_def)
  moreover have "map (\<lambda>e. calls ! fst e) ?xs = map ((!) calls) (map fst ?xs)"
    by simp
  ultimately show ?thesis
    by (simp add: map_nth)
qed

lemma parallel_ok:
  assumes "execute_tool_calls_parallel rt cfg message calls nudges r = (batch, r')"
  shows "list_all2 answers (batch_messages batch) calls \<and>
    (\<exists>ends. batch_adds r r' (map tc_id calls) ends \<and> mset ends = mset (map tc_id calls))"
proof -
  let ?b0 = "\<lparr>todo = enumerate 0 calls, started = False, tasks = [], immediate = [], joined = []\<rparr>"
  obtain b r1 where loop: "par_loop rt cfg message nudges ?b0 r = (b, r1)" by fastforce
  obtain ordered r2 where fill: "fill_missing rt nudges (enumerate 0 calls) (immediate b @ joined b) r1 = (ordered, r2)"
    by fastforce
  let ?fs = "map snd (sort_key fst ordered)"
  have batch: "batch_messages batch = fst (report_all rt ?fs r2)" "r' = snd (report_all rt ?fs r2)"
    using assms loop fill by (auto simp: execute_tool_calls_parallel_def Let_def case_prod_unfold)
  have ics: "list_all (\<lambda>(i, c). i < length calls \<and> c = calls ! i) (enumerate 0 calls)"
    by (auto simp: list_all_iff in_set_enumerate_eq)
  then have inv0: "batch_inv calls ?b0"
    by (simp add: batch_inv_def batch_indices_def)
  from par_loop_ok[OF inv0 loop] obtain e1 where inv: "batch_inv calls b"
    and empty: "todo b = []" "tasks b = []" and a1: "batch_adds r r1 (map tc_id calls) e1"
    and m1: "mset (map tc_id (entry_calls b)) = mset e1"
    by (auto simp: unstarted_def entry_calls_def)
  have "distinct (map fst (immediate b @ joined b))" "list_all (entry_ok calls) (immediate b @ joined b)"
    using inv empty by (simp_all add: batch_inv_def batch_indices_def)
  from fill_missing_ok[OF ics this fill] obtain e2 where
    o: "distinct (map fst ordered)" "list_all (entry_ok calls) ordered"
      "set (map fst ordered) = set (map fst (immediate b @ joined b)) \<union> {0..<length calls}"
    and a2: "batch_adds r1 r2 [] e2"
    and m2: "mset (map (tc_id \<circ> fin_call \<circ> snd) ordered) = mset (map tc_id (entry_calls b)) + mset e2"
    by (auto simp: entry_calls_def comp_assoc)
  have "set (map fst ordered) \<subseteq> {0..<length calls}"
    using o(2) by (auto simp: list_all_iff entry_ok_def)
  with o(3) have "set (map fst ordered) = {0..<length calls}" by blast
  from sorted_entries[OF o(1,2) this] have calls: "map fin_call ?fs = calls" by simp
  have "batch_adds r r2 (map tc_id calls) (e1 @ e2)"
    by (rule batch_adds_trans[OF a1 a2]) auto
  then have "batch_adds r r' (map tc_id calls) (e1 @ e2)"
    unfolding batch(2) by (rule batch_adds_trans[OF _ report_all_ok[THEN conjunct2]]) auto
  moreover have "mset (e1 @ e2) = mset (map tc_id calls)"
  proof -
    have "mset (e1 @ e2) = image_mset (tc_id \<circ> fin_call \<circ> snd) (mset ordered)"
      using m1 m2 by simp
    also have "\<dots> = mset (map tc_id (map fin_call ?fs))"
      by (simp add: comp_def image_mset.compositionality)
    finally show ?thesis by (simp only: calls)
  qed
  moreover have "list_all2 answers (batch_messages batch) calls"
    using report_all_ok[of rt ?fs r2] unfolding calls batch(1) by blast
  ultimately show ?thesis by blast
qed

text \<open>
  A batch, however it is executed: one result per call, in the order of the calls; every call is
  started once, in order, and ended once.
\<close>

definition batch_result :: "AgentToolCall list \<Rightarrow> ExecutedToolCallBatch \<Rightarrow> 'w Run \<Rightarrow> 'w Run \<Rightarrow> bool" where
  "batch_result calls batch r r' \<longleftrightarrow> list_all2 answers (batch_messages batch) calls \<and>
    (\<exists>ends. batch_adds r r' (map tc_id calls) ends \<and> mset ends = mset (map tc_id calls))"

lemma execute_tool_calls_ok:
  assumes "execute_tool_calls rt cfg message calls nudges r = (Some batch, r')"
  shows "batch_result calls batch r r'"
proof (cases "tool_execution cfg = Some Sequential \<or>
    list_ex (\<lambda>c. Option.bind (find_tool (current_context r) (tc_name c)) execution_mode = Some Sequential) calls")
  case True
  then obtain fs where "sequential_loop rt cfg message nudges 0 calls [] [] r = (Some (fs, batch_messages batch), r')"
    using assms by (auto simp: execute_tool_calls_def execute_tool_calls_sequential_def Let_def case_prod_unfold prod_eq_iff)
  from sequential_loop_ok[OF this] show ?thesis
    by (auto simp: batch_result_def)
next
  case False
  then have "execute_tool_calls_parallel rt cfg message calls nudges r = (batch, r')"
    using assms by (auto simp: execute_tool_calls_def Let_def case_prod_unfold)
  from parallel_ok[OF this] show ?thesis
    by (simp add: batch_result_def)
qed

lemma reject_tool_calls_ok:
  "batch_result calls (fst (reject_tool_calls rt calls why term r)) r (snd (reject_tool_calls rt calls why term r))"
  using reject_messages_ok[of rt why calls r]
  by (auto simp: batch_result_def reject_tool_calls_def Let_def case_prod_unfold)

lemma tool_phase_ok:
  assumes "tool_phase rt cfg message calls handoff b r = (Some batch, b', r')"
  shows "batch_result calls batch r r'"
  using assms reject_tool_calls_ok[of calls rt _ _ r] execute_tool_calls_ok[of rt cfg message calls _ r batch r']
  by (auto simp: tool_phase_def Let_def case_prod_unfold prod_eq_iff split: if_splits)

subsection \<open>The messages of a run\<close>

fun is_input :: "AgentMessage \<Rightarrow> bool" where
  "is_input (Assistant _) = False"
| "is_input (ToolResult _) = False"
| "is_input _ = True"

fun is_result :: "AgentMessage \<Rightarrow> bool" where
  "is_result (ToolResult _) = True"
| "is_result _ = False"

text \<open>The calls of a response that have to be answered: none if the response failed.\<close>

definition open_calls :: "AssistantMessage \<Rightarrow> AgentToolCall list" where
  "open_calls m = (if stop_reason m = Error \<or> stop_reason m = Aborted then [] else tool_calls_of m)"

text \<open>
  Every response is followed at once by exactly the results of its calls, in order, and there is no
  other result.
\<close>

function answered :: "AgentMessage list \<Rightarrow> bool" where
  "answered [] = True"
| "answered (Assistant m # ms) =
    (list_all2 (\<lambda>x c. \<exists>t. x = ToolResult t \<and> answers t c) (takeWhile is_result ms) (open_calls m) \<and>
     answered (dropWhile is_result ms))"
| "answered (ToolResult t # ms) = False"
| "answered (User j # ms) = answered ms"
| "answered (BashExecution j # ms) = answered ms"
| "answered (Custom j # ms) = answered ms"
| "answered (BranchSummary j # ms) = answered ms"
| "answered (CompactionSummary j # ms) = answered ms"
  by pat_completeness auto
termination
  by (relation "measure length") (auto simp: le_imp_less_Suc length_dropWhile_le)

lemma answered_not_result: "answered ms \<Longrightarrow> takeWhile is_result ms = [] \<and> dropWhile is_result ms = ms"
  by (cases ms rule: answered.cases) auto

lemma answered_append: "answered xs \<Longrightarrow> answered ys \<Longrightarrow> answered (xs @ ys)"
proof (induction xs rule: answered.induct)
  case (2 m ms)
  show ?case
  proof (cases "list_all is_result ms")
    case True
    then have "takeWhile is_result (ms @ ys) = takeWhile is_result ms" "dropWhile is_result (ms @ ys) = ys"
      using answered_not_result[OF "2.prems"(2)]
      by (auto simp: list_all_iff takeWhile_append2 dropWhile_append2 takeWhile_eq_all_conv[THEN iffD2])
    then show ?thesis using 2 by simp
  next
    case False
    then obtain x where "x \<in> set ms" "\<not> is_result x" by (auto simp: list_all_iff)
    then show ?thesis
      using 2 by (auto simp: takeWhile_append1 dropWhile_append1)
  qed
qed auto

lemma answered_inputs: "list_all is_input ms \<Longrightarrow> answered ms"
proof (induction ms)
  case (Cons m ms)
  then show ?case by (cases m) auto
qed simp

lemma answered_response:
  assumes "list_all2 answers rs (open_calls m)"
  shows "answered (Assistant m # map ToolResult rs)"
proof -
  have eqs: "takeWhile is_result (map ToolResult rs) = map ToolResult rs" "dropWhile is_result (map ToolResult rs) = []"
    by (auto simp: takeWhile_eq_all_conv dropWhile_eq_Nil_conv)
  show ?thesis
    unfolding answered.simps(2) eqs using assms by (auto simp: list_all2_map1 elim: list_all2_mono)
qed

subsection \<open>The structure of a run\<close>

text \<open>\<open>grows r r' sk ms\<close>: the events \<open>sk\<close> of the run's structure and the new messages \<open>ms\<close> are added.\<close>

definition grows :: "'w Run \<Rightarrow> 'w Run \<Rightarrow> AgentEvent list \<Rightarrow> AgentMessage list \<Rightarrow> bool" where
  "grows r r' sk ms \<longleftrightarrow> skeleton (events r') = skeleton (events r) @ sk \<and> new_messages r' = new_messages r @ ms"

lemma grows_refl [simp]: "grows r r [] []"
  by (simp add: grows_def)

lemma grows_trans: "grows r r' a m \<Longrightarrow> grows r' r'' b n \<Longrightarrow> grows r r'' (a @ b) (m @ n)"
  by (simp add: grows_def)

lemma grows_quiet: "grows r r' [] [] \<Longrightarrow> grows r' r'' [] [] \<Longrightarrow> grows r r'' [] []"
  by (simp add: grows_def)

lemma grows_ask [simp]: "grows r (snd (ask f r)) [] []"
  by (simp add: grows_def)

lemma grows_emit: "grows r (emit e r) (if structural e then [e] else []) []"
  by (simp add: grows_def)

lemma push_simps [simp]:
  "events (push_context m r) = events r" "new_messages (push_context m r) = new_messages r"
  "events (replace_last m r) = events r" "new_messages (replace_last m r) = new_messages r"
  "events (push_new m r) = events r" "new_messages (push_new m r) = new_messages r @ [m]"
  by (simp_all add: push_context_def replace_last_def push_new_def)

lemma batch_result_grows: "batch_result calls batch r r' \<Longrightarrow> grows r r' [] []"
  by (auto simp: batch_result_def batch_adds_def adds_def grows_def)

lemma finish_assistant_message_grows [simp]: "grows r (finish_assistant_message m p r) [] []"
  by (simp add: grows_def finish_assistant_message_def)

lemma create_aborted_ok:
  "grows r (snd (create_aborted_assistant_message rt cfg p r)) [] []"
  "stop_reason (fst (create_aborted_assistant_message rt cfg p r)) = Aborted"
  by (simp_all add: create_aborted_assistant_message_def Let_def case_prod_unfold split: option.split)

lemma finish_cancelled_response_grows: "grows r (snd (finish_cancelled_response rt cfg p r)) [] []"
  by (auto simp: finish_cancelled_response_def Let_def case_prod_unfold 
      intro: grows_quiet[OF create_aborted_ok(1) finish_assistant_message_grows])

lemma stream_loop_grows: "grows r (snd (stream_loop rt cfg final items added streaming r)) [] []"
proof (induction rt cfg final items added streaming r rule: stream_loop.induct)
  case (3 rt cfg final partial items added streaming r)
  then show ?case by (auto intro: grows_quiet[rotated] simp: grows_def)
next
  case (4 rt cfg final name payload partial items added streaming r)
  then show ?case by (auto intro: grows_quiet[rotated] simp: grows_def)
qed (auto simp: finish_cancelled_response_grows)

lemma send_request_grows: "grows r (snd (send_request rt cfg r)) [] []"
  by (simp add: send_request_def Let_def case_prod_unfold split: option.split)
    (auto simp: grows_def finish_cancelled_response_grows[unfolded grows_def] stream_loop_grows[unfolded grows_def])

lemma stream_assistant_response_grows: "grows r (snd (stream_assistant_response rt cfg r)) [] []"
  by (simp add: stream_assistant_response_def Let_def case_prod_unfold split: option.split sum.split)
    (auto simp: grows_def finish_cancelled_response_grows[unfolded grows_def] send_request_grows[unfolded grows_def]
      create_aborted_ok(1)[unfolded grows_def] finish_assistant_message_grows[unfolded grows_def])

lemma fold_deliver_grows: "grows r (fold deliver ms r) [] ms"
proof (induction ms arbitrary: r)
  case (Cons m ms)
  show ?case
    using Cons[of "deliver m r"] by (simp add: grows_def deliver_def announce_def)
qed simp

lemma fold_record_grows: "grows r (fold record_result ms r) [] (map ToolResult ms)"
proof (induction ms arbitrary: r)
  case (Cons m ms)
  show ?case
    using Cons[of "record_result m r"] by (simp add: grows_def record_result_def)
qed simp

text \<open>Turns are opened and closed alternately.\<close>

fun turns :: "AgentEvent list \<Rightarrow> bool" where
  "turns [] = True"
| "turns (TurnStart # TurnEnd m rs # es) = turns es"
| "turns _ = False"

lemma turns_append: "turns es \<Longrightarrow> turns (es @ [TurnStart, TurnEnd m rs])"
  by (induction es rule: turns.induct) auto

text \<open>Between two turns, within a turn, and when the loop has returned.\<close>

definition between :: "'w Run \<Rightarrow> bool" where
  "between r \<longleftrightarrow> (\<exists>es. skeleton (events r) = AgentStart # es \<and> turns es) \<and> answered (new_messages r)"

definition within :: "'w Run \<Rightarrow> bool" where
  "within r \<longleftrightarrow> (\<exists>es. skeleton (events r) = AgentStart # es @ [TurnStart] \<and> turns es) \<and> answered (new_messages r)"

definition returned :: "'w Run \<Rightarrow> bool" where
  "returned r \<longleftrightarrow> (\<exists>es. skeleton (events r) = AgentStart # es @ [AgentEnd (new_messages r)] \<and> turns es) \<and>
    answered (new_messages r)"

lemma between_grows: "between r \<Longrightarrow> grows r r' [] [] \<Longrightarrow> between r'"
  by (simp add: between_def grows_def)

lemma within_grows: "within r \<Longrightarrow> grows r r' [] ms \<Longrightarrow> answered ms \<Longrightarrow> within r'"
  by (auto simp: within_def grows_def answered_append)

lemma between_end: "between r \<Longrightarrow> returned (emit (AgentEnd (new_messages r)) r)"
  by (auto simp: between_def returned_def)

lemma between_start: "between r \<Longrightarrow> within (emit TurnStart r)"
  by (auto simp: between_def within_def)

lemma within_end: "within r \<Longrightarrow> between (emit (TurnEnd m rs) r)"
  using turns_append by (auto simp: between_def within_def)

lemma finish_cancelled_turn_ok:
  assumes "within r"
  shows "returned (finish_cancelled_turn rt cfg r)"
proof -
  define m where "m = fst (create_aborted_assistant_message rt cfg None r)"
  define r1 where "r1 = push_new (Assistant m)
    (finish_assistant_message m False (snd (create_aborted_assistant_message rt cfg None r)))"
  have "grows r r1 [] [Assistant m]"
    using grows_quiet[OF create_aborted_ok(1) finish_assistant_message_grows, of r m False rt cfg None]
    by (simp add: r1_def grows_def)
  moreover have "stop_reason m = Aborted"
    by (simp add: m_def create_aborted_ok)
  then have "answered [Assistant m]"
    by (simp add: open_calls_def)
  ultimately have "within r1"
    using assms within_grows by blast
  then show ?thesis
    using between_end[OF within_end, of r1] by (simp add: finish_cancelled_turn_def Let_def case_prod_unfold m_def r1_def)
qed

text \<open>
  The queues deliver input, never responses or tool results of their own; that is what makes the
  recorded conversation well formed.
\<close>

definition queues_ok :: "'w AgentLoopConfig \<Rightarrow> bool" where
  "queues_ok cfg \<longleftrightarrow>
    (\<forall>f. get_steering_messages cfg = Some f \<longrightarrow> (\<forall>w. list_all is_input (fst (f w)))) \<and>
    (\<forall>f. get_follow_up_messages cfg = Some f \<longrightarrow> (\<forall>w. list_all is_input (fst (f w))))"

definition loop_inv :: "'w LoopState \<Rightarrow> bool" where
  "loop_inv s \<longleftrightarrow> queues_ok (config s) \<and> list_all is_input (pending_messages s) \<and>
    breaker_ok (repeat_breaker s) \<and>
    (if first_turn s then has_more_tool_calls s \<and> within (run s) else between (run s))"

fun outcome_ok :: "'w outcome \<Rightarrow> bool" where
  "outcome_ok (GoOn s) = loop_inv s"
| "outcome_ok (Return r) = returned r"
| "outcome_ok (Unwind r) = True"

lemma unless_cancelled_ok:
  assumes "between r" and "\<And>r'. between r' \<Longrightarrow> outcome_ok (k r')"
  shows "outcome_ok (unless_cancelled rt cfg r k)"
proof -
  have "between (snd (ask (poll rt) r))"
    using assms(1) by (rule between_grows) simp
  then show ?thesis
    using assms(2)
    by (simp add: unless_cancelled_def finish_cancelled_after_turn_def Let_def case_prod_unfold
        finish_cancelled_turn_ok between_start)
qed

lemma ask_input: "(\<forall>w. P (fst (f w))) \<Longrightarrow> P (fst (ask f r))"
  by (simp add: ask_def Let_def case_prod_unfold)

lemma apply_update_ok:
  "grows r (snd (apply_update u cfg r)) [] []" "queues_ok (fst (apply_update u cfg r)) = queues_ok cfg"
  by (simp_all add: apply_update_def Let_def grows_def queues_ok_def split: option.split)

lemma after_turn_ok:
  assumes r: "within r" and cfg: "queues_ok cfg" and b: "breaker_ok b"
  shows "outcome_ok (after_turn rt cfg message results again b r)"
  unfolding after_turn_def
proof (rule unless_cancelled_ok)
  show "between (emit (TurnEnd (Assistant message) results) r)"
    using r by (rule within_end)
next
  fix r :: "'a Run"
  assume r: "between r"
  let ?u = "case prepare_next_turn cfg of Some f \<Rightarrow> ask (f (turn_info message results r)) r | None \<Rightarrow> (None, r)"
  let ?c = "case fst ?u of Some u \<Rightarrow> apply_update u cfg (snd ?u) | None \<Rightarrow> (cfg, snd ?u)"
  have u: "between (snd ?u)"
    using r by (rule between_grows) (simp split: option.split)
  have c: "between (snd ?c)" "queues_ok (fst ?c)"
    using u cfg by (auto simp: apply_update_ok(2) intro: between_grows[OF _ apply_update_ok(1)] split: option.split)
  have "outcome_ok (unless_cancelled rt (fst ?c) (snd ?c) (\<lambda>r.
      let (stop, r) = (case should_stop_after_turn (fst ?c) of
            Some f \<Rightarrow> ask (f (turn_info message results r)) r | None \<Rightarrow> (False, r))
      in unless_cancelled rt (fst ?c) r (\<lambda>r.
        if stop then Return (emit (AgentEnd (new_messages r)) r)
        else
          let (pending, r) = (case get_steering_messages (fst ?c) of Some f \<Rightarrow> ask f r | None \<Rightarrow> ([], r))
          in unless_cancelled rt (fst ?c) r (\<lambda>r.
            GoOn \<lparr>run = r, config = fst ?c, first_turn = False, repeat_breaker = b,
              pending_messages = pending, has_more_tool_calls = again\<rparr>))))"
  proof (rule unless_cancelled_ok[OF c(1)], simp only: Let_def case_prod_unfold, rule unless_cancelled_ok)
    fix r :: "'a Run"
    assume "between r"
    then show "between (snd (case should_stop_after_turn (fst ?c) of
        Some f \<Rightarrow> ask (f (turn_info message results r)) r | None \<Rightarrow> (False, r)))"
      by (rule between_grows) (simp split: option.split)
  next
    fix r0 r :: "'a Run"
    assume r: "between r"
    let ?p = "case get_steering_messages (fst ?c) of Some f \<Rightarrow> ask f r | None \<Rightarrow> ([], r)"
    have p: "between (snd ?p)"
      using r by (rule between_grows) (simp split: option.split)
    have inp: "list_all is_input (fst ?p)"
      using c(2) by (auto simp: queues_ok_def ask_input split: option.split)
    have "outcome_ok (unless_cancelled rt (fst ?c) (snd ?p) (\<lambda>r. GoOn \<lparr>run = r, config = fst ?c, first_turn = False,
        repeat_breaker = b, pending_messages = fst ?p, has_more_tool_calls = again\<rparr>))"
      by (rule unless_cancelled_ok[OF p]) (use c(2) b inp in \<open>simp add: loop_inv_def\<close>)
    with between_end[OF r] show "outcome_ok (if fst (case should_stop_after_turn (fst ?c) of
          Some f \<Rightarrow> ask (f (turn_info message results r0)) r0 | None \<Rightarrow> (False, r0))
        then Return (emit (AgentEnd (new_messages r)) r)
        else unless_cancelled rt (fst ?c) (snd ?p) (\<lambda>r. GoOn \<lparr>run = r, config = fst ?c, first_turn = False,
          repeat_breaker = b, pending_messages = fst ?p, has_more_tool_calls = again\<rparr>))"
      by simp
  qed
  then show "outcome_ok (let (update, r) = ?u;
        (cfg, r) = (case update of Some u \<Rightarrow> apply_update u cfg r | None \<Rightarrow> (cfg, r))
      in unless_cancelled rt cfg r (\<lambda>r.
        let (stop, r) = (case should_stop_after_turn cfg of
              Some f \<Rightarrow> ask (f (turn_info message results r)) r | None \<Rightarrow> (False, r))
        in unless_cancelled rt cfg r (\<lambda>r.
          if stop then Return (emit (AgentEnd (new_messages r)) r)
          else
            let (pending, r) = (case get_steering_messages cfg of Some f \<Rightarrow> ask f r | None \<Rightarrow> ([], r))
            in unless_cancelled rt cfg r (\<lambda>r.
              GoOn \<lparr>run = r, config = cfg, first_turn = False, repeat_breaker = b,
                pending_messages = pending, has_more_tool_calls = again\<rparr>))))"
    by (simp add: Let_def case_prod_unfold)
qed

lemma tool_phase_breaker:
  assumes "breaker_ok b" and "\<not> handoff_pending b" and "tool_phase rt cfg message calls handoff b r = (batch, b', r')"
  shows "breaker_ok b'"
  using assms(3) assms(1) observe_ok[OF assms(1,2), of "to_string rt" calls]
  by (auto simp: tool_phase_def Let_def case_prod_unfold split: if_splits)

lemma grows_push_new: "grows r (push_new m r) [] [m]"
  by (simp add: grows_def)

lemma respond_ok:
  assumes r: "within r" and cfg: "queues_ok cfg" and b: "breaker_ok b"
    and ok: "stop_reason message \<noteq> Error" "stop_reason message \<noteq> Aborted"
  shows "outcome_ok (respond rt cfg message b (push_new (Assistant message) r))"
proof -
  let ?r = "push_new (Assistant message) r" and ?calls = "tool_calls_of message"
  obtain handoff b1 where take: "take_handoff b = (handoff, b1)" by fastforce
  then have b1: "breaker_ok b1" "\<not> handoff_pending b1"
    using take_handoff_ok[OF b] by simp_all
  have calls: "open_calls message = ?calls"
    using ok by (simp add: open_calls_def)
  show ?thesis
  proof (cases "?calls = []")
    case True
    then have "within ?r"
      using within_grows[OF r grows_push_new] answered_response[of "[]" message] by (simp add: calls)
    from after_turn_ok[OF this cfg b1(1)] True take show ?thesis
      by (simp add: respond_def)
  next
    case False
    obtain batch b2 r2 where phase: "tool_phase rt cfg message ?calls handoff b1 ?r = (batch, b2, r2)"
      by (metis prod.exhaust)
    show ?thesis
    proof (cases batch)
      case None
      then show ?thesis
        using False take phase by (simp add: respond_def)
    next
      case (Some bt)
      have res: "batch_result ?calls bt ?r r2"
        using phase Some by (intro tool_phase_ok) auto
      let ?r3 = "fold record_result (batch_messages bt) r2"
      have "grows r ?r3 [] ([Assistant message] @ [] @ map ToolResult (batch_messages bt))"
        using grows_trans[OF grows_push_new grows_trans[OF batch_result_grows[OF res] fold_record_grows]] by simp
      moreover have "answered ([Assistant message] @ [] @ map ToolResult (batch_messages bt))"
        using answered_response[of "batch_messages bt" message] res by (simp add: calls batch_result_def)
      ultimately have "within ?r3"
        by (rule within_grows[OF r])
      from after_turn_ok[OF this cfg tool_phase_breaker[OF b1 phase]] show ?thesis
        using False take phase Some by (simp add: respond_def)
    qed
  qed
qed

lemma turn_ok:
  assumes inv: "loop_inv s"
  shows "outcome_ok (turn rt s)"
proof -
  let ?cfg = "config s" and ?r0 = "if first_turn s then run s else emit TurnStart (run s)"
  let ?r1 = "snd (ask (poll rt) ?r0)"
  let ?r2 = "fold deliver (pending_messages s) ?r1"
  let ?resp = "stream_assistant_response rt ?cfg ?r2"
  let ?b = "if pending_messages s = [] then repeat_breaker s else breaker_reset (repeat_breaker s)"
  have "within ?r0"
    using inv between_start by (auto simp: loop_inv_def)
  then have r1: "within ?r1"
    by (rule within_grows[OF _ grows_ask]) simp
  have r2: "within ?r2"
    by (rule within_grows[OF r1 fold_deliver_grows]) (use inv answered_inputs in \<open>simp add: loop_inv_def\<close>)
  have r3: "within (snd ?resp)"
    by (rule within_grows[OF r2 stream_assistant_response_grows]) simp
  show ?thesis
  proof (cases "fst (ask (poll rt) ?r0)")
    case True
    then show ?thesis
      using finish_cancelled_turn_ok[OF r1] by (simp add: turn_def Let_def case_prod_unfold)
  next
    case False
    show ?thesis
    proof (cases "stop_reason (fst ?resp) = Error \<or> stop_reason (fst ?resp) = Aborted")
      case True
      then have "answered [Assistant (fst ?resp)]"
        by (auto simp: open_calls_def)
      then have "within (push_new (Assistant (fst ?resp)) (snd ?resp))"
        by (rule within_grows[OF r3 grows_push_new])
      from between_end[OF within_end[OF this]] show ?thesis
        using False True by (simp add: turn_def Let_def case_prod_unfold)
    next
      case ok: False
      have "queues_ok ?cfg" "breaker_ok ?b"
        using inv by (auto simp: loop_inv_def)
      from respond_ok[OF r3 this] ok False show ?thesis
        by (simp add: turn_def Let_def case_prod_unfold)
    qed
  qed
qed

lemma follow_up_ok:
  assumes inv: "loop_inv s" and "\<not> has_more_tool_calls s"
  shows "outcome_ok (follow_up rt s)"
proof -
  let ?q = "case get_follow_up_messages (config s) of Some f \<Rightarrow> ask f (run s) | None \<Rightarrow> ([], run s)"
  have "between (run s)" and first: "\<not> first_turn s"
    using inv assms(2) by (auto simp: loop_inv_def split: if_splits)
  then have q: "between (snd ?q)"
    by (auto intro: between_grows split: option.split)
  have "list_all is_input (fst ?q)"
    using inv by (auto simp: loop_inv_def queues_ok_def ask_input split: option.split)
  then have "outcome_ok (unless_cancelled rt (config s) (snd ?q) (\<lambda>r.
      if fst ?q \<noteq> [] then GoOn (s\<lparr>run := r, pending_messages := fst ?q, has_more_tool_calls := True\<rparr>)
      else Return (emit (AgentEnd (new_messages r)) r)))"
    by (intro unless_cancelled_ok[OF q]) (use inv first between_end in \<open>auto simp: loop_inv_def\<close>)
  then show ?thesis
    by (simp add: follow_up_def Let_def case_prod_unfold)
qed

lemma round_ok: "loop_inv s \<Longrightarrow> outcome_ok (round rt s)"
  using turn_ok[of s rt] follow_up_ok[of s rt] by (auto simp: round_def)

subsection \<open>Reachable states\<close>

inductive reachable :: "'w Runtime \<Rightarrow> 'w LoopState \<Rightarrow> 'w LoopState \<Rightarrow> bool" for rt s0 where
  start: "reachable rt s0 s0"
| step: "reachable rt s0 s \<Longrightarrow> round rt s = GoOn s' \<Longrightarrow> reachable rt s0 s'"

lemma reachable_inv: "reachable rt s0 s \<Longrightarrow> loop_inv s0 \<Longrightarrow> loop_inv s"
proof (induction rule: reachable.induct)
  case (step s s')
  then show ?case
    using round_ok[of s rt] by simp
qed simp

lemma reachable_first: "round rt s = GoOn s1 \<Longrightarrow> reachable rt s1 s' \<Longrightarrow> reachable rt s s'"
  by (rotate_tac, induction rule: reachable.induct) (auto intro: reachable.intros)

text \<open>If the loop returns, it returns from a reachable state.\<close>

lemma rounds_reachable:
  "rounds rt s = Some res \<Longrightarrow> \<exists>s'. reachable rt s s' \<and> round rt s' = res \<and> (\<forall>t. res \<noteq> GoOn t)"
proof (induction rule: rounds.raw_induct[rotated, consumes 1])
  case (1 rounds' rt s res)
  show ?case
  proof (cases "round rt s")
    case (GoOn s1)
    then have "rounds' rt s1 = Some res"
      using 1 by simp
    from 1(1)[OF this] obtain s' where "reachable rt s1 s'" "round rt s' = res" "\<forall>t. res \<noteq> GoOn t"
      by blast
    then show ?thesis
      using reachable_first[OF GoOn] by blast
  qed (use 1 in \<open>auto intro: reachable.start\<close>)
qed

lemma rounds_ok: "loop_inv s \<Longrightarrow> rounds rt s = Some res \<Longrightarrow> outcome_ok res"
  using rounds_reachable reachable_inv round_ok by blast

lemma initial_inv:
  assumes "queues_ok cfg" and "within r"
  shows "loop_inv (initial_state rt cfg drain r)"
proof -
  let ?p = "case get_steering_messages cfg of Some f \<Rightarrow> if drain then ask f r else ([], r) | None \<Rightarrow> ([], r)"
  have "within (snd ?p)"
    using assms(2) by (auto intro: within_grows[OF _ grows_ask] split: option.split)
  moreover have "list_all is_input (fst ?p)"
    using assms(1) by (auto simp: queues_ok_def ask_input split: option.split)
  ultimately show ?thesis
    using assms(1) by (simp add: initial_state_def loop_inv_def Let_def case_prod_unfold)
qed

lemma fold_announce_simps [simp]:
  "skeleton (events (fold announce ms r)) = skeleton (events r)" "new_messages (fold announce ms r) = new_messages r"
  by (induction ms arbitrary: r) (auto simp: announce_def)

lemma start_run_within: "list_all is_input prompts \<Longrightarrow> within (start_run prompts ctx w)"
  by (simp add: within_def start_run_def answered_inputs exI[of _ "[]"])

lemma run_agent_loop_ok:
  assumes "queues_ok cfg" and "list_all is_input prompts"
    and "run_agent_loop (Some rt) prompts ctx cfg w = Some res"
  shows "outcome_ok res"
  using assms rounds_ok[OF initial_inv[OF assms(1) start_run_within[OF assms(2)]]]
  by (simp add: run_agent_loop_def run_loop_def)

subsection \<open>Properties\<close>

text \<open>
  A small world for the examples: nobody cancels, the first response calls a tool that does not
  exist, the second is text. The world counts the responses.
\<close>

definition example_response :: "StopReason \<Rightarrow> AssistantContent list \<Rightarrow> AssistantMessage" where
  "example_response why content = \<lparr>am_content = content, am_api = ''api'', am_provider = ''p'', am_model = ''m'',
     response_model = None, response_id = None, diagnostics = None, am_usage = Usage_default, stop_reason = why,
     deferred = None, error_message = None, raw_stop_reason = None, end_turn = None, am_timestamp = 0\<rparr>"

definition example_runtime :: "nat Runtime" where
  "example_runtime = \<lparr>poll = Pair False, now_ms = Pair 0, pick = Pair 0,
     stream_function = (\<lambda>_ _ _ _ _ n. (Some ([], if n = 0 then example_response ToolUse [AToolCall example_call]
       else example_response Stop []), n + 1)),
     validate_tool_arguments = (\<lambda>_ c. Inr (JObject (arguments c))), to_string = (\<lambda>_. ''args'')\<rparr>"

definition example_config :: "nat AgentLoopConfig" where
  "example_config = \<lparr>reasoning = None, api_key = None,
     model = \<lparr>model_api = ''api'', model_provider = ''p'', model_id = ''m''\<rparr>,
     convert_to_llm = Pair, transform_context = None, prepare_context = None, get_api_key = None,
     should_stop_after_turn = None, prepare_next_turn = None, get_steering_messages = None,
     get_follow_up_messages = None, tool_execution = None, before_tool_call = None, after_tool_call = None\<rparr>"

definition example_user :: UserMessage where
  "example_user = \<lparr>um_content = TextOnly ''hi'', um_timestamp = 0\<rparr>"

definition example_context :: "nat AgentContext" where
  "example_context = \<lparr>system_prompt = ''s'', messages = [], tools = None\<rparr>"

lemmas run_eval = run_agent_loop_def run_loop_def initial_state_def start_run_def announce_def rounds.simps round_def
  turn_def respond_def tool_phase_def after_turn_def unless_cancelled_def finish_cancelled_after_turn_def follow_up_def
  stream_assistant_response_def send_request_def finish_assistant_message_def tool_calls_of_def
  execute_tool_calls_def find_tool_def execute_tool_calls_parallel_def par_loop.simps batch_step_def preflight_step_def
  prepare_tool_call_def should_terminate_tool_batch_def apply_nudge_def nudge_at_def create_error_tool_result_def
  report_result_def emit_tool_result_message_def emit_tool_execution_end_def emit_tool_execution_start_def
  record_result_def create_tool_result_message_def take_handoff_def observe_def observe_key_def for_streak_eval
  breaker_default_def ask_def emit_def push_context_def push_new_def Let_def
  example_runtime_def example_config_def example_context_def example_response_def example_call_def






definition example_run :: "nat Run" where
  "example_run = \<lparr>world = 0, events = [], current_context = example_context, new_messages = []\<rparr>"


text \<open>
  The repeat breaker's counter is bounded in every state the loop can reach: the streak never
  passes the last threshold of twelve, so its \<open>u32\<close> cannot overflow, and when it is reached the
  text-only response is already requested.
\<close>

theorem repeat_streak_bounded:
  assumes "queues_ok cfg" and "list_all is_input prompts"
    and "reachable rt (initial_state rt cfg False (start_run prompts ctx w)) s"
  shows "unat (streak (repeat_breaker s)) \<le> 12 \<and>
    (unat (streak (repeat_breaker s)) = 12 \<longrightarrow> handoff_pending (repeat_breaker s))"
  using reachable_inv[OF assms(3) initial_inv[OF assms(1) start_run_within[OF assms(2)]]]
  by (simp add: loop_inv_def breaker_ok_def)

theorem repeat_streak_bounded_witness:
  "unat (streak (repeat_breaker (initial_state example_runtime example_config False
      (start_run [User example_user] example_context 0)))) \<le> 12"
  using repeat_streak_bounded[of example_config "[User example_user]" example_runtime example_context 0
      "initial_state example_runtime example_config False (start_run [User example_user] example_context 0)"]
  by (simp add: queues_ok_def example_config_def reachable.start)

text \<open>
  A run whose token is already cancelled does nothing but say so: it returns the prompts and one
  empty response marked as aborted, without asking the provider or starting a tool.
\<close>

lemma announce_world [simp]: "world (fold announce ms r) = world r"
  by (induction ms arbitrary: r) (simp_all add: announce_def emit_def)

theorem cancelled_run_aborts:
  assumes "fst (poll rt w)"
  shows "\<exists>r m. run_agent_loop (Some rt) prompts ctx cfg w = Some (Return r) \<and>
    new_messages r = prompts @ [Assistant m] \<and> stop_reason m = Aborted \<and> am_content m = [] \<and>
    error_message m = Some ''Operation aborted''"
proof -
  let ?r = "start_run prompts ctx w"
  let ?s = "initial_state rt cfg False ?r"
  have s: "run ?s = ?r" "first_turn ?s" "has_more_tool_calls ?s" "config ?s = cfg"
    by (simp_all add: initial_state_def Let_def case_prod_unfold split: option.split)
  have "world ?r = w" and new: "new_messages ?r = prompts"
    by (simp_all add: start_run_def)
  then have "fst (ask (poll rt) ?r)"
    using assms by (simp add: ask_def Let_def case_prod_unfold)
  then have "run_agent_loop (Some rt) prompts ctx cfg w =
      Some (Return (finish_cancelled_turn rt cfg (snd (ask (poll rt) ?r))))"
    using s by (simp add: run_agent_loop_def run_loop_def rounds.simps round_def turn_def Let_def case_prod_unfold)
  then show ?thesis
    by (simp add: finish_cancelled_turn_def finish_assistant_message_def create_aborted_assistant_message_def
        Let_def case_prod_unfold new)
qed

theorem cancelled_run_aborts_witness:
  "\<exists>r m. run_agent_loop (Some (example_runtime\<lparr>poll := Pair True\<rparr>)) [User example_user] example_context example_config 0 =
      Some (Return r) \<and> new_messages r = [User example_user] @ [Assistant m] \<and> stop_reason m = Aborted \<and> am_content m = [] \<and>
    error_message m = Some ''Operation aborted''"
  by (rule cancelled_run_aborts) simp

end
