(* ===== verification/Modes.thy ===== *)
theory Modes
  imports Prelude "HOL-Library.List_Lexorder" "HOL-Library.Char_ord"
begin

text \<open>
  Modes of a session (\<open>crates/notagent/src/core/modes/shells.rs\<close>, \<open>modes/cycle.rs\<close>, and \<open>ToolName\<close> of
  \<open>core/tools.rs\<close>): the tool allowlist of a shell with a mode's delta applied, and the ring of modes
  a session cycles through. \<open>str::to_lowercase\<close> (full Unicode case mapping) is the parameter
  \<open>lower\<close>.
\<close>

subsection \<open>Tools and shells\<close>

datatype ToolName =
    Read | ReadMinified | Bash | Edit | PatchMinified | MultiPatchMinified | Skill | Task | TaskList
  | TaskOutput | TaskStop | TodoWrite | CreateGoal | UpdateGoal | Write | PlanCreate
  | AskUserQuestion | Undo | Grep | FindFilesystem | FindCodebase | Ls

definition ALL_TOOL_NAMES :: "ToolName list" where
  "ALL_TOOL_NAMES = [Read, Bash, Edit, PatchMinified, MultiPatchMinified, Skill, Task, TaskList,
     TaskOutput, TaskStop, TodoWrite, CreateGoal, UpdateGoal, Write, PlanCreate,
     AskUserQuestion, Undo, Grep, FindFilesystem, FindCodebase, Ls]"

fun tool_as_str :: "ToolName \<Rightarrow> string" where
  "tool_as_str Read = ''read''"
| "tool_as_str ReadMinified = ''read_minified''"
| "tool_as_str Bash = ''bash''"
| "tool_as_str Edit = ''patch''"
| "tool_as_str PatchMinified = ''patch_minified''"
| "tool_as_str MultiPatchMinified = ''multi_patch_minified''"
| "tool_as_str Skill = ''skill''"
| "tool_as_str Task = ''task''"
| "tool_as_str TaskList = ''task_list''"
| "tool_as_str TaskOutput = ''task_output''"
| "tool_as_str TaskStop = ''task_stop''"
| "tool_as_str TodoWrite = ''todo_write''"
| "tool_as_str CreateGoal = ''create_goal''"
| "tool_as_str UpdateGoal = ''update_goal''"
| "tool_as_str Write = ''write''"
| "tool_as_str PlanCreate = ''plan_create''"
| "tool_as_str AskUserQuestion = ''ask_user_question''"
| "tool_as_str Undo = ''undo''"
| "tool_as_str Grep = ''grep''"
| "tool_as_str FindFilesystem = ''find_filesystem''"
| "tool_as_str FindCodebase = ''find_codebase''"
| "tool_as_str Ls = ''ls''"

definition tool_parse :: "string \<Rightarrow> ToolName option" where
  "tool_parse value = find (\<lambda>t. tool_as_str t = value) ALL_TOOL_NAMES"

datatype ShellId = ReadOnly | Worker

datatype ApprovalLevel = Manual | Auto | Yolo

definition APPROVAL_LEVELS :: "ApprovalLevel list" where "APPROVAL_LEVELS = [Manual, Auto, Yolo]"
definition SHELL_IDS :: "ShellId list" where "SHELL_IDS = [ReadOnly, Worker]"

fun approval_as_str :: "ApprovalLevel \<Rightarrow> string" where
  "approval_as_str Manual = ''manual''"
| "approval_as_str Auto = ''auto''"
| "approval_as_str Yolo = ''yolo''"

definition approval_parse :: "string \<Rightarrow> ApprovalLevel option" where
  "approval_parse value = find (\<lambda>l. approval_as_str l = value) APPROVAL_LEVELS"

fun shell_as_str :: "ShellId \<Rightarrow> string" where
  "shell_as_str ReadOnly = ''read-only''"
| "shell_as_str Worker = ''worker''"

definition shell_parse :: "string \<Rightarrow> ShellId option" where
  "shell_parse value = find (\<lambda>s. shell_as_str s = value) SHELL_IDS"

definition SHELL_READ_ONLY_TOOLS :: "ToolName list" where
  "SHELL_READ_ONLY_TOOLS = [Read, Grep, FindFilesystem, FindCodebase, Ls, Skill, Task, TaskList, TaskOutput,
     TaskStop, TodoWrite, PlanCreate, AskUserQuestion]"

definition WORKER_ADDITIONAL_TOOLS :: "ToolName list" where
  "WORKER_ADDITIONAL_TOOLS = [Bash, Undo, Edit, Write, PatchMinified, MultiPatchMinified]"

definition MUTATING_TOOLS :: "ToolName list" where "MUTATING_TOOLS = WORKER_ADDITIONAL_TOOLS"

fun tools_for_shell :: "ShellId \<Rightarrow> ToolName list" where
  "tools_for_shell ReadOnly = SHELL_READ_ONLY_TOOLS"
| "tools_for_shell Worker = SHELL_READ_ONLY_TOOLS @ WORKER_ADDITIONAL_TOOLS"

record ToolDeltaResult =
  delta_tools :: "ToolName list"
  problems :: "string list"

definition quote :: "string \<Rightarrow> string" where
  "quote s = [char_of (34 :: nat)] @ s @ [char_of (34 :: nat)]"

text \<open>One entry of a delta: its name and whether it removes.\<close>

definition delta_entry :: "string \<Rightarrow> bool \<times> string" where
  "delta_entry entry =
    (let remove = starts_with entry ''-'' in
     (remove, if remove \<or> starts_with entry ''+'' then trim (drop 1 entry) else entry))"

definition apply_entry :: "ShellId \<Rightarrow> (string \<Rightarrow> bool) \<Rightarrow> string \<Rightarrow> ToolDeltaResult \<Rightarrow> ToolDeltaResult" where
  "apply_entry shell known raw d =
    (let entry = trim raw in
     if entry = [] then d
     else
       let (remove, name) = delta_entry entry; unknown = ''unknown tool '' @ quote name in
       if \<not> known name then d\<lparr>problems := problems d @ [unknown]\<rparr>
       else case tool_parse name of
         None \<Rightarrow> if remove then d else d\<lparr>problems := problems d @ [unknown]\<rparr>
       | Some tool \<Rightarrow>
           if remove then d\<lparr>delta_tools := filter (\<lambda>t. t \<noteq> tool) (delta_tools d)\<rparr>
           else if shell = ReadOnly \<and> tool \<in> set MUTATING_TOOLS
           then d\<lparr>problems := problems d @ [''tool '' @ quote name @
             '' mutates the workspace and cannot be added to a read-only shell'']\<rparr>
           else if tool \<in> set (delta_tools d) then d
           else d\<lparr>delta_tools := delta_tools d @ [tool]\<rparr>)"

definition apply_tool_delta :: "ShellId \<Rightarrow> string list option \<Rightarrow> (string \<Rightarrow> bool) \<Rightarrow> ToolDeltaResult" where
  "apply_tool_delta shell delta known =
    (let start = \<lparr>delta_tools = tools_for_shell shell, problems = []\<rparr> in
     case delta of None \<Rightarrow> start | Some entries \<Rightarrow> fold (apply_entry shell known) entries start)"

subsection \<open>The ring of modes\<close>

record Mode =
  mode_id :: string
  mode_shell :: ShellId
  mode_approval :: ApprovalLevel
  mode_tools :: "ToolName list"

definition BUILTIN_MODE_ORDER :: "string list" where
  "BUILTIN_MODE_ORDER = [''plan'', ''manual'', ''auto'', ''yolo'']"

definition DEFAULT_MODE_ID :: string where "DEFAULT_MODE_ID = ''manual''"

fun position :: "('a \<Rightarrow> bool) \<Rightarrow> 'a list \<Rightarrow> nat option" where
  "position P [] = None"
| "position P (x # xs) = (if P x then Some 0 else map_option Suc (position P xs))"

definition rank :: "string \<Rightarrow> nat" where
  "rank i = (case position (\<lambda>b. b = i) BUILTIN_MODE_ORDER of Some n \<Rightarrow> n | None \<Rightarrow> length BUILTIN_MODE_ORDER)"

text \<open>\<open>locale_compare\<close> as an order: folded first, then the strings themselves in reverse.\<close>

definition mode_le :: "(string \<Rightarrow> string) \<Rightarrow> Mode \<Rightarrow> Mode \<Rightarrow> bool" where
  "mode_le lower a b \<longleftrightarrow>
    (let i = mode_id a; j = mode_id b in
     rank i < rank j \<or> (rank i = rank j \<and>
       (lower i < lower j \<or> (lower i = lower j \<and> j \<le> i))))"

text \<open>A stable sort by a comparison (\<open>slice::sort_by\<close>).\<close>

fun insert_by :: "('a \<Rightarrow> 'a \<Rightarrow> bool) \<Rightarrow> 'a \<Rightarrow> 'a list \<Rightarrow> 'a list" where
  "insert_by le x [] = [x]"
| "insert_by le x (y # ys) = (if le x y then x # y # ys else y # insert_by le x ys)"

definition sort_by :: "('a \<Rightarrow> 'a \<Rightarrow> bool) \<Rightarrow> 'a list \<Rightarrow> 'a list" where
  "sort_by le xs = foldr (insert_by le) xs []"

definition order_modes :: "(string \<Rightarrow> string) \<Rightarrow> Mode list \<Rightarrow> Mode list" where
  "order_modes lower modes = sort_by (mode_le lower) modes"

definition next_mode_id :: "(string \<Rightarrow> string) \<Rightarrow> Mode list \<Rightarrow> string \<Rightarrow> string option" where
  "next_mode_id lower modes current =
    (let ordered = order_modes lower modes in
     if ordered = [] then None
     else case position (\<lambda>m. mode_id m = current) ordered of
       None \<Rightarrow> Some (mode_id (hd ordered))
     | Some index \<Rightarrow> Some (mode_id (ordered ! ((index + 1) mod length ordered))))"

definition initial_mode_id :: "(string \<Rightarrow> string) \<Rightarrow> Mode list \<Rightarrow> string option" where
  "initial_mode_id lower modes =
    (let ordered = order_modes lower modes in
     case find (\<lambda>m. mode_id m = DEFAULT_MODE_ID) ordered of
       Some m \<Rightarrow> Some (mode_id m)
     | None \<Rightarrow> (case ordered of [] \<Rightarrow> None | m # _ \<Rightarrow> Some (mode_id m)))"

subsection \<open>Lemmas\<close>

lemma tool_parse_as_str: "tool_parse (tool_as_str t) = (if t = ReadMinified then None else Some t)"
  by (cases t) (simp_all add: tool_parse_def ALL_TOOL_NAMES_def)

lemma apply_entry_read_only:
  assumes "set (delta_tools d) \<inter> set MUTATING_TOOLS = {}" and "shell = ReadOnly"
  shows "set (delta_tools (apply_entry shell known raw d)) \<inter> set MUTATING_TOOLS = {}"
  using assms by (auto simp: apply_entry_def Let_def case_prod_unfold split: option.split)

lemma fold_apply_entry_read_only:
  "set (delta_tools d) \<inter> set MUTATING_TOOLS = {} \<Longrightarrow>
    set (delta_tools (fold (apply_entry ReadOnly known) entries d)) \<inter> set MUTATING_TOOLS = {}"
  by (induction entries arbitrary: d) (simp_all add: apply_entry_read_only)

lemma apply_entry_distinct:
  "distinct (delta_tools d) \<Longrightarrow> distinct (delta_tools (apply_entry shell known raw d))"
  by (auto simp: apply_entry_def Let_def case_prod_unfold split: option.split)

lemma fold_apply_entry_distinct:
  "distinct (delta_tools d) \<Longrightarrow> distinct (delta_tools (fold (apply_entry shell known) entries d))"
  by (induction entries arbitrary: d) (simp_all add: apply_entry_distinct)

lemma mset_insert_by: "set (insert_by le x xs) = insert x (set xs)" "length (insert_by le x xs) = Suc (length xs)"
  "distinct (map f (insert_by le x xs)) \<longleftrightarrow> f x \<notin> f ` set xs \<and> distinct (map f xs)"
proof -
  show s: "set (insert_by le x xs) = insert x (set xs)" for xs
    by (induction xs) auto
  show "length (insert_by le x xs) = Suc (length xs)"
    by (induction xs) auto
  show "distinct (map f (insert_by le x xs)) \<longleftrightarrow> f x \<notin> f ` set xs \<and> distinct (map f xs)"
    by (induction xs) (auto simp: s)
qed

lemma sort_by_simps:
  "set (sort_by le xs) = set xs" "length (sort_by le xs) = length xs"
  "distinct (map f (sort_by le xs)) = distinct (map f xs)"
proof -
  show s: "set (sort_by le xs) = set xs" for xs
    by (induction xs) (auto simp: sort_by_def mset_insert_by)
  show "length (sort_by le xs) = length xs"
    by (induction xs) (auto simp: sort_by_def mset_insert_by)
  show "distinct (map f (sort_by le xs)) = distinct (map f xs)"
    using s by (induction xs) (auto simp: sort_by_def mset_insert_by)
qed

lemma position_nth:
  "distinct (map f xs) \<Longrightarrow> i < length xs \<Longrightarrow> position (\<lambda>x. f x = f (xs ! i)) xs = Some i"
proof (induction xs arbitrary: i)
  case (Cons x xs)
  then show ?case
    by (cases i) (auto simp: image_iff dest: nth_mem)
qed simp

lemma next_mode_id_nth:
  assumes "distinct (map mode_id modes)" and "i < length modes"
  shows "next_mode_id lower modes (mode_id (order_modes lower modes ! i)) =
    Some (mode_id (order_modes lower modes ! (Suc i mod length modes)))"
proof -
  let ?o = "order_modes lower modes"
  have "distinct (map mode_id ?o)" "length ?o = length modes"
    using assms(1) by (simp_all add: order_modes_def sort_by_simps)
  moreover from this assms(2) have "?o \<noteq> []" by auto
  ultimately show ?thesis
    using assms(2) position_nth[of mode_id ?o i] by (simp add: next_mode_id_def)
qed

text \<open>\<open>n\<close> presses of the switch.\<close>

fun cycle :: "(string \<Rightarrow> string) \<Rightarrow> Mode list \<Rightarrow> nat \<Rightarrow> string \<Rightarrow> string option" where
  "cycle lower modes 0 current = Some current"
| "cycle lower modes (Suc n) current = Option.bind (cycle lower modes n current) (next_mode_id lower modes)"

lemma cycle_nth:
  assumes "distinct (map mode_id modes)" and "i < length modes"
  shows "cycle lower modes n (mode_id (order_modes lower modes ! i)) =
    Some (mode_id (order_modes lower modes ! ((i + n) mod length modes)))"
proof (induction n)
  case (Suc n)
  have "(i + n) mod length modes < length modes"
    using assms(2) by (intro mod_less_divisor) auto
  from next_mode_id_nth[OF assms(1) this, of lower] Suc show ?case
    by (simp add: mod_Suc_eq)
qed (use assms in simp)

subsection \<open>Properties\<close>

text \<open>
  The read-only gate cannot be argued away: whatever delta a mode declares, in whatever order
  and spelling, a read-only shell never offers a tool that mutates the workspace, and no tool is
  offered twice.
\<close>

theorem read_only_shell_never_mutates:
  "set (delta_tools (apply_tool_delta ReadOnly delta known)) \<inter> set MUTATING_TOOLS = {} \<and>
   distinct (delta_tools (apply_tool_delta ReadOnly delta known))"
proof -
  have "set (tools_for_shell ReadOnly) \<inter> set MUTATING_TOOLS = {}" "distinct (tools_for_shell ReadOnly)"
    by (simp_all add: SHELL_READ_ONLY_TOOLS_def MUTATING_TOOLS_def WORKER_ADDITIONAL_TOOLS_def)
  then show ?thesis
    using fold_apply_entry_read_only fold_apply_entry_distinct
    by (simp add: apply_tool_delta_def Let_def split: option.split)
qed

text \<open>
  The mode switch is a ring over all modes: with distinct ids, pressing it \<open>k\<close> times from the
  mode at place \<open>i\<close> of the order gives the mode \<open>k\<close> places further, so every mode is reached and as
  many presses as there are modes come back to the start.
\<close>

theorem mode_ring:
  assumes "distinct (map mode_id modes)" and "i < length modes"
  shows "cycle lower modes k (mode_id (order_modes lower modes ! i)) =
      Some (mode_id (order_modes lower modes ! ((i + k) mod length modes))) \<and>
    cycle lower modes (length modes) (mode_id (order_modes lower modes ! i)) =
      Some (mode_id (order_modes lower modes ! i))"
  using cycle_nth[OF assms, of lower k] cycle_nth[OF assms, of lower "length modes"] assms(2) by simp

definition example_mode :: "string \<Rightarrow> Mode" where
  "example_mode i = \<lparr>mode_id = i, mode_shell = Worker, mode_approval = Manual, mode_tools = []\<rparr>"

theorem mode_ring_witness:
  "cycle to_ascii_lowercase (map example_mode [''yolo'', ''plan'', ''manual'']) 1 ''plan'' = Some ''manual''"
  using mode_ring[of "map example_mode [''yolo'', ''plan'', ''manual'']" 0 to_ascii_lowercase 1]
  by (simp add: order_modes_def sort_by_def mode_le_def rank_def BUILTIN_MODE_ORDER_def example_mode_def Let_def
      del: cycle.simps)

end
