(* ===== verification/Permission.thy ===== *)
theory Permission
  imports Modes Json
begin

text \<open>
  Deciding whether a tool call may run (\<open>crates/notagent/src/core/permissions/policy.rs\<close>,
  \<open>policies.rs\<close>, \<open>user_rules.rs\<close>, \<open>chain.rs\<close>, and \<open>HookVerdict\<close> of \<open>core/hooks/runner.rs\<close>): the
  policies, their order, and the first decision of the chain.

  The regular-expression engine and path resolution are the parameter \<open>Env\<close>: whether a pattern
  matches a text, and the functions of \<open>core/tools/path_utils.rs\<close> and \<open>utils/paths.rs\<close>. The answers the
  user gave for the session are the set \<open>remembered\<close> a policy may consult.
\<close>

subsection \<open>Context and decisions\<close>

record Env =
  is_match :: "string \<Rightarrow> string \<Rightarrow> bool"
  resolve_read_path :: "string \<Rightarrow> string \<Rightarrow> string"
  resolve_to_cwd :: "string \<Rightarrow> string \<Rightarrow> string"
  node_resolve :: "string list \<Rightarrow> string"
  node_relative :: "string \<Rightarrow> string \<Rightarrow> string"
  is_absolute_path :: "string \<Rightarrow> bool"
  main_separator :: char

datatype HookVerdict = Abstain | AllowV "string option" | AskV "string option" | DenyV string

datatype PermissionDecision = Approve | Deny string | Ask "string option"

record Requester =
  req_alias :: string
  req_agent :: string

record PermissionContext =
  pc_tool_call_id :: string
  pc_tool_name :: string
  pc_input :: json_map
  pc_mode_id :: "string option"
  pc_shell :: "ShellId option"
  approval :: ApprovalLevel
  cwd :: string
  requester :: "Requester option"
  hook_verdict :: "HookVerdict option"

record Policy =
  policy_name :: string
  evaluate :: "string set \<Rightarrow> PermissionContext \<Rightarrow> PermissionDecision option"

record PermissionEvaluation =
  eval_policy_name :: string
  decision :: PermissionDecision

fun evaluate_policies :: "Policy list \<Rightarrow> string set \<Rightarrow> PermissionContext \<Rightarrow> PermissionEvaluation option" where
  "evaluate_policies [] remembered c = None"
| "evaluate_policies (p # ps) remembered c =
    (case evaluate p remembered c of
       Some d \<Rightarrow> Some \<lparr>eval_policy_name = policy_name p, decision = d\<rparr>
     | None \<Rightarrow> evaluate_policies ps remembered c)"

record ResolvedWithoutDialog =
  allowed :: bool
  rwd_reason :: "string option"
  rwd_policy_name :: string

definition UNDECIDED :: string where
  "UNDECIDED = ''No permission policy decided this call; refusing rather than assuming permission.''"

definition resolve_without_dialog :: "PermissionEvaluation option \<Rightarrow> ResolvedWithoutDialog" where
  "resolve_without_dialog evaluation =
    (case evaluation of
       None \<Rightarrow> \<lparr>allowed = False, rwd_reason = Some UNDECIDED, rwd_policy_name = ''unresolved''\<rparr>
     | Some e \<Rightarrow>
         (case decision e of
            Approve \<Rightarrow> \<lparr>allowed = True, rwd_reason = None, rwd_policy_name = eval_policy_name e\<rparr>
          | Deny r \<Rightarrow> \<lparr>allowed = False, rwd_reason = Some r, rwd_policy_name = eval_policy_name e\<rparr>
          | Ask r \<Rightarrow> \<lparr>allowed = False, rwd_reason = Some (case r of Some t \<Rightarrow> t | None \<Rightarrow>
              ''This call requires confirmation, which cannot be requested yet; refusing rather than proceeding unsupervised.''),
              rwd_policy_name = eval_policy_name e\<rparr>))"

subsection \<open>The policies\<close>

definition READ_ONLY_TOOLS :: "string list" where
  "READ_ONLY_TOOLS = [''read'', ''read_minified'', ''grep'', ''find_filesystem'', ''find_codebase'', ''ls'',
     ''skill'', ''task'', ''task_list'', ''task_output'', ''todo_write'', ''ask_user_question'']"

definition PATH_ARGUMENTS :: "string list" where "PATH_ARGUMENTS = [''path'', ''file_path'']"

text \<open>The regular expressions of the source, with \<open>~\<close> written for the backslash.\<close>

definition regex :: "string \<Rightarrow> string" where
  "regex s = map (\<lambda>c. if c = CHR ''~'' then char_of (92 :: nat) else c) s"

definition SENSITIVE_PATTERNS :: "string list" where
  "SENSITIVE_PATTERNS = map regex [
     ''(?i)(^|/)~.env(~.|$)'',
     ''(?i)(^|/)~.netrc$'',
     ''(?i)(^|/)~.npmrc$'',
     ''(?i)(^|/)~.ssh/'',
     ''(?i)(^|/)~.aws/'',
     ''(?i)(^|/)~.gnupg/'',
     ''(?i)(^|/)id_(rsa|dsa|ecdsa|ed25519)$'',
     ''(?i)(^|/)~.(bash|zsh)(rc|_profile|env)$'',
     ''(?i)(^|/)~.profile$'',
     ''(?i)~.(pem|key|p12|pfx|keystore)$'',
     ''(?i)(^|/)(credentials|secrets)(~.[a-z0-9]+)?$'']"

definition GIT_CONTROL_PATH :: string where "GIT_CONTROL_PATH = regex ''(^|/)~.git(/|$)''"

text \<open>The first non-blank string among the arguments with these names.\<close>

definition first_text :: "string list \<Rightarrow> json_map \<Rightarrow> string option" where
  "first_text keys m = find (\<lambda>v. trim v \<noteq> [])
     (List.map_filter as_str (List.map_filter (json_get m) keys))"

definition target_path :: "PermissionContext \<Rightarrow> string option" where
  "target_path c = first_text PATH_ARGUMENTS (pc_input c)"

definition absolute_target :: "Env \<Rightarrow> PermissionContext \<Rightarrow> string option" where
  "absolute_target env c = map_option (\<lambda>raw.
     if pc_tool_name c \<in> {''read'', ''read_minified''} then resolve_read_path env raw (cwd c)
     else resolve_to_cwd env raw (cwd c)) (target_path c)"

definition is_inside :: "Env \<Rightarrow> string \<Rightarrow> string \<Rightarrow> bool" where
  "is_inside env parent child =
    (let relative = node_relative env (node_resolve env [parent]) child in
     relative \<noteq> [] \<and> relative \<noteq> ''..'' \<and> \<not> starts_with relative (''..'' @ [main_separator env]) \<and>
     \<not> is_absolute_path env relative)"

definition to_posix :: "Env \<Rightarrow> string \<Rightarrow> string" where
  "to_posix env path = replace_char (main_separator env) ''/'' path"

definition shown_target :: "PermissionContext \<Rightarrow> string" where
  "shown_target c = (case target_path c of Some t \<Rightarrow> t | None \<Rightarrow> [])"

definition is_sensitive :: "Env \<Rightarrow> PermissionContext \<Rightarrow> bool" where
  "is_sensitive env c = (case absolute_target env c of
     None \<Rightarrow> False | Some t \<Rightarrow> list_ex (\<lambda>p. is_match env p (to_posix env t)) SENSITIVE_PATTERNS)"

definition sensitive_file_access_ask :: "Env \<Rightarrow> Policy" where
  "sensitive_file_access_ask env = \<lparr>policy_name = ''sensitive-file-access-ask'', evaluate = (\<lambda>_ c.
     if \<not> is_sensitive env c then None
     else Some (Ask (Some (shown_target c @ '' looks like a credentials or shell startup file.''))))\<rparr>"

definition is_git_control :: "Env \<Rightarrow> PermissionContext \<Rightarrow> bool" where
  "is_git_control env c = (pc_tool_name c \<notin> set READ_ONLY_TOOLS \<and>
     (case absolute_target env c of None \<Rightarrow> False | Some t \<Rightarrow> is_match env GIT_CONTROL_PATH (to_posix env t)))"

definition git_control_path_access_ask :: "Env \<Rightarrow> Policy" where
  "git_control_path_access_ask env = \<lparr>policy_name = ''git-control-path-access-ask'', evaluate = (\<lambda>_ c.
     if \<not> is_git_control env c then None
     else Some (Ask (Some (shown_target c @ '' is inside the git control directory.''))))\<rparr>"

definition undo_approve :: Policy where
  "undo_approve = \<lparr>policy_name = ''undo-approve'', evaluate = (\<lambda>_ c.
     if pc_tool_name c = ''undo'' then Some Approve else None)\<rparr>"

definition default_tool_approve :: Policy where
  "default_tool_approve = \<lparr>policy_name = ''default-tool-approve'', evaluate = (\<lambda>_ c.
     if pc_tool_name c \<in> set READ_ONLY_TOOLS then Some Approve else None)\<rparr>"

definition targets_cwd :: "Env \<Rightarrow> PermissionContext \<Rightarrow> bool" where
  "targets_cwd env c = (case absolute_target env c of None \<Rightarrow> False | Some t \<Rightarrow> is_inside env (cwd c) t)"

definition git_cwd_write_approve :: "Env \<Rightarrow> Policy" where
  "git_cwd_write_approve env = \<lparr>policy_name = ''git-cwd-write-approve'', evaluate = (\<lambda>_ c.
     if targets_cwd env c then Some Approve else None)\<rparr>"

definition DESTRUCTIVE_COMMAND_PATTERNS :: "string list" where
  "DESTRUCTIVE_COMMAND_PATTERNS = map regex [
     ''(?i)~brm~s+(-[a-z]*[rf][a-z]*~s+)+'',
     ''(?i)~brmdir~s+'',
     ''(?i)~bgit~s+push~b[^~n]*(--force~b|--force-with-lease~b|~s-f~b)'',
     ''(?i)~bgit~s+reset~s+--hard~b'',
     ''(?i)~bgit~s+clean~b[^~n]*-[a-z]*f'',
     ''(?i)~bgit~s+checkout~s+--~s'',
     ''(?i)~bgit~s+branch~s+-D~b'',
     ''(?i)~bdd~s+[^~n]*~bof='',
     ''(?i)~bmkfs(~.[a-z0-9]+)?~b'',
     ''(?i)~b(shutdown|reboot|halt)~b'',
     ''(?i)~bchmod~s+(-[a-z]+~s+)*(777|[0-7]*7[0-7]{2})~b'',
     ''(?i)~b(drop|truncate)~s+(table|database|schema)~b'',
     ''(?i)~bkill(all)?~s+-9~b'',
     ''(?i)~bnpm~s+publish~b'',
     ''(?i)~b(curl|wget)~b[^~n|]*~|~s*(sudo~s+)?(ba|z|k)?sh~b'',
     ''(?i)(^|~s)>~s*/dev/(sd|nvme|disk)'']"

definition COMMAND_ARGUMENTS :: "string list" where "COMMAND_ARGUMENTS = [''command'', ''cmd'']"

definition command_text :: "PermissionContext \<Rightarrow> string option" where
  "command_text c = first_text COMMAND_ARGUMENTS (pc_input c)"

definition evaluate_destructive :: "Env \<Rightarrow> PermissionContext \<Rightarrow> PermissionDecision option" where
  "evaluate_destructive env c = (case command_text c of
     None \<Rightarrow> None
   | Some command \<Rightarrow>
       if \<not> list_ex (\<lambda>p. is_match env p command) DESTRUCTIVE_COMMAND_PATTERNS then None
       else Some (Ask (Some ''This command cannot be undone, so it is confirmed even in modes that approve automatically.'')))"

definition is_destructive_call :: "Env \<Rightarrow> PermissionContext \<Rightarrow> bool" where
  "is_destructive_call env c = (evaluate_destructive env c \<noteq> None)"

definition destructive_command_ask :: "Env \<Rightarrow> Policy" where
  "destructive_command_ask env = \<lparr>policy_name = ''destructive-command-ask'', evaluate = (\<lambda>_. evaluate_destructive env)\<rparr>"

definition fallback_ask :: Policy where
  "fallback_ask = \<lparr>policy_name = ''fallback-ask'', evaluate = (\<lambda>_ _. Some (Ask (Some ''No rule covers this call.'')))\<rparr>"

type_synonym slots = "(string \<times> Policy) list"

definition self_contained_policies :: "Env \<Rightarrow> slots" where
  "self_contained_policies env = [
     (''destructive-command-ask'', destructive_command_ask env),
     (''sensitive-file-access-ask'', sensitive_file_access_ask env),
     (''git-control-path-access-ask'', git_control_path_access_ask env),
     (''undo-approve'', undo_approve),
     (''default-tool-approve'', default_tool_approve),
     (''git-cwd-write-approve'', git_cwd_write_approve env),
     (''fallback-ask'', fallback_ask)]"

subsection \<open>User rules\<close>

definition user_configured_deny :: Policy where
  "user_configured_deny = \<lparr>policy_name = ''user-configured-deny'', evaluate = (\<lambda>_ c.
     case hook_verdict c of Some (DenyV r) \<Rightarrow> Some (Deny r) | _ \<Rightarrow> None)\<rparr>"

definition user_configured_ask :: Policy where
  "user_configured_ask = \<lparr>policy_name = ''user-configured-ask'', evaluate = (\<lambda>_ c.
     case hook_verdict c of
       Some (AskV r) \<Rightarrow> Some (Ask (Some (case r of Some t \<Rightarrow> t | None \<Rightarrow> ''A hook asked for confirmation.'')))
     | _ \<Rightarrow> None)\<rparr>"

definition user_configured_allow :: Policy where
  "user_configured_allow = \<lparr>policy_name = ''user-configured-allow'', evaluate = (\<lambda>_ c.
     case hook_verdict c of Some (AllowV _) \<Rightarrow> Some Approve | _ \<Rightarrow> None)\<rparr>"

definition approval_key :: "string \<Rightarrow> json_map \<Rightarrow> string" where
  "approval_key name m =
    (case List.map_filter (json_get m) [''path'', ''file_path'', ''command''] of
       v # _ \<Rightarrow> (case as_str v of Some target \<Rightarrow> name @ '':'' @ target | None \<Rightarrow> name)
     | [] \<Rightarrow> name)"

definition approval_key_for :: "PermissionContext \<Rightarrow> string" where
  "approval_key_for c = approval_key (pc_tool_name c) (pc_input c)"

definition session_approval_history :: "Env \<Rightarrow> Policy" where
  "session_approval_history env = \<lparr>policy_name = ''session-approval-history'', evaluate = (\<lambda>remembered c.
     if is_destructive_call env c then None
     else if approval_key_for c \<in> remembered then Some Approve else None)\<rparr>"

definition user_rule_policies :: slots where
  "user_rule_policies = [(''user-configured-deny'', user_configured_deny),
     (''user-configured-ask'', user_configured_ask), (''user-configured-allow'', user_configured_allow)]"

subsection \<open>The chain\<close>

definition POLICY_ORDER :: "string list" where
  "POLICY_ORDER = [''auto-mode-ask-user-deny'', ''user-configured-deny'', ''yolo-mode-approve'',
     ''destructive-command-ask'', ''session-approval-history'', ''user-configured-ask'', ''user-configured-allow'',
     ''sensitive-file-access-ask'', ''git-control-path-access-ask'', ''undo-approve'', ''auto-mode-approve'',
     ''default-tool-approve'', ''git-cwd-write-approve'', ''fallback-ask'']"

definition QUESTION_TOOLS :: "string list" where
  "QUESTION_TOOLS = [''ask_question'', ''ask_user_question'', ''followup'']"

definition auto_mode_ask_user_deny :: Policy where
  "auto_mode_ask_user_deny = \<lparr>policy_name = ''auto-mode-ask-user-deny'', evaluate = (\<lambda>_ c.
     if approval c \<notin> {Auto, Yolo} then None
     else if pc_tool_name c \<notin> set QUESTION_TOOLS then None
     else Some (Deny ''Asking the user is disabled while the session runs unattended (auto or yolo mode). Make a reasonable decision and continue without asking.''))\<rparr>"

definition auto_mode_approve :: Policy where
  "auto_mode_approve = \<lparr>policy_name = ''auto-mode-approve'', evaluate = (\<lambda>_ c.
     if approval c = Auto then Some Approve else None)\<rparr>"

definition yolo_mode_approve :: Policy where
  "yolo_mode_approve = \<lparr>policy_name = ''yolo-mode-approve'', evaluate = (\<lambda>_ c.
     if approval c = Yolo then Some Approve else None)\<rparr>"

definition implemented :: "Env \<Rightarrow> slots" where
  "implemented env = [(''auto-mode-ask-user-deny'', auto_mode_ask_user_deny),
     (''auto-mode-approve'', auto_mode_approve), (''yolo-mode-approve'', yolo_mode_approve)] @
     user_rule_policies @ self_contained_policies env"

definition build_policy_chain :: "Env \<Rightarrow> slots \<Rightarrow> Policy list" where
  "build_policy_chain env extra = List.map_filter (\<lambda>name.
     case map_of extra name of Some p \<Rightarrow> Some p | None \<Rightarrow> map_of (implemented env) name) POLICY_ORDER"

text \<open>The chain of a gate: the supplied slots, with the history slot added where it is missing.\<close>

definition gate_policies :: "Env \<Rightarrow> slots \<Rightarrow> Policy list" where
  "gate_policies env supplied = build_policy_chain env
    (if list_ex (\<lambda>(name, _). name = ''session-approval-history'') supplied then supplied
     else supplied @ [(''session-approval-history'', session_approval_history env)])"

subsection \<open>A chain that always decides\<close>

text \<open>
  The contract callers rely on: some policy of the chain never abstains, so the chain never leaves a
  call unresolved.
\<close>

locale closed_chain =
  fixes chain :: "Policy list"
  assumes closed: "\<exists>p \<in> set chain. \<forall>remembered c. evaluate p remembered c \<noteq> None"
begin

lemma decides: "\<exists>e. evaluate_policies chain remembered c = Some e"
  using closed
proof (induction chain)
  case (Cons p ps)
  show ?case
  proof (cases "evaluate p remembered c")
    case None
    obtain q where q: "q \<in> set (p # ps)" "\<forall>remembered c. evaluate q remembered c \<noteq> None"
      using Cons.prems by blast
    with None have "q \<noteq> p" by blast
    with q have "\<exists>q \<in> set ps. \<forall>remembered c. evaluate q remembered c \<noteq> None"
      by auto
    with Cons.IH None show ?thesis by simp
  qed simp
qed simp

lemma allowed_iff:
  "allowed (resolve_without_dialog (evaluate_policies chain remembered c)) \<longleftrightarrow>
    (\<exists>name. evaluate_policies chain remembered c = Some \<lparr>eval_policy_name = name, decision = Approve\<rparr>)"
proof -
  obtain e where e: "evaluate_policies chain remembered c = Some e"
    using decides by blast
  obtain n d where "e = \<lparr>eval_policy_name = n, decision = d\<rparr>"
    by (cases e)
  with e show ?thesis
    by (cases d) (auto simp: resolve_without_dialog_def)
qed

end

lemma gate_policies_Nil:
  "gate_policies env [] = [auto_mode_ask_user_deny, user_configured_deny, yolo_mode_approve, destructive_command_ask env,
     session_approval_history env, user_configured_ask, user_configured_allow, sensitive_file_access_ask env,
     git_control_path_access_ask env, undo_approve, auto_mode_approve, default_tool_approve,
     git_cwd_write_approve env, fallback_ask]"
  by (simp add: gate_policies_def build_policy_chain_def implemented_def user_rule_policies_def
      self_contained_policies_def POLICY_ORDER_def)

interpretation gate: closed_chain "gate_policies env []" for env
  by unfold_locales (simp add: gate_policies_Nil fallback_ask_def)

lemmas policy_defs = auto_mode_ask_user_deny_def user_configured_deny_def yolo_mode_approve_def
  destructive_command_ask_def session_approval_history_def user_configured_ask_def user_configured_allow_def
  sensitive_file_access_ask_def git_control_path_access_ask_def undo_approve_def auto_mode_approve_def
  default_tool_approve_def git_cwd_write_approve_def fallback_ask_def

text \<open>The decision of the shipped chain.\<close>

definition gate_decision :: "Env \<Rightarrow> string set \<Rightarrow> PermissionContext \<Rightarrow> PermissionDecision" where
  "gate_decision env remembered c =
    (case evaluate_policies (gate_policies env []) remembered c of Some e \<Rightarrow> decision e | None \<Rightarrow> Deny UNDECIDED)"

lemma evaluate_destructive_cases:
  "evaluate_destructive env c = (if is_destructive_call env c
     then Some (Ask (Some ''This command cannot be undone, so it is confirmed even in modes that approve automatically.''))
     else None)"
  by (auto simp: is_destructive_call_def evaluate_destructive_def split: option.split)

text \<open>On an irreversible command the decision does not depend on what is remembered.\<close>

lemma gate_decision_destructive:
  "is_destructive_call env c \<Longrightarrow> gate_decision env remembered c = gate_decision env remembered' c"
  by (auto simp: gate_decision_def gate_policies_Nil policy_defs evaluate_destructive_cases split: option.split HookVerdict.split)

subsection \<open>Properties\<close>

text \<open>
  Nothing runs unattended by accident. In a supervised (manual) session the chain approves a
  call without asking only for one of these reasons: a hook of the user allows it, the user allowed
  this very call for the session (and it is not destructive), or it touches no sensitive file and no
  git control path and is an undo, a read-only tool, or aimed inside the working directory.
\<close>

theorem manual_approval_reasons:
  assumes "approval c = Manual" and "gate_decision env remembered c = Approve"
  shows "(\<exists>r. hook_verdict c = Some (AllowV r)) \<or>
    (approval_key_for c \<in> remembered \<and> \<not> is_destructive_call env c) \<or>
    (\<not> is_sensitive env c \<and> \<not> is_git_control env c \<and>
      (pc_tool_name c = ''undo'' \<or> pc_tool_name c \<in> set READ_ONLY_TOOLS \<or> targets_cwd env c))"
  using assms
  by (auto simp: gate_decision_def gate_policies_Nil policy_defs evaluate_destructive_cases
      split: if_splits option.splits HookVerdict.splits)

definition example_env :: Env where
  "example_env = \<lparr>is_match = (\<lambda>p t. p = hd DESTRUCTIVE_COMMAND_PATTERNS \<and> starts_with t ''rm -rf ''),
     resolve_read_path = (\<lambda>p c. c @ ''/'' @ p), resolve_to_cwd = (\<lambda>p c. c @ ''/'' @ p),
     node_resolve = (\<lambda>ps. hd ps), node_relative = (\<lambda>parent child. drop (length parent + 1) child),
     is_absolute_path = (\<lambda>p. starts_with p ''/''), main_separator = CHR ''/''\<rparr>"

definition example_context :: "string \<Rightarrow> json_map \<Rightarrow> ApprovalLevel \<Rightarrow> PermissionContext" where
  "example_context tool m level = \<lparr>pc_tool_call_id = ''1'', pc_tool_name = tool, pc_input = m, pc_mode_id = None,
     pc_shell = None, approval = level, cwd = ''/w'', requester = None, hook_verdict = None\<rparr>"

lemmas example_eval = gate_decision_def gate_policies_Nil policy_defs evaluate_destructive_def is_destructive_call_def
  command_text_def first_text_def COMMAND_ARGUMENTS_def PATH_ARGUMENTS_def json_get_def is_sensitive_def
  is_git_control_def targets_cwd_def absolute_target_def target_path_def approval_key_for_def approval_key_def
  is_inside_def example_env_def example_context_def QUESTION_TOOLS_def READ_ONLY_TOOLS_def SENSITIVE_PATTERNS_def
  DESTRUCTIVE_COMMAND_PATTERNS_def GIT_CONTROL_PATH_def to_posix_def trim_def is_whitespace_def utf8_cont_def
  starts_with_def regex_def

theorem manual_approval_reasons_witness:
  "(\<exists>r. hook_verdict (example_context ''write'' [(''path'', JString ''a'')] Manual) = Some (AllowV r)) \<or>
    (approval_key_for (example_context ''write'' [(''path'', JString ''a'')] Manual) \<in> {} \<and>
      \<not> is_destructive_call example_env (example_context ''write'' [(''path'', JString ''a'')] Manual)) \<or>
    (\<not> is_sensitive example_env (example_context ''write'' [(''path'', JString ''a'')] Manual) \<and>
      \<not> is_git_control example_env (example_context ''write'' [(''path'', JString ''a'')] Manual) \<and>
      (pc_tool_name (example_context ''write'' [(''path'', JString ''a'')] Manual) = ''undo'' \<or>
       pc_tool_name (example_context ''write'' [(''path'', JString ''a'')] Manual) \<in> set READ_ONLY_TOOLS \<or>
       targets_cwd example_env (example_context ''write'' [(''path'', JString ''a'')] Manual)))"
  by (rule manual_approval_reasons) (simp_all add: example_eval)



text \<open>
  Yolo never waits for anyone: in yolo mode the chain never asks; it approves every call except
  a question to the user and what a hook of the user denies.
\<close>

theorem yolo_never_asks:
  assumes "approval c = Yolo"
  shows "gate_decision env remembered c = Approve \<or>
    ((\<exists>r. gate_decision env remembered c = Deny r) \<and>
      (pc_tool_name c \<in> set QUESTION_TOOLS \<or> (\<exists>r. hook_verdict c = Some (DenyV r))))"
  using assms
  by (auto simp: gate_decision_def gate_policies_Nil policy_defs evaluate_destructive_cases split: option.split HookVerdict.split)

theorem yolo_never_asks_witness:
  "gate_decision example_env {} (example_context ''ask_user_question'' [] Yolo) = Approve \<or>
    ((\<exists>r. gate_decision example_env {} (example_context ''ask_user_question'' [] Yolo) = Deny r) \<and>
      (pc_tool_name (example_context ''ask_user_question'' [] Yolo) \<in> set QUESTION_TOOLS \<or>
       (\<exists>r. hook_verdict (example_context ''ask_user_question'' [] Yolo) = Some (DenyV r))))"
  by (rule yolo_never_asks) (simp add: example_context_def)

text \<open>
  Autonomy stops at secrets: in auto mode a call on a sensitive file or a git control path is
  approved only if a hook of the user allows it or the user allowed this very call before.
\<close>

theorem auto_stops_at_secrets:
  assumes "approval c = Auto" and "is_sensitive env c \<or> is_git_control env c"
    and "gate_decision env remembered c = Approve"
  shows "(\<exists>r. hook_verdict c = Some (AllowV r)) \<or> approval_key_for c \<in> remembered"
  using assms
  by (auto simp: gate_decision_def gate_policies_Nil policy_defs evaluate_destructive_cases
      split: if_splits option.splits HookVerdict.splits)

theorem auto_stops_at_secrets_witness:
  "(\<exists>r. hook_verdict (example_context ''write'' [(''path'', JString ''.env'')] Auto) = Some (AllowV r)) \<or>
    approval_key_for (example_context ''write'' [(''path'', JString ''.env'')] Auto) \<in> {''write:.env''}"
proof (rule auto_stops_at_secrets[where env = "example_env\<lparr>is_match := (\<lambda>p t. p = hd SENSITIVE_PATTERNS)\<rparr>"])
  let ?c = "example_context ''write'' [(''path'', JString ''.env'')] Auto"
  let ?env = "example_env\<lparr>is_match := (\<lambda>p t. p = hd SENSITIVE_PATTERNS)\<rparr>"
  show "approval ?c = Auto"
    by (simp add: example_context_def)
  show "is_sensitive ?env ?c \<or> is_git_control ?env ?c"
    by (simp add: example_eval)
  show "gate_decision ?env {''write:.env''} ?c = Approve"
    by (simp add: example_eval)
qed

text \<open>
  C9: with the shipped chain no call is left unresolved, and a runtime without a dialog lets a call
  through exactly when some policy approved it: a question it cannot ask is a refusal.
\<close>

theorem gate_decides_and_fails_closed:
  "(\<exists>e. evaluate_policies (gate_policies env []) remembered c = Some e) \<and>
   (allowed (resolve_without_dialog (evaluate_policies (gate_policies env []) remembered c)) \<longleftrightarrow>
     gate_decision env remembered c = Approve)"
proof -
  obtain e where e: "evaluate_policies (gate_policies env []) remembered c = Some e"
    using gate.decides by blast
  obtain n d where "e = \<lparr>eval_policy_name = n, decision = d\<rparr>"
    by (cases e)
  with e gate.allowed_iff[of env remembered c] show ?thesis
    by (auto simp: gate_decision_def)
qed

end
