(* ===== verification/Approval.thy ===== *)
theory Approval
  imports Permission
begin

text \<open>
  Asking the user (\<open>crates/notagent/src/core/permissions/request.rs\<close>, \<open>coordinator.rs\<close>, \<open>hook.rs\<close>,
  \<open>gate.rs\<close>): the request a prompt shows, the coordinator that queues prompts and remembers
  session-wide answers, the handler that turns a decision into a block, and the gate in front of
  every tool call.

  What a call meets while it is asked about is \<open>Moment\<close>: whether its own signal had fired when it
  arrived, whether it was interrupted while it waited in the queue, and what the prompt settled with
  (\<open>None\<close>: the session was aborted or the signal fired first).
\<close>

subsection \<open>Requests\<close>

datatype ApprovalAnswer = ApproveOnce | ApproveAlways | DenyAnswer

fun answer_as_str :: "ApprovalAnswer \<Rightarrow> string" where
  "answer_as_str ApproveOnce = ''approve-once''"
| "answer_as_str ApproveAlways = ''approve-always''"
| "answer_as_str DenyAnswer = ''deny''"

record ApprovalRequest =
  ar_tool_call_id :: string
  ar_tool_name :: string
  target :: "string option"
  ar_policy_name :: string
  ar_reason :: "string option"
  ar_mode_id :: "string option"
  ar_requester :: "Requester option"

text \<open>Runs of white space become one blank (the pattern of white-space runs, replaced throughout).\<close>

fun collapse_ws :: "string list \<Rightarrow> bool \<Rightarrow> string" where
  "collapse_ws [] in_run = []"
| "collapse_ws (ch # chs) in_run =
    (if is_whitespace ch then (if in_run then collapse_ws chs True else '' '' @ collapse_ws chs True)
     else ch @ collapse_ws chs False)"

definition describe_target :: "Env \<Rightarrow> PermissionContext \<Rightarrow> string option" where
  "describe_target env c =
    (case find (\<lambda>v. trim v \<noteq> []) (List.map_filter (\<lambda>k. Option.bind (json_get (pc_input c) k) as_str) PATH_ARGUMENTS) of
       Some value \<Rightarrow>
         let absolute = node_resolve env [cwd c, value];
             relative = node_relative env (node_resolve env [cwd c]) absolute
         in Some (if relative \<noteq> [] \<and> \<not> starts_with relative ''..'' then relative else absolute)
     | None \<Rightarrow>
         (case Option.bind (json_get (pc_input c) ''command'') as_str of
            None \<Rightarrow> None
          | Some command \<Rightarrow>
              if trim command = [] then None
              else
                let single = trim (collapse_ws (chars command) False); chs = chars single in
                Some (if utf16_units chs > 60 then utf16_prefix 60 chs @ ellipsis else single)))"

definition build_approval_request :: "Env \<Rightarrow> PermissionContext \<Rightarrow> PermissionEvaluation \<Rightarrow> ApprovalRequest option" where
  "build_approval_request env c e = (case decision e of
     Ask reason \<Rightarrow> Some \<lparr>ar_tool_call_id = pc_tool_call_id c, ar_tool_name = pc_tool_name c,
       target = describe_target env c, ar_policy_name = eval_policy_name e, ar_reason = reason,
       ar_mode_id = pc_mode_id c, ar_requester = requester c\<rparr>
   | _ \<Rightarrow> None)"

definition format_request_summary :: "ApprovalRequest \<Rightarrow> string" where
  "format_request_summary r = (case target r of Some t \<Rightarrow> ar_tool_name r @ '' '' @ t | None \<Rightarrow> ar_tool_name r)"

definition format_request_explanation :: "ApprovalRequest \<Rightarrow> string" where
  "format_request_explanation r = (case ar_reason r of
     Some reason \<Rightarrow> reason @ '' ('' @ ar_policy_name r @ '')'' | None \<Rightarrow> ''Asked by '' @ ar_policy_name r @ ''.'')"

definition answer_allows :: "ApprovalAnswer \<Rightarrow> bool" where
  "answer_allows a \<longleftrightarrow> a = ApproveOnce \<or> a = ApproveAlways"

definition answer_persists :: "ApprovalAnswer \<Rightarrow> bool" where
  "answer_persists a \<longleftrightarrow> a = ApproveAlways"

subsection \<open>The coordinator\<close>

record CoordinatorState =
  aborted :: bool
  remembered :: "string set"

definition coordinator_new :: CoordinatorState where
  "coordinator_new = \<lparr>aborted = False, remembered = {}\<rparr>"

definition is_remembered :: "CoordinatorState \<Rightarrow> string \<Rightarrow> bool" where
  "is_remembered st key \<longleftrightarrow> key \<in> remembered st"

record Moment =
  signalled :: bool
  interrupted_in_queue :: bool
  presented :: "ApprovalAnswer option"

text \<open>The answer, whether a prompt was shown, and the coordinator afterwards.\<close>

definition request :: "CoordinatorState \<Rightarrow> string \<Rightarrow> Moment \<Rightarrow> ApprovalAnswer \<times> bool \<times> CoordinatorState" where
  "request st key m =
    (if aborted st \<or> signalled m then (DenyAnswer, False, st)
     else if is_remembered st key then (ApproveAlways, False, st)
     else if interrupted_in_queue m then (DenyAnswer, False, st)
     else
       let answer = (case presented m of Some a \<Rightarrow> a | None \<Rightarrow> DenyAnswer) in
       (answer, True,
        if answer_persists answer \<and> answer_allows answer then st\<lparr>remembered := insert key (remembered st)\<rparr> else st))"

definition coordinator_abort :: "CoordinatorState \<Rightarrow> CoordinatorState" where
  "coordinator_abort st = st\<lparr>aborted := True\<rparr>"

definition coordinator_reset :: "CoordinatorState \<Rightarrow> CoordinatorState" where
  "coordinator_reset st = \<lparr>aborted = False, remembered = {}\<rparr>"

subsection \<open>The handler and the gate\<close>

record PermissionHookResult =
  hook_block :: bool
  hook_reason :: "string option"

record PermissionSessionState =
  ss_mode_id :: "string option"
  ss_shell :: "ShellId option"
  ss_approval :: ApprovalLevel
  ss_cwd :: string

record PermissionCall =
  call_tool_call_id :: string
  call_tool_name :: string
  call_input :: json_map

definition call_context ::
    "PermissionSessionState \<Rightarrow> Requester option \<Rightarrow> HookVerdict option \<Rightarrow> PermissionCall \<Rightarrow> PermissionContext" where
  "call_context session who verdict call =
    \<lparr>pc_tool_call_id = call_tool_call_id call, pc_tool_name = call_tool_name call, pc_input = call_input call,
     pc_mode_id = ss_mode_id session, pc_shell = ss_shell session, approval = ss_approval session,
     cwd = ss_cwd session, requester = who, hook_verdict = verdict\<rparr>"

text \<open>
  \<open>PermissionHandler::call\<close> on the context it builds: the block (if any), whether the user was
  prompted, and the coordinator. \<open>cancelled\<close> is the call's signal when the answer is in.
\<close>

definition handler_call ::
    "Env \<Rightarrow> Policy list \<Rightarrow> PermissionContext \<Rightarrow> Moment \<Rightarrow> bool \<Rightarrow> CoordinatorState \<Rightarrow>
      PermissionHookResult option \<times> bool \<times> CoordinatorState" where
  "handler_call env policies c m cancelled st =
    (case evaluate_policies policies (remembered st) c of
       None \<Rightarrow> (Some \<lparr>hook_block = True, hook_reason = Some UNDECIDED\<rparr>, False, st)
     | Some e \<Rightarrow>
         let name = eval_policy_name e in
         (case decision e of
            Approve \<Rightarrow> (None, False, st)
          | Deny reason \<Rightarrow> (Some \<lparr>hook_block = True, hook_reason = Some (reason @ '' ('' @ name @ '')'')\<rparr>, False, st)
          | Ask _ \<Rightarrow>
              (case build_approval_request env c e of
                 None \<Rightarrow> (Some \<lparr>hook_block = True,
                   hook_reason = Some (''Could not present an approval request ('' @ name @ '').'')\<rparr>, False, st)
               | Some _ \<Rightarrow>
                   let (answer, prompted, st') = request st (approval_key_for c) m in
                   (if answer_allows answer then None
                    else if cancelled then Some \<lparr>hook_block = True,
                      hook_reason = Some ''The turn was interrupted before this was answered.''\<rparr>
                    else Some \<lparr>hook_block = True, hook_reason = Some (''Denied by the user ('' @ name @ '').'')\<rparr>,
                    prompted, st'))))"

record PermissionBlock =
  block_reason :: "string option"
  block_terminate :: bool

definition before_tool_call ::
    "Env \<Rightarrow> slots \<Rightarrow> PermissionContext \<Rightarrow> Moment \<Rightarrow> bool \<Rightarrow> CoordinatorState \<Rightarrow>
      PermissionBlock option \<times> bool \<times> CoordinatorState" where
  "before_tool_call env supplied c m cancelled st =
    (let (result, prompted, st') = handler_call env (gate_policies env supplied) c m cancelled st in
     (case result of
        None \<Rightarrow> None
      | Some r \<Rightarrow> if \<not> hook_block r then None else Some \<lparr>block_reason = hook_reason r, block_terminate = True\<rparr>,
      prompted, st'))"

definition session_start :: "CoordinatorState \<Rightarrow> CoordinatorState" where
  "session_start st = coordinator_reset st"

definition session_shutdown :: "CoordinatorState \<Rightarrow> CoordinatorState" where
  "session_shutdown st = coordinator_abort st"

subsection \<open>Lemmas\<close>

lemma request_remembered:
  "remembered (snd (snd (request st key m))) = remembered st \<or>
    (remembered (snd (snd (request st key m))) = insert key (remembered st) \<and>
     fst (snd (request st key m)) \<and> presented m = Some ApproveAlways)"
  by (auto simp: request_def Let_def answer_persists_def split: option.splits)

lemma request_aborted: "aborted (snd (snd (request st key m))) = aborted st"
  by (simp add: request_def Let_def)

lemma request_allows:
  "answer_allows (fst (request st key m)) \<Longrightarrow>
    \<not> aborted st \<and> \<not> signalled m \<and>
    (key \<in> remembered st \<or> (fst (snd (request st key m)) \<and> (\<exists>a. presented m = Some a \<and> answer_allows a)))"
  by (auto simp: request_def Let_def answer_allows_def is_remembered_def split: if_splits option.splits)

text \<open>What the gate lets through: its decision on the shipped chain, and the coordinator's answer.\<close>

lemma before_tool_call_cases:
  "before_tool_call env [] c m cancelled st =
    (let d = gate_decision env (remembered st) c; (answer, prompted, st') = request st (approval_key_for c) m in
     case d of
       Approve \<Rightarrow> (None, False, st)
     | Deny r \<Rightarrow> (Some \<lparr>block_reason = Some (r @ '' ('' @
         (case evaluate_policies (gate_policies env []) (remembered st) c of Some e \<Rightarrow> eval_policy_name e | None \<Rightarrow> []) @ '')''),
         block_terminate = True\<rparr>, False, st)
     | Ask r \<Rightarrow>
         (if answer_allows answer then None
          else if cancelled then Some \<lparr>block_reason = Some ''The turn was interrupted before this was answered.'', block_terminate = True\<rparr>
          else Some \<lparr>block_reason = Some (''Denied by the user ('' @
            (case evaluate_policies (gate_policies env []) (remembered st) c of Some e \<Rightarrow> eval_policy_name e | None \<Rightarrow> []) @ '').''),
            block_terminate = True\<rparr>, prompted, st'))"
proof -
  obtain e where e: "evaluate_policies (gate_policies env []) (remembered st) c = Some e"
    using gate.decides by blast
  obtain n d where "e = \<lparr>eval_policy_name = n, decision = d\<rparr>" by (cases e)
  with e show ?thesis
    by (cases d) (auto simp: before_tool_call_def handler_call_def gate_decision_def build_approval_request_def Let_def
        case_prod_unfold)
qed

subsection \<open>Sessions\<close>

text \<open>
  The states a gate can reach, with the keys the user allowed for the session at a prompt since the
  session started.
\<close>

inductive session :: "Env \<Rightarrow> string set \<Rightarrow> CoordinatorState \<Rightarrow> bool" for env where
  new: "session env {} coordinator_new"
| call: "session env granted st \<Longrightarrow> before_tool_call env [] c m cancelled st = (r, prompted, st') \<Longrightarrow>
    session env (if prompted \<and> presented m = Some ApproveAlways then insert (approval_key_for c) granted else granted) st'"
| start: "session env granted st \<Longrightarrow> session env {} (session_start st)"
| shutdown: "session env granted st \<Longrightarrow> session env granted (session_shutdown st)"

lemma before_tool_call_state:
  assumes "before_tool_call env [] c m cancelled st = (r, prompted, st')"
  shows "(\<not> prompted \<and> st' = st) \<or> (prompted \<and> st' = snd (snd (request st (approval_key_for c) m)) \<and>
    fst (snd (request st (approval_key_for c) m)))"
  using assms unfolding before_tool_call_cases
  by (cases "gate_decision env (remembered st) c")
    (auto simp: Let_def case_prod_unfold request_def split: if_splits)

lemma session_granted: "session env granted st \<Longrightarrow> remembered st = granted"
proof (induction rule: session.induct)
  case (call granted st c m cancelled r prompted st')
  from before_tool_call_state[OF call.hyps(2)] call.IH show ?case
    by (auto simp: request_def Let_def answer_persists_def answer_allows_def split: if_splits option.splits)
qed (simp_all add: coordinator_new_def session_start_def coordinator_reset_def session_shutdown_def coordinator_abort_def)

inductive_cases session_callE: "session env granted st"

subsection \<open>Properties\<close>

text \<open>
  C10: the gate lets a call through only with permission: either the policy chain approves it, or the
  chain asks, the session is not aborted, and the user allowed the call, now at the prompt or earlier
  for the session.
\<close>

theorem gate_requires_permission:
  assumes "before_tool_call env [] c m cancelled st = (None, prompted, st')"
  shows "gate_decision env (remembered st) c = Approve \<or>
    (\<exists>r. gate_decision env (remembered st) c = Ask r) \<and> \<not> aborted st \<and>
      (approval_key_for c \<in> remembered st \<or> (\<exists>a. presented m = Some a \<and> answer_allows a))"
  using assms request_allows[of st "approval_key_for c" m] unfolding before_tool_call_cases
  by (cases "gate_decision env (remembered st) c") (auto simp: Let_def case_prod_unfold split: if_splits)

definition asked :: "ApprovalAnswer \<Rightarrow> Moment" where
  "asked a = \<lparr>signalled = False, interrupted_in_queue = False, presented = Some a\<rparr>"

definition rm_call :: PermissionContext where
  "rm_call = example_context ''bash'' [(''command'', JString ''rm -rf x'')] Auto"

lemmas gate_eval = before_tool_call_cases request_def asked_def rm_call_def answer_allows_def answer_persists_def
  is_remembered_def coordinator_new_def Let_def

theorem gate_requires_permission_witness:
  "gate_decision example_env {} rm_call = Approve \<or>
    (\<exists>r. gate_decision example_env {} rm_call = Ask r) \<and> \<not> aborted coordinator_new \<and>
      (approval_key_for rm_call \<in> {} \<or> (\<exists>a. presented (asked ApproveOnce) = Some a \<and> answer_allows a))"
  using gate_requires_permission[of example_env rm_call "asked ApproveOnce" False coordinator_new True coordinator_new]
  by (simp add: gate_eval example_eval)



text \<open>
  An irreversible command is remembered after all. The source says a destructive command is never
  remembered for the session; but once the user answers its prompt with \<open>Allow for this session\<close>, the
  coordinator stores the key, and the next identical call goes through without any prompt.
\<close>

theorem destructive_answer_is_remembered:
  assumes "is_destructive_call env c" and "gate_decision env (remembered st) c = Ask r"
    and "\<not> aborted st" and "approval_key_for c \<notin> remembered st"
    and "before_tool_call env [] c (asked ApproveAlways) b st = (res, prompted, st')"
  shows "prompted \<and> (\<forall>m b'. \<not> signalled m \<longrightarrow> before_tool_call env [] c m b' st' = (None, False, st'))"
proof -
  have ask: "gate_decision env (remembered st') c = Ask r"
    using assms(1,2) gate_decision_destructive by metis
  have "prompted" and st': "st' = st\<lparr>remembered := insert (approval_key_for c) (remembered st)\<rparr>"
    using assms(2-5) unfolding before_tool_call_cases
    by (auto simp: request_def asked_def Let_def is_remembered_def answer_persists_def answer_allows_def)
  moreover have "before_tool_call env [] c m b' st' = (None, False, st')"
    if "\<not> signalled m" for m b'
    using that assms(3) st' ask unfolding before_tool_call_cases
    by (simp add: request_def is_remembered_def answer_allows_def)
  ultimately show ?thesis by blast
qed

theorem destructive_answer_is_remembered_witness:
  "\<exists>st'. before_tool_call example_env [] rm_call (asked ApproveAlways) False coordinator_new = (None, True, st') \<and>
    before_tool_call example_env [] rm_call (asked DenyAnswer) False st' = (None, False, st')"
proof -
  let ?st = "coordinator_new\<lparr>remembered := {''bash:rm -rf x''}\<rparr>"
  have first: "before_tool_call example_env [] rm_call (asked ApproveAlways) False coordinator_new = (None, True, ?st)"
    by (simp add: gate_eval example_eval)
  have "True \<and> (\<forall>m b'. \<not> signalled m \<longrightarrow> before_tool_call example_env [] rm_call m b' ?st = (None, False, ?st))"
    by (rule destructive_answer_is_remembered[OF _ _ _ _ first])
      (simp_all add: rm_call_def coordinator_new_def example_eval)
  then show ?thesis
    using first by (auto simp: asked_def)
qed

text \<open>
  Teardown denies. After \<open>session_shutdown\<close> every call the chain would ask about is blocked, no
  prompt is shown, and nothing is remembered, whatever a dialog still on screen would answer.
\<close>

theorem shutdown_denies:
  assumes "gate_decision env (remembered st) c = Ask r"
  shows "\<exists>b. before_tool_call env [] c m cancelled (session_shutdown st) = (Some b, False, session_shutdown st)"
  using assms unfolding before_tool_call_cases
  by (simp add: request_def session_shutdown_def coordinator_abort_def answer_allows_def)

theorem shutdown_denies_witness:
  "\<exists>b. before_tool_call example_env [] rm_call (asked ApproveOnce) False (session_shutdown coordinator_new) =
    (Some b, False, session_shutdown coordinator_new)"
  by (rule shutdown_denies[where r = "Some ''This command cannot be undone, so it is confirmed even in modes that approve automatically.''"])
    (simp add: rm_call_def coordinator_new_def example_eval)

end
