(* ===== verification/File_Lease.thy ===== *)
theory File_Lease
  imports Prelude "HOL-Library.List_Lexorder" "HOL-Library.Char_ord"
begin

text \<open>
  Atomic file leases (\<open>crates/notagent/src/core/tools/file_lease.rs\<close>): the lease a mutating tool
  takes on the file it is going to write, the store that keeps one lease per path in a directory
  shared by all processes, and the coordinator's two-phase protocol (reserve, re-validate, write,
  release).

  The lease directory is \<open>LeaseDir\<close>: the JSON files by name, and the lock files next to them. Every
  operation of the store runs under the operating system's lock of its lease, so it is one atomic
  step on the directory; what other processes do between two operations is an explicit argument.
  Outside the repository, and therefore parameters: \<open>serde_json\<close> and \<open>sha2\<close> (\<open>LeaseEnv\<close>), the
  operating system's answer to \<open>kill(pid, 0)\<close>, the faults of the file system (\<open>Io\<close>, one optional
  error text per call that can fail), the clock and the UUIDs (arguments).
\<close>

subsection \<open>Paths\<close>

text \<open>What the code uses of \<open>std::path\<close> on Unix: components, their order, and the extension.\<close>

datatype Component = RootDir | CurDir | ParentDir | Normal string

definition segment :: "string \<Rightarrow> Component option" where
  "segment s = (if s = [] \<or> s = ''.'' then None else if s = ''..'' then Some ParentDir else Some (Normal s))"

definition path_components :: "string \<Rightarrow> Component list" where
  "path_components p =
    (let segments = split_on CHR ''/'' p
     in (if starts_with p ''/'' then [RootDir] else if hd segments = ''.'' then [CurDir] else [])
        @ List.map_filter segment segments)"

fun component_key :: "Component \<Rightarrow> nat \<times> string" where
  "component_key RootDir = (0, [])"
| "component_key CurDir = (1, [])"
| "component_key ParentDir = (2, [])"
| "component_key (Normal s) = (3, s)"

instantiation Component :: linorder
begin

definition less_eq_Component :: "Component \<Rightarrow> Component \<Rightarrow> bool" where
  "less_eq_Component a b \<longleftrightarrow> fst (component_key a) < fst (component_key b) \<or>
     fst (component_key a) = fst (component_key b) \<and> snd (component_key a) \<le> snd (component_key b)"

definition less_Component :: "Component \<Rightarrow> Component \<Rightarrow> bool" where
  "less_Component a b \<longleftrightarrow> a \<le> b \<and> \<not> b \<le> (a :: Component)"

instance
proof
  fix a b c :: Component
  show "a < b \<longleftrightarrow> a \<le> b \<and> \<not> b \<le> a" by (rule less_Component_def)
  show "a \<le> a" by (simp add: less_eq_Component_def)
  show "a \<le> c" if "a \<le> b" and "b \<le> c" using that by (auto simp: less_eq_Component_def)
  show "a = b" if "a \<le> b" and "b \<le> a"
    using that by (cases a; cases b) (auto simp: less_eq_Component_def)
  show "a \<le> b \<or> b \<le> a" by (auto simp: less_eq_Component_def)
qed

end

definition path_starts_with :: "string \<Rightarrow> string \<Rightarrow> bool" where
  "path_starts_with p base =
    (take (length (path_components base)) (path_components p) = path_components base)"

text \<open>\<open>Path::extension\<close> of a file name: what follows its last dot, unless that dot starts the name.\<close>

definition extension :: "string \<Rightarrow> string option" where
  "extension name =
    (let rev_ext = takeWhile (\<lambda>c. c \<noteq> CHR ''.'') (rev name)
     in if length name \<le> Suc (length rev_ext) then None else Some (rev rev_ext))"

definition with_extension :: "string \<Rightarrow> string \<Rightarrow> string" where
  "with_extension name ext =
    (case extension name of
       None \<Rightarrow> name @ ''.'' @ ext
     | Some old \<Rightarrow> take (length name - length old) name @ ext)"

subsection \<open>Leases\<close>

definition COMMIT_GRACE_MS :: u64 where "COMMIT_GRACE_MS = 5000"

datatype LeaseStatus = Working | Committing

record FileLease =
  lease_id :: string
  agent_id :: string
  file_path :: string
  lease_tool :: string
  base_hash :: "string option"
  acquired_at_ms :: u64
  expected_duration_ms :: u64
  lease_until_ms :: u64
  status :: LeaseStatus

definition lease_new :: "string \<Rightarrow> string \<Rightarrow> FileLease" where
  "lease_new lid path =
    \<lparr>lease_id = lid, agent_id = [], file_path = path, lease_tool = [], base_hash = None,
     acquired_at_ms = 0, expected_duration_ms = 0, lease_until_ms = 0, status = Working\<rparr>"

definition is_expired :: "FileLease \<Rightarrow> u64 \<Rightarrow> bool" where
  "is_expired l now \<longleftrightarrow> now \<ge> lease_until_ms l"

definition is_active :: "FileLease \<Rightarrow> u64 \<Rightarrow> bool" where
  "is_active l now \<longleftrightarrow> \<not> is_expired l now"

text \<open>\<open>str::parse::<u32>\<close>: an optional plus sign, then at least one decimal digit, in range.\<close>

definition parse_u32 :: "string \<Rightarrow> u32 option" where
  "parse_u32 s =
    (let ds = (if starts_with s ''+'' then tl s else s)
     in if ds \<noteq> [] \<and> list_all is_digit ds \<and> digits_value ds < 2 ^ 32
        then Some (word_of_nat (digits_value ds)) else None)"

definition holder_pid :: "FileLease \<Rightarrow> u32 option" where
  "holder_pid l = Option.bind (strip_prefix (agent_id l) ''pid:'') parse_u32"

definition remaining_secs :: "FileLease \<Rightarrow> u64 \<Rightarrow> u64" where
  "remaining_secs l now = (if lease_until_ms l \<le> now then 0 else lease_until_ms l - now) div 1000"

datatype LeaseError =
    AlreadyLeased string string u64
  | Expired string string
  | BaseHashMismatch string "string option" "string option"
  | NotOwner string string
  | CreateDirectory string
  | CreateFile string
  | ReadFile string
  | WriteFile string
  | ListDirectory string
  | Encode string
  | Decode string
  | StaleCleanupExhausted

fun lease_error_text :: "LeaseError \<Rightarrow> string" where
  "lease_error_text (AlreadyLeased path holder secs) =
    ''file is currently leased: '' @ path @ '' (held by '' @ holder @ '', free in ~''
    @ show_nat (unat secs) @ ''s '' @ em_dash @ '' retry shortly)''"
| "lease_error_text (Expired path _) = ''lease expired for file: '' @ path"
| "lease_error_text (BaseHashMismatch path _ _) = ''lease base hash mismatch for file: '' @ path"
| "lease_error_text (NotOwner path _) = ''lease is no longer owned by the current operation: '' @ path"
| "lease_error_text (CreateDirectory e) = ''Failed to create lease directory: '' @ e"
| "lease_error_text (CreateFile e) = ''Failed to create lease file: '' @ e"
| "lease_error_text (ReadFile e) = ''Failed to read lease file: '' @ e"
| "lease_error_text (WriteFile e) = ''Failed to write lease file: '' @ e"
| "lease_error_text (ListDirectory e) = ''Failed to list lease directory: '' @ e"
| "lease_error_text (Encode e) = ''Failed to encode lease: '' @ e"
| "lease_error_text (Decode e) = ''Failed to decode lease file: '' @ e"
| "lease_error_text StaleCleanupExhausted = ''Failed to acquire lease after stale cleanup retry''"

subsection \<open>The environment\<close>

datatype KillResult = Signalled | Errno int

record LeaseEnv =
  to_vec :: "FileLease \<Rightarrow> string + string"
  from_str :: "string \<Rightarrow> string + FileLease"
  sha256 :: "u8 list \<Rightarrow> u8 list"
  kill0 :: "u32 \<Rightarrow> KillResult"

record Io =
  io_join :: "string option"
  io_create_dir :: "string option"
  io_open :: "string option"
  io_lock :: "string option"
  io_read :: "string option"
  io_temp :: "string option"
  io_write :: "string option"
  io_persist :: "string option"
  io_remove :: "string option"

definition no_faults :: Io where
  "no_faults = \<lparr>io_join = None, io_create_dir = None, io_open = None, io_lock = None, io_read = None,
     io_temp = None, io_write = None, io_persist = None, io_remove = None\<rparr>"

definition hex_digit :: "nat \<Rightarrow> char" where
  "hex_digit n = (if n < 10 then char_of (48 + n) else char_of (87 + n))"

definition hex_encode :: "u8 list \<Rightarrow> string" where
  "hex_encode bs = concat (map (\<lambda>b. [hex_digit (unat b div 16), hex_digit (unat b mod 16)]) bs)"

definition compute_hash_bytes :: "LeaseEnv \<Rightarrow> u8 list \<Rightarrow> string" where
  "compute_hash_bytes env content = hex_encode (sha256 env content)"

definition compute_path_key :: "LeaseEnv \<Rightarrow> string \<Rightarrow> string" where
  "compute_path_key env path = hex_encode (sha256 env (as_bytes path))"

definition EPERM :: int where "EPERM = 1"

definition is_process_alive :: "LeaseEnv \<Rightarrow> u32 \<Rightarrow> bool" where
  "is_process_alive env pid =
    (if unat pid > 2147483647 then True
     else (case kill0 env pid of Signalled \<Rightarrow> True | Errno e \<Rightarrow> e = EPERM))"

definition is_blocking :: "LeaseEnv \<Rightarrow> FileLease \<Rightarrow> u64 \<Rightarrow> bool" where
  "is_blocking env l now =
    (if is_expired l now then False
     else (case holder_pid l of Some pid \<Rightarrow> is_process_alive env pid | None \<Rightarrow> True))"

subsection \<open>The store\<close>

record LeaseDir =
  dir_exists :: bool
  lease_files :: "string \<Rightarrow> string option"
  locks :: "string set"

definition lease_file_path :: "LeaseEnv \<Rightarrow> string \<Rightarrow> string" where
  "lease_file_path env path = compute_path_key env path @ ''.json''"

type_synonym 'a outcome = "(LeaseError + 'a) \<times> LeaseDir"

definition with_locked_file ::
  "Io \<Rightarrow> string \<Rightarrow> (LeaseDir \<Rightarrow> 'a outcome) \<Rightarrow> LeaseDir \<Rightarrow> 'a outcome" where
  "with_locked_file io name body d =
    (case io_join io of Some e \<Rightarrow> (Inl (WriteFile e), d)
     | None \<Rightarrow>
    (case io_create_dir io of Some e \<Rightarrow> (Inl (CreateDirectory e), d)
     | None \<Rightarrow>
       let d1 = d\<lparr>dir_exists := True\<rparr>
       in (case io_open io of Some e \<Rightarrow> (Inl (CreateFile e), d1)
           | None \<Rightarrow>
             let d2 = d1\<lparr>locks := insert (with_extension name ''lock'') (locks d1)\<rparr>
             in (case io_lock io of Some e \<Rightarrow> (Inl (CreateFile e), d2) | None \<Rightarrow> body d2))))"

definition read_lease :: "LeaseEnv \<Rightarrow> Io \<Rightarrow> string \<Rightarrow> LeaseDir \<Rightarrow> LeaseError + FileLease option" where
  "read_lease env io name d =
    (case io_read io of Some e \<Rightarrow> Inl (ReadFile e)
     | None \<Rightarrow>
       (case lease_files d name of
          None \<Rightarrow> Inr None
        | Some raw \<Rightarrow> map_err Decode (map_ok Some (from_str env raw))))"

definition write_lease :: "LeaseEnv \<Rightarrow> Io \<Rightarrow> string \<Rightarrow> FileLease \<Rightarrow> LeaseDir \<Rightarrow> unit outcome" where
  "write_lease env io name l d =
    (case to_vec env l of
       Inl e \<Rightarrow> (Inl (Encode e), d)
     | Inr content \<Rightarrow>
       (case io_temp io of Some e \<Rightarrow> (Inl (CreateFile e), d)
        | None \<Rightarrow>
          (case io_write io of Some e \<Rightarrow> (Inl (WriteFile e), d)
           | None \<Rightarrow>
             (case io_persist io of Some e \<Rightarrow> (Inl (WriteFile e), d)
              | None \<Rightarrow> (Inr (), d\<lparr>lease_files := (lease_files d)(name \<mapsto> content)\<rparr>)))))"

text \<open>\<open>std::fs::remove_file\<close>.\<close>

definition remove_lease :: "Io \<Rightarrow> string \<Rightarrow> LeaseDir \<Rightarrow> unit outcome" where
  "remove_lease io name d =
    (case io_remove io of Some e \<Rightarrow> (Inl (WriteFile e), d)
     | None \<Rightarrow> (Inr (), d\<lparr>lease_files := (lease_files d)(name := None)\<rparr>))"

definition then_do :: "'a outcome \<Rightarrow> ('a \<Rightarrow> LeaseDir \<Rightarrow> 'b outcome) \<Rightarrow> 'b outcome" where
  "then_do r f = (case r of (Inl e, d) \<Rightarrow> (Inl e, d) | (Inr x, d) \<Rightarrow> f x d)"

definition try_acquire :: "LeaseEnv \<Rightarrow> Io \<Rightarrow> FileLease \<Rightarrow> LeaseDir \<Rightarrow> FileLease outcome" where
  "try_acquire env io l =
    with_locked_file io (lease_file_path env (file_path l)) (\<lambda>d.
      let name = lease_file_path env (file_path l);
          acquire = then_do (write_lease env io name l d) (\<lambda>_ d'. (Inr l, d'))
      in (case read_lease env io name d of
            Inl e \<Rightarrow> (Inl e, d)
          | Inr None \<Rightarrow> acquire
          | Inr (Some current) \<Rightarrow>
              if is_blocking env current (acquired_at_ms l)
              then (Inl (AlreadyLeased (file_path l) (agent_id current)
                           (remaining_secs current (acquired_at_ms l))), d)
              else acquire))"

definition get_by_path :: "LeaseEnv \<Rightarrow> Io \<Rightarrow> string \<Rightarrow> LeaseDir \<Rightarrow> FileLease option outcome" where
  "get_by_path env io path =
    with_locked_file io (lease_file_path env path)
      (\<lambda>d. (read_lease env io (lease_file_path env path) d, d))"

definition update :: "LeaseEnv \<Rightarrow> Io \<Rightarrow> FileLease \<Rightarrow> LeaseDir \<Rightarrow> FileLease outcome" where
  "update env io l =
    with_locked_file io (lease_file_path env (file_path l)) (\<lambda>d.
      let name = lease_file_path env (file_path l)
      in (case read_lease env io name d of
            Inl e \<Rightarrow> (Inl e, d)
          | Inr current \<Rightarrow>
              if \<not> (case current of None \<Rightarrow> False | Some c \<Rightarrow> lease_id c = lease_id l)
              then (Inl (NotOwner (file_path l) (lease_id l)), d)
              else then_do (write_lease env io name l d) (\<lambda>_ d'. (Inr l, d'))))"

definition release :: "LeaseEnv \<Rightarrow> Io \<Rightarrow> string \<Rightarrow> string \<Rightarrow> LeaseDir \<Rightarrow> unit outcome" where
  "release env io path lid =
    with_locked_file io (lease_file_path env path) (\<lambda>d.
      let name = lease_file_path env path
      in (case read_lease env io name d of
            Inl e \<Rightarrow> (Inl e, d)
          | Inr None \<Rightarrow> (Inr (), d)
          | Inr (Some current) \<Rightarrow>
              if lease_id current \<noteq> lid then (Inl (NotOwner path lid), d)
              else remove_lease io name d))"

text \<open>
  One turn of \<open>list\<close>'s loop and the loop: the names come from \<open>read_dir\<close>, in its order, each with the
  clock and the faults met while it is looked at, or the error \<open>next_entry\<close> returned.
\<close>

definition check_entry :: "LeaseEnv \<Rightarrow> Io \<Rightarrow> u64 \<Rightarrow> string \<Rightarrow> LeaseDir \<Rightarrow> FileLease option outcome" where
  "check_entry env io now name =
    with_locked_file io name (\<lambda>d.
      (case read_lease env io name d of
         Inr (Some l) \<Rightarrow>
           if is_expired l now then then_do (remove_lease io name d) (\<lambda>_ d'. (Inr None, d'))
           else (Inr (Some l), d)
       | Inr None \<Rightarrow> (Inr None, d)
       | Inl (Decode _) \<Rightarrow> (Inr None, d)
       | Inl (ReadFile _) \<Rightarrow> (Inr None, d)
       | Inl e \<Rightarrow> (Inl e, d)))"

fun list_loop ::
  "LeaseEnv \<Rightarrow> string option \<Rightarrow> (string + string \<times> u64 \<times> Io) list \<Rightarrow> FileLease list \<Rightarrow> LeaseDir
   \<Rightarrow> FileLease list outcome" where
  "list_loop env path [] leases d = (Inr leases, d)"
| "list_loop env path (Inl e # entries) leases d = (Inl (ListDirectory e), d)"
| "list_loop env path (Inr (name, now, io) # entries) leases d =
    (if extension name \<noteq> Some ''json'' then list_loop env path entries leases d
     else then_do (check_entry env io now name d) (\<lambda>found d'.
       list_loop env path entries
         (case found of
            Some l \<Rightarrow> if (case path of None \<Rightarrow> True | Some base \<Rightarrow> path_starts_with (file_path l) base)
                       then leases @ [l] else leases
          | None \<Rightarrow> leases) d'))"

definition list_leases ::
  "LeaseEnv \<Rightarrow> string option \<Rightarrow> string option \<Rightarrow> (string + string \<times> u64 \<times> Io) list \<Rightarrow> LeaseDir
   \<Rightarrow> FileLease list outcome" where
  "list_leases env path read_dir_fault entries d =
    (if \<not> dir_exists d then (Inr [], d)
     else (case read_dir_fault of
             Some e \<Rightarrow> (Inl (ListDirectory e), d)
           | None \<Rightarrow> then_do (list_loop env path entries [] d)
               (\<lambda>leases d'. (Inr (sort_key (\<lambda>l. path_components (file_path l)) leases), d'))))"

subsection \<open>The coordinator\<close>

text \<open>\<open>enabled\<close>: no gate, or what the gate answers at the time of the call.\<close>

definition is_enabled :: "bool option \<Rightarrow> bool" where
  "is_enabled enabled = (enabled = Some True)"

text \<open>\<open>content\<close>: the bytes \<open>fs::read\<close> returns, \<open>None\<close> when it fails.\<close>

definition read_hash :: "LeaseEnv \<Rightarrow> u8 list option \<Rightarrow> string option" where
  "read_hash env content = map_option (compute_hash_bytes env) content"

definition reserve ::
  "LeaseEnv \<Rightarrow> Io \<Rightarrow> bool option \<Rightarrow> u64 \<Rightarrow> u8 list option \<Rightarrow> string \<Rightarrow> u32 \<Rightarrow> string \<Rightarrow> string \<Rightarrow> u64
   \<Rightarrow> LeaseDir \<Rightarrow> FileLease option outcome" where
  "reserve env io enabled now content uuid pid path tool duration d =
    (if \<not> is_enabled enabled then (Inr None, d)
     else then_do
       (try_acquire env io
         (lease_new uuid path
           \<lparr>agent_id := ''pid:'' @ show_nat (unat pid), lease_tool := tool,
            base_hash := read_hash env content, acquired_at_ms := now,
            expected_duration_ms := duration, lease_until_ms := now + duration,
            status := Working\<rparr>) d)
       (\<lambda>l d'. (Inr (Some l), d')))"

text \<open>
  \<open>interference\<close> is what other processes do to the directory between the look-up and the update,
  which take the lock one after the other.
\<close>

definition prepare_commit ::
  "LeaseEnv \<Rightarrow> Io \<Rightarrow> Io \<Rightarrow> u64 \<Rightarrow> u8 list option \<Rightarrow> (LeaseDir \<Rightarrow> LeaseDir) \<Rightarrow> FileLease \<Rightarrow> LeaseDir
   \<Rightarrow> FileLease outcome" where
  "prepare_commit env io_get io_update now content interference l d =
    (if is_expired l now then (Inl (Expired (file_path l) (lease_id l)), d)
     else then_do (get_by_path env io_get (file_path l) d) (\<lambda>found d1.
       (case found of
          None \<Rightarrow> (Inl (NotOwner (file_path l) (lease_id l)), d1)
        | Some current \<Rightarrow>
            if lease_id current \<noteq> lease_id l then (Inl (NotOwner (file_path l) (lease_id l)), d1)
            else
              let actual_hash = read_hash env content
              in if actual_hash \<noteq> base_hash l
                 then (Inl (BaseHashMismatch (file_path l) (base_hash l) actual_hash), d1)
                 else update env io_update
                        (l\<lparr>status := Committing, lease_until_ms := now + COMMIT_GRACE_MS\<rparr>)
                        (interference d1))))"

definition release_lease :: "LeaseEnv \<Rightarrow> Io \<Rightarrow> FileLease \<Rightarrow> LeaseDir \<Rightarrow> unit outcome" where
  "release_lease env io l = release env io (file_path l) (lease_id l)"

definition release_on_error ::
  "LeaseEnv \<Rightarrow> Io \<Rightarrow> FileLease option \<Rightarrow> 'e + 'a \<Rightarrow> LeaseDir \<Rightarrow> ('e + 'a) \<times> LeaseDir" where
  "release_on_error env io lease result d =
    (case lease of
       Some l \<Rightarrow> if is_ok result then (result, d) else (result, snd (release_lease env io l d))
     | None \<Rightarrow> (result, d))"


subsection \<open>What the operations do to the directory\<close>

text \<open>The lease a lease file holds, as far as it can be read.\<close>

definition lease_at :: "LeaseEnv \<Rightarrow> LeaseDir \<Rightarrow> string \<Rightarrow> FileLease option" where
  "lease_at env d name =
    (case lease_files d name of
       None \<Rightarrow> None
     | Some raw \<Rightarrow> (case from_str env raw of Inl _ \<Rightarrow> None | Inr l \<Rightarrow> Some l))"

definition holds :: "LeaseEnv \<Rightarrow> FileLease \<Rightarrow> LeaseDir \<Rightarrow> bool" where
  "holds env l d \<longleftrightarrow> lease_at env d (lease_file_path env (file_path l)) = Some l"

text \<open>\<open>serde_json\<close> reads back what it wrote.\<close>

definition survives_storage :: "LeaseEnv \<Rightarrow> FileLease \<Rightarrow> bool" where
  "survives_storage env l \<longleftrightarrow> (case to_vec env l of Inl _ \<Rightarrow> True | Inr raw \<Rightarrow> from_str env raw = Inr l)"

lemma with_locked_file_effect:
  assumes "with_locked_file io name body d = (r, d')"
  obtains (fault) e where "r = Inl e" and "lease_files d' = lease_files d"
  | (run) d2 where "lease_files d2 = lease_files d" and "body d2 = (r, d')"
proof -
  have "(\<exists>e. r = Inl e \<and> lease_files d' = lease_files d) \<or>
      (\<exists>d2. lease_files d2 = lease_files d \<and> body d2 = (r, d'))"
    using assms unfolding with_locked_file_def Let_def
    by (auto split: option.splits intro!: exI [of _ "d\<lparr>dir_exists := True, locks := insert (with_extension name ''lock'') (locks d)\<rparr>"])
  then show thesis using fault run by blast
qed

lemma with_locked_file_no_faults:
  "with_locked_file no_faults name body d =
     body (d\<lparr>dir_exists := True, locks := insert (with_extension name ''lock'') (locks d)\<rparr>)"
  by (simp add: with_locked_file_def no_faults_def Let_def)

lemma no_faults_remove [simp]: "io_remove no_faults = None"
  by (simp add: no_faults_def)

lemma read_lease_no_faults:
  "read_lease env no_faults name d =
     (case lease_files d name of None \<Rightarrow> Inr None
      | Some raw \<Rightarrow> map_err Decode (map_ok Some (from_str env raw)))"
  by (simp add: read_lease_def no_faults_def)

lemma read_lease_stored:
  "read_lease env no_faults name d = Inr (Some l) \<longleftrightarrow> lease_at env d name = Some l"
  by (auto simp: read_lease_no_faults lease_at_def map_ok_def split: option.splits sum.splits)

lemma read_lease_at:
  assumes "lease_at env d name = Some l"
  shows "read_lease env io name d = Inr (Some l) \<or> (\<exists>e. read_lease env io name d = Inl (ReadFile e))"
  using assms by (auto simp: read_lease_def lease_at_def map_ok_def split: option.splits sum.splits)

lemma read_lease_Inr:
  assumes "read_lease env io name d = Inr c"
  shows "lease_at env d name = c"
  using assms
  by (auto simp: read_lease_def lease_at_def map_ok_def map_err_def split: option.splits sum.splits)

lemma write_lease_effect:
  assumes "write_lease env io name l d = (r, d')"
  shows "(\<exists>e. r = Inl e \<and> d' = d) \<or>
         (\<exists>raw. to_vec env l = Inr raw \<and> r = Inr () \<and> d' = d\<lparr>lease_files := (lease_files d)(name \<mapsto> raw)\<rparr>)"
  using assms by (auto simp: write_lease_def split: option.splits sum.splits)

lemma lease_at_cong: "lease_files d = lease_files d' \<Longrightarrow> lease_at env d name = lease_at env d' name"
  by (simp add: lease_at_def)

lemma lease_at_other:
  "name \<noteq> name' \<Longrightarrow> lease_at env (d\<lparr>lease_files := (lease_files d)(name' := x)\<rparr>) name = lease_at env d name"
  by (simp add: lease_at_def)

text \<open>A granted lease was not in anybody's way, and is stored; a refusal leaves the files alone.\<close>

lemma try_acquire_effect:
  assumes "try_acquire env io l d = (r, d')"
  shows "(\<exists>e. r = Inl e) \<and> lease_files d' = lease_files d \<or>
    r = Inr l \<and> (\<exists>raw. to_vec env l = Inr raw \<and>
      lease_files d' = (lease_files d)(lease_file_path env (file_path l) \<mapsto> raw)) \<and>
    (\<forall>c. lease_at env d (lease_file_path env (file_path l)) = Some c \<longrightarrow> \<not> is_blocking env c (acquired_at_ms l))"
proof -
  let ?name = "lease_file_path env (file_path l)"
  show ?thesis
    using assms unfolding try_acquire_def Let_def
  proof (cases rule: with_locked_file_effect)
    case (fault e)
    then show ?thesis by simp
  next
    case (run d2)
    have at: "lease_at env d ?name = lease_at env d2 ?name" using run(1) by (simp add: lease_at_def)
    have acq: ?thesis
      if c: "lease_at env d ?name = c" "\<And>x. c = Some x \<Longrightarrow> \<not> is_blocking env x (acquired_at_ms l)"
        and w: "then_do (write_lease env io ?name l d2) (\<lambda>_ d'. (Inr l, d')) = (r, d')" for c
    proof (cases "write_lease env io ?name l d2")
      case (Pair r1 d3)
      then show ?thesis using write_lease_effect [OF Pair] w c run(1)
        by (auto simp: then_do_def)
    qed
    show ?thesis
    proof (cases "read_lease env io ?name d2")
      case (Inl e)
      then show ?thesis using run by auto
    next
      case (Inr c)
      have c: "lease_at env d ?name = c" using read_lease_Inr [OF Inr] at by simp
      show ?thesis
      proof (cases "\<exists>x. c = Some x \<and> is_blocking env x (acquired_at_ms l)")
        case True
        then show ?thesis using run Inr by auto
      next
        case False
        then have "then_do (write_lease env io ?name l d2) (\<lambda>_ d'. (Inr l, d')) = (r, d')"
          using run(2) Inr by (auto split: option.splits)
        then show ?thesis using False by (intro acq [OF c]) auto
      qed
    qed
  qed
qed

lemma try_acquire_same: "try_acquire env io l d = (Inr x, d') \<Longrightarrow> x = l"
  using try_acquire_effect [of env io l d "Inr x" d'] by auto

text \<open>An update or a release that changes the files found its own lease in them.\<close>

lemma update_effect:
  assumes "update env io l d = (r, d')"
  shows "(\<exists>e. r = Inl e) \<and> lease_files d' = lease_files d \<or>
    r = Inr l \<and> (\<exists>raw. to_vec env l = Inr raw \<and>
      lease_files d' = (lease_files d)(lease_file_path env (file_path l) \<mapsto> raw)) \<and>
    (\<exists>c. lease_at env d (lease_file_path env (file_path l)) = Some c \<and> lease_id c = lease_id l)"
  using assms unfolding update_def Let_def
proof (cases rule: with_locked_file_effect)
  case (run d2)
  let ?name = "lease_file_path env (file_path l)"
  have at: "lease_at env d ?name = lease_at env d2 ?name" using run(1) by (simp add: lease_at_def)
  show ?thesis
  proof (cases "read_lease env io ?name d2")
    case (Inr c)
    obtain r1 d3 where w: "write_lease env io ?name l d2 = (r1, d3)" by fastforce
    show ?thesis
      using run Inr w write_lease_effect [OF w] read_lease_Inr [OF Inr] at
      by (auto simp: then_do_def split: option.splits if_splits)
  qed (use run in auto)
qed auto

lemma release_effect:
  assumes "release env io path lid d = (r, d')"
  shows "lease_files d' = lease_files d \<or>
    r = Inr () \<and> lease_files d' = (lease_files d)(lease_file_path env path := None) \<and>
    (\<exists>c. lease_at env d (lease_file_path env path) = Some c \<and> lease_id c = lid)"
  using assms unfolding release_def Let_def
proof (cases rule: with_locked_file_effect)
  case (run d2)
  let ?name = "lease_file_path env path"
  have at: "lease_at env d ?name = lease_at env d2 ?name" using run(1) by (simp add: lease_at_def)
  show ?thesis
  proof (cases "read_lease env io ?name d2")
    case (Inr c)
    then show ?thesis using run read_lease_Inr [OF Inr] at
      by (auto simp: remove_lease_def split: option.splits if_splits)
  qed (use run in auto)
qed auto

lemma get_by_path_effect: "lease_files (snd (get_by_path env io path d)) = lease_files d"
proof -
  obtain r d' where g: "get_by_path env io path d = (r, d')" by fastforce
  then have "lease_files d' = lease_files d"
    unfolding get_by_path_def by (cases rule: with_locked_file_effect) auto
  then show ?thesis using g by simp
qed

lemma check_entry_effect:
  assumes "check_entry env io now name d = (r, d')"
  shows "lease_files d' = lease_files d \<or>
    lease_files d' = (lease_files d)(name := None) \<and>
    (\<exists>c. lease_at env d name = Some c \<and> is_expired c now)"
    and "r = Inr (Some l) \<Longrightarrow> lease_at env d name = Some l \<and> \<not> is_expired l now \<and> lease_files d' = lease_files d"
proof -
  have "(lease_files d' = lease_files d \<or>
    lease_files d' = (lease_files d)(name := None) \<and>
    (\<exists>c. lease_at env d name = Some c \<and> is_expired c now)) \<and>
    (r = Inr (Some l) \<longrightarrow> lease_at env d name = Some l \<and> \<not> is_expired l now \<and> lease_files d' = lease_files d)"
    using assms unfolding check_entry_def
  proof (cases rule: with_locked_file_effect)
    case (run d2)
    have at: "lease_at env d name = lease_at env d2 name" using run(1) by (simp add: lease_at_def)
    show ?thesis
    proof (cases "read_lease env io name d2")
      case (Inl e)
      then show ?thesis using run by (cases e) auto
    next
      case (Inr c)
      then show ?thesis using run read_lease_Inr [OF Inr] at
        by (auto simp: remove_lease_def then_do_def split: option.splits if_splits)
    qed
  qed auto
  then show "lease_files d' = lease_files d \<or>
    lease_files d' = (lease_files d)(name := None) \<and>
    (\<exists>c. lease_at env d name = Some c \<and> is_expired c now)"
    and "r = Inr (Some l) \<Longrightarrow> lease_at env d name = Some l \<and> \<not> is_expired l now \<and> lease_files d' = lease_files d"
    by blast+
qed

subsection \<open>Exclusion\<close>

text \<open>
  The contract of an exclusive, time-bounded reservation: an admitted lease is held, what others do
  while it counts keeps it held, and while it is held nobody it excludes is admitted.
\<close>

locale exclusive_lease =
  fixes admissible :: "'l \<Rightarrow> bool"
    and held :: "'l \<Rightarrow> 's \<Rightarrow> bool"
    and acquire :: "'l \<Rightarrow> 's \<Rightarrow> 's \<Rightarrow> bool"
    and foreign :: "'l \<Rightarrow> 's \<Rightarrow> 's \<Rightarrow> bool"
    and excludes :: "'l \<Rightarrow> 'l \<Rightarrow> bool"
  assumes acquired: "admissible l \<Longrightarrow> acquire l s s' \<Longrightarrow> held l s'"
    and kept: "held l s \<Longrightarrow> foreign l s s' \<Longrightarrow> held l s'"
    and refused: "held l s \<Longrightarrow> excludes l l' \<Longrightarrow> \<not> acquire l' s s'"
begin

lemma kept_along: "(foreign l)\<^sup>*\<^sup>* s s' \<Longrightarrow> held l s \<Longrightarrow> held l s'"
  by (induction rule: rtranclp_induct) (auto intro: kept)

lemma exclusion:
  assumes "admissible l" and "acquire l s s1" and "(foreign l)\<^sup>*\<^sup>* s1 s2" and "excludes l l'"
  shows "held l s2" and "\<not> acquire l' s2 s3"
  using assms kept_along acquired refused by blast+

end

text \<open>
  What another process can do while the lease \<open>l\<close> counts: ask for a lease at a time at which \<open>l\<close>
  still blocks, update or release a lease of its own (its identifier is a fresh UUID), look, and
  list (which removes expired leases).
\<close>

inductive foreign_step :: "LeaseEnv \<Rightarrow> FileLease \<Rightarrow> LeaseDir \<Rightarrow> LeaseDir \<Rightarrow> bool" for env l where
  f_acquire: "is_blocking env l (acquired_at_ms l') \<Longrightarrow> foreign_step env l d (snd (try_acquire env io l' d))"
| f_update: "lease_id l' \<noteq> lease_id l \<Longrightarrow> foreign_step env l d (snd (update env io l' d))"
| f_release: "lid \<noteq> lease_id l \<Longrightarrow> foreign_step env l d (snd (release env io path lid d))"
| f_get: "foreign_step env l d (snd (get_by_path env io path d))"
| f_list: "list_all (\<lambda>e. case e of Inl _ \<Rightarrow> True | Inr (name, now, io) \<Rightarrow> \<not> is_expired l now) entries \<Longrightarrow>
    foreign_step env l d (snd (list_leases env path fault entries d))"

lemma reserve_ok:
  assumes "reserve env io (Some True) now content uuid pid path tool duration d = (Inr (Some l), d')"
  shows "l = \<lparr>lease_id = uuid, agent_id = ''pid:'' @ show_nat (unat pid), file_path = path, lease_tool = tool,
      base_hash = read_hash env content, acquired_at_ms = now, expected_duration_ms = duration,
      lease_until_ms = now + duration, status = Working\<rparr>" (is "l = ?l")
    and "try_acquire env io l d = (Inr l, d')"
proof -
  have t: "try_acquire env io ?l d = (Inr l, d')"
    using assms by (auto simp: reserve_def is_enabled_def then_do_def lease_new_def split: prod.splits sum.splits)
  then show "l = ?l" by (rule try_acquire_same)
  then show "try_acquire env io l d = (Inr l, d')" using t by simp
qed

lemma holds_cong: "lease_files d = lease_files d' \<Longrightarrow> holds env l d = holds env l d'"
  by (simp add: holds_def lease_at_def)

lemma holds_elsewhere:
  "holds env l d \<Longrightarrow> lease_files d' = (lease_files d)(name := x) \<Longrightarrow> lease_at env d name \<noteq> Some l \<Longrightarrow>
   holds env l d'"
  by (auto simp: holds_def lease_at_def)

lemma try_acquire_keeps:
  assumes "holds env l d" and "is_blocking env l (acquired_at_ms l')"
  shows "holds env l (snd (try_acquire env io l' d))"
proof -
  obtain r d' where a: "try_acquire env io l' d = (r, d')" by fastforce
  show ?thesis
    using try_acquire_effect [OF a] a assms holds_cong [of d' d env l]
    by (auto intro: holds_elsewhere)
qed

lemma update_keeps:
  assumes "holds env l d" and "lease_id l' \<noteq> lease_id l"
  shows "holds env l (snd (update env io l' d))"
proof -
  obtain r d' where a: "update env io l' d = (r, d')" by fastforce
  show ?thesis
    using update_effect [OF a] a assms holds_cong [of d' d env l]
    by (auto intro: holds_elsewhere)
qed

lemma release_keeps:
  assumes "holds env l d" and "lid \<noteq> lease_id l"
  shows "holds env l (snd (release env io path lid d))"
proof -
  obtain r d' where a: "release env io path lid d = (r, d')" by fastforce
  show ?thesis
    using release_effect [OF a] a assms holds_cong [of d' d env l]
    by (auto intro: holds_elsewhere)
qed

lemma check_entry_keeps:
  assumes "holds env l d" and "\<not> is_expired l now" and "check_entry env io now name d = (r, d')"
  shows "holds env l d'"
  using check_entry_effect(1) [OF assms(3)] assms holds_cong [of d' d env l]
  by (auto intro: holds_elsewhere)

lemma list_loop_keeps:
  assumes "list_all (\<lambda>e. case e of Inl _ \<Rightarrow> True | Inr (name, now, io) \<Rightarrow> \<not> is_expired l now) entries"
    and "holds env l d"
  shows "holds env l (snd (list_loop env path entries acc d))"
  using assms
proof (induction env path entries acc d rule: list_loop.induct)
  case (3 env path name now io entries leases d)
  obtain r d' where c: "check_entry env io now name d = (r, d')" by fastforce
  then have "holds env l d'" using check_entry_keeps 3 by auto
  then show ?case using 3 c by (cases r) (auto simp: then_do_def)
qed auto

lemma list_leases_keeps:
  assumes "list_all (\<lambda>e. case e of Inl _ \<Rightarrow> True | Inr (name, now, io) \<Rightarrow> \<not> is_expired l now) entries"
    and "holds env l d"
  shows "holds env l (snd (list_leases env path fault entries d))"
  using list_loop_keeps [OF assms, of path "[]"] assms
  by (auto simp: list_leases_def then_do_def split: option.splits prod.splits sum.splits)

lemma foreign_step_keeps: "foreign_step env l d d' \<Longrightarrow> holds env l d \<Longrightarrow> holds env l d'"
proof (induction rule: foreign_step.induct)
  case (f_get d io path)
  then show ?case using holds_cong [OF get_by_path_effect] by simp
qed (simp_all add: try_acquire_keeps update_keeps release_keeps list_leases_keeps)

lemma stored_holds:
  assumes "survives_storage env l" and "to_vec env l = Inr raw"
    and "lease_files d' = (lease_files d)(lease_file_path env (file_path l) \<mapsto> raw)"
  shows "holds env l d'"
  using assms by (simp add: holds_def lease_at_def survives_storage_def)

interpretation store: exclusive_lease "survives_storage env" "holds env"
  "\<lambda>l d d'. \<exists>io. try_acquire env io l d = (Inr l, d')" "foreign_step env"
  "\<lambda>l l'. file_path l' = file_path l \<and> is_blocking env l (acquired_at_ms l')" for env
proof unfold_locales
  fix l s s'
  assume "survives_storage env l" and "\<exists>io. try_acquire env io l s = (Inr l, s')"
  then show "holds env l s'" using try_acquire_effect [of env _ l s "Inr l" s'] stored_holds by blast
next
  fix l s s'
  show "holds env l s \<Longrightarrow> foreign_step env l s s' \<Longrightarrow> holds env l s'"
    using foreign_step_keeps by blast
next
  fix l l' :: FileLease and s s'
  assume "holds env l s" and "file_path l' = file_path l \<and> is_blocking env l (acquired_at_ms l')"
  then show "\<not> (\<exists>io. try_acquire env io l' s = (Inr l', s'))"
    using try_acquire_effect [of env _ l' s "Inr l'" s'] by (auto simp: holds_def)
qed

subsection \<open>Fault-free runs\<close>

definition locked :: "string \<Rightarrow> LeaseDir \<Rightarrow> LeaseDir" where
  "locked name d = d\<lparr>dir_exists := True, locks := insert (with_extension name ''lock'') (locks d)\<rparr>"

lemma locked_files [simp]:
  "lease_files (locked name d) = lease_files d" "lease_at env (locked name d) n = lease_at env d n"
  "holds env l (locked name d) = holds env l d"
  by (simp_all add: locked_def lease_at_def holds_def)

lemma write_lease_no_faults:
  "to_vec env l = Inr raw \<Longrightarrow>
   write_lease env no_faults name l d = (Inr (), d\<lparr>lease_files := (lease_files d)(name \<mapsto> raw)\<rparr>)"
  by (simp add: write_lease_def no_faults_def)

lemma try_acquire_blocked:
  assumes "lease_at env d (lease_file_path env (file_path l)) = Some c" and "is_blocking env c (acquired_at_ms l)"
  shows "fst (try_acquire env no_faults l d) =
    Inl (AlreadyLeased (file_path l) (agent_id c) (remaining_secs c (acquired_at_ms l)))"
proof -
  let ?name = "lease_file_path env (file_path l)"
  have "read_lease env no_faults ?name (locked ?name d) = Inr (Some c)"
    using assms(1) by (simp add: read_lease_stored)
  then show ?thesis using assms(2)
    by (simp add: try_acquire_def with_locked_file_no_faults Let_def flip: locked_def)
qed

lemma try_acquire_free:
  assumes "read_lease env no_faults (lease_file_path env (file_path l)) d = Inr c"
    and "\<And>x. c = Some x \<Longrightarrow> \<not> is_blocking env x (acquired_at_ms l)" and "to_vec env l = Inr raw"
  shows "try_acquire env no_faults l d =
    (Inr l, (locked (lease_file_path env (file_path l)) d)
      \<lparr>lease_files := (lease_files d)(lease_file_path env (file_path l) \<mapsto> raw)\<rparr>)"
proof -
  let ?name = "lease_file_path env (file_path l)"
  have "read_lease env no_faults ?name (locked ?name d) = Inr c"
    using assms(1) by (simp add: read_lease_no_faults)
  then show ?thesis using assms(2,3)
    by (auto simp: try_acquire_def with_locked_file_no_faults Let_def then_do_def write_lease_no_faults
        simp flip: locked_def split: option.splits)
qed

lemma update_owner:
  assumes "lease_at env d (lease_file_path env (file_path l)) = Some c" and "lease_id c = lease_id l"
    and "to_vec env l = Inr raw"
  shows "update env no_faults l d =
    (Inr l, (locked (lease_file_path env (file_path l)) d)
      \<lparr>lease_files := (lease_files d)(lease_file_path env (file_path l) \<mapsto> raw)\<rparr>)"
proof -
  let ?name = "lease_file_path env (file_path l)"
  have "read_lease env no_faults ?name (locked ?name d) = Inr (Some c)"
    using assms(1) by (simp add: read_lease_stored)
  then show ?thesis using assms(2,3)
    by (simp add: update_def with_locked_file_no_faults Let_def then_do_def write_lease_no_faults flip: locked_def)
qed

lemma release_owner:
  assumes "lease_at env d (lease_file_path env path) = Some c" and "lease_id c = lid"
  shows "release env no_faults path lid d =
    (Inr (), (locked (lease_file_path env path) d)\<lparr>lease_files := (lease_files d)(lease_file_path env path := None)\<rparr>)"
proof -
  let ?name = "lease_file_path env path"
  have "read_lease env no_faults ?name (locked ?name d) = Inr (Some c)"
    using assms(1) by (simp add: read_lease_stored)
  then show ?thesis using assms(2)
    by (simp add: release_def with_locked_file_no_faults Let_def remove_lease_def flip: locked_def)
qed

lemma get_by_path_stored:
  assumes "lease_at env d (lease_file_path env path) = Some c"
  shows "get_by_path env no_faults path d = (Inr (Some c), locked (lease_file_path env path) d)"
proof -
  let ?name = "lease_file_path env path"
  have "read_lease env no_faults ?name (locked ?name d) = Inr (Some c)"
    using assms(1) by (simp add: read_lease_stored)
  then show ?thesis by (simp add: get_by_path_def with_locked_file_no_faults flip: locked_def)
qed

lemma parse_u32_show: "parse_u32 (show_nat (unat pid)) = Some pid"
proof -
  have head: "\<not> starts_with (show_nat n) ''+''" for n
  proof -
    obtain c cs where "show_nat n = c # cs" using show_nat_digits(2) by (cases "show_nat n") auto
    moreover have "list_all is_digit (show_nat n)" by simp
    ultimately show ?thesis by (auto simp: starts_with_def is_digit_def)
  qed
  have "unat pid < 2 ^ 32" using unsigned_less [of pid] by simp
  then show ?thesis by (simp add: parse_u32_def head Let_def)
qed

lemma holder_pid_of_agent: "agent_id l = ''pid:'' @ show_nat (unat pid) \<Longrightarrow> holder_pid l = Some pid"
  by (simp add: holder_pid_def strip_prefix_def starts_with_def parse_u32_show)

end
