(* ===== verification/File_Lease_Proofs.thy ===== *)
theory File_Lease_Proofs
  imports File_Lease
begin

text \<open>
  The promises of the lease protocol: exclusion while a lease counts, recovery from crashed or late
  holders, what a successful pre-commit check guarantees under interference, that an undisturbed
  operation goes through and leaves the file free, and what a listing reports.
\<close>

subsection \<open>A sample environment\<close>

definition sample_lease :: "string \<Rightarrow> u64 \<Rightarrow> u64 \<Rightarrow> LeaseStatus \<Rightarrow> FileLease" where
  "sample_lease lid start finish st = (lease_new lid ''/w/a'')
     \<lparr>agent_id := ''pid:7'', lease_tool := ''edit'', base_hash := Some ''41'', acquired_at_ms := start,
      expected_duration_ms := 1000, lease_until_ms := finish, status := st\<rparr>"

definition lease_a :: FileLease where "lease_a = sample_lease ''a'' 100 1100 Working"
definition lease_a' :: FileLease where "lease_a' = sample_lease ''a'' 100 5500 Committing"
definition lease_b :: FileLease where "lease_b = sample_lease ''b'' 500 1500 Working"
definition lease_late :: FileLease where "lease_late = sample_lease ''b'' 1200 2200 Working"

text \<open>A table in place of \<open>serde_json\<close>, the identity in place of SHA-256; process 7 is running.\<close>

definition sample_table :: "(FileLease \<times> string) list" where
  "sample_table = [(lease_a, ''1''), (lease_a', ''2''), (lease_b, ''3''), (lease_late, ''4'')]"

definition sample_lease_env :: "KillResult \<Rightarrow> LeaseEnv" where
  "sample_lease_env alive =
    \<lparr>to_vec = (\<lambda>l. case map_of sample_table l of None \<Rightarrow> Inl ''unknown'' | Some raw \<Rightarrow> Inr raw),
     from_str = (\<lambda>raw. case find (\<lambda>p. snd p = raw) sample_table of None \<Rightarrow> Inl ''bad'' | Some p \<Rightarrow> Inr (fst p)),
     sha256 = (\<lambda>bs. bs), kill0 = (\<lambda>pid. alive)\<rparr>"

definition empty_dir :: LeaseDir where
  "empty_dir = \<lparr>dir_exists = False, lease_files = Map.empty, locks = {}\<rparr>"

lemmas sample_defs = lease_a_def lease_a'_def lease_b_def lease_late_def sample_lease_def lease_new_def

lemma sample_survives:
  "survives_storage (sample_lease_env k) lease_a" "survives_storage (sample_lease_env k) lease_a'"
  "to_vec (sample_lease_env k) lease_a = Inr ''1''" "to_vec (sample_lease_env k) lease_a' = Inr ''2''"
  "to_vec (sample_lease_env k) lease_b = Inr ''3''" "survives_storage (sample_lease_env k) lease_b"
  "to_vec (sample_lease_env k) lease_late = Inr ''4''" "survives_storage (sample_lease_env k) lease_late"
  by (simp_all add: survives_storage_def sample_lease_env_def sample_table_def sample_defs)

lemma digit_7: "show_nat 7 = ''7''"
  by (simp add: show_nat.simps digit_char_def) code_simp

lemma sample_from_str: "from_str (sample_lease_env k) ''1'' = Inr lease_a"
  by (simp add: sample_lease_env_def sample_table_def)

lemma sample_first_acquire:
  "try_acquire (sample_lease_env k) no_faults lease_a empty_dir =
    (Inr lease_a, (locked (lease_file_path (sample_lease_env k) ''/w/a'') empty_dir)
      \<lparr>lease_files := [lease_file_path (sample_lease_env k) ''/w/a'' \<mapsto> ''1'']\<rparr>)"
proof -
  have path: "file_path lease_a = ''/w/a''" by (simp add: sample_defs)
  have "read_lease (sample_lease_env k) no_faults (lease_file_path (sample_lease_env k) (file_path lease_a)) empty_dir = Inr None"
    by (simp add: read_lease_no_faults empty_dir_def)
  from try_acquire_free [OF this _ sample_survives(3)] show ?thesis
    by (simp add: path) (simp add: empty_dir_def)
qed

lemma parse_pid_7: "parse_u32 ''7'' = Some 7"
  by (simp add: parse_u32_def starts_with_def is_digit_def digits_value_def Let_def)

lemma sample_blocking:
  "is_blocking (sample_lease_env Signalled) lease_a (acquired_at_ms lease_b)"
  by (simp add: is_blocking_def is_expired_def holder_pid_def strip_prefix_def starts_with_def sample_defs
      parse_pid_7 is_process_alive_def sample_lease_env_def)

subsection \<open>Exclusion and recovery\<close>

text \<open>
  C12: A lease is exclusive. Once \<open>try_acquire\<close> granted it, whatever other processes do with the store
  (asking for leases of their own, updating, releasing, listing, with any file-system fault on the
  way) while it is unexpired and its holder runs, the lease stays stored unchanged, and every request
  for the same file is refused; without faults the refusal names the holder and the seconds left.
\<close>

theorem lease_mutual_exclusion:
  assumes "survives_storage env l" and "try_acquire env io l d = (Inr l, d1)"
    and "(foreign_step env l)\<^sup>*\<^sup>* d1 d2"
    and "file_path l' = file_path l" and "is_blocking env l (acquired_at_ms l')"
  shows "holds env l d2 \<and> (\<exists>e. fst (try_acquire env io' l' d2) = Inl e) \<and>
    fst (try_acquire env no_faults l' d2) =
      Inl (AlreadyLeased (file_path l) (agent_id l) (remaining_secs l (acquired_at_ms l')))"
proof -
  have held: "holds env l d2" and none: "\<not> (\<exists>io. try_acquire env io l' d2 = (Inr l', d3))" for d3
    using store.exclusion [of env l d d1 d2 l'] assms by blast+
  obtain r d3 where a: "try_acquire env io' l' d2 = (r, d3)" by fastforce
  have "\<exists>e. r = Inl e" using try_acquire_effect [OF a] none a by blast
  moreover have "fst (try_acquire env no_faults l' d2) =
      Inl (AlreadyLeased (file_path l) (agent_id l) (remaining_secs l (acquired_at_ms l')))"
    using try_acquire_blocked [of env d2 l' l] held assms(4,5) by (simp add: holds_def)
  ultimately show ?thesis using held a by simp
qed

theorem lease_mutual_exclusion_witness:
  "\<exists>d1 d2. try_acquire (sample_lease_env Signalled) no_faults lease_a empty_dir = (Inr lease_a, d1) \<and>
     d2 = snd (try_acquire (sample_lease_env Signalled) no_faults lease_b d1) \<and>
     holds (sample_lease_env Signalled) lease_a d2 \<and>
     fst (try_acquire (sample_lease_env Signalled) no_faults lease_b d2) =
       Inl (AlreadyLeased ''/w/a'' ''pid:7'' 0)"
proof -
  let ?env = "sample_lease_env Signalled"
  obtain d1 where d1: "try_acquire ?env no_faults lease_a empty_dir = (Inr lease_a, d1)"
    using sample_first_acquire by blast
  let ?d2 = "snd (try_acquire ?env no_faults lease_b d1)"
  have step: "(foreign_step ?env lease_a)\<^sup>*\<^sup>* d1 ?d2"
    by (rule r_into_rtranclp) (rule f_acquire [OF sample_blocking])
  have path: "file_path lease_b = file_path lease_a" by (simp add: sample_defs)
  have "remaining_secs lease_a (acquired_at_ms lease_b) = 0" and "file_path lease_a = ''/w/a''"
    and "agent_id lease_a = ''pid:7''"
    by (simp_all add: remaining_secs_def sample_defs)
  then show ?thesis
    using lease_mutual_exclusion [OF sample_survives(1) d1 step path sample_blocking] d1 by auto
qed

text \<open>
  A crashed or late holder does not keep a file. When the stored lease has expired, or when it
  was taken by a process (\<open>pid:<n>\<close>, as \<open>reserve\<close> writes it) that the operating system no longer knows,
  a new request is granted and replaces it.
\<close>

theorem stale_lease_is_taken_over:
  assumes "lease_at env d (lease_file_path env (file_path l)) = Some c"
    and "is_expired c (acquired_at_ms l) \<or>
      agent_id c = ''pid:'' @ show_nat (unat pid) \<and> unat pid \<le> 2147483647 \<and>
      kill0 env pid = Errno e \<and> e \<noteq> EPERM"
    and "survives_storage env l" and "to_vec env l = Inr raw"
  shows "\<exists>d'. try_acquire env no_faults l d = (Inr l, d') \<and> holds env l d'"
proof -
  have free: "\<not> is_blocking env c (acquired_at_ms l)"
    using assms(2) holder_pid_of_agent [of c pid] by (auto simp: is_blocking_def is_process_alive_def)
  have "read_lease env no_faults (lease_file_path env (file_path l)) d = Inr (Some c)"
    using assms(1) by (simp add: read_lease_stored)
  from try_acquire_free [OF this _ assms(4)] free show ?thesis
    by (auto intro: stored_holds [OF assms(3,4)])
qed

theorem stale_lease_is_taken_over_witness:
  "\<exists>d' d''. try_acquire (sample_lease_env (Errno 3)) no_faults lease_b
       (snd (try_acquire (sample_lease_env (Errno 3)) no_faults lease_a empty_dir)) = (Inr lease_b, d') \<and>
     holds (sample_lease_env (Errno 3)) lease_b d' \<and>
     try_acquire (sample_lease_env Signalled) no_faults lease_late
       (snd (try_acquire (sample_lease_env Signalled) no_faults lease_a empty_dir)) = (Inr lease_late, d'')"
proof -
  have at: "lease_at (sample_lease_env k) (snd (try_acquire (sample_lease_env k) no_faults lease_a empty_dir))
      (lease_file_path (sample_lease_env k) ''/w/a'') = Some lease_a" for k
    by (simp add: sample_first_acquire lease_at_def sample_from_str)
  have paths: "file_path lease_b = ''/w/a''" "file_path lease_late = ''/w/a''" by (simp_all add: sample_defs)
  have agent: "agent_id lease_a = ''pid:'' @ show_nat (unat (7 :: u32))"
    by (simp add: sample_defs digit_7)
  have expired: "is_expired lease_a (acquired_at_ms lease_late)"
    by (simp add: is_expired_def sample_defs)
  have kill: "kill0 (sample_lease_env (Errno 3)) 7 = Errno 3" by (simp add: sample_lease_env_def)
  show ?thesis
    using stale_lease_is_taken_over [of "sample_lease_env (Errno 3)" _ lease_b lease_a 7 3 "''3''", unfolded paths, OF at _ sample_survives(6,5)]
      stale_lease_is_taken_over [of "sample_lease_env Signalled" _ lease_late lease_a 7 3 "''4''", unfolded paths, OF at _ sample_survives(8,7)]
      agent expired kill by (simp add: EPERM_def) blast
qed

subsection \<open>The two-phase protocol\<close>

text \<open>
  C13: What a successful pre-commit check guarantees, whatever other processes do between its two
  accesses to the store: the lease was unexpired; the store named this operation as the owner both
  when it looked and when it renewed the lease; the file still has the content hash recorded when it
  was reserved, so no change made in between is overwritten; and the renewed lease, marked as
  committing and valid for five more seconds, is what the store holds.
\<close>

theorem commit_is_checked:
  assumes "prepare_commit env io io' now content interference l d = (Inr l', d')"
    and "survives_storage env l'"
  shows "\<not> is_expired l now \<and> read_hash env content = base_hash l \<and>
    (\<exists>c. lease_at env d (lease_file_path env (file_path l)) = Some c \<and> lease_id c = lease_id l) \<and>
    (\<exists>d1 c. lease_files d1 = lease_files d \<and>
       lease_at env (interference d1) (lease_file_path env (file_path l)) = Some c \<and> lease_id c = lease_id l) \<and>
    l' = l\<lparr>status := Committing, lease_until_ms := now + COMMIT_GRACE_MS\<rparr> \<and> holds env l' d'"
proof -
  let ?name = "lease_file_path env (file_path l)"
  let ?l = "l\<lparr>status := Committing, lease_until_ms := now + COMMIT_GRACE_MS\<rparr>"
  obtain r d1 where g: "get_by_path env io (file_path l) d = (r, d1)" by fastforce
  have files: "lease_files d1 = lease_files d" using get_by_path_effect [of env io "file_path l" d] g by simp
  have read: "\<And>c. r = Inr (Some c) \<Longrightarrow> lease_at env d ?name = Some c"
    using g unfolding get_by_path_def
    by (cases rule: with_locked_file_effect) (auto simp: lease_at_def dest!: read_lease_Inr)
  have parts: "\<not> is_expired l now" "read_hash env content = base_hash l"
      "\<exists>c. r = Inr (Some c) \<and> lease_id c = lease_id l"
      "update env io' ?l (interference d1) = (Inr l', d')"
    using assms(1) g by (auto simp: prepare_commit_def then_do_def Let_def split: if_splits option.splits sum.splits)
  have upd: "l' = ?l \<and> (\<exists>raw. to_vec env ?l = Inr raw \<and> lease_files d' = (lease_files (interference d1))(?name \<mapsto> raw)) \<and>
      (\<exists>c. lease_at env (interference d1) ?name = Some c \<and> lease_id c = lease_id l)"
    using update_effect [OF parts(4)] by simp
  then have "holds env l' d'" using stored_holds [OF assms(2)] by auto
  then show ?thesis using parts(1,2,3) read files upd by auto
qed

definition rival :: "LeaseDir \<Rightarrow> LeaseDir" where
  "rival d = snd (try_acquire (sample_lease_env Signalled) no_faults lease_b d)"

lemma rival_is_foreign: "(foreign_step (sample_lease_env Signalled) lease_a)\<^sup>*\<^sup>* d (rival d)"
  unfolding rival_def by (rule r_into_rtranclp) (rule f_acquire [OF sample_blocking])

lemma sample_hash: "read_hash (sample_lease_env k) (Some [0x41]) = Some ''41''"
proof -
  have "hex_digit 4 = CHR ''4''" "hex_digit 1 = CHR ''1''" by (simp_all add: hex_digit_def) code_simp+
  then show ?thesis by (simp add: read_hash_def compute_hash_bytes_def hex_encode_def sample_lease_env_def)
qed

lemma sample_committing: "lease_a\<lparr>status := Committing, lease_until_ms := 500 + COMMIT_GRACE_MS\<rparr> = lease_a'"
  by (simp add: sample_defs COMMIT_GRACE_MS_def)

lemma sample_reserve:
  "reserve (sample_lease_env k) no_faults (Some True) 100 (Some [0x41]) ''a'' 7 ''/w/a'' ''edit'' 1000 empty_dir =
    (Inr (Some lease_a), snd (try_acquire (sample_lease_env k) no_faults lease_a empty_dir))"
proof -
  have "lease_new ''a'' ''/w/a''
      \<lparr>agent_id := ''pid:'' @ show_nat (unat (7 :: u32)), lease_tool := ''edit'',
       base_hash := read_hash (sample_lease_env k) (Some [0x41]), acquired_at_ms := 100,
       expected_duration_ms := 1000, lease_until_ms := 100 + 1000, status := Working\<rparr> = lease_a"
    by (simp add: sample_defs digit_7 sample_hash)
  then show ?thesis
    using sample_first_acquire [of k] by (simp add: reserve_def is_enabled_def then_do_def)
qed

text \<open>
  An operation that is not disturbed goes through. After \<open>reserve\<close> granted a lease, if the check
  comes before it expires, the content is unchanged and the store works, then \<open>prepare_commit\<close>
  succeeds whatever other processes did to the store in the meantime, and the following \<open>release\<close>
  succeeds and leaves no lease on the file.
\<close>

theorem reserved_operation_completes:
  assumes "reserve env io (Some True) now content uuid pid path tool duration d = (Inr (Some l), d1)"
    and "survives_storage env l" and "(foreign_step env l)\<^sup>*\<^sup>* d1 d2"
    and "\<And>d. (foreign_step env l)\<^sup>*\<^sup>* d (interference d)"
    and "now' < now + duration"
    and "l' = l\<lparr>status := Committing, lease_until_ms := now' + COMMIT_GRACE_MS\<rparr>"
    and "survives_storage env l'" and "to_vec env l' = Inr raw"
  shows "\<exists>d3 d4. prepare_commit env no_faults no_faults now' content interference l d2 = (Inr l', d3) \<and>
    holds env l' d3 \<and> release_lease env no_faults l' d3 = (Inr (), d4) \<and>
    lease_files d4 (lease_file_path env path) = None"
proof -
  let ?name = "lease_file_path env path"
  have l: "file_path l = path" "base_hash l = read_hash env content" "lease_until_ms l = now + duration"
    using reserve_ok(1) [OF assms(1)] by simp_all
  have got: "\<exists>io. try_acquire env io l d = (Inr l, d1)" using reserve_ok(2) [OF assms(1)] by blast
  have held: "holds env l d2" using store.acquired [OF assms(2) got] store.kept_along [OF assms(3)] by blast
  have "holds env l (locked ?name d2)" using held by simp
  then have held': "holds env l (interference (locked ?name d2))"
    using store.kept_along [OF assms(4)] by blast
  have l': "file_path l' = path" "lease_id l' = lease_id l" using assms(6) l by simp_all
  have at: "lease_at env d2 ?name = Some l" using held l by (simp add: holds_def)
  have at': "lease_at env (interference (locked ?name d2)) ?name = Some l" using held' l by (simp add: holds_def)
  obtain d3 where u: "update env no_faults l' (interference (locked ?name d2)) = (Inr l', d3)"
    and f: "lease_files d3 = (lease_files (interference (locked ?name d2)))(?name \<mapsto> raw)"
    using update_owner [of env "interference (locked ?name d2)" l' l raw] at' l' assms(8) by auto
  have "\<not> is_expired l now'" using assms(5) l by (simp add: is_expired_def)
  then have pc: "prepare_commit env no_faults no_faults now' content interference l d2 = (Inr l', d3)"
    using get_by_path_stored [OF at] u l assms(6) by (simp add: prepare_commit_def then_do_def Let_def)
  have h: "holds env l' d3" using stored_holds [OF assms(7,8)] f l' by simp
  then show ?thesis
    using pc release_owner [of env d3 path l' "lease_id l'"] l' by (simp add: holds_def release_lease_def)
qed

theorem reserved_operation_completes_witness:
  "\<exists>d3 d4. prepare_commit (sample_lease_env Signalled) no_faults no_faults 500 (Some [0x41]) rival lease_a
      (rival (snd (try_acquire (sample_lease_env Signalled) no_faults lease_a empty_dir))) = (Inr lease_a', d3) \<and>
    release_lease (sample_lease_env Signalled) no_faults lease_a' d3 = (Inr (), d4) \<and>
    lease_files d4 (lease_file_path (sample_lease_env Signalled) ''/w/a'') = None"
  using reserved_operation_completes [OF sample_reserve sample_survives(1) rival_is_foreign rival_is_foreign _
      sample_committing [symmetric] sample_survives(2,4)] by force

theorem commit_is_checked_witness:
  "\<exists>d'. prepare_commit (sample_lease_env Signalled) no_faults no_faults 500 (Some [0x41]) rival lease_a
      (snd (try_acquire (sample_lease_env Signalled) no_faults lease_a empty_dir)) = (Inr lease_a', d') \<and>
    \<not> is_expired lease_a 500 \<and> base_hash lease_a = Some ''41'' \<and> holds (sample_lease_env Signalled) lease_a' d'"
proof -
  let ?env = "sample_lease_env Signalled"
  let ?d = "snd (try_acquire ?env no_faults lease_a empty_dir)"
  have path: "file_path lease_a = ''/w/a''" "file_path lease_a' = ''/w/a''" "lease_id lease_a' = lease_id lease_a"
      "base_hash lease_a = Some ''41''" "\<not> is_expired lease_a 500"
    by (simp_all add: sample_defs is_expired_def)
  have "holds ?env lease_a ?d" by (simp add: holds_def path sample_first_acquire lease_at_def sample_from_str)
  then have h: "lease_at ?env ?d (lease_file_path ?env ''/w/a'') = Some lease_a"
      "lease_at ?env (rival (locked (lease_file_path ?env ''/w/a'') ?d)) (lease_file_path ?env ''/w/a'') = Some lease_a"
    using store.kept_along [OF rival_is_foreign, of "locked (lease_file_path ?env ''/w/a'') ?d"]
    by (simp_all add: holds_def path)
  obtain d' where "update ?env no_faults lease_a' (rival (locked (lease_file_path ?env ''/w/a'') ?d)) = (Inr lease_a', d')"
    using update_owner [of ?env "rival (locked (lease_file_path ?env ''/w/a'') ?d)" lease_a' lease_a "''2''"]
      h path sample_survives(4) by auto
  then have pc: "prepare_commit ?env no_faults no_faults 500 (Some [0x41]) rival lease_a ?d = (Inr lease_a', d')"
    using get_by_path_stored [OF h(1)]
    by (simp add: prepare_commit_def then_do_def Let_def path sample_hash sample_committing)
  show ?thesis using commit_is_checked [OF pc sample_survives(2)] pc path(4) by blast
qed

text \<open>
  A tool that fails frees its file. \<open>release_on_error\<close> on an error returns the same error, leaves
  no lease on the file, and the next request for it is granted at once, however long the failed
  lease had to run; on success it returns the result and leaves the store as it is.
\<close>

theorem failed_tool_frees_file:
  assumes "holds env l d" and "file_path l2 = file_path l" and "to_vec env l2 = Inr raw"
  shows "\<exists>d'. release_on_error env no_faults (Some l) (Inl e :: 'e + 'a) d = (Inl e, d') \<and>
    lease_files d' (lease_file_path env (file_path l)) = None \<and>
    fst (try_acquire env no_faults l2 d') = Inr l2 \<and>
    release_on_error env no_faults (Some l) (Inr x :: 'e + 'a) d = (Inr x, d)"
proof -
  let ?name = "lease_file_path env (file_path l)"
  have rel: "release_lease env no_faults l d = (Inr (), (locked ?name d)\<lparr>lease_files := (lease_files d)(?name := None)\<rparr>)"
    using release_owner [of env d "file_path l" l "lease_id l"] assms(1) by (simp add: holds_def release_lease_def)
  let ?d = "(locked ?name d)\<lparr>lease_files := (lease_files d)(?name := None)\<rparr>"
  have "read_lease env no_faults (lease_file_path env (file_path l2)) ?d = Inr None"
    using assms(2) by (simp add: read_lease_no_faults)
  then have "fst (try_acquire env no_faults l2 ?d) = Inr l2"
    using try_acquire_free [OF _ _ assms(3), of ?d None] by simp
  then show ?thesis using rel by (simp add: release_on_error_def)
qed

theorem failed_tool_frees_file_witness:
  "\<exists>d d'. holds (sample_lease_env Signalled) lease_a d \<and>
     release_on_error (sample_lease_env Signalled) no_faults (Some lease_a) (Inl ''failed'' :: string + nat) d = (Inl ''failed'', d') \<and>
     fst (try_acquire (sample_lease_env Signalled) no_faults lease_b d') = Inr lease_b"
proof -
  let ?env = "sample_lease_env Signalled"
  let ?d = "snd (try_acquire ?env no_faults lease_a empty_dir)"
  have path: "file_path lease_a = ''/w/a''" "file_path lease_b = file_path lease_a" by (simp_all add: sample_defs)
  have h: "holds ?env lease_a ?d" by (simp add: holds_def path(1) sample_first_acquire lease_at_def sample_from_str)
  show ?thesis
    using failed_tool_frees_file [OF h path(2) sample_survives(5), where e = "''failed''" and x = "0 :: nat"] h
    by blast
qed

subsection \<open>Listing\<close>

definition entry :: "string \<times> u64 \<Rightarrow> string + string \<times> u64 \<times> Io" where
  "entry p = Inr (fst p, snd p, no_faults)"

definition shown :: "LeaseEnv \<Rightarrow> string option \<Rightarrow> LeaseDir \<Rightarrow> string \<times> u64 \<Rightarrow> FileLease option" where
  "shown env path d p =
    (case lease_at env d (fst p) of
       Some l \<Rightarrow> if extension (fst p) = Some ''json'' \<and> \<not> is_expired l (snd p) \<and>
                    (case path of None \<Rightarrow> True | Some base \<Rightarrow> path_starts_with (file_path l) base)
                 then Some l else None
     | None \<Rightarrow> None)"

lemma check_entry_no_faults:
  "check_entry env no_faults now name d =
    (case lease_at env d name of
       Some l \<Rightarrow> if is_expired l now
         then (Inr None, (locked name d)\<lparr>lease_files := (lease_files d)(name := None)\<rparr>)
         else (Inr (Some l), locked name d)
     | None \<Rightarrow> (Inr None, locked name d))"
  by (auto simp: check_entry_def with_locked_file_no_faults read_lease_no_faults lease_at_def remove_lease_def
      then_do_def map_ok_def map_err_def simp flip: locked_def split: option.splits sum.splits)

lemma list_loop_no_faults:
  assumes "distinct (map fst entries)"
  shows "\<exists>d'. list_loop env path (map entry entries) acc d =
      (Inr (acc @ List.map_filter (shown env path d) entries), d') \<and>
    (\<forall>name now l. (name, now) \<in> set entries \<longrightarrow> extension name = Some ''json'' \<longrightarrow>
       lease_at env d name = Some l \<longrightarrow> is_expired l now \<longrightarrow> lease_files d' name = None) \<and>
    (\<forall>name. name \<notin> fst ` set entries \<longrightarrow> lease_files d' name = lease_files d name)"
  using assms
proof (induction entries arbitrary: acc d)
  case Nil
  then show ?case by (simp add: List.map_filter_def)
next
  case (Cons p entries)
  obtain name now where p: "p = (name, now)" by fastforce
  define d1 where "d1 = (if extension name = Some ''json'' then snd (check_entry env no_faults now name d) else d)"
  have other: "lease_files d1 n = lease_files d n" if "n \<noteq> name" for n
    using that by (auto simp: d1_def check_entry_no_faults split: option.splits)
  have gone: "extension name = Some ''json'' \<Longrightarrow> lease_at env d name = Some l \<Longrightarrow> is_expired l now \<Longrightarrow>
      lease_files d1 name = None" for l
    by (simp add: d1_def check_entry_no_faults)
  have rest: "List.map_filter (shown env path d1) entries = List.map_filter (shown env path d) entries"
  proof (rule map_filter_cong)
    fix q assume "q \<in> set entries"
    then have "fst q \<noteq> name" using Cons.prems p by force
    then show "shown env path d1 q = shown env path d q" using other by (simp add: shown_def lease_at_def)
  qed
  have unfold: "list_loop env path (map entry (p # entries)) acc d =
      list_loop env path (map entry entries) (acc @ (case shown env path d p of None \<Rightarrow> [] | Some l \<Rightarrow> [l])) d1"
    by (auto simp: entry_def p d1_def check_entry_no_faults then_do_def shown_def split: option.splits)
  have filt: "List.map_filter (shown env path d) (p # entries) =
      (case shown env path d p of None \<Rightarrow> [] | Some l \<Rightarrow> [l]) @ List.map_filter (shown env path d) entries"
    by (simp add: List.map_filter_def split: option.splits)
  obtain d' where IH: "list_loop env path (map entry entries) (acc @ (case shown env path d p of None \<Rightarrow> [] | Some l \<Rightarrow> [l])) d1 =
      (Inr ((acc @ (case shown env path d p of None \<Rightarrow> [] | Some l \<Rightarrow> [l])) @ List.map_filter (shown env path d1) entries), d')"
    "\<And>name now l. (name, now) \<in> set entries \<Longrightarrow> extension name = Some ''json'' \<Longrightarrow>
       lease_at env d1 name = Some l \<Longrightarrow> is_expired l now \<Longrightarrow> lease_files d' name = None"
    "\<And>name. name \<notin> fst ` set entries \<Longrightarrow> lease_files d' name = lease_files d1 name"
    using Cons.IH [of "acc @ (case shown env path d p of None \<Rightarrow> [] | Some l \<Rightarrow> [l])" d1] Cons.prems by auto
  have "list_loop env path (map entry (p # entries)) acc d =
      (Inr (acc @ List.map_filter (shown env path d) (p # entries)), d')"
    using IH(1) unfold filt rest by simp
  moreover have "lease_files d' n = None"
    if q: "(n, t) \<in> set (p # entries)" and j: "extension n = Some ''json''" "lease_at env d n = Some l" "is_expired l t" for n t l
  proof (cases "n = name")
    case True
    then have "n \<notin> fst ` set entries" using Cons.prems p by simp
    moreover have "t = now" using q True calculation p by (force simp: image_iff)
    ultimately show ?thesis using IH(3) gone j True by simp
  next
    case False
    then show ?thesis using IH(2) [of n t l] q j other [of n] p by (simp add: lease_at_def)
  qed
  moreover have "lease_files d' n = lease_files d n" if "n \<notin> fst ` set (p # entries)" for n
    using that IH(3) other p by simp
  ultimately show ?case by blast
qed

text \<open>
  A listing over a working file system reports exactly the live leases: of the \<open>.json\<close> files of
  the directory, those that can be read as a lease, have not expired and lie under the given path,
  ordered by path; and the expired ones it met are removed, so the files they blocked are free.
\<close>

theorem listing_reports_live_leases:
  assumes "dir_exists d" and "distinct (map fst entries)"
  shows "\<exists>ls d'. list_leases env path None (map entry entries) d = (Inr ls, d') \<and>
    (\<forall>l. l \<in> set ls \<longleftrightarrow> (\<exists>p\<in>set entries. shown env path d p = Some l)) \<and>
    sorted (map (\<lambda>l. path_components (file_path l)) ls) \<and>
    (\<forall>name now l. (name, now) \<in> set entries \<longrightarrow> extension name = Some ''json'' \<longrightarrow>
       lease_at env d name = Some l \<longrightarrow> is_expired l now \<longrightarrow> lease_files d' name = None)"
proof -
  obtain d' where loop: "list_loop env path (map entry entries) [] d = (Inr (List.map_filter (shown env path d) entries), d')"
    and gone: "\<forall>name now l. (name, now) \<in> set entries \<longrightarrow> extension name = Some ''json'' \<longrightarrow>
       lease_at env d name = Some l \<longrightarrow> is_expired l now \<longrightarrow> lease_files d' name = None"
    using list_loop_no_faults [OF assms(2), of env path "[]" d] by auto
  show ?thesis
    using assms(1) loop gone by (simp add: list_leases_def then_do_def set_map_filter)
qed

theorem listing_reports_live_leases_witness:
  "\<exists>ls d'. list_leases (sample_lease_env Signalled) None None (map entry [(''61.json'', 2000)])
      \<lparr>dir_exists = True, lease_files = [''61.json'' \<mapsto> ''1''], locks = {}\<rparr> = (Inr ls, d') \<and>
    lease_files d' ''61.json'' = None"
proof -
  let ?d = "\<lparr>dir_exists = True, lease_files = [''61.json'' \<mapsto> ''1''], locks = {}\<rparr>"
  have "lease_at (sample_lease_env Signalled) ?d ''61.json'' = Some lease_a"
    by (simp add: lease_at_def sample_from_str)
  moreover have "extension ''61.json'' = Some ''json''" by (simp add: extension_def Let_def)
  moreover have "is_expired lease_a 2000" by (simp add: is_expired_def sample_defs)
  ultimately show ?thesis
    using listing_reports_live_leases [of ?d "[(''61.json'', 2000)]" "sample_lease_env Signalled" None]
    by auto
qed

end
