(* ===== verification/Todos.thy ===== *)
theory Todos
  imports Prelude
begin

text \<open>
  The task list of a session (\<open>crates/notagent/src/core/todos.rs\<close>): its items, the checks on a
  replacement list, the store, and the pairing of two lists by their text that the change display
  uses. The \<open>HashMap\<close> of queues is a function from texts to queues; a missing entry and an empty queue
  behave the same in the code.
\<close>

datatype TodoStatus = Pending | InProgress | Completed

fun status_as_str :: "TodoStatus \<Rightarrow> string" where
  "status_as_str Pending = ''pending''"
| "status_as_str InProgress = ''in_progress''"
| "status_as_str Completed = ''completed''"

definition TODO_STATUSES :: "TodoStatus list" where
  "TODO_STATUSES = [Pending, InProgress, Completed]"

definition status_parse :: "string \<Rightarrow> TodoStatus option" where
  "status_parse value =
    (if value = ''pending'' then Some Pending
     else if value = ''in_progress'' then Some InProgress
     else if value = ''completed'' then Some Completed
     else None)"

definition MAX_TODO_LENGTH :: nat where "MAX_TODO_LENGTH = 1000"

record Todo =
  content :: string
  active_form :: string
  todo_status :: TodoStatus

definition is_todo_active :: "Todo \<Rightarrow> bool" where
  "is_todo_active todo \<longleftrightarrow> todo_status todo \<in> {Pending, InProgress}"

fun validate_todo_items :: "Todo list \<Rightarrow> string + unit" where
  "validate_todo_items [] = Inr ()"
| "validate_todo_items (item # items) =
    (if trim (content item) = [] then Inl ''Todo content cannot be empty''
     else if length (chars (content item)) > MAX_TODO_LENGTH
       then Inl (''Todo content exceeds maximum length of '' @ show_nat MAX_TODO_LENGTH @ '' characters'')
     else if trim (active_form item) = [] then Inl ''Todo active form cannot be empty''
     else if length (chars (active_form item)) > MAX_TODO_LENGTH
       then Inl (''Todo active form exceeds maximum length of '' @ show_nat MAX_TODO_LENGTH @ '' characters'')
     else validate_todo_items items)"

record TodoStore =
  todos :: "Todo list"

definition todo_store_new :: TodoStore where "todo_store_new = \<lparr>todos = []\<rparr>"

definition active :: "TodoStore \<Rightarrow> Todo list" where
  "active store = filter is_todo_active (todos store)"

definition replace :: "Todo list \<Rightarrow> TodoStore \<Rightarrow> (string + Todo list) \<times> TodoStore" where
  "replace items store =
    (case validate_todo_items items of
       Inl e \<Rightarrow> (Inl e, store)
     | Inr _ \<Rightarrow>
       (let store = store\<lparr>todos := items\<rparr>;
            replacement = todos store
        in (Inr replacement,
            if todos store \<noteq> [] \<and> list_all (\<lambda>todo. todo_status todo = Completed) (todos store)
            then store\<lparr>todos := []\<rparr> else store)))"

definition clear_todos :: "TodoStore \<Rightarrow> TodoStore" where "clear_todos store = store\<lparr>todos := []\<rparr>"

subsection \<open>Pairing\<close>

record TodoPairing =
  paired_with :: "nat option list"
  unpaired_before :: "nat list"

definition index_queues :: "Todo list \<Rightarrow> string \<Rightarrow> nat list" where
  "index_queues before =
    fold (\<lambda>(index, todo) queues. queues(content todo := queues (content todo) @ [index]))
      (enumerate 0 before) (\<lambda>_. [])"

fun pair_loop :: "Todo list \<Rightarrow> (string \<Rightarrow> nat list) \<Rightarrow> bool list \<Rightarrow> nat option list \<times> bool list" where
  "pair_loop [] queues paired_before = ([], paired_before)"
| "pair_loop (todo # after) queues paired_before =
    (case queues (content todo) of
       [] \<Rightarrow> (let (rest, paired) = pair_loop after queues paired_before in (None # rest, paired))
     | index # queue \<Rightarrow>
         (let (rest, paired) = pair_loop after (queues(content todo := queue)) (paired_before[index := True])
          in (Some index # rest, paired)))"

definition pair_todos_by_content :: "Todo list \<Rightarrow> Todo list \<Rightarrow> TodoPairing" where
  "pair_todos_by_content before after =
    (let (paired, paired_before) =
           pair_loop after (index_queues before) (replicate (length before) False)
     in \<lparr>paired_with = paired,
         unpaired_before = List.map_filter (\<lambda>(index, paired). if \<not> paired then Some index else None)
           (enumerate 0 paired_before)\<rparr>)"

subsection \<open>The store\<close>

lemma status_parse_as_str: "status_parse (status_as_str s) = Some s"
  by (cases s) (simp_all add: status_parse_def)

definition valid_item :: "Todo \<Rightarrow> bool" where
  "valid_item item \<longleftrightarrow>
    trim (content item) \<noteq> [] \<and> length (chars (content item)) \<le> MAX_TODO_LENGTH \<and>
    trim (active_form item) \<noteq> [] \<and> length (chars (active_form item)) \<le> MAX_TODO_LENGTH"

lemma validate_ok_iff: "validate_todo_items items = Inr () \<longleftrightarrow> list_all valid_item items"
  by (induction items rule: validate_todo_items.induct) (simp_all add: valid_item_def not_less)

lemma validate_cases: "is_ok (validate_todo_items items) \<longleftrightarrow> list_all valid_item items"
  using validate_ok_iff [of items] by (cases "validate_todo_items items") auto

subsection \<open>The pairing\<close>

text \<open>The positions of a text in a list, in order, and how often it occurs in a prefix.\<close>

definition occurrences :: "string \<Rightarrow> Todo list \<Rightarrow> nat list" where
  "occurrences k xs = filter (\<lambda>i. content (xs ! i) = k) [0..<length xs]"

definition seen :: "string \<Rightarrow> Todo list \<Rightarrow> nat" where
  "seen k xs = length (filter (\<lambda>t. content t = k) xs)"

lemma occurrences_snoc:
  "occurrences k (xs @ [t]) = occurrences k xs @ (if content t = k then [length xs] else [])"
proof -
  have "filter (\<lambda>i. content ((xs @ [t]) ! i) = k) [0..<length xs] = filter (\<lambda>i. content (xs ! i) = k) [0..<length xs]"
    by (rule filter_cong) (simp_all add: nth_append)
  then show ?thesis by (simp add: occurrences_def nth_append)
qed

lemma index_queues_occurrences: "index_queues before = (\<lambda>k. occurrences k before)"
proof (induction before rule: rev_induct)
  case Nil
  then show ?case by (simp add: index_queues_def occurrences_def)
next
  case (snoc t before)
  have "index_queues (before @ [t]) =
      (index_queues before)(content t := index_queues before (content t) @ [length before])"
    by (simp add: index_queues_def enumerate_append_eq)
  then show ?case using snoc by (auto simp: occurrences_snoc)
qed

lemma occurrences_distinct: "distinct (occurrences k xs)"
  by (simp add: occurrences_def)

lemma occurrences_in: "i \<in> set (occurrences k xs) \<longleftrightarrow> i < length xs \<and> content (xs ! i) = k"
  by (auto simp: occurrences_def)

definition pick :: "nat list \<Rightarrow> nat \<Rightarrow> nat option" where
  "pick xs r = (if r < length xs then Some (xs ! r) else None)"

lemma pair_loop_fst:
  "length (fst (pair_loop after queues paired)) = length after \<and>
   (\<forall>j<length after. fst (pair_loop after queues paired) ! j =
      pick (queues (content (after ! j))) (seen (content (after ! j)) (take j after)))"
proof (induction after queues paired rule: pair_loop.induct)
  case (2 todo after queues paired)
  show ?case
  proof (cases "queues (content todo)")
    case Nil
    then show ?thesis using 2(1) [OF Nil]
      by (auto simp: case_prod_unfold Let_def nth_Cons seen_def pick_def split: nat.splits)
  next
    case (Cons index queue)
    have len: "length (fst (pair_loop after (queues(content todo := queue)) (paired[index := True]))) = length after"
      and IH: "\<And>j. j < length after \<Longrightarrow> fst (pair_loop after (queues(content todo := queue)) (paired[index := True])) ! j =
        pick ((queues(content todo := queue)) (content (after ! j))) (seen (content (after ! j)) (take j after))"
      using 2(2) [OF Cons] by blast+
    have "fst (pair_loop (todo # after) queues paired) =
        Some index # fst (pair_loop after (queues(content todo := queue)) (paired[index := True]))"
      using Cons by (simp add: case_prod_unfold Let_def)
    moreover have "pick (queues (content ((todo # after) ! j))) (seen (content ((todo # after) ! j)) (take j (todo # after))) =
        (Some index # fst (pair_loop after (queues(content todo := queue)) (paired[index := True]))) ! j"
      if "j < length (todo # after)" for j
      using that Cons IH by (cases j) (auto simp: seen_def pick_def)
    ultimately show ?thesis using len by simp
  qed
qed simp

lemma pair_loop_snd:
  "length (snd (pair_loop after queues paired)) = length paired \<and>
   (\<forall>i<length paired. snd (pair_loop after queues paired) ! i \<longleftrightarrow>
      paired ! i \<or> Some i \<in> set (fst (pair_loop after queues paired)))"
proof (induction after queues paired rule: pair_loop.induct)
  case (2 todo after queues paired)
  show ?case
  proof (cases "queues (content todo)")
    case Nil
    then show ?thesis using 2(1) [OF Nil] by (simp add: case_prod_unfold Let_def)
  next
    case (Cons index queue)
    define loop where "loop = pair_loop after (queues(content todo := queue)) (paired[index := True])"
    have IH: "length (snd loop) = length paired"
      "\<And>i. i < length paired \<Longrightarrow> snd loop ! i \<longleftrightarrow> paired[index := True] ! i \<or> Some i \<in> set (fst loop)"
      using 2(2) [OF Cons] unfolding loop_def length_list_update by blast+
    have "pair_loop (todo # after) queues paired = (Some index # fst loop, snd loop)"
      using Cons by (simp add: case_prod_unfold Let_def loop_def)
    moreover have "paired[index := True] ! i \<longleftrightarrow> i = index \<or> paired ! i" if "i < length paired" for i
      using that by (cases "i = index") simp_all
    ultimately show ?thesis using IH by (auto simp del: pair_loop.simps)
  qed
qed simp

lemma pick_occurrences:
  "pick (occurrences k xs) r = Some i \<longleftrightarrow> i < length xs \<and> content (xs ! i) = k \<and> seen k (take i xs) = r"
  and length_occurrences: "length (occurrences k xs) = seen k xs"
proof (induction xs arbitrary: i r rule: rev_induct)
  case Nil
  { case 1 show ?case by (simp add: occurrences_def pick_def) }
  { case 2 show ?case by (simp add: occurrences_def seen_def) }
next
  case (snoc t xs)
  have len: "length (occurrences k (xs @ [t])) = seen k (xs @ [t])"
    using snoc(2) by (simp add: occurrences_snoc seen_def)
  { case 1
    show ?case
    proof (cases "i < length xs")
      case True
      have "pick (occurrences k (xs @ [t])) r = Some i \<longleftrightarrow> pick (occurrences k xs) r = Some i"
        using True by (auto simp: occurrences_snoc pick_def nth_append dest: less_SucI)
      then show ?thesis using True snoc(1) [of r i] by (simp add: nth_append)
    next
      case False
      have "pick (occurrences k xs) r \<noteq> Some i" using False snoc(1) [of r i] by simp
      then have "pick (occurrences k (xs @ [t])) r = Some i \<longleftrightarrow>
          i = length xs \<and> content t = k \<and> r = length (occurrences k xs)"
        by (auto simp: occurrences_snoc pick_def nth_append less_Suc_eq split: if_splits)
      then show ?thesis using False snoc(2) by (auto simp: nth_append)
    qed }
  { case 2 show ?case by (rule len) }
qed

lemma mem_map_upt: "y \<in> set (map f [0..<n]) \<longleftrightarrow> (\<exists>j<n. f j = y)"
  by auto

lemma paired_iff:
  assumes "i < length before"
  shows "Some i \<in> set (map (\<lambda>j. pick (occurrences (content (after ! j)) before) (seen (content (after ! j)) (take j after))) [0..<length after])
    \<longleftrightarrow> seen (content (before ! i)) (take i before) < seen (content (before ! i)) after"
proof -
  let ?k = "content (before ! i)" let ?r = "seen ?k (take i before)"
  have "(\<exists>j<length after. pick (occurrences (content (after ! j)) before) (seen (content (after ! j)) (take j after)) = Some i)
      \<longleftrightarrow> (\<exists>j<length after. content (after ! j) = ?k \<and> seen ?k (take j after) = ?r)"
    using assms by (auto simp: pick_occurrences)
  also have "\<dots> \<longleftrightarrow> (\<exists>j. pick (occurrences ?k after) ?r = Some j)" by (simp add: pick_occurrences)
  also have "\<dots> \<longleftrightarrow> ?r < seen ?k after" by (simp add: pick_def length_occurrences)
  finally show ?thesis unfolding mem_map_upt .
qed

lemma map_filter_enumerate:
  "List.map_filter (\<lambda>(index, paired). if \<not> paired then Some index else None) (enumerate n bs) =
   filter (\<lambda>i. \<not> bs ! (i - n)) [n..<n + length bs]"
proof (induction bs arbitrary: n)
  case (Cons b bs)
  have "filter (\<lambda>i. \<not> (b # bs) ! (i - n)) [Suc n..<Suc n + length bs] = filter (\<lambda>i. \<not> bs ! (i - Suc n)) [Suc n..<Suc n + length bs]"
    by (rule filter_cong) (auto simp: nth_Cons' Suc_diff_le)
  moreover have "[n..<n + length (b # bs)] = n # [Suc n..<Suc n + length bs]"
    using upt_conv_Cons [of n "n + length (b # bs)"] by simp
  moreover have "List.map_filter (\<lambda>(index, paired). if \<not> paired then Some index else None) (enumerate n (b # bs)) =
      (if \<not> b then [n] else []) @
      List.map_filter (\<lambda>(index, paired). if \<not> paired then Some index else None) (enumerate (Suc n) bs)"
    by (simp add: List.map_filter_def)
  ultimately show ?case unfolding Cons by (cases b) (simp_all del: upt_Suc)
qed (simp add: List.map_filter_def)

text \<open>
  Two task lists are paired occurrence by occurrence: the entry at position \<open>j\<close> of the new list
  whose text occurred \<open>r\<close> times before it is paired with the \<open>r\<close>-th entry of the old list with that
  text, if the old list has that many; and the old entries reported as unpaired are exactly those
  whose rank among equal texts the new list does not reach, in order.
\<close>

theorem todo_pairing_by_occurrence:
  "pair_todos_by_content before after =
    \<lparr>paired_with = map (\<lambda>j. pick (occurrences (content (after ! j)) before) (seen (content (after ! j)) (take j after)))
       [0..<length after],
     unpaired_before = filter (\<lambda>i. seen (content (before ! i)) after \<le> seen (content (before ! i)) (take i before))
       [0..<length before]\<rparr>"
proof -
  let ?loop = "pair_loop after (index_queues before) (replicate (length before) False)"
  have fst: "fst ?loop = map (\<lambda>j. pick (occurrences (content (after ! j)) before) (seen (content (after ! j)) (take j after)))
       [0..<length after]"
    using pair_loop_fst [of after "index_queues before" "replicate (length before) False"]
    by (intro nth_equalityI) (simp_all add: index_queues_occurrences)
  have snd: "length (snd ?loop) = length before"
      "\<And>i. i < length before \<Longrightarrow> snd ?loop ! i \<longleftrightarrow> Some i \<in> set (fst ?loop)"
    using pair_loop_snd [of after "index_queues before" "replicate (length before) False"] by simp_all
  have "filter (\<lambda>i. \<not> snd ?loop ! i) [0..<length before] =
      filter (\<lambda>i. seen (content (before ! i)) after \<le> seen (content (before ! i)) (take i before)) [0..<length before]"
    using snd(2) paired_iff [of _ before after] by (intro filter_cong) (auto simp: fst not_less simp del: set_map)
  then show ?thesis
    using fst snd(1) map_filter_enumerate [of 0 "snd ?loop"]
    by (simp add: pair_todos_by_content_def case_prod_unfold Let_def)
qed

end
