(* ===== verification/Goal_Proofs.thy ===== *)
theory Goal_Proofs
  imports Goal
begin

text \<open>
  What the goal feature promises: the invariant of a session's goal under every command, tool call
  and turn end; the bound on automatic reminders; the completion guard over a series of claims; the
  round trip of the \<open>/goal\<close> grammar; and two behaviours the comments do not describe.
\<close>

subsection \<open>The goal of a session\<close>

definition positive :: "int option \<Rightarrow> bool" where
  "positive v \<longleftrightarrow> (case v of None \<Rightarrow> True | Some b \<Rightarrow> 0 < b)"

definition goal_ok :: "ThreadGoal \<Rightarrow> bool" where
  "goal_ok g \<longleftrightarrow>
    (goal_status g = Active \<longrightarrow> exhausted_budget g = None) \<and>
    (blocked_reason g \<noteq> None \<longleftrightarrow> goal_status g = Blocked) \<and>
    objective g \<noteq> [] \<and> length (chars (objective g)) \<le> MAX_THREAD_GOAL_OBJECTIVE_CHARS \<and>
    positive (token_budget g) \<and> positive (turn_budget g) \<and> 0 \<le> tokens_used g \<and> 0 \<le> turns_used g"

text \<open>Everything that changes a session's goal, in any order.\<close>

inductive goal_session :: "GoalState \<Rightarrow> bool" where
  start: "goal_session goal_state_default"
| command: "goal_session st \<Longrightarrow> goal_session (snd (handle_goal_command argument st))"
| create: "goal_session st \<Longrightarrow> snd (run_create params (Some st)) = Some st' \<Longrightarrow> goal_session st'"
| update: "goal_session st \<Longrightarrow> snd (run_update params items (Some st)) = Some st' \<Longrightarrow> goal_session st'"
| turn_end: "goal_session st \<Longrightarrow> goal_session (snd (drive_active_goal now spent_tokens messages st))"

lemma exhausted_status [simp]:
  "exhausted_budget (g\<lparr>goal_status := s\<rparr>) = exhausted_budget g"
  "exhausted_budget (g\<lparr>blocked_reason := r\<rparr>) = exhausted_budget g"
  "exhausted_budget (g\<lparr>strict := b\<rparr>) = exhausted_budget g"
  by (simp_all add: exhausted_budget_def split: option.splits)

text \<open>Apart from the budget, everything holds before \<open>apply_budget_limit\<close>; it settles the budget.\<close>

lemma apply_budget_limit_ok:
  assumes "goal_ok (g\<lparr>goal_status := BudgetLimited\<rparr>)" and "goal_status g \<noteq> Blocked"
  shows "goal_ok (apply_budget_limit g)"
  using assms by (cases "goal_status g") (auto simp: goal_ok_def apply_budget_limit_def)

lemma validate_budget_positive: "validate_goal_budget v = Inr u \<Longrightarrow> positive v"
  by (auto simp: validate_goal_budget_def positive_def split: option.splits if_splits)

lemma goal_new_ok:
  assumes "validate_thread_goal_objective obj = Inr u" and "validate_goal_budget tokens = Inr u'"
    and "validate_goal_budget turns = Inr u''"
  shows "goal_ok (goal_new obj tokens turns)"
  unfolding goal_new_def
  using assms validate_budget_positive
  by (intro apply_budget_limit_ok) (auto simp: goal_ok_def validate_thread_goal_objective_def split: if_splits)

lemma goal_ok_operations:
  assumes "goal_ok g"
  shows "goal_ok (set_strict b g)" and "goal_ok (mark_complete g)" and "goal_ok (mark_blocked r g)"
    and "goal_ok (pause g)"
  using assms by (auto simp: goal_ok_def set_strict_def mark_complete_def mark_blocked_def pause_def)

lemma resume_ok: "goal_ok g \<Longrightarrow> goal_ok (resume g)"
proof (cases "goal_status g \<in> {Paused, Blocked}")
  case True
  assume "goal_ok g"
  then have "goal_ok (apply_budget_limit (g\<lparr>goal_status := Active, blocked_reason := None\<rparr>))"
    by (intro apply_budget_limit_ok) (simp_all add: goal_ok_def)
  then show ?thesis using True by (simp add: resume_def)
next
  case False
  then show "goal_ok g \<Longrightarrow> ?thesis" by (simp add: resume_def)
qed

lemma apply_budget_limit_keeps:
  assumes "goal_ok (g\<lparr>goal_status := BudgetLimited, blocked_reason := None\<rparr>)"
    and "blocked_reason g \<noteq> None \<longleftrightarrow> goal_status g = Blocked"
  shows "goal_ok (apply_budget_limit g)"
  using assms by (auto simp: goal_ok_def apply_budget_limit_def)

lemma observe_turn_ok: "goal_ok g \<Longrightarrow> goal_ok (observe_turn g)"
  unfolding observe_turn_def
  by (rule apply_budget_limit_keeps) (auto simp: goal_ok_def i64_saturating_add_def I64_MIN_def I64_MAX_def)

lemma observe_total_tokens_ok: "goal_ok g \<Longrightarrow> goal_ok (observe_total_tokens spent_tokens g)"
  unfolding observe_total_tokens_def Let_def by (rule apply_budget_limit_keeps) (auto simp: goal_ok_def)

lemma parse_create_valid:
  assumes "parse_goal_command args = Create obj tokens turns rep is_strict"
  shows "validate_thread_goal_objective obj = Inr ()" and "validate_goal_budget tokens = Inr ()"
    and "validate_goal_budget turns = Inr ()"
proof -
  obtain rest where "(case parse_words (split_whitespace rest) None None [] of
                Inl message \<Rightarrow> Invalid message
              | Inr (tokens, turns, ws) \<Rightarrow>
                  let obj = join '' '' ws
                  in if obj = []
                     then Invalid ''Usage: /goal [replace] [strict] <objective> [--turns N] [--tokens N]''
                     else (case validate_thread_goal_objective obj of
                             Inl message \<Rightarrow> Invalid message
                           | Inr _ \<Rightarrow>
                     (case validate_goal_budget tokens of
                        Inl message \<Rightarrow> Invalid message
                      | Inr _ \<Rightarrow>
                     (case validate_goal_budget turns of
                        Inl message \<Rightarrow> Invalid message
                      | Inr _ \<Rightarrow> Create obj tokens turns (fst (snd (strip_keywords (trim args) False False)))
                          (snd (snd (strip_keywords (trim args) False False))))))) = Create obj tokens turns rep is_strict"
    using assms unfolding parse_goal_command_def Let_def case_prod_unfold by (auto split: if_splits)
  then show "validate_thread_goal_objective obj = Inr ()" and "validate_goal_budget tokens = Inr ()"
    and "validate_goal_budget turns = Inr ()"
    by (auto simp: Let_def split: sum.splits prod.splits if_splits)
qed

definition state_ok :: "GoalState \<Rightarrow> bool" where
  "state_ok st \<longleftrightarrow> (case goal st of None \<Rightarrow> True | Some g \<Rightarrow> goal_ok g)"

lemma handle_goal_command_ok: "state_ok st \<Longrightarrow> state_ok (snd (handle_goal_command argument st))"
proof (cases "parse_goal_command (case argument of None \<Rightarrow> [] | Some a \<Rightarrow> a)")
  case (Create obj tokens turns rep is_strict)
  assume "state_ok st"
  moreover have "goal_ok (set_strict is_strict (goal_new obj tokens turns))"
    using parse_create_valid [OF Create] by (simp add: goal_new_ok goal_ok_operations)
  ultimately show ?thesis
    using Create by (auto simp: handle_goal_command_def state_ok_def Let_def split: option.splits)
qed (auto simp: handle_goal_command_def state_ok_def goal_ok_operations resume_ok split: option.splits)

lemma run_create_ok: "state_ok st \<Longrightarrow> snd (run_create params (Some st)) = Some st' \<Longrightarrow> state_ok st'"
  by (auto simp: run_create_def state_ok_def Let_def goal_new_ok split: sum.splits if_splits)

lemma run_update_ok: "state_ok st \<Longrightarrow> snd (run_update params items (Some st)) = Some st' \<Longrightarrow> state_ok st'"
  by (auto simp: run_update_def state_ok_def Let_def case_prod_unfold goal_ok_operations
      split: sum.splits if_splits option.splits CompletionVerdict.splits)

lemma drive_ok: "state_ok st \<Longrightarrow> state_ok (snd (drive_active_goal now spent_tokens messages st))"
  by (auto simp: drive_active_goal_def state_ok_def Let_def case_prod_unfold observe_turn_ok observe_total_tokens_ok
      split: option.splits)

lemma goal_session_ok: "goal_session st \<Longrightarrow> state_ok st"
proof (induction rule: goal_session.induct)
  case start
  then show ?case by (simp add: state_ok_def goal_state_default_def)
qed (auto intro: handle_goal_command_ok run_create_ok run_update_ok drive_ok)

text \<open>
  C30: Whatever sequence of \<open>/goal\<close> commands, goal tool calls and turn ends a session goes through, its
  goal is well formed: an active goal is within both of its budgets (no work under an exhausted
  budget), a block reason is present exactly when the goal is blocked, the objective is non-empty and
  within its limit, budgets are positive, and the counters are not negative.
\<close>

theorem session_goal_is_well_formed:
  assumes "goal_session st" and "goal st = Some g"
  shows "goal_ok g"
  using goal_session_ok [OF assms(1)] assms(2) by (simp add: state_ok_def)

definition sample_params :: Json where
  "sample_params = JObject [(''objective'', JString ''ship''), (''turn_budget'', JNumber (PosInt 2))]"

lemma sample_create:
  "run_create sample_params (Some goal_state_default) =
    (Inr ''Goal set (budget 2 turns): ship'',
     Some \<lparr>goal = Some (goal_new ''ship'' None (Some 2)), completion = guard_default\<rparr>)"
proof -
  have "show_int 2 = ''2''" by (simp add: show_int_def show_nat.simps digit_char_def) code_simp
  then show ?thesis
    by (simp add: run_create_def sample_params_def goal_state_default_def Let_def text_param_def value_get_def
      json_get_def trim_def is_whitespace_def utf8_cont_def validate_thread_goal_objective_def
      validate_goal_budget_def MAX_THREAD_GOAL_OBJECTIVE_CHARS_def I64_MAX_def goal_new_def apply_budget_limit_def
      exhausted_budget_def guard_clear_def guard_default_def)
qed

theorem session_goal_is_well_formed_witness: "goal_ok (goal_new ''ship'' None (Some 2))"
proof -
  have "goal_session \<lparr>goal = Some (goal_new ''ship'' None (Some 2)), completion = guard_default\<rparr>"
    by (rule create [OF start, of sample_params]) (simp add: sample_create)
  then show ?thesis by (rule session_goal_is_well_formed) simp
qed

subsection \<open>Reminders\<close>

text \<open>
  The turn ends between two user messages: before each of them the session's goal may be anything,
  the token count anything, and any messages but a user's may have been added. A reminder is queued
  as a follow-up, which the loop appends to the transcript before the next turn. The result is the
  number of reminders sent.
\<close>

fun reminders_sent :: "int \<Rightarrow> (GoalState \<times> nat \<times> AgentMessage list) list \<Rightarrow> AgentMessage list \<Rightarrow> nat" where
  "reminders_sent now [] messages = 0"
| "reminders_sent now ((st, spent_tokens, added) # turns) messages =
    (case fst (drive_active_goal now spent_tokens (messages @ added) st) of
       None \<Rightarrow> reminders_sent now turns (messages @ added)
     | Some reminder \<Rightarrow> Suc (reminders_sent now turns (messages @ added @ [reminder])))"

definition allowance :: "AgentMessage list \<Rightarrow> nat" where
  "allowance messages =
    (MAX_CONTINUATIONS_PER_TURN - fst (goal_reminders_standing messages))
    + (if snd (goal_reminders_standing messages) then 0 else 1)"

lemma since_user_snoc: "\<not> is_user m \<Longrightarrow> since_user (messages @ [m]) = since_user messages @ [m]"
  by (simp add: since_user_def)

lemma standing_snoc:
  assumes "\<not> is_user m"
  shows "goal_reminders_standing (messages @ [m]) =
    (let (c, w) = goal_reminders_standing messages
     in case reminder_kind m of None \<Rightarrow> (c, w)
        | Some kind \<Rightarrow> if kind = GOAL_REMINDER_CONTINUATION then (c + 1, w)
            else if kind = GOAL_REMINDER_WRAP_UP then (c, True) else (c, w))"
  using assms by (simp add: goal_reminders_standing_def since_user_snoc case_prod_unfold Let_def)

lemma allowance_snoc: "\<not> is_user m \<Longrightarrow> allowance (messages @ [m]) \<le> allowance messages"
  by (auto simp: allowance_def standing_snoc Let_def case_prod_unfold split: option.splits)

lemma allowance_append: "list_all (\<lambda>m. \<not> is_user m) added \<Longrightarrow> allowance (messages @ added) \<le> allowance messages"
proof (induction added rule: rev_induct)
  case (snoc m added)
  then show ?case using allowance_snoc [of m "messages @ added"] by fastforce
qed simp

lemma reminder_kind_goal_reminder: "reminder_kind (goal_reminder now body kind) = Some kind"
  by (simp add: reminder_kind_def goal_reminder_def value_get_def json_get_def)

lemma reminder_not_user: "\<not> is_user (goal_reminder now body kind)"
  by (simp add: goal_reminder_def is_user_def)

lemma drive_uses_allowance:
  assumes "fst (drive_active_goal now spent_tokens messages st) = Some reminder"
  shows "\<not> is_user reminder" and "allowance (messages @ [reminder]) < allowance messages"
proof -
  obtain g where g: "goal st = Some g" using assms by (cases "goal st") (simp_all add: drive_active_goal_def)
  define g' where "g' = observe_turn (observe_total_tokens (goal_token_total spent_tokens) g)"
  obtain c w where s: "goal_reminders_standing messages = (c, w)" by fastforce
  have r: "(case nudge_for g' c w of
               Continue body \<Rightarrow> Some (goal_reminder now body GOAL_REMINDER_CONTINUATION)
             | WrapUp body \<Rightarrow> Some (goal_reminder now body GOAL_REMINDER_WRAP_UP)
             | NoNudge \<Rightarrow> None) = Some reminder"
    using assms g s by (simp add: drive_active_goal_def g'_def Let_def)
  have "\<not> is_user reminder \<and> allowance (messages @ [reminder]) < allowance messages"
  proof (cases "nudge_for g' c w")
    case (Continue body)
    then have "c < MAX_CONTINUATIONS_PER_TURN" by (simp add: nudge_for_def split: if_splits)
    then show ?thesis using Continue r s
      by (auto simp: allowance_def standing_snoc [OF reminder_not_user] reminder_kind_goal_reminder reminder_not_user)
  next
    case (WrapUp body)
    then have "\<not> w" by (simp add: nudge_for_def split: if_splits)
    then show ?thesis using WrapUp r s
      by (auto simp: allowance_def standing_snoc [OF reminder_not_user] reminder_kind_goal_reminder reminder_not_user
          GOAL_REMINDER_CONTINUATION_def GOAL_REMINDER_WRAP_UP_def)
  qed (use r in simp)
  then show "\<not> is_user reminder" and "allowance (messages @ [reminder]) < allowance messages" by blast+
qed

lemma reminders_sent_le:
  assumes "list_all (\<lambda>(st, spent_tokens, added). list_all (\<lambda>m. \<not> is_user m) added) turns"
  shows "reminders_sent now turns messages \<le> allowance messages"
  using assms
proof (induction now turns messages rule: reminders_sent.induct)
  case (2 now st spent_tokens added turns messages)
  have le: "allowance (messages @ added) \<le> allowance messages" using 2 by (intro allowance_append) simp
  show ?case
  proof (cases "fst (drive_active_goal now spent_tokens (messages @ added) st)")
    case None
    then show ?thesis using 2 le by simp
  next
    case (Some reminder)
    then show ?thesis using 2 le drive_uses_allowance [OF Some] by (simp add: case_prod_unfold)
  qed
qed simp


definition sample_goal_state :: GoalState where
  "sample_goal_state = \<lparr>goal = Some (goal_new ''ship'' None None), completion = guard_default\<rparr>"


subsection \<open>The completion guard\<close>

text \<open>A series of completion claims, each with the items open at that time.\<close>

fun claims :: "bool \<Rightarrow> string list list \<Rightarrow> GoalCompletionGuard \<Rightarrow> CompletionVerdict list" where
  "claims is_strict [] guard = []"
| "claims is_strict (open_items # rest) guard =
    fst (judge is_strict open_items guard) # claims is_strict rest (snd (judge is_strict open_items guard))"

lemma length_claims [simp]: "length (claims is_strict opens guard) = length opens"
  by (induction opens arbitrary: guard) simp_all

lemma strict_accept:
  assumes "n < length opens" and "claims True opens guard ! n = Accept"
  shows "opens ! n = [] \<and> (self_check_done guard \<or> (\<exists>m<n. claims True opens guard ! m = SelfCheck SELF_CHECK_REQUEST \<and> opens ! m = []))"
  using assms
proof (induction opens arbitrary: guard n)
  case (Cons open_items opens)
  show ?case
  proof (cases n)
    case 0
    then show ?thesis using Cons.prems by (auto simp: judge_def split: if_splits)
  next
    case (Suc k)
    define guard' where "guard' = snd (judge True open_items guard)"
    have IH: "opens ! k = []" "self_check_done guard' \<or>
        (\<exists>m<k. claims True opens guard' ! m = SelfCheck SELF_CHECK_REQUEST \<and> opens ! m = [])"
      using Cons.IH [of k guard'] Cons.prems Suc by (simp_all add: guard'_def)
    have "self_check_done guard' \<Longrightarrow> self_check_done guard \<or>
        fst (judge True open_items guard) = SelfCheck SELF_CHECK_REQUEST \<and> open_items = []"
      by (auto simp: guard'_def judge_def guard_clear_def split: if_splits)
    then have "self_check_done guard \<or>
        claims True (open_items # opens) guard ! 0 = SelfCheck SELF_CHECK_REQUEST \<and> (open_items # opens) ! 0 = [] \<or>
        (\<exists>m<k. claims True (open_items # opens) guard ! Suc m = SelfCheck SELF_CHECK_REQUEST \<and> (open_items # opens) ! Suc m = [])"
      using IH(2) by (auto simp: guard'_def)
    then show ?thesis using IH(1) Suc by (metis Suc_less_eq nth_Cons_Suc zero_less_Suc)
  qed
qed simp

text \<open>
  A strict goal is never finished over open work: whenever a series of claims that starts with a
  fresh guard ends in acceptance, nothing was open at that claim, and an earlier claim, also with
  nothing open, was answered with the request for a quality pass. An ordinary goal refuses a first
  claim made over open items and is not trapped: the next claim is accepted whatever is open.
\<close>

theorem completion_guard:
  assumes "n < length opens"
  shows "(claims True opens guard_default ! n = Accept \<longrightarrow>
      opens ! n = [] \<and> (\<exists>m<n. claims True opens guard_default ! m = SelfCheck SELF_CHECK_REQUEST \<and> opens ! m = [])) \<and>
    (items \<noteq> [] \<longrightarrow> claims False [items, later] guard_default = [Refuse (refusal_message False items), Accept])"
  using strict_accept [OF assms, of guard_default] by (auto simp: guard_default_def judge_def)

theorem completion_guard_witness:
  "claims True [[], []] guard_default ! 1 = Accept \<and>
   (\<exists>m<(1::nat). claims True [[], []] guard_default ! m = SelfCheck SELF_CHECK_REQUEST) \<and>
   claims False [[''test''], [''test'']] guard_default = [Refuse (refusal_message False [''test'']), Accept]"
proof -
  have "claims True [[], []] guard_default ! 1 = Accept" by (simp add: judge_def guard_default_def)
  then show ?thesis using completion_guard [of 1 "[[], []]" "[''test'']" "[''test'']"] by auto
qed

subsection \<open>The grammar of the command\<close>

definition graphic :: "char \<Rightarrow> bool" where
  "graphic c \<longleftrightarrow> 33 \<le> (of_char c :: nat) \<and> (of_char c :: nat) \<le> 126"

definition word :: "string \<Rightarrow> bool" where "word w \<longleftrightarrow> w \<noteq> [] \<and> list_all graphic w"

definition ascii :: "string \<Rightarrow> bool" where "ascii s \<longleftrightarrow> list_all (\<lambda>c. (of_char c :: nat) < 128) s"

lemma chars_ascii: "ascii s \<Longrightarrow> chars s = map (\<lambda>c. [c]) s"
proof (induction s)
  case (Cons c s)
  then have "takeWhile (\<lambda>x. utf8_cont (of_char x)) s = [] \<and> dropWhile (\<lambda>x. utf8_cont (of_char x)) s = s"
    by (cases s) (auto simp: ascii_def utf8_cont_def)
  then show ?case using Cons by (simp add: ascii_def)
qed simp

lemma graphic_not_whitespace: "graphic c \<Longrightarrow> \<not> is_whitespace [c]"
  by (simp add: graphic_def is_whitespace_def)

lemma blank_whitespace [simp]: "is_whitespace '' ''"
  by (simp add: is_whitespace_def)

lemma word_ascii: "list_all graphic w \<Longrightarrow> ascii w"
  by (auto simp: ascii_def graphic_def list_all_iff)

lemma join_ascii: "list_all word ws \<Longrightarrow> ascii (join '' '' ws)"
  by (induction "'' ''" ws rule: join.induct) (auto simp: word_def ascii_def graphic_def list_all_iff)

lemma join_Cons: "ws \<noteq> [] \<Longrightarrow> join sep (w # ws) = w @ sep @ join sep ws"
  by (cases ws) simp_all

lemma join_ends:
  assumes "list_all word ws" and "ws \<noteq> []"
  shows "join '' '' ws \<noteq> []" and "graphic (hd (join '' '' ws))" and "graphic (last (join '' '' ws))"
proof -
  have "join '' '' ws \<noteq> [] \<and> graphic (hd (join '' '' ws)) \<and> graphic (last (join '' '' ws))"
    using assms
  proof (induction ws)
    case (Cons w ws)
    have w: "w \<noteq> []" "graphic (hd w)" "graphic (last w)"
      using Cons.prems by (auto simp: word_def list_all_iff)
    show ?case
    proof (cases "ws = []")
      case False
      then show ?thesis using Cons w by (simp add: join_Cons)
    qed (use w in simp)
  qed simp
  then show "join '' '' ws \<noteq> []" and "graphic (hd (join '' '' ws))" and "graphic (last (join '' '' ws))"
    by blast+
qed

lemma trim_text:
  assumes "ascii s" and "s \<noteq> []" and "graphic (hd s)" and "graphic (last s)"
  shows "trim s = s"
proof -
  have 1: "dropWhile is_whitespace (map (\<lambda>c. [c]) s) = map (\<lambda>c. [c]) s"
    using assms(2,3) by (cases s) (simp_all add: graphic_not_whitespace)
  have 2: "dropWhile is_whitespace (rev (map (\<lambda>c. [c]) s)) = rev (map (\<lambda>c. [c]) s)"
    using assms(2,4) by (cases s rule: rev_cases) (simp_all add: graphic_not_whitespace)
  show ?thesis unfolding trim_def chars_ascii [OF assms(1)] 1 2 by (simp add: concat_map_singleton)
qed

lemma trim_start_text:
  assumes "ascii s" and "s \<noteq> []" and "graphic (hd s)"
  shows "trim_start (CHR '' '' # s) = s"
proof -
  have "ascii (CHR '' '' # s)" using assms(1) by (simp add: ascii_def)
  moreover have "dropWhile is_whitespace (map (\<lambda>c. [c]) s) = map (\<lambda>c. [c]) s"
    using assms(2,3) by (cases s) (simp_all add: graphic_not_whitespace)
  ultimately show ?thesis by (simp add: trim_start_def chars_ascii concat_map_singleton del: chars.simps)
qed

lemma split_ws_word:
  "list_all graphic w \<Longrightarrow> split_ws_aux (map (\<lambda>c. [c]) w @ rest) acc = split_ws_aux rest (acc @ w)"
  by (induction w arbitrary: acc) (simp_all add: graphic_not_whitespace)

lemma split_whitespace_join: "list_all word ws \<Longrightarrow> split_whitespace (join '' '' ws) = ws"
proof -
  assume a: "list_all word ws"
  have "split_ws_aux (map (\<lambda>c. [c]) (join '' '' ws)) [] = ws"
    using a
  proof (induction ws)
    case (Cons w ws)
    show ?case
    proof (cases "ws = []")
      case True
      then show ?thesis using Cons.prems split_ws_word [of w "[]" "[]"] by (simp add: word_def)
    next
      case False
      then show ?thesis using Cons split_ws_word [of w "'' '' # map (\<lambda>c. [c]) (join '' '' ws)" "[]"]
        by (simp add: join_Cons word_def)
    qed
  qed simp
  then show ?thesis using chars_ascii [OF join_ascii [OF a]] by (simp add: split_whitespace_def)
qed

lemma strip_keyword_match:
  assumes "list_all word ws" and "ws \<noteq> []"
  shows "strip_keyword (join '' '' (k # ws)) k = Some (join '' '' ws)"
proof -
  have "ascii (CHR '' '' # join '' '' ws)" using join_ascii [OF assms(1)] by (simp add: ascii_def)
  then show ?thesis
    using assms trim_start_text [OF join_ascii [OF assms(1)] join_ends(1,2) [OF assms]]
    by (simp add: strip_keyword_def strip_prefix_def starts_with_def join_Cons chars_ascii del: chars.simps)
qed

lemma strip_keyword_other:
  assumes "list_all word (w # ws)" and "word k" and "w \<noteq> k"
  shows "strip_keyword (join '' '' (w # ws)) k = None"
proof (cases "starts_with (join '' '' (w # ws)) k")
  case True
  obtain tail where j: "join '' '' (w # ws) = w @ tail" and tail: "tail = [] \<or> hd tail = CHR '' ''"
    by (cases ws) simp_all
  have le: "length k \<le> length w"
  proof (rule ccontr)
    assume n: "\<not> length k \<le> length w"
    then have "tail \<noteq> []" using True j by (auto simp: starts_with_def dest: arg_cong [where f = length])
    then obtain t where "tail = CHR '' '' # t" using tail by (cases tail) auto
    then have "k = w @ take (length k - length w) (CHR '' '' # t)" using True n j by (simp add: starts_with_def)
    moreover obtain m where "length k - length w = Suc m" using n by (cases "length k - length w") auto
    ultimately have "k ! length w = CHR '' ''" by (metis nth_append_length take_Suc_Cons)
    moreover have "graphic (k ! length w)" using assms(2) n by (simp add: word_def list_all_length)
    ultimately show False by (simp add: graphic_def)
  qed
  then obtain w' where w: "w = k @ w'" using True j
    by (metis append_take_drop_id starts_with_def take_append diff_is_0_eq take0 append_Nil2)
  then have "w' \<noteq> []" using assms(3) by simp
  then obtain c cs where w': "w' = c # cs" by (cases w') auto
  have "graphic c" using assms(1) w w' by (simp add: word_def)
  moreover have "ascii (w' @ tail)" using join_ascii [OF assms(1)] j w by (simp add: ascii_def)
  ultimately show ?thesis using True j w w'
    by (simp add: strip_keyword_def strip_prefix_def chars_ascii graphic_not_whitespace del: chars.simps)
qed (simp add: strip_keyword_def strip_prefix_def)

definition plain :: "string \<Rightarrow> bool" where
  "plain w \<longleftrightarrow> word w \<and> takeWhile (\<lambda>c. c \<noteq> CHR ''='') w \<notin> {''--turns'', ''--tokens''}"

definition budget_words :: "string \<Rightarrow> int option \<Rightarrow> string list" where
  "budget_words name v = (case v of None \<Rightarrow> [] | Some b \<Rightarrow> [name, show_int b])"

text \<open>How a user writes a create: the keywords, the words of the objective, the budgets.\<close>

definition command_text :: "bool \<Rightarrow> bool \<Rightarrow> string list \<Rightarrow> int option \<Rightarrow> int option \<Rightarrow> string" where
  "command_text rep is_strict ws tokens turns =
    join '' '' ((if rep then [''replace''] else []) @ (if is_strict then [''strict''] else [])
      @ ws @ budget_words ''--tokens'' tokens @ budget_words ''--turns'' turns)"

definition budget_range :: "int option \<Rightarrow> bool" where
  "budget_range v \<longleftrightarrow> (case v of None \<Rightarrow> True | Some b \<Rightarrow> 0 < b \<and> b \<le> I64_MAX)"

lemma digit_graphic: "is_digit c \<Longrightarrow> graphic c"
  by (simp add: is_digit_def graphic_def)

lemma word_show_int: "0 \<le> b \<Longrightarrow> word (show_int b)"
  using show_nat_digits(1) [of "nat b"]
  by (auto simp: word_def show_int_def list_all_iff intro: digit_graphic)

lemma filter_digits: "list_all is_digit ds \<Longrightarrow> filter (\<lambda>c. c \<noteq> CHR ''_'' \<and> c \<noteq> CHR '','') ds = ds"
  by (auto simp: filter_id_conv list_all_iff is_digit_def)

lemma digits_no_sign: "list_all is_digit ds \<Longrightarrow> \<not> starts_with ds ''-'' \<and> \<not> starts_with ds ''+''"
  by (cases ds) (auto simp: starts_with_def is_digit_def)

lemma parse_i64_show:
  assumes "0 \<le> b" and "b \<le> I64_MAX"
  shows "parse_i64 (filter (\<lambda>c. c \<noteq> CHR ''_'' \<and> c \<noteq> CHR '','') (show_int b)) = Some b"
proof -
  have "show_int b = show_nat (nat b)" using assms(1) by (simp add: show_int_def)
  moreover have "is_i64 b" using assms by (simp add: is_i64_def I64_MIN_def)
  ultimately show ?thesis
    using assms(1) by (simp add: filter_digits parse_i64_def digits_no_sign Let_def)
qed

lemma parse_flag_plain: "plain w \<Longrightarrow> parse_budget_flag w rest = Inr (None, rest)"
proof -
  assume "plain w"
  moreover have "CHR ''='' \<notin> set w \<Longrightarrow> takeWhile (\<lambda>c. c \<noteq> CHR ''='') w = w"
    by (auto simp: takeWhile_eq_all_conv)
  ultimately show ?thesis by (auto simp: parse_budget_flag_def split_once_def plain_def Let_def)
qed

lemma parse_words_plain:
  "list_all plain ws \<Longrightarrow> parse_words (ws @ rest) tokens turns acc = parse_words rest tokens turns (acc @ ws)"
  by (induction ws arbitrary: acc) (simp_all add: parse_flag_plain)

lemma parse_words_budgets:
  assumes "budget_range tokens" and "budget_range turns"
  shows "parse_words (budget_words ''--tokens'' tokens @ budget_words ''--turns'' turns) None None ws =
    Inr (tokens, turns, ws)"
proof -
  have "parse_budget_flag ''--tokens'' (show_int b # rest) = Inr (Some (Tokens, b), rest)"
    "parse_budget_flag ''--turns'' (show_int b # rest) = Inr (Some (Turns, b), rest)"
    if "0 < b" and "b \<le> I64_MAX" for b rest
    using that parse_i64_show [of b] by (simp_all add: parse_budget_flag_def split_once_def Let_def)
  then show ?thesis
    using assms by (cases tokens; cases turns) (simp_all add: budget_words_def budget_range_def)
qed

lemma words_of_command:
  assumes "list_all plain ws" and "budget_range tokens" and "budget_range turns"
  shows "list_all word (ws @ budget_words ''--tokens'' tokens @ budget_words ''--turns'' turns)"
proof -
  have "word ''--tokens''" "word ''--turns''" by (simp_all add: word_def graphic_def)
  moreover have "list_all word ws" using assms(1) by (auto simp: plain_def list_all_iff)
  ultimately show ?thesis using assms(2,3) word_show_int
    by (auto simp: budget_words_def budget_range_def split: option.splits)
qed

lemma strip_keywords_command:
  assumes "list_all word (w # ws)" and "w \<noteq> ''replace''" and "w \<noteq> ''strict''"
  shows "strip_keywords (join '' '' ((if rep then [''replace''] else []) @ (if is_strict then [''strict''] else []) @ w # ws))
    False False = (join '' '' (w # ws), rep, is_strict)"
proof -
  have kw: "word ''replace''" "word ''strict''" by (simp_all add: word_def graphic_def)
  have stop: "strip_keywords (join '' '' (w # ws)) r b = (join '' '' (w # ws), r, b)" for r b
    using strip_keyword_other [OF assms(1) kw(1) assms(2)] strip_keyword_other [OF assms(1) kw(2) assms(3)]
    by (simp add: strip_keywords.simps [of "join '' '' (w # ws)"])
  have "strip_keywords (join '' '' (''strict'' # w # ws)) r b = (join '' '' (w # ws), r, True)" for r b
    using strip_keyword_match [OF assms(1), of "''strict''"] strip_keyword_other [of "''strict''" "w # ws" "''replace''"]
      assms(1) kw stop by (simp add: strip_keywords.simps [of "join '' '' (''strict'' # w # ws)"] del: join.simps)
  moreover have "strip_keywords (join '' '' (''replace'' # us)) False False = strip_keywords (join '' '' us) True False"
    if "list_all word us" and "us \<noteq> []" for us
    using strip_keyword_match [OF that, of "''replace''"]
    by (simp add: strip_keywords.simps [of "join '' '' (''replace'' # us)"])
  ultimately show ?thesis using stop assms(1) kw by (simp del: join.simps)
qed

text \<open>
  The \<open>/goal\<close> grammar reads back what was written: for every objective of printable words within the
  length limit that neither starts with a keyword nor contains a budget flag, any combination of the
  two keywords and any positive budgets, the command line denotes exactly that create, with the words
  joined by single blanks. (The line must not be one of the bare sub-commands.)
\<close>

theorem goal_command_roundtrip:
  assumes "list_all plain ws" and "ws \<noteq> []" and "hd ws \<notin> {''replace'', ''strict''}"
    and "length (join '' '' ws) \<le> MAX_THREAD_GOAL_OBJECTIVE_CHARS"
    and "budget_range tokens" and "budget_range turns"
    and "to_ascii_lowercase (command_text rep is_strict ws tokens turns) \<notin> {''pause'', ''unpause'', ''resume'', ''clear''}"
  shows "parse_goal_command (command_text rep is_strict ws tokens turns) =
    Create (join '' '' ws) tokens turns rep is_strict"
proof -
  let ?text = "command_text rep is_strict ws tokens turns"
  let ?tail = "ws @ budget_words ''--tokens'' tokens @ budget_words ''--turns'' turns"
  have tail: "list_all word ?tail" "?tail \<noteq> []" "list_all word ws"
    using words_of_command assms by (simp_all add: plain_def list_all_iff)
  have kw: "word ''replace''" "word ''strict''" by (simp_all add: word_def graphic_def)
  have all: "list_all word ((if rep then [''replace''] else []) @ (if is_strict then [''strict''] else []) @ ?tail)"
    using tail kw by simp
  have trimmed: "trim ?text = ?text" and nonempty: "?text \<noteq> []"
    using trim_text [OF join_ascii [OF all]] join_ends [OF all] assms(2) by (simp_all add: command_text_def)
  obtain w us where ws: "ws = w # us" using assms(2) by (cases ws) auto
  have strip: "strip_keywords ?text False False = (join '' '' ?tail, rep, is_strict)"
    using strip_keywords_command [of w "us @ budget_words ''--tokens'' tokens @ budget_words ''--turns'' turns" rep is_strict]
      tail(1) assms(3) ws by (simp add: command_text_def)
  have parsed: "parse_words (split_whitespace (join '' '' ?tail)) None None [] = Inr (tokens, turns, ws)"
    using split_whitespace_join [OF tail(1)] parse_words_plain [OF assms(1)] parse_words_budgets [OF assms(5,6)] by simp
  have obj: "join '' '' ws \<noteq> []" "validate_thread_goal_objective (join '' '' ws) = Inr ()"
    using join_ends(1) [OF tail(3) assms(2)] chars_ascii [OF join_ascii [OF tail(3)]] assms(4)
    by (simp_all add: validate_thread_goal_objective_def)
  have budgets: "validate_goal_budget tokens = Inr ()" "validate_goal_budget turns = Inr ()"
    using assms(5,6) by (auto simp: budget_range_def validate_goal_budget_def split: option.splits)
  have "to_ascii_lowercase ?text \<noteq> []" using nonempty by (simp add: to_ascii_lowercase_def)
  then show ?thesis using assms(7) trimmed strip parsed obj budgets by (simp add: parse_goal_command_def Let_def)
qed

lemma sample_plain: "list_all plain [''ship'', ''it'']"
  by (simp add: plain_def word_def graphic_def)

theorem goal_command_roundtrip_witness:
  "parse_goal_command (command_text True True [''ship'', ''it''] (Some 5000) None) =
    Create ''ship it'' (Some 5000) None True True"
proof -
  have "CHR '' '' \<in> set (to_ascii_lowercase (command_text True True [''ship'', ''it''] (Some 5000) None))"
    by (simp add: to_ascii_lowercase_def command_text_def budget_words_def)
  then have "to_ascii_lowercase (command_text True True [''ship'', ''it''] (Some 5000) None)
      \<notin> {''pause'', ''unpause'', ''resume'', ''clear''}" by auto
  then show ?thesis
    using goal_command_roundtrip [OF sample_plain, of "Some 5000" None True True]
    by (simp add: budget_range_def I64_MAX_def MAX_THREAD_GOAL_OBJECTIVE_CHARS_def)
qed

subsection \<open>What the comments do not say\<close>

text \<open>
  The tool can move a goal out of every status. A goal that is complete, blocked or over budget
  is still blocked by \<open>update_goal\<close> with a valid reason, and the user's \<open>resume\<close> then starts it again;
  the status is never looked at. (The comments call these states terminal for the model.)
\<close>

theorem update_goal_leaves_terminal_states:
  assumes "goal st = Some g" and "text_param params ''status'' = ''blocked''"
    and "validate_goal_block_reason (trim (text_param params ''reason'')) = Inr ()"
    and "exhausted_budget g = None"
  shows "\<exists>message st'. run_update params items (Some st) = (Inr message, Some st') \<and>
    goal st' = Some (mark_blocked (trim (text_param params ''reason'')) g) \<and>
    map_option (\<lambda>g. goal_status (resume g)) (goal st') = Some Active"
  using assms by (simp add: run_update_def Let_def mark_blocked_def resume_def apply_budget_limit_def)

theorem update_goal_leaves_terminal_states_witness:
  "\<exists>message st'. run_update (JObject [(''status'', JString ''blocked''), (''reason'', JString ''x'')]) []
      (Some \<lparr>goal = Some (mark_complete (goal_new ''ship'' None None)), completion = guard_default\<rparr>) = (Inr message, Some st') \<and>
    map_option goal_status (goal st') = Some Blocked"
proof -
  have "text_param (JObject [(''status'', JString ''blocked''), (''reason'', JString ''x'')]) ''status'' = ''blocked''"
    "text_param (JObject [(''status'', JString ''blocked''), (''reason'', JString ''x'')]) ''reason'' = ''x''"
    by (simp_all add: text_param_def value_get_def json_get_def)
  moreover have "trim ''x'' = ''x''" by (rule trim_text) (simp_all add: ascii_def graphic_def)
  moreover have "validate_goal_block_reason ''x'' = Inr ()"
    using calculation(3) by (simp add: validate_goal_block_reason_def MAX_THREAD_GOAL_REASON_CHARS_def)
  moreover have "exhausted_budget (mark_complete (goal_new ''ship'' None None)) = None"
    by (simp add: exhausted_budget_def mark_complete_def goal_new_def apply_budget_limit_def)
  ultimately show ?thesis
    using update_goal_leaves_terminal_states [of
      "\<lparr>goal = Some (mark_complete (goal_new ''ship'' None None)), completion = guard_default\<rparr>"
      "mark_complete (goal_new ''ship'' None None)"
      "JObject [(''status'', JString ''blocked''), (''reason'', JString ''x'')]" "[]"]
    by (auto simp: mark_blocked_def)
qed

fun turns_end :: "nat list \<Rightarrow> GoalState \<Rightarrow> GoalState" where
  "turns_end [] st = st"
| "turns_end (spent_tokens # rest) st = turns_end rest (snd (drive_active_goal 0 spent_tokens [] st))"

lemma drive_paused:
  assumes "goal st = Some g" and "goal_status g = Paused" and "0 \<le> turns_used g"
  shows "\<exists>g'. goal (snd (drive_active_goal now spent_tokens messages st)) = Some g' \<and> goal_status g' = Paused \<and>
    turn_budget g' = turn_budget g \<and> turns_used g' = min I64_MAX (turns_used g + 1)"
  using assms by (simp add: drive_active_goal_def Let_def case_prod_unfold observe_turn_def observe_total_tokens_def
      apply_budget_limit_def i64_saturating_add_def I64_MIN_def I64_MAX_def)

lemma turns_end_paused:
  assumes "goal st = Some g" and "goal_status g = Paused" and "0 \<le> turns_used g" and "turns_used g \<le> I64_MAX"
  shows "\<exists>g'. goal (turns_end totals st) = Some g' \<and> goal_status g' = Paused \<and>
    turn_budget g' = turn_budget g \<and> turns_used g' = min I64_MAX (turns_used g + int (length totals))"
  using assms
proof (induction totals arbitrary: st g)
  case (Cons t totals)
  obtain g1 where g1: "goal (snd (drive_active_goal 0 t [] st)) = Some g1" "goal_status g1 = Paused"
      "turn_budget g1 = turn_budget g" "turns_used g1 = min I64_MAX (turns_used g + 1)"
    using drive_paused [OF Cons.prems(1-3)] by blast
  have r: "0 \<le> turns_used g1" "turns_used g1 \<le> I64_MAX"
    using g1(4) Cons.prems(3) by (simp_all add: I64_MAX_def)
  show ?case using Cons.IH [OF g1(1,2) r] g1(3,4) by auto
qed simp

text \<open>
  A paused goal is charged for turns it did not drive. Every turn that ends without tool results is
  counted, whatever the goal's status, so a goal with a turn budget that is paused for that many turns
  cannot be resumed: it lands over budget at once. (The comment says the counter holds the continuation
  turns the goal itself drove.)
\<close>

theorem paused_goal_runs_out_of_turns:
  assumes "goal st = Some g" and "goal_status g = Paused" and "turn_budget g = Some b" and "b \<le> I64_MAX"
    and "0 \<le> turns_used g" and "turns_used g \<le> I64_MAX" and "b \<le> int (length totals)"
  shows "\<exists>g'. goal (turns_end totals st) = Some g' \<and> goal_status g' = Paused \<and> goal_status (resume g') = BudgetLimited"
proof -
  obtain g' where g': "goal (turns_end totals st) = Some g'" "goal_status g' = Paused" "turn_budget g' = Some b"
      "turns_used g' = min I64_MAX (turns_used g + int (length totals))"
    using turns_end_paused [OF assms(1,2,5,6)] assms(3) by auto
  then have "b \<le> turns_used g'" using assms(4,5,7) by simp
  then have "exhausted_budget g' \<noteq> None" using g'(3) by (auto simp: exhausted_budget_def split: option.splits)
  then show ?thesis using g'(1,2) by (simp add: resume_def apply_budget_limit_def)
qed

theorem paused_goal_runs_out_of_turns_witness:
  "\<exists>g'. goal (turns_end [10, 20] \<lparr>goal = Some (pause (goal_new ''ship'' None (Some 2))), completion = guard_default\<rparr>) = Some g' \<and>
    goal_status g' = Paused \<and> goal_status (resume g') = BudgetLimited"
  by (rule paused_goal_runs_out_of_turns [where b = 2 and g = "pause (goal_new ''ship'' None (Some 2))"])
    (simp_all add: pause_def goal_new_def apply_budget_limit_def exhausted_budget_def I64_MAX_def)

end
