(* ===== verification/Messages.thy ===== *)
theory Messages
  imports Agent_Types
begin

text \<open>
  The harness messages on their way to the model
  (\<open>crates/notagent-agent/src/harness/messages.rs\<close>): their constructors, their text and
  \<open>convert_to_llm\<close>, with \<open>content_text\<close> of \<open>crates/notagent-ai/src/utils/text.rs\<close>. A provider
  \<open>Message\<close> is one of the three constructors of \<open>AgentMessage\<close> that \<open>as_llm_message\<close> keeps.
\<close>

subsection \<open>The text of a content\<close>

fun user_texts :: "TextOrImageContent list \<Rightarrow> string list" where
  "user_texts [] = []"
| "user_texts (Text t # bs) = tx_text t # user_texts bs"
| "user_texts (Image _ # bs) = user_texts bs"

fun assistant_texts :: "AssistantContent list \<Rightarrow> string list" where
  "assistant_texts [] = []"
| "assistant_texts (AText t # bs) = tx_text t # assistant_texts bs"
| "assistant_texts (_ # bs) = assistant_texts bs"

datatype ContentRef = RText string | RUser "TextOrImageContent list" | RAssistant "AssistantContent list"

fun user_content_ref :: "UserContent \<Rightarrow> ContentRef" where
  "user_content_ref (TextOnly t) = RText t"
| "user_content_ref (Blocks bs) = RUser bs"

fun content_text_with :: "ContentRef \<Rightarrow> string \<Rightarrow> string" where
  "content_text_with (RText t) separator = t"
| "content_text_with (RUser bs) separator = join separator (user_texts bs)"
| "content_text_with (RAssistant bs) separator = join separator (assistant_texts bs)"

definition content_text :: "ContentRef \<Rightarrow> string" where
  "content_text c = content_text_with c [newline]"

subsection \<open>Constructors\<close>

definition create_branch_summary_message :: "string \<Rightarrow> string \<Rightarrow> int \<Rightarrow> BranchSummaryMessage" where
  "create_branch_summary_message summary from_id timestamp =
    \<lparr>bs_summary = summary, bs_from_id = from_id, bs_timestamp = timestamp\<rparr>"

definition create_compaction_summary_message ::
    "string \<Rightarrow> nat \<Rightarrow> nat option \<Rightarrow> int \<Rightarrow> CompactionSummaryMessage" where
  "create_compaction_summary_message summary before after timestamp =
    \<lparr>cs_summary = summary, cs_tokens_before = before, cs_tokens_after = after, cs_timestamp = timestamp,
     cs_recovery = None\<rparr>"

definition create_custom_message ::
    "string \<Rightarrow> UserContent \<Rightarrow> bool \<Rightarrow> Json option \<Rightarrow> int \<Rightarrow> CustomMessage" where
  "create_custom_message ty content display details timestamp =
    \<lparr>custom_type = ty, cm_content = content, cm_display = display, cm_details = details,
     cm_timestamp = timestamp\<rparr>"

subsection \<open>Texts\<close>

definition nl2 :: string where "nl2 = [newline, newline]"

definition COMPACTION_SUMMARY_PREFIX :: string where
  "COMPACTION_SUMMARY_PREFIX =
    ''The conversation history before this point was compacted into the following summary:'' @ nl2 @
    ''<summary>'' @ [newline]"

definition COMPACTION_SUMMARY_SUFFIX :: string where
  "COMPACTION_SUMMARY_SUFFIX = [newline] @ ''</summary>''"

definition BRANCH_SUMMARY_PREFIX :: string where
  "BRANCH_SUMMARY_PREFIX =
    ''The following is a summary of a branch that this conversation came back from:'' @ nl2 @
    ''<summary>'' @ [newline]"

definition BRANCH_SUMMARY_SUFFIX :: string where
  "BRANCH_SUMMARY_SUFFIX = ''</summary>''"

definition compaction_recovery_text :: "CompactionRecovery \<Rightarrow> string" where
  \<open>compaction_recovery_text recovery =
    nl2 @ ''## Context recovery'' @ [newline] @
    ''Everything before this summary is still on disk, in this session's log (JSON Lines, append-only):'' @
    [newline] @ ''  '' @ recovery_file recovery @ [newline] @
    ''This summary is the entry with id "'' @ recovery_id recovery @ ''". If you need exact command output, file contents, error text, or the wording of an earlier message, look it up there instead of guessing or re-running.'' @ [newline] @
    ''- One JSON object per line; `type` says what it is. The conversation is in lines with `type: "message"`, whose `message.role` is `user`, `assistant` or `toolResult`. A tool result's `message.toolCallId` matches the `id` of a `toolCall` block in an earlier assistant message. Other types are bookkeeping.'' @ [newline] @
    ''- Entries form a tree through `id` and `parentId`, and the file can hold branches this conversation later left. The history this summary replaced is the chain of `parentId` links leading back from entry "'' @ recovery_id recovery @ ''"; an earlier `type: "compaction"` entry on that chain starts an older window.'' @ [newline] @
    ''- Lines can be very long. Grep the file for a keyword to find line numbers, then extract single lines with bash, for example `sed -n '<N>p' <file> | jq -r '.message.content[] | select(.type == "text") | .text'`, rather than reading large ranges.''\<close>

definition bash_execution_to_text :: "BashExecutionMessage \<Rightarrow> string" where
  "bash_execution_to_text m =
    ''Ran `'' @ bash_command m @ ''`'' @ [newline] @
    (if bash_output m \<noteq> [] then ''```'' @ [newline] @ bash_output m @ [newline] @ ''```'' else ''(no output)'') @
    (if bash_cancelled m then nl2 @ ''(command cancelled)''
     else (case exit_code m of
             Some code \<Rightarrow> if code \<noteq> 0 then nl2 @ ''Command exited with code '' @ show_int code else []
           | None \<Rightarrow> [])) @
    (if bash_truncated m then
       (case full_output_path m of
          Some path \<Rightarrow> nl2 @ ''[Output truncated. Full output: '' @ path @ '']''
        | None \<Rightarrow> [])
     else [])"

subsection \<open>Conversion for the model\<close>

definition user_text :: "string \<Rightarrow> int \<Rightarrow> AgentMessage" where
  "user_text t timestamp = User \<lparr>um_content = Blocks [Text (TextContent_new t)], um_timestamp = timestamp\<rparr>"

fun to_llm :: "AgentMessage \<Rightarrow> AgentMessage option" where
  "to_llm (BashExecution m) =
    (if exclude_from_context m = Some True then None
     else Some (user_text (bash_execution_to_text m) (bash_timestamp m)))"
| "to_llm (Custom m) =
    (let content = (case cm_content m of
                      TextOnly t \<Rightarrow> Blocks [Text (TextContent_new t)]
                    | Blocks bs \<Rightarrow> Blocks bs)
     in Some (User \<lparr>um_content = content, um_timestamp = cm_timestamp m\<rparr>))"
| "to_llm (BranchSummary m) =
    Some (user_text (BRANCH_SUMMARY_PREFIX @ bs_summary m @ BRANCH_SUMMARY_SUFFIX) (bs_timestamp m))"
| "to_llm (CompactionSummary m) =
    Some (user_text
      (COMPACTION_SUMMARY_PREFIX @ cs_summary m @ COMPACTION_SUMMARY_SUFFIX @
       (case cs_recovery m of Some r \<Rightarrow> compaction_recovery_text r | None \<Rightarrow> []))
      (cs_timestamp m))"
| "to_llm (User m) = Some (User m)"
| "to_llm (Assistant m) = Some (Assistant m)"
| "to_llm (ToolResult m) = Some (ToolResult m)"

definition convert_to_llm :: "AgentMessage list \<Rightarrow> AgentMessage list" where
  "convert_to_llm messages = List.map_filter to_llm messages"

lemma convert_to_llm_simps [simp]:
  "convert_to_llm [] = []"
  "convert_to_llm (m # ms) = (case to_llm m of None \<Rightarrow> [] | Some m' \<Rightarrow> [m']) @ convert_to_llm ms"
  by (simp_all add: convert_to_llm_def map_filter_simps split: option.splits)

lemma convert_to_llm_append [simp]: "convert_to_llm (xs @ ys) = convert_to_llm xs @ convert_to_llm ys"
  by (induction xs) simp_all

lemma to_llm_is_llm: "to_llm m = Some m' \<Longrightarrow> as_llm_message m' = Some m'"
  by (cases m rule: to_llm.cases) (auto simp: user_text_def Let_def split: if_splits)

lemma to_llm_fixed: "as_llm_message m = Some m' \<Longrightarrow> to_llm m = Some m"
  by (cases m) auto

end
