(* ===== verification/Session_Types.thy ===== *)
theory Session_Types
  imports Messages "HOL-Library.AList"
begin

text \<open>
  The entries of a session file (\<open>crates/notagent/src/core/session_manager.rs\<close>): the header, the nine
  known kinds of entry with the fields of the macro \<open>entry_struct!\<close>, entries of other kinds kept
  verbatim, and their JSON form. The retained selection of a compaction
  (\<open>core/compaction/retention.rs\<close>) is here because an entry stores it.

  The derived (de)serializers of the entry structs are written out field by field: \<open>camelCase\<close> keys in
  declaration order, \<open>skip_serializing_if\<close>, \<open>default\<close>, and \<open>flatten\<close>, which collects the keys that
  are no field of the struct into \<open>extra\<close> (the tag \<open>type\<close> among them, since the struct has no such
  field). The derived forms of the nested \<open>Usage\<close> and \<open>RetainedSelection\<close> are parameters (\<open>Serde\<close>).
\<close>

subsection \<open>Data\<close>

record RetainedEntry =
  re_id :: string
  prefix_tokens :: "nat option"
  suffix_tokens :: "nat option"

record RetainedSelection =
  rs_head :: "RetainedEntry list"
  rs_tail :: "RetainedEntry list"
  omitted_tokens :: nat

record SessionHeader =
  hd_version :: "nat option"
  hd_id :: string
  hd_timestamp :: string
  hd_cwd :: Json
  parent_session :: "string option"
  hd_extra :: json_map

text \<open>The fields that \<open>entry_struct!\<close> gives to every struct.\<close>

record EntryHead =
  eh_id :: string
  eh_parent_id :: "string option"
  eh_timestamp :: string
  eh_extra :: json_map

record CompactionEntry =
  ce_summary :: string
  first_kept_entry_id :: string
  retained :: "RetainedSelection option"
  tokens_before :: int
  tokens_after :: "int option"
  ce_details :: "Json option"
  ce_usage :: "Usage option"
  ce_from_hook :: "bool option"

record BranchSummaryEntry =
  be_from_id :: string
  be_summary :: string
  be_details :: "Json option"
  be_usage :: "Usage option"
  be_from_hook :: "bool option"

record CustomMessageEntry =
  cme_custom_type :: string
  cme_content :: Json
  cme_details :: "Json option"
  cme_display :: bool

text \<open>The fields that are a struct's own; \<open>SessionEntry\<close> is one of them with the common fields.\<close>

datatype EntryBody =
    EMessage Json
  | EThinkingLevelChange string
  | EModelChange string string
  | ECompaction CompactionEntry
  | EBranchSummary BranchSummaryEntry
  | ECustom string "Json option"
  | ECustomMessage CustomMessageEntry
  | ELabel string "string option"
  | ESessionInfo "string option"

datatype SessionEntry = Known EntryHead EntryBody | Unknown json_map

datatype FileEntry = FSession SessionHeader | FEntry SessionEntry

subsection \<open>Accessors\<close>

fun body_type :: "EntryBody \<Rightarrow> string" where
  "body_type (EMessage _) = ''message''"
| "body_type (EThinkingLevelChange _) = ''thinking_level_change''"
| "body_type (EModelChange _ _) = ''model_change''"
| "body_type (ECompaction _) = ''compaction''"
| "body_type (EBranchSummary _) = ''branch_summary''"
| "body_type (ECustom _ _) = ''custom''"
| "body_type (ECustomMessage _) = ''custom_message''"
| "body_type (ELabel _ _) = ''label''"
| "body_type (ESessionInfo _) = ''session_info''"

text \<open>\<open>map.get(key).and_then(Value::as_str)\<close>, with the empty default of \<open>unwrap_or_default\<close>.\<close>

definition map_str :: "json_map \<Rightarrow> string \<Rightarrow> string option" where
  "map_str m k = Option.bind (json_get m k) as_str"

definition str_or_empty :: "string option \<Rightarrow> string" where
  "str_or_empty s = (case s of Some t \<Rightarrow> t | None \<Rightarrow> [])"

fun entry_type :: "SessionEntry \<Rightarrow> string" where
  "entry_type (Known _ b) = body_type b"
| "entry_type (Unknown m) = str_or_empty (map_str m ''type'')"

fun entry_id :: "SessionEntry \<Rightarrow> string" where
  "entry_id (Known h _) = eh_id h"
| "entry_id (Unknown m) = str_or_empty (map_str m ''id'')"

fun parent_id :: "SessionEntry \<Rightarrow> string option" where
  "parent_id (Known h _) = eh_parent_id h"
| "parent_id (Unknown m) = map_str m ''parentId''"

fun timestamp :: "SessionEntry \<Rightarrow> string" where
  "timestamp (Known h _) = eh_timestamp h"
| "timestamp (Unknown m) = str_or_empty (map_str m ''timestamp'')"

fun set_id :: "string \<Rightarrow> SessionEntry \<Rightarrow> SessionEntry" where
  "set_id i (Known h b) = Known (h\<lparr>eh_id := i\<rparr>) b"
| "set_id i (Unknown m) = Unknown (AList.update ''id'' (JString i) m)"

definition opt_string :: "string option \<Rightarrow> Json" where
  "opt_string s = (case s of Some t \<Rightarrow> JString t | None \<Rightarrow> JNull)"

fun set_parent_id :: "string option \<Rightarrow> SessionEntry \<Rightarrow> SessionEntry" where
  "set_parent_id p (Known h b) = Known (h\<lparr>eh_parent_id := p\<rparr>) b"
| "set_parent_id p (Unknown m) = Unknown (AList.update ''parentId'' (opt_string p) m)"

fun as_message :: "SessionEntry \<Rightarrow> Json option" where
  "as_message (Known _ (EMessage v)) = Some v"
| "as_message _ = None"

fun as_compaction :: "SessionEntry \<Rightarrow> CompactionEntry option" where
  "as_compaction (Known _ (ECompaction c)) = Some c"
| "as_compaction _ = None"

definition is_assistant_message :: "SessionEntry \<Rightarrow> bool" where
  "is_assistant_message e = (case as_message e of
      Some m \<Rightarrow> get_str m ''role'' = Some ''assistant''
    | None \<Rightarrow> False)"

fun is_label :: "SessionEntry \<Rightarrow> bool" where
  "is_label (Known _ (ELabel _ _)) = True"
| "is_label _ = False"

fun as_header :: "FileEntry \<Rightarrow> SessionHeader option" where
  "as_header (FSession h) = Some h"
| "as_header (FEntry _) = None"

fun as_entry :: "FileEntry \<Rightarrow> SessionEntry option" where
  "as_entry (FEntry e) = Some e"
| "as_entry (FSession _) = None"

text \<open>\<open>iter().filter_map(FileEntry::as_entry)\<close> and \<open>iter().find_map(FileEntry::as_header)\<close>.\<close>

definition entries_of :: "FileEntry list \<Rightarrow> SessionEntry list" where
  "entries_of fes = List.map_filter as_entry fes"

fun find_header :: "FileEntry list \<Rightarrow> SessionHeader option" where
  "find_header [] = None"
| "find_header (FSession h # _) = Some h"
| "find_header (FEntry _ # fes) = find_header fes"

lemma entries_of_simps [simp]:
  "entries_of [] = []"
  "entries_of (FSession h # fes) = entries_of fes"
  "entries_of (FEntry e # fes) = e # entries_of fes"
  by (simp_all add: entries_of_def map_filter_simps)

lemma entries_of_append [simp]: "entries_of (xs @ ys) = entries_of xs @ entries_of ys"
  by (simp add: entries_of_def map_filter_def)

lemma entries_of_FEntry [simp]: "entries_of (map FEntry es) = es"
  by (induction es) simp_all

subsection \<open>The retained selection\<close>

definition rs_entries :: "RetainedSelection \<Rightarrow> RetainedEntry list" where
  "rs_entries s = rs_head s @ rs_tail s"

definition rs_find :: "RetainedSelection \<Rightarrow> string \<Rightarrow> RetainedEntry option" where
  "rs_find s i = List.find (\<lambda>e. re_id e = i) (rs_entries s)"

definition elision_after :: "RetainedSelection \<Rightarrow> string option" where
  "elision_after s =
    (if omitted_tokens s > 0 \<and> rs_head s \<noteq> [] then Some (re_id (last (rs_head s))) else None)"

definition oldest_id :: "RetainedSelection \<Rightarrow> string option" where
  "oldest_id s = (case rs_entries s of [] \<Rightarrow> None | e # _ \<Rightarrow> Some (re_id e))"

definition rs_is_empty :: "RetainedSelection \<Rightarrow> bool" where
  "rs_is_empty s \<longleftrightarrow> rs_head s = [] \<and> rs_tail s = []"

subsection \<open>Serialization\<close>

record Serde =
  usage_ser :: "Usage \<Rightarrow> Json"
  usage_de :: "Json \<Rightarrow> Usage option"
  retained_ser :: "RetainedSelection \<Rightarrow> Json"
  retained_de :: "Json \<Rightarrow> RetainedSelection option"

text \<open>\<open>skip_serializing_if = "Option::is_none"\<close>: a field that is present only when it is \<open>Some\<close>.\<close>

definition field_if :: "string \<Rightarrow> ('a \<Rightarrow> Json) \<Rightarrow> 'a option \<Rightarrow> json_map" where
  "field_if k ser v = (case v of Some x \<Rightarrow> [(k, ser x)] | None \<Rightarrow> [])"

definition i64_value :: "int \<Rightarrow> Json" where
  "i64_value i = JNumber (if i < 0 then NegInt i else PosInt (nat i))"

fun body_fields :: "Serde \<Rightarrow> EntryBody \<Rightarrow> json_map" where
  "body_fields S (EMessage v) = [(''message'', v)]"
| "body_fields S (EThinkingLevelChange l) = [(''thinkingLevel'', JString l)]"
| "body_fields S (EModelChange p m) = [(''provider'', JString p), (''modelId'', JString m)]"
| "body_fields S (ECompaction c) =
    [(''summary'', JString (ce_summary c)), (''firstKeptEntryId'', JString (first_kept_entry_id c))] @
    field_if ''retained'' (retained_ser S) (retained c) @
    [(''tokensBefore'', i64_value (tokens_before c))] @
    field_if ''tokensAfter'' i64_value (tokens_after c) @
    field_if ''details'' (\<lambda>v. v) (ce_details c) @
    field_if ''usage'' (usage_ser S) (ce_usage c) @
    field_if ''fromHook'' JBool (ce_from_hook c)"
| "body_fields S (EBranchSummary b) =
    [(''fromId'', JString (be_from_id b)), (''summary'', JString (be_summary b))] @
    field_if ''details'' (\<lambda>v. v) (be_details b) @
    field_if ''usage'' (usage_ser S) (be_usage b) @
    field_if ''fromHook'' JBool (be_from_hook b)"
| "body_fields S (ECustom t d) = (''customType'', JString t) # field_if ''data'' (\<lambda>v. v) d"
| "body_fields S (ECustomMessage c) =
    [(''customType'', JString (cme_custom_type c)), (''content'', cme_content c)] @
    field_if ''details'' (\<lambda>v. v) (cme_details c) @
    [(''display'', JBool (cme_display c))]"
| "body_fields S (ELabel t l) = (''targetId'', JString t) # field_if ''label'' JString l"
| "body_fields S (ESessionInfo n) = field_if ''name'' JString n"

text \<open>
  \<open>serde_json::to_value\<close> of an entry struct inserts the fields and then the flattened \<open>extra\<close> into a
  \<open>Map\<close>; the tag goes in front of it (\<open>impl Serialize for SessionEntry\<close>).
\<close>

definition struct_fields :: "Serde \<Rightarrow> EntryHead \<Rightarrow> EntryBody \<Rightarrow> json_map" where
  "struct_fields S h b =
    [(''id'', JString (eh_id h)), (''parentId'', opt_string (eh_parent_id h)),
     (''timestamp'', JString (eh_timestamp h))] @ body_fields S b @ eh_extra h"

fun entry_to_value :: "Serde \<Rightarrow> SessionEntry \<Rightarrow> Json" where
  "entry_to_value S (Unknown m) = JObject m"
| "entry_to_value S (Known h b) =
    JObject (json_inserts ((''type'', JString (body_type b)) # json_inserts (struct_fields S h b)))"

definition header_fields :: "SessionHeader \<Rightarrow> json_map" where
  "header_fields h =
    field_if ''version'' (\<lambda>n. JNumber (PosInt n)) (hd_version h) @
    [(''id'', JString (hd_id h)), (''timestamp'', JString (hd_timestamp h)), (''cwd'', hd_cwd h)] @
    field_if ''parentSession'' JString (parent_session h) @ hd_extra h"

text \<open>The value whose text \<open>FileEntry::to_json\<close> is.\<close>

fun file_entry_value :: "Serde \<Rightarrow> FileEntry \<Rightarrow> Json" where
  "file_entry_value S (FSession h) =
    JObject (json_inserts ((''type'', JString ''session'') # json_inserts (header_fields h)))"
| "file_entry_value S (FEntry e) = entry_to_value S e"

subsection \<open>Deserialization\<close>

text \<open>
  Reading a field: \<open>None\<close> is an error of the struct. A field with \<open>default\<close> that is missing takes
  \<open>Default::default()\<close>; an \<open>Option\<close> that is missing or \<open>null\<close> is \<open>None\<close>.
\<close>

definition de_default :: "'a \<Rightarrow> (Json \<Rightarrow> 'a option) \<Rightarrow> json_map \<Rightarrow> string \<Rightarrow> 'a option" where
  "de_default d de m k = (case json_get m k of None \<Rightarrow> Some d | Some v \<Rightarrow> de v)"

definition de_option :: "(Json \<Rightarrow> 'a option) \<Rightarrow> json_map \<Rightarrow> string \<Rightarrow> 'a option option" where
  "de_option de m k = (case json_get m k of
      None \<Rightarrow> Some None
    | Some v \<Rightarrow> if v = JNull then Some None else map_option Some (de v))"

abbreviation de_str :: "json_map \<Rightarrow> string \<Rightarrow> string option" where
  "de_str \<equiv> de_default [] as_str"

fun as_u32 :: "Json \<Rightarrow> nat option" where
  "as_u32 (JNumber (PosInt n)) = (if n < 2 ^ 32 then Some n else None)"
| "as_u32 _ = None"

text \<open>The keys that are fields of the struct behind a tag.\<close>

definition head_keys :: "string list" where
  "head_keys = [''id'', ''parentId'', ''timestamp'']"

definition body_keys :: "string \<Rightarrow> string list" where
  "body_keys t =
    (if t = ''message'' then [''message'']
     else if t = ''thinking_level_change'' then [''thinkingLevel'']
     else if t = ''model_change'' then [''provider'', ''modelId'']
     else if t = ''compaction'' then
       [''summary'', ''firstKeptEntryId'', ''retained'', ''tokensBefore'', ''tokensAfter'', ''details'', ''usage'', ''fromHook'']
     else if t = ''branch_summary'' then [''fromId'', ''summary'', ''details'', ''usage'', ''fromHook'']
     else if t = ''custom'' then [''customType'', ''data'']
     else if t = ''custom_message'' then [''customType'', ''content'', ''details'', ''display'']
     else if t = ''label'' then [''targetId'', ''label'']
     else if t = ''session_info'' then [''name'']
     else [])"

definition de_compaction :: "Serde \<Rightarrow> json_map \<Rightarrow> CompactionEntry option" where
  "de_compaction S m =
    Option.bind (de_str m ''summary'') (\<lambda>summary.
    Option.bind (de_str m ''firstKeptEntryId'') (\<lambda>first_kept.
    Option.bind (de_option (retained_de S) m ''retained'') (\<lambda>ret.
    Option.bind (de_default 0 as_i64 m ''tokensBefore'') (\<lambda>before.
    Option.bind (de_option as_i64 m ''tokensAfter'') (\<lambda>after.
    Option.bind (de_option Some m ''details'') (\<lambda>det.
    Option.bind (de_option (usage_de S) m ''usage'') (\<lambda>us.
    Option.bind (de_option as_bool m ''fromHook'') (\<lambda>hook.
      Some \<lparr>ce_summary = summary, first_kept_entry_id = first_kept, retained = ret, tokens_before = before,
        tokens_after = after, ce_details = det, ce_usage = us, ce_from_hook = hook\<rparr>))))))))"

definition de_branch_summary :: "Serde \<Rightarrow> json_map \<Rightarrow> BranchSummaryEntry option" where
  "de_branch_summary S m =
    Option.bind (de_str m ''fromId'') (\<lambda>from_id.
    Option.bind (de_str m ''summary'') (\<lambda>summary.
    Option.bind (de_option Some m ''details'') (\<lambda>det.
    Option.bind (de_option (usage_de S) m ''usage'') (\<lambda>us.
    Option.bind (de_option as_bool m ''fromHook'') (\<lambda>hook.
      Some \<lparr>be_from_id = from_id, be_summary = summary, be_details = det, be_usage = us, be_from_hook = hook\<rparr>)))))"

definition de_body :: "Serde \<Rightarrow> string \<Rightarrow> json_map \<Rightarrow> EntryBody option" where
  "de_body S t m =
    (if t = ''message'' then map_option EMessage (de_default JNull Some m ''message'')
     else if t = ''thinking_level_change'' then map_option EThinkingLevelChange (de_str m ''thinkingLevel'')
     else if t = ''model_change'' then
       Option.bind (de_str m ''provider'') (\<lambda>p. map_option (EModelChange p) (de_str m ''modelId''))
     else if t = ''compaction'' then map_option ECompaction (de_compaction S m)
     else if t = ''branch_summary'' then map_option EBranchSummary (de_branch_summary S m)
     else if t = ''custom'' then
       Option.bind (de_str m ''customType'') (\<lambda>c. map_option (ECustom c) (de_option Some m ''data''))
     else if t = ''custom_message'' then
       Option.bind (de_str m ''customType'') (\<lambda>c.
       Option.bind (de_default JNull Some m ''content'') (\<lambda>content.
       Option.bind (de_option Some m ''details'') (\<lambda>det.
       Option.bind (de_default False as_bool m ''display'') (\<lambda>disp.
         Some (ECustomMessage \<lparr>cme_custom_type = c, cme_content = content, cme_details = det, cme_display = disp\<rparr>)))))
     else if t = ''label'' then
       Option.bind (de_str m ''targetId'') (\<lambda>target. map_option (ELabel target) (de_option as_str m ''label''))
     else if t = ''session_info'' then map_option ESessionInfo (de_option as_str m ''name'')
     else None)"

definition extra_of :: "string list \<Rightarrow> json_map \<Rightarrow> json_map" where
  "extra_of ks m = filter (\<lambda>(k, v). k \<notin> set ks) m"

definition de_head :: "string list \<Rightarrow> json_map \<Rightarrow> EntryHead option" where
  "de_head ks m =
    Option.bind (de_str m ''id'') (\<lambda>i.
    Option.bind (de_option as_str m ''parentId'') (\<lambda>p.
    Option.bind (de_str m ''timestamp'') (\<lambda>t.
      Some \<lparr>eh_id = i, eh_parent_id = p, eh_timestamp = t, eh_extra = extra_of (head_keys @ ks) m\<rparr>)))"

text \<open>\<open>SessionEntry::from_value\<close>: what is no object, of no known kind, or malformed is \<open>Unknown\<close>.\<close>

definition entry_from_value :: "Serde \<Rightarrow> Json \<Rightarrow> SessionEntry" where
  "entry_from_value S v =
    (case v of
       JObject m \<Rightarrow>
         (let t = str_or_empty (map_str m ''type'')
          in (case (de_head (body_keys t) m, de_body S t m) of
                (Some h, Some b) \<Rightarrow> Known h b
              | _ \<Rightarrow> Unknown m))
     | _ \<Rightarrow> Unknown [])"

definition header_keys :: "string list" where
  "header_keys = [''version'', ''id'', ''timestamp'', ''cwd'', ''parentSession'']"

definition de_header :: "json_map \<Rightarrow> SessionHeader option" where
  "de_header m =
    Option.bind (de_option as_u32 m ''version'') (\<lambda>ver.
    Option.bind (de_str m ''id'') (\<lambda>i.
    Option.bind (de_str m ''timestamp'') (\<lambda>t.
    Option.bind (de_default JNull Some m ''cwd'') (\<lambda>c.
    Option.bind (de_option as_str m ''parentSession'') (\<lambda>p.
      Some \<lparr>hd_version = ver, hd_id = i, hd_timestamp = t, hd_cwd = c, parent_session = p,
        hd_extra = extra_of header_keys m\<rparr>)))))"

definition file_entry_from_value :: "Serde \<Rightarrow> Json \<Rightarrow> FileEntry" where
  "file_entry_from_value S v =
    (if get_str v ''type'' = Some ''session'' then
       (case v of
          JObject m \<Rightarrow>
            (case de_header m of
               Some h \<Rightarrow> FSession h
             | None \<Rightarrow> FEntry (entry_from_value S v))
        | _ \<Rightarrow> FEntry (entry_from_value S v))
     else FEntry (entry_from_value S v))"

end
