(* ===== verification/Session_Roundtrip.thy ===== *)
theory Session_Roundtrip
  imports Session_Types
begin

text \<open>
  A session entry survives being written to its JSON form and read back: the entry that comes back has
  the same identity, parent, time and content, and the tag \<open>type\<close> in front of its extra keys.
\<close>

subsection \<open>Objects built by insertion\<close>

lemma filter_other_keys:
  "t \<notin> fst ` set xs \<Longrightarrow> filter (\<lambda>(k, v). k \<noteq> t) xs = xs"
  by (induction xs) auto

lemma json_inserts_front:
  assumes "distinct (map fst xs)"
  shows "json_inserts ((k, v) # xs) =
    (k, case map_of xs k of Some w \<Rightarrow> w | None \<Rightarrow> v) # filter (\<lambda>(k', w). k' \<noteq> k) xs"
proof -
  have "fold (\<lambda>(k, v) m. AList.update k v m) xs ((k, v) # m) =
      (k, case map_of xs k of Some w \<Rightarrow> w | None \<Rightarrow> v) # m @ filter (\<lambda>(k', w). k' \<noteq> k) xs"
    if "k \<notin> fst ` set m" "fst ` set xs \<inter> fst ` set m = {}" for m
    using assms that
  proof (induction xs arbitrary: v m)
    case Nil
    then show ?case by simp
  next
    case (Cons x xs)
    obtain j w where x: "x = (j, w)" by (cases x)
    show ?case
    proof (cases "j = k")
      case True
      then have "map_of xs k = None"
        using Cons.prems x by (simp add: map_of_eq_None_iff)
      moreover have "filter (\<lambda>(k', w). k' \<noteq> k) xs = xs"
        by (rule filter_other_keys) (use Cons.prems x True in auto)
      ultimately show ?thesis
        using Cons x True by simp
    next
      case False
      then have "AList.update j w ((k, v) # m) = (k, v) # m @ [(j, w)]"
        using Cons.prems x by (simp add: update_new)
      moreover have "k \<notin> fst ` set (m @ [(j, w)])" "fst ` set xs \<inter> fst ` set (m @ [(j, w)]) = {}"
        using Cons.prems x False by auto
      ultimately show ?thesis
        using Cons.IH[of "m @ [(j, w)]" v] Cons.prems x False by simp
    qed
  qed
  from this[of "[]"] show ?thesis by (simp add: json_inserts_def)
qed

lemma map_of_field_if [simp]:
  "map_of (field_if k ser v) k' = (if k' = k then map_option ser v else None)"
  by (cases v) (simp_all add: field_if_def)

lemma map_fst_field_if: "map fst (field_if k ser v) = (if v = None then [] else [k])"
  by (cases v) (simp_all add: field_if_def)

lemma map_of_filter_other:
  "k \<noteq> t \<Longrightarrow> map_of (filter (\<lambda>(k', w). k' \<noteq> t) xs) k = map_of xs k"
  by (induction xs) auto

lemma as_i64_value [simp]: "is_i64 i \<Longrightarrow> as_i64 (i64_value i) = Some i"
  by (auto simp: i64_value_def is_i64_def)

lemma i64_value_not_null [simp]: "i64_value i \<noteq> JNull"
  by (simp add: i64_value_def)

subsection \<open>Well-formed entries\<close>

text \<open>What the derived serializers of the nested structs promise of one value.\<close>

definition opt_back :: "('a \<Rightarrow> Json) \<Rightarrow> (Json \<Rightarrow> 'a option) \<Rightarrow> 'a option \<Rightarrow> bool" where
  "opt_back ser de v = (case v of None \<Rightarrow> True | Some x \<Rightarrow> ser x \<noteq> JNull \<and> de (ser x) = Some x)"

fun body_ok :: "Serde \<Rightarrow> EntryBody \<Rightarrow> bool" where
  "body_ok S (ECompaction c) \<longleftrightarrow>
     is_i64 (tokens_before c) \<and> (case tokens_after c of None \<Rightarrow> True | Some t \<Rightarrow> is_i64 t) \<and>
     ce_details c \<noteq> Some JNull \<and> opt_back (retained_ser S) (retained_de S) (retained c) \<and>
     opt_back (usage_ser S) (usage_de S) (ce_usage c)"
| "body_ok S (EBranchSummary b) \<longleftrightarrow> be_details b \<noteq> Some JNull \<and> opt_back (usage_ser S) (usage_de S) (be_usage b)"
| "body_ok S (ECustom t d) \<longleftrightarrow> d \<noteq> Some JNull"
| "body_ok S (ECustomMessage c) \<longleftrightarrow> cme_details c \<noteq> Some JNull"
| "body_ok S _ \<longleftrightarrow> True"

definition extra_ok :: "string list \<Rightarrow> string \<Rightarrow> json_map \<Rightarrow> bool" where
  "extra_ok ks t m \<longleftrightarrow> distinct (map fst m) \<and> set (map fst m) \<inter> set ks = {} \<and>
     (case map_of m ''type'' of None \<Rightarrow> True | Some v \<Rightarrow> v = JString t)"

definition entry_ok :: "Serde \<Rightarrow> SessionEntry \<Rightarrow> bool" where
  "entry_ok S e = (case e of
      Known h b \<Rightarrow> body_ok S b \<and> extra_ok (head_keys @ body_keys (body_type b)) (body_type b) (eh_extra h)
    | Unknown m \<Rightarrow> entry_from_value S (JObject m) = Unknown m)"

definition header_ok :: "SessionHeader \<Rightarrow> bool" where
  "header_ok h \<longleftrightarrow> (case hd_version h of None \<Rightarrow> True | Some n \<Rightarrow> n < 2 ^ 32) \<and>
     extra_ok header_keys ''session'' (hd_extra h)"

definition file_entry_ok :: "Serde \<Rightarrow> FileEntry \<Rightarrow> bool" where
  "file_entry_ok S fe = (case fe of
      FSession h \<Rightarrow> header_ok h
    | FEntry e \<Rightarrow> entry_ok S e \<and> (case e of Unknown m \<Rightarrow> map_str m ''type'' \<noteq> Some ''session'' | _ \<Rightarrow> True))"

text \<open>What reading back adds: the tag in front of the extra keys.\<close>

definition tagged :: "string \<Rightarrow> json_map \<Rightarrow> json_map" where
  "tagged t m = (''type'', JString t) # filter (\<lambda>(k, v). k \<noteq> ''type'') m"

fun reread_entry :: "SessionEntry \<Rightarrow> SessionEntry" where
  "reread_entry (Known h b) = Known (h\<lparr>eh_extra := tagged (body_type b) (eh_extra h)\<rparr>) b"
| "reread_entry (Unknown m) = Unknown m"

fun reread :: "FileEntry \<Rightarrow> FileEntry" where
  "reread (FSession h) = FSession (h\<lparr>hd_extra := tagged ''session'' (hd_extra h)\<rparr>)"
| "reread (FEntry e) = FEntry (reread_entry e)"

subsection \<open>The fields of an entry\<close>

definition own_fields :: "Serde \<Rightarrow> EntryHead \<Rightarrow> EntryBody \<Rightarrow> json_map" where
  "own_fields S h b =
    [(''id'', JString (eh_id h)), (''parentId'', opt_string (eh_parent_id h)),
     (''timestamp'', JString (eh_timestamp h))] @ body_fields S b"

lemma own_fields_keys:
  "fst ` set (own_fields S h b) \<subseteq> set (head_keys @ body_keys (body_type b))"
  by (cases b) (auto simp: own_fields_def head_keys_def body_keys_def field_if_def split: option.splits)

lemma own_fields_distinct: "distinct (map fst (own_fields S h b))"
  by (cases b) (simp_all add: own_fields_def map_fst_field_if)

lemma type_is_no_field: "''type'' \<notin> set (head_keys @ body_keys (body_type b))"
  by (cases b) (simp_all add: head_keys_def body_keys_def)

lemma written_generic:
  assumes "extra_ok ks t x" and "fst ` set own \<subseteq> set ks" and "distinct (map fst own)" and "''type'' \<notin> set ks"
  shows "json_inserts ((''type'', JString t) # json_inserts (own @ x)) =
    (''type'', JString t) # own @ filter (\<lambda>(k, v). k \<noteq> ''type'') x"
proof -
  have d: "distinct (map fst (own @ x))"
    using assms by (fastforce simp: extra_ok_def)
  have n: "''type'' \<notin> fst ` set own"
    using assms by blast
  then have m: "map_of (own @ x) ''type'' = map_of x ''type''"
    by (auto simp: map_add_def map_of_eq_None_iff[symmetric] split: option.splits)
  have v: "(case map_of x ''type'' of None \<Rightarrow> JString t | Some w \<Rightarrow> w) = JString t"
    using assms(1) by (cases "map_of x ''type''") (simp_all add: extra_ok_def)
  show ?thesis
    using d by (simp add: json_inserts_distinct json_inserts_front m filter_other_keys[OF n] v
        del: map_append map_of_append)
qed

lemma written_fields:
  assumes "extra_ok (head_keys @ body_keys (body_type b)) (body_type b) (eh_extra h)"
  shows "entry_to_value S (Known h b) =
    JObject ((''type'', JString (body_type b)) # own_fields S h b @ filter (\<lambda>(k, v). k \<noteq> ''type'') (eh_extra h))"
proof -
  have "struct_fields S h b = own_fields S h b @ eh_extra h"
    by (simp add: struct_fields_def own_fields_def)
  then show ?thesis
    using written_generic[OF assms own_fields_keys own_fields_distinct type_is_no_field] by simp
qed

lemma field_lookup:
  assumes "extra_ok ks t x" and "k \<in> set ks" and "k \<noteq> ''type''"
  shows "json_get ((''type'', v) # own @ filter (\<lambda>(k, v). k \<noteq> ''type'') x) k = map_of own k"
proof -
  have "k \<notin> fst ` set x"
    using assms by (auto simp: extra_ok_def)
  then have "map_of (filter (\<lambda>(k, v). k \<noteq> ''type'') x) k = None"
    using assms(3) by (simp add: map_of_filter_other map_of_eq_None_iff)
  then show ?thesis
    using assms(3) by (simp add: json_get_def map_add_def split: option.splits)
qed

text \<open>The deserializers read only the keys of their struct.\<close>

lemma de_body_cong:
  assumes "\<And>k. k \<in> set (body_keys t) \<Longrightarrow> json_get m k = json_get m' k"
  shows "de_body S t m = de_body S t m'"
  using assms
  by (simp add: de_body_def body_keys_def de_compaction_def de_branch_summary_def de_default_def de_option_def
      split: if_split_asm)

lemma de_body_own:
  assumes "body_ok S b"
  shows "de_body S (body_type b) (own_fields S h b) = Some b"
proof (cases b)
  case (ECompaction c)
  then show ?thesis
    using assms
    by (cases c) (auto simp: de_body_def de_compaction_def own_fields_def de_default_def de_option_def json_get_def
        opt_back_def map_add_def split: option.splits)
next
  case (EBranchSummary c)
  then show ?thesis
    using assms
    by (cases c) (auto simp: de_body_def de_branch_summary_def own_fields_def de_default_def de_option_def json_get_def
        opt_back_def map_add_def split: option.splits)
qed (use assms in \<open>auto simp: de_body_def own_fields_def de_default_def de_option_def json_get_def map_add_def
       split: option.splits\<close>)

lemma de_head_cong:
  assumes "\<And>k. k \<in> set head_keys \<Longrightarrow> json_get m k = json_get m' k"
  shows "de_head ks m = map_option (\<lambda>h. h\<lparr>eh_extra := extra_of (head_keys @ ks) m\<rparr>) (de_head ks m')"
proof -
  have "de_str m ''id'' = de_str m' ''id''" "de_option as_str m ''parentId'' = de_option as_str m' ''parentId''"
    "de_str m ''timestamp'' = de_str m' ''timestamp''"
    using assms by (simp_all add: head_keys_def de_default_def de_option_def)
  then show ?thesis
    by (cases "de_str m' ''id''"; cases "de_option as_str m' ''parentId''"; cases "de_str m' ''timestamp''")
      (simp_all add: de_head_def)
qed

lemma de_head_own:
  "de_head ks (own_fields S h b) = Some (h\<lparr>eh_extra := extra_of (head_keys @ ks) (own_fields S h b)\<rparr>)"
  by (cases h) (auto simp: de_head_def own_fields_def de_default_def de_option_def json_get_def opt_string_def
      split: option.splits)

lemma extra_of_written:
  assumes "extra_ok ks t x" and "fst ` set own \<subseteq> set ks" and "''type'' \<notin> set ks"
  shows "extra_of ks ((''type'', JString t) # own @ filter (\<lambda>(k, v). k \<noteq> ''type'') x) = tagged t x"
proof -
  have "filter (\<lambda>(k, v). k \<notin> set ks) own = []"
    using assms(2) by (force simp: filter_empty_conv)
  moreover have "k \<notin> set ks" if "(k, v) \<in> set x" for k v
    using assms(1) that by (force simp: extra_ok_def)
  then have "filter (\<lambda>(k, v). k \<notin> set ks) (filter (\<lambda>(k, v). k \<noteq> ''type'') x) =
      filter (\<lambda>(k, v). k \<noteq> ''type'') x"
    by (intro filter_True) auto
  ultimately show ?thesis
    using assms(3) by (simp add: extra_of_def tagged_def)
qed

lemma entry_value_reread:
  assumes "entry_ok S e"
  shows "entry_from_value S (entry_to_value S e) = reread_entry e"
proof (cases e)
  case (Known h b)
  define x where "x = eh_extra h"
  define m where "m = (''type'', JString (body_type b)) # own_fields S h b @ filter (\<lambda>(k, v). k \<noteq> ''type'') x"
  let ?ks = "head_keys @ body_keys (body_type b)"
  from assms Known have ok: "extra_ok ?ks (body_type b) x" and bok: "body_ok S b"
    by (simp_all add: entry_ok_def x_def)
  have w: "entry_to_value S e = JObject m"
    using written_fields ok by (simp add: Known m_def x_def)
  have t: "str_or_empty (map_str m ''type'') = body_type b"
    by (simp add: m_def map_str_def json_get_def str_or_empty_def)
  have look: "json_get m k = json_get (own_fields S h b) k" if "k \<in> set ?ks" for k
    using field_lookup[OF ok that, of _ "own_fields S h b"] type_is_no_field[of b] that
    by (metis json_get_def m_def)
  have "de_body S (body_type b) m = Some b"
    using de_body_cong[of "body_type b" m "own_fields S h b" S] look de_body_own[OF bok] by simp
  moreover have "de_head (body_keys (body_type b)) m = Some (h\<lparr>eh_extra := tagged (body_type b) x\<rparr>)"
    using de_head_cong[of m "own_fields S h b"] look extra_of_written[OF ok own_fields_keys type_is_no_field]
    by (simp add: de_head_own m_def)
  ultimately show ?thesis
    unfolding w entry_from_value_def by (simp add: t Known x_def)
next
  case (Unknown m)
  then show ?thesis using assms by (simp add: entry_ok_def)
qed

subsection \<open>The header\<close>

definition own_header_fields :: "SessionHeader \<Rightarrow> json_map" where
  "own_header_fields h =
    field_if ''version'' (\<lambda>n. JNumber (PosInt n)) (hd_version h) @
    [(''id'', JString (hd_id h)), (''timestamp'', JString (hd_timestamp h)), (''cwd'', hd_cwd h)] @
    field_if ''parentSession'' JString (parent_session h)"

lemma own_header_keys: "fst ` set (own_header_fields h) \<subseteq> set header_keys"
  by (auto simp: own_header_fields_def header_keys_def field_if_def split: option.splits)

lemma own_header_distinct: "distinct (map fst (own_header_fields h))"
  by (simp add: own_header_fields_def map_fst_field_if)

lemma type_is_no_header_field: "''type'' \<notin> set header_keys"
  by (simp add: header_keys_def)

lemma header_value:
  assumes "header_ok h"
  shows "file_entry_value S (FSession h) =
    JObject ((''type'', JString ''session'') # own_header_fields h @ filter (\<lambda>(k, v). k \<noteq> ''type'') (hd_extra h))"
proof -
  have "header_fields h = own_header_fields h @ hd_extra h"
    by (simp add: header_fields_def own_header_fields_def)
  moreover have "extra_ok header_keys ''session'' (hd_extra h)"
    using assms by (simp add: header_ok_def)
  ultimately show ?thesis
    using written_generic[OF _ own_header_keys own_header_distinct type_is_no_header_field] by simp
qed

lemma de_header_cong:
  assumes "\<And>k. k \<in> set header_keys \<Longrightarrow> json_get m k = json_get m' k"
  shows "de_header m = map_option (\<lambda>h. h\<lparr>hd_extra := extra_of header_keys m\<rparr>) (de_header m')"
proof -
  have eqs: "de_option as_u32 m ''version'' = de_option as_u32 m' ''version''" "de_str m ''id'' = de_str m' ''id''"
    "de_str m ''timestamp'' = de_str m' ''timestamp''"
    "de_default JNull Some m ''cwd'' = de_default JNull Some m' ''cwd''"
    "de_option as_str m ''parentSession'' = de_option as_str m' ''parentSession''"
    using assms by (simp_all add: header_keys_def de_default_def de_option_def)
  show ?thesis
    unfolding de_header_def eqs
    by (cases "de_option as_u32 m' ''version''"; cases "de_str m' ''id''"; cases "de_str m' ''timestamp''";
        cases "de_default JNull Some m' ''cwd''"; cases "de_option as_str m' ''parentSession''") simp_all
qed

lemma de_header_own:
  assumes "case hd_version h of None \<Rightarrow> True | Some n \<Rightarrow> n < 2 ^ 32"
  shows "de_header (own_header_fields h) = Some (h\<lparr>hd_extra := extra_of header_keys (own_header_fields h)\<rparr>)"
  using assms
  by (cases h) (auto simp: de_header_def own_header_fields_def de_default_def de_option_def json_get_def map_add_def
      split: option.splits)

lemma header_value_reread:
  assumes "header_ok h"
  shows "file_entry_from_value S (file_entry_value S (FSession h)) = reread (FSession h)"
proof -
  define m where "m = (''type'', JString ''session'') # own_header_fields h @ filter (\<lambda>(k, v). k \<noteq> ''type'') (hd_extra h)"
  have ok: "extra_ok header_keys ''session'' (hd_extra h)"
    using assms by (simp add: header_ok_def)
  have look: "json_get m k = json_get (own_header_fields h) k" if "k \<in> set header_keys" for k
    using field_lookup[OF ok that, of _ "own_header_fields h"] type_is_no_header_field that
    by (metis json_get_def m_def)
  have "de_header m = Some (h\<lparr>hd_extra := tagged ''session'' (hd_extra h)\<rparr>)"
    using de_header_cong[of m "own_header_fields h"] look assms
      extra_of_written[OF ok own_header_keys type_is_no_header_field]
    by (simp add: de_header_own header_ok_def m_def)
  moreover have "get_str (JObject m) ''type'' = Some ''session''"
    by (simp add: m_def get_str_def value_get_def json_get_def)
  ultimately show ?thesis
    unfolding header_value[OF assms] m_def[symmetric] file_entry_from_value_def by simp
qed

subsection \<open>Reading back\<close>

lemma written_tag:
  assumes "entry_ok S (Known h b)"
  shows "get_str (entry_to_value S (Known h b)) ''type'' = Some (body_type b)"
  using written_fields assms by (simp add: entry_ok_def get_str_def value_get_def json_get_def)

lemma body_type_not_session: "body_type b \<noteq> ''session''"
  by (cases b) simp_all

lemma file_entry_reread:
  assumes "file_entry_ok S fe"
  shows "file_entry_from_value S (file_entry_value S fe) = reread fe"
proof (cases fe)
  case (FSession h)
  then show ?thesis using assms header_value_reread by (simp add: file_entry_ok_def del: file_entry_value.simps)
next
  case (FEntry e)
  then have ok: "entry_ok S e" using assms by (simp add: file_entry_ok_def)
  have "get_str (entry_to_value S e) ''type'' \<noteq> Some ''session''"
  proof (cases e)
    case (Known h b)
    then show ?thesis using written_tag ok body_type_not_session by simp
  next
    case (Unknown m)
    then show ?thesis
      using assms FEntry by (simp add: file_entry_ok_def get_str_def value_get_def map_str_def)
  qed
  then show ?thesis
    using entry_value_reread[OF ok] by (simp add: FEntry file_entry_from_value_def)
qed

lemma tagged_ok: "extra_ok ks t x \<Longrightarrow> ''type'' \<notin> set ks \<Longrightarrow> extra_ok ks t (tagged t x)"
  by (auto simp: extra_ok_def tagged_def distinct_map_filter)

lemma filter_tagged [simp]:
  "filter (\<lambda>(k, v). k \<noteq> ''type'') (tagged t x) = filter (\<lambda>(k, v). k \<noteq> ''type'') x"
  by (simp add: tagged_def)

lemma reread_idem [simp]: "reread (reread fe) = reread fe"
  by (cases fe rule: reread.cases; cases "case fe of FEntry e \<Rightarrow> e" rule: reread_entry.cases)
    (auto simp: tagged_def)

lemma reread_ok:
  assumes "file_entry_ok S fe"
  shows "file_entry_ok S (reread fe)"
proof (cases fe)
  case (FSession h)
  then show ?thesis
    using assms tagged_ok[OF _ type_is_no_header_field] by (auto simp: file_entry_ok_def header_ok_def)
next
  case (FEntry e)
  then show ?thesis
    using assms tagged_ok[OF _ type_is_no_field]
    by (cases e) (auto simp: file_entry_ok_def entry_ok_def)
qed

lemma reread_value:
  assumes "file_entry_ok S fe"
  shows "file_entry_value S (reread fe) = file_entry_value S fe"
proof (cases fe)
  case (FSession h)
  have ok: "header_ok h" "header_ok (h\<lparr>hd_extra := tagged ''session'' (hd_extra h)\<rparr>)"
    using assms reread_ok[OF assms] by (simp_all add: FSession file_entry_ok_def)
  show ?thesis
    using header_value[OF ok(1)] header_value[OF ok(2)]
    by (simp add: FSession own_header_fields_def del: file_entry_value.simps)
next
  case (FEntry e)
  show ?thesis
  proof (cases e)
    case (Known h b)
    have ok: "extra_ok (head_keys @ body_keys (body_type b)) (body_type b) (eh_extra h)"
      "extra_ok (head_keys @ body_keys (body_type b)) (body_type b) (tagged (body_type b) (eh_extra h))"
      using assms reread_ok[OF assms] by (simp_all add: FEntry Known file_entry_ok_def entry_ok_def)
    show ?thesis
      using written_fields[OF ok(1)] written_fields[of b "h\<lparr>eh_extra := tagged (body_type b) (eh_extra h)\<rparr>"] ok(2)
      by (simp add: FEntry Known own_fields_def del: entry_to_value.simps)
  qed (simp add: FEntry)
qed

lemma known_views:
  "as_message (Known h b) = (case b of EMessage v \<Rightarrow> Some v | _ \<Rightarrow> None)"
  "as_compaction (Known h b) = (case b of ECompaction c \<Rightarrow> Some c | _ \<Rightarrow> None)"
  "is_label (Known h b) \<longleftrightarrow> (case b of ELabel _ _ \<Rightarrow> True | _ \<Rightarrow> False)"
  by (cases b; simp)+

lemma reread_entry_simps [simp]:
  "entry_id (reread_entry e) = entry_id e"
  "parent_id (reread_entry e) = parent_id e"
  "timestamp (reread_entry e) = timestamp e"
  "entry_type (reread_entry e) = entry_type e"
  "as_message (reread_entry e) = as_message e"
  "as_compaction (reread_entry e) = as_compaction e"
  "is_assistant_message (reread_entry e) = is_assistant_message e"
  by (cases e; simp add: known_views is_assistant_message_def)+

definition plain_serde :: Serde where
  "plain_serde = \<lparr>usage_ser = (\<lambda>_. JObject []), usage_de = (\<lambda>_. Some Usage_default),
     retained_ser = (\<lambda>s. JArray (map (\<lambda>e. JString (re_id e)) (rs_tail s))),
     retained_de = (\<lambda>v. case v of
        JArray xs \<Rightarrow> Some \<lparr>rs_head = [],
          rs_tail = map (\<lambda>x. \<lparr>re_id = str_or_empty (as_str x), prefix_tokens = None, suffix_tokens = None\<rparr>) xs,
          omitted_tokens = 0\<rparr>
      | _ \<Rightarrow> None)\<rparr>"

definition example_compaction :: FileEntry where
  "example_compaction = FEntry (Known
     \<lparr>eh_id = ''c1'', eh_parent_id = Some ''a9'', eh_timestamp = ''2026-01-01T00:00:00.000Z'',
      eh_extra = [(''origin'', JString ''import'')]\<rparr>
     (ECompaction \<lparr>ce_summary = ''so far'', first_kept_entry_id = ''a7'',
        retained = Some \<lparr>rs_head = [], rs_tail = [\<lparr>re_id = ''a7'', prefix_tokens = None, suffix_tokens = None\<rparr>],
                         omitted_tokens = 0\<rparr>,
        tokens_before = 4000, tokens_after = None, ce_details = None, ce_usage = Some Usage_default,
        ce_from_hook = Some False\<rparr>))"

text \<open>
  C37: a line of a session file keeps its entry. Reading back the JSON form of a header or an entry
  gives the entry with the tag \<open>type\<close> in front of its extra keys and nothing else changed, for every
  kind of entry, entries of unknown kinds included; writing that entry again gives the same JSON form,
  so a file that is rewritten after a reload does not drift.
\<close>

theorem session_entry_roundtrip:
  assumes "file_entry_ok S fe"
  shows "file_entry_from_value S (file_entry_value S fe) = reread fe \<and>
    file_entry_value S (reread fe) = file_entry_value S fe"
  using file_entry_reread[OF assms] reread_value[OF assms] by blast

lemma session_entry_roundtrip_witness:
  "file_entry_from_value plain_serde (file_entry_value plain_serde example_compaction) = reread example_compaction \<and>
    file_entry_value plain_serde (reread example_compaction) = file_entry_value plain_serde example_compaction"
proof -
  have "file_entry_ok plain_serde example_compaction"
    by (simp add: file_entry_ok_def entry_ok_def example_compaction_def plain_serde_def opt_back_def extra_ok_def
        head_keys_def body_keys_def is_i64_def I64_MAX_def I64_MIN_def str_or_empty_def)
  from session_entry_roundtrip[OF this] show ?thesis .
qed

end
