(* ===== verification/Session_File.thy ===== *)
theory Session_File
  imports Session_Types
begin

text \<open>
  Session files (\<open>crates/notagent/src/core/session_manager.rs\<close>): identifiers, the migrations of old
  files, parsing of the lines, the chunked load of a file and the bounded scan for its header.

  What is outside the program is a parameter: the text form of JSON values (\<open>serde_json\<close>), path
  resolution and the clock's format (\<open>SessionEnv\<close>), and per call the identifiers drawn, the time and
  what the operating system does (\<open>Call\<close>): every read may return fewer bytes than asked for, and every
  operation may fail.
\<close>

subsection \<open>The environment\<close>

record SessionEnv =
  serde :: Serde
  json_text :: "Json \<Rightarrow> string"
  json_parse :: "string \<Rightarrow> Json option"
  resolve_or_raw :: "string \<Rightarrow> string"
  normalize_or_raw :: "string \<Rightarrow> string"
  parse_timestamp_ms :: "string \<Rightarrow> int option"
  message_ser :: "AgentMessage \<Rightarrow> Json"
  message_de :: "Json \<Rightarrow> AgentMessage option"
  user_content_de :: "Json \<Rightarrow> UserContent option"

record Call =
  now_iso :: string
  new_v4 :: "nat \<Rightarrow> string"
  new_v7 :: string
  read_size :: "nat \<Rightarrow> nat"
  read_error :: "nat \<Rightarrow> string option"
  mkdir_error :: "string option"
  open_error :: "string option"
  set_len_error :: "string option"
  stat_error :: "string option"
  write_error :: "(nat \<times> string) option"
  sync_error :: "string option"
  undo_error :: bool
  temp_error :: "string option"
  rename_error :: "string option"

text \<open>The files by path, each with its bytes.\<close>

type_synonym Disk = "string \<rightharpoonup> string"

text \<open>\<open>Path::join\<close> of a file name.\<close>

definition path_join :: "string \<Rightarrow> string \<Rightarrow> string" where
  "path_join dir name =
    (if starts_with name ''/'' \<or> dir = [] then name
     else if last dir = CHR ''/'' then dir @ name else dir @ ''/'' @ name)"

subsection \<open>Identifiers\<close>

definition is_ascii_alphanumeric :: "char \<Rightarrow> bool" where
  "is_ascii_alphanumeric c \<longleftrightarrow>
    (let b = (of_char c :: nat) in (48 \<le> b \<and> b \<le> 57) \<or> (65 \<le> b \<and> b \<le> 90) \<or> (97 \<le> b \<and> b \<le> 122))"

definition SESSION_ID_RULE :: string where
  "SESSION_ID_RULE = ''Session id must be non-empty, contain only alphanumeric characters, '' @
    [CHR 0x27] @ ''-'' @ [CHR 0x27] @ '', '' @ [CHR 0x27] @ ''_'' @ [CHR 0x27] @ '', and '' @
    [CHR 0x27] @ ''.'' @ [CHR 0x27] @ '', and start and end with an alphanumeric character''"

definition valid_session_id :: "string \<Rightarrow> bool" where
  "valid_session_id i =
    (case i of
       [] \<Rightarrow> False
     | [single] \<Rightarrow> is_ascii_alphanumeric single
     | first # rest \<Rightarrow>
         is_ascii_alphanumeric first \<and> is_ascii_alphanumeric (last rest) \<and>
         list_all (\<lambda>c. is_ascii_alphanumeric c \<or> c \<in> {CHR ''.'', CHR ''_'', CHR ''-''}) (butlast rest))"

definition assert_valid_session_id :: "string \<Rightarrow> string + unit" where
  "assert_valid_session_id i = (if valid_session_id i then Inr () else Inl SESSION_ID_RULE)"

text \<open>
  \<open>generate_id\<close>: the first eight characters of a fresh UUID, drawn again up to a hundred times while
  taken, then a whole one. The index counts the UUIDs drawn so far.
\<close>

fun draw_id :: "nat \<Rightarrow> (string \<Rightarrow> bool) \<Rightarrow> (nat \<Rightarrow> string) \<Rightarrow> nat \<Rightarrow> string \<times> nat" where
  "draw_id 0 taken draw k = (draw k, Suc k)"
| "draw_id (Suc n) taken draw k =
    (let i = take 8 (draw k) in if \<not> taken i then (i, Suc k) else draw_id n taken draw (Suc k))"

definition generate_id :: "(string \<Rightarrow> bool) \<Rightarrow> (nat \<Rightarrow> string) \<Rightarrow> nat \<Rightarrow> string \<times> nat" where
  "generate_id taken draw k = draw_id 100 taken draw k"

subsection \<open>Migrations\<close>

definition CURRENT_SESSION_VERSION :: nat where "CURRENT_SESSION_VERSION = 3"

text \<open>The first loop of \<open>migrate_v1_to_v2\<close>: identifiers and a chain of parents, with the list \<open>assigned\<close>.\<close>

fun assign_ids :: "(nat \<Rightarrow> string) \<Rightarrow> nat \<Rightarrow> string set \<Rightarrow> string option \<Rightarrow> FileEntry list \<Rightarrow>
    FileEntry list \<times> string option list" where
  "assign_ids draw k seen previous [] = ([], [])"
| "assign_ids draw k seen previous (FSession h # fes) =
    (let (fes', assigned) = assign_ids draw k seen previous fes
     in (FSession (h\<lparr>hd_version := Some 2\<rparr>) # fes', None # assigned))"
| "assign_ids draw k seen previous (FEntry e # fes) =
    (let (i, k') = generate_id (\<lambda>x. x \<in> seen) draw k;
         (fes', assigned) = assign_ids draw k' (insert i seen) (Some i) fes
     in (FEntry (set_parent_id previous (set_id i e)) # fes', Some i # assigned))"

text \<open>
  The second loop: \<open>firstKeptEntryIndex\<close> of a compaction becomes the identifier at that index;
  \<open>assigned.get\<close> of an index past the end, and a header's index, leave the field as it is.
\<close>

fun resolve_first_kept :: "string option list \<Rightarrow> FileEntry \<Rightarrow> FileEntry" where
  "resolve_first_kept assigned (FEntry (Known h (ECompaction c))) =
    (case Option.bind (json_get (eh_extra h) ''firstKeptEntryIndex'') as_i64 of
       None \<Rightarrow> FEntry (Known h (ECompaction c))
     | Some i \<Rightarrow>
         if i < 0 then FEntry (Known h (ECompaction c))
         else
           (let h' = h\<lparr>eh_extra := AList.delete ''firstKeptEntryIndex'' (eh_extra h)\<rparr>
            in (case (if nat i < length assigned then assigned ! nat i else None) of
                  Some target \<Rightarrow> FEntry (Known h' (ECompaction (c\<lparr>first_kept_entry_id := target\<rparr>)))
                | None \<Rightarrow> FEntry (Known h' (ECompaction c)))))"
| "resolve_first_kept assigned fe = fe"

definition migrate_v1_to_v2 :: "(nat \<Rightarrow> string) \<Rightarrow> FileEntry list \<Rightarrow> FileEntry list" where
  "migrate_v1_to_v2 draw fes =
    (let (fes', assigned) = assign_ids draw 0 {} None fes in map (resolve_first_kept assigned) fes')"

fun rename_hook_message :: "FileEntry \<Rightarrow> FileEntry" where
  "rename_hook_message (FSession h) = FSession (h\<lparr>hd_version := Some 3\<rparr>)"
| "rename_hook_message (FEntry (Known h (EMessage v))) =
    FEntry (Known h (EMessage
      (if get_str v ''role'' = Some ''hookMessage'' then
         (case v of JObject m \<Rightarrow> JObject (AList.update ''role'' (JString ''custom'') m) | _ \<Rightarrow> v)
       else v)))"
| "rename_hook_message fe = fe"

definition migrate_v2_to_v3 :: "FileEntry list \<Rightarrow> FileEntry list" where
  "migrate_v2_to_v3 fes = map rename_hook_message fes"

definition file_version :: "FileEntry list \<Rightarrow> nat" where
  "file_version fes = (case Option.bind (find_header fes) hd_version of Some v \<Rightarrow> v | None \<Rightarrow> 1)"

text \<open>The result says whether a migration ran.\<close>

definition migrate_to_current_version :: "(nat \<Rightarrow> string) \<Rightarrow> FileEntry list \<Rightarrow> bool \<times> FileEntry list" where
  "migrate_to_current_version draw fes =
    (let version = file_version fes
     in if version \<ge> CURRENT_SESSION_VERSION then (False, fes)
        else
          (let fes1 = (if version < 2 then migrate_v1_to_v2 draw fes else fes);
               fes2 = (if version < 3 then migrate_v2_to_v3 fes1 else fes1)
           in (True, fes2)))"

subsection \<open>Lines\<close>

definition parse_session_entry_line :: "SessionEnv \<Rightarrow> string \<Rightarrow> FileEntry option" where
  "parse_session_entry_line env line =
    (if trim line = [] then None
     else map_option (file_entry_from_value (serde env)) (json_parse env line))"

definition parse_session_entries :: "SessionEnv \<Rightarrow> string \<Rightarrow> FileEntry list" where
  "parse_session_entries env content =
    List.map_filter (parse_session_entry_line env) (split_on newline (trim content))"

definition to_json :: "SessionEnv \<Rightarrow> FileEntry \<Rightarrow> string" where
  "to_json env fe = json_text env (file_entry_value (serde env) fe)"

text \<open>\<open>writeln!\<close> of each entry.\<close>

definition line_of :: "SessionEnv \<Rightarrow> FileEntry \<Rightarrow> string" where
  "line_of env fe = to_json env fe @ [newline]"

definition lines_of :: "SessionEnv \<Rightarrow> FileEntry list \<Rightarrow> string" where
  "lines_of env fes = concat (map (line_of env) fes)"

subsection \<open>Loading a file\<close>

definition SESSION_READ_BUFFER_SIZE :: nat where "SESSION_READ_BUFFER_SIZE = 1024 * 1024"
definition SESSION_HEADER_READ_BUFFER_SIZE :: nat where "SESSION_HEADER_READ_BUFFER_SIZE = 4096"
definition MAX_SESSION_HEADER_SCAN_BYTES :: nat where "MAX_SESSION_HEADER_SCAN_BYTES = 1024 * 1024"

text \<open>\<open>Read::read\<close> into a buffer: at least one byte unless the file is at its end, at most the buffer.\<close>

definition read_length :: "Call \<Rightarrow> nat \<Rightarrow> nat \<Rightarrow> nat" where
  "read_length c i want = min want (max 1 (read_size c i))"

lemma read_length_pos: "0 < want \<Longrightarrow> 0 < read_length c i want"
  by (simp add: read_length_def)

lemma buffer_sizes_pos: "0 < SESSION_READ_BUFFER_SIZE" "0 < SESSION_HEADER_READ_BUFFER_SIZE"
  by (simp_all add: SESSION_READ_BUFFER_SIZE_def SESSION_HEADER_READ_BUFFER_SIZE_def)

text \<open>The complete lines of a buffer and what follows the last newline.\<close>

fun cut_lines :: "string \<Rightarrow> string list \<times> string" where
  "cut_lines [] = ([], [])"
| "cut_lines (x # xs) =
    (case cut_lines xs of (ls, rest) \<Rightarrow>
       if x = newline then ([] # ls, rest)
       else (case ls of [] \<Rightarrow> ([], x # rest) | l # ls' \<Rightarrow> ((x # l) # ls', rest)))"

definition parse_lines :: "SessionEnv \<Rightarrow> string list \<Rightarrow> FileEntry list" where
  "parse_lines env ls = List.map_filter (\<lambda>l. parse_session_entry_line env (from_utf8_lossy l)) ls"

function load_loop :: "SessionEnv \<Rightarrow> Call \<Rightarrow> nat \<Rightarrow> FileEntry list \<Rightarrow> string \<Rightarrow> string \<Rightarrow> FileEntry list \<times> string" where
  "load_loop env c i entries pending rest =
    (if read_error c i \<noteq> None \<or> rest = [] then (entries, pending)
     else
       (let n = read_length c i SESSION_READ_BUFFER_SIZE;
            (ls, pending') = cut_lines (pending @ take n rest)
        in load_loop env c (Suc i) (entries @ parse_lines env ls) pending' (drop n rest)))"
  by pat_completeness auto
termination
  by (relation "measure (\<lambda>(env, c, i, entries, pending, rest). length rest)")
    (simp_all add: read_length_pos buffer_sizes_pos)

declare load_loop.simps [simp del]

definition valid_file_entries :: "FileEntry list \<Rightarrow> FileEntry list" where
  "valid_file_entries entries =
    (case entries of
       [] \<Rightarrow> []
     | FSession h # _ \<Rightarrow> if hd_id h \<noteq> [] then entries else []
     | _ \<Rightarrow> [])"

definition load_entries_from_file :: "SessionEnv \<Rightarrow> Call \<Rightarrow> Disk \<Rightarrow> string \<Rightarrow> FileEntry list" where
  "load_entries_from_file env c disk file_path =
    (case disk (normalize_or_raw env file_path) of
       None \<Rightarrow> []
     | Some content \<Rightarrow>
         if open_error c \<noteq> None then []
         else
           (let (entries, pending) = load_loop env c 0 [] [] content
            in valid_file_entries (entries @ parse_lines env [pending])))"

subsection \<open>Scanning for the header\<close>

datatype SessionFileError = HeaderScanLimit string | FileIo string

text \<open>\<open>None\<close>: keep scanning; \<open>Some None\<close>: an entry that is no header.\<close>

definition parse_session_header_candidate :: "SessionEnv \<Rightarrow> string \<Rightarrow> SessionHeader option option" where
  "parse_session_header_candidate env line =
    (case parse_session_entry_line env line of
       None \<Rightarrow> None
     | Some (FSession h) \<Rightarrow> if hd_id h \<noteq> [] then Some (Some h) else Some None
     | Some _ \<Rightarrow> Some None)"

text \<open>The first of some lines that parses.\<close>

fun first_candidate :: "SessionEnv \<Rightarrow> string list \<Rightarrow> SessionHeader option option" where
  "first_candidate env [] = None"
| "first_candidate env (l # ls) =
    (case parse_session_header_candidate env (from_utf8_lossy l) of
       Some h \<Rightarrow> Some h
     | None \<Rightarrow> first_candidate env ls)"

definition last_line :: "SessionEnv \<Rightarrow> string \<Rightarrow> SessionHeader option" where
  "last_line env l = (case parse_session_header_candidate env (from_utf8_lossy l) of Some h \<Rightarrow> h | None \<Rightarrow> None)"

function header_loop :: "SessionEnv \<Rightarrow> Call \<Rightarrow> string \<Rightarrow> nat \<Rightarrow> nat \<Rightarrow> string \<Rightarrow> string \<Rightarrow>
    SessionFileError + SessionHeader option" where
  "header_loop env c path i scanned pending rest =
    (case read_error c i of
       Some e \<Rightarrow> Inl (FileIo e)
     | None \<Rightarrow>
         if rest = [] then Inr (last_line env pending)
         else if scanned \<ge> MAX_SESSION_HEADER_SCAN_BYTES then Inl (HeaderScanLimit path)
         else
           (let n = min (length rest) (read_length c i (min SESSION_HEADER_READ_BUFFER_SIZE (MAX_SESSION_HEADER_SCAN_BYTES - scanned)));
                (ls, pending') = cut_lines (pending @ take n rest)
            in (case first_candidate env ls of
                  Some h \<Rightarrow> Inr h
                | None \<Rightarrow> header_loop env c path (Suc i) (scanned + n) pending' (drop n rest))))"
  by pat_completeness auto
termination
  by (relation "measure (\<lambda>(env, c, path, i, scanned, pending, rest). length rest)")
    (simp_all add: read_length_pos buffer_sizes_pos)

declare header_loop.simps [simp del]

definition read_session_header :: "SessionEnv \<Rightarrow> Call \<Rightarrow> Disk \<Rightarrow> string \<Rightarrow> SessionFileError + SessionHeader option" where
  "read_session_header env c disk path =
    (case open_error c of
       Some e \<Rightarrow> Inl (FileIo e)
     | None \<Rightarrow>
         (case disk path of
            None \<Rightarrow> Inl (FileIo ''No such file or directory (os error 2)'')
          | Some content \<Rightarrow> header_loop env c path 0 0 [] content))"

definition read_session_header_for_discovery :: "SessionEnv \<Rightarrow> Call \<Rightarrow> Disk \<Rightarrow> string \<Rightarrow> SessionHeader option" where
  "read_session_header_for_discovery env c disk path =
    (case read_session_header env c disk path of Inr h \<Rightarrow> h | Inl _ \<Rightarrow> None)"

end
