(* ===== verification/Session_Manager.thy ===== *)
theory Session_Manager
  imports Session_File "HOL-Library.List_Lexorder" "HOL-Library.Char_ord"
begin

text \<open>
  The session manager (\<open>crates/notagent/src/core/session_manager.rs\<close>): an append-only tree of entries in
  memory, its JSONL file on disk, the appends, the labels, branching and the constructors. Every
  operation takes the state and the disk and returns its result with both; \<open>Call\<close> says what the
  operating system does during the call.

  A failed or torn write is part of the model: a write error stops after any number of bytes, and the
  truncation that should undo it may fail as well, which also is what a crash in the middle of the
  write leaves behind. Slicing past the end of \<open>file_entries\<close> panics; it is the error \<open>Panicked\<close>.
\<close>

subsection \<open>State\<close>

datatype SessionManagerError =
    EntryNotFound string
  | InvalidSessionFile string
  | InvalidSessionId string
  | ForkSourceEmpty string
  | ForkSourceWithoutHeader string
  | IoError string
  | Panicked

record SessionManager =
  session_id :: string
  session_file :: "string option"
  session_dir :: string
  sm_cwd :: string
  persist :: bool
  flushed :: bool
  persisted_entries :: nat
  rollback_offset :: "nat option"
  persistence_error :: "SessionManagerError option"
  file_entries :: "FileEntry list"
  ids :: "string set"
  labels_by_id :: "(string \<times> string) list"
  label_timestamps_by_id :: "(string \<times> string) list"
  leaf_id :: "string option"

type_synonym 'a outcome = "(SessionManagerError + 'a) \<times> SessionManager \<times> Disk"

record NewSessionOptions =
  ns_id :: "string option"
  ns_parent_session :: "string option"

definition default_options :: NewSessionOptions where
  "default_options = \<lparr>ns_id = None, ns_parent_session = None\<rparr>"

subsection \<open>Writing\<close>

definition has_assistant :: "FileEntry list \<Rightarrow> bool" where
  "has_assistant fes = list_ex is_assistant_message (entries_of fes)"

text \<open>\<open>File::set_len\<close>: shortens, or extends with zero bytes.\<close>

definition set_len :: "nat \<Rightarrow> string \<Rightarrow> string" where
  "set_len n content = take n content @ replicate (n - length content) (CHR 0x00)"

text \<open>\<open>OpenOptions\<close> with \<open>append\<close> and \<open>create_new\<close>.\<close>

definition open_append :: "Call \<Rightarrow> bool \<Rightarrow> Disk \<Rightarrow> string \<Rightarrow> string + string" where
  "open_append c create_new disk path =
    (case open_error c of
       Some e \<Rightarrow> Inl e
     | None \<Rightarrow>
         (case disk path of
            Some content \<Rightarrow> if create_new then Inl ''File exists (os error 17)'' else Inr content
          | None \<Rightarrow> if create_new then Inr [] else Inl ''No such file or directory (os error 2)''))"

text \<open>
  Writing the pending lines after \<open>base\<close>: the bytes the file holds afterwards, and the error. On an
  error the file is cut back to \<open>base\<close>, unless that fails too.
\<close>

definition write_pending :: "Call \<Rightarrow> string \<Rightarrow> string \<Rightarrow> string option \<times> string" where
  "write_pending c base bytes =
    (case write_error c of
       Some (n, e) \<Rightarrow> (Some e, if undo_error c then base @ take n bytes else base)
     | None \<Rightarrow>
         (case sync_error c of
            Some e \<Rightarrow> (Some e, if undo_error c then base @ bytes else base)
          | None \<Rightarrow> (None, base @ bytes)))"

definition persist_entry :: "SessionEnv \<Rightarrow> Call \<Rightarrow> SessionManager \<Rightarrow> Disk \<Rightarrow> unit outcome" where
  "persist_entry env c m disk =
    (case (persist m, session_file m) of
       (True, Some path) \<Rightarrow>
         if \<not> has_assistant (file_entries m) \<and> \<not> flushed m then (Inr (), m, disk)
         else
           (case open_append c (\<not> flushed m) disk path of
              Inl e \<Rightarrow> (Inl (IoError e), m, disk)
            | Inr content \<Rightarrow>
                let m1 = m\<lparr>flushed := True\<rparr>;
                    disk1 = disk(path \<mapsto> content)
                in (case (rollback_offset m, set_len_error c) of
                      (Some _, Some e) \<Rightarrow> (Inl (IoError e), m1, disk1)
                    | (offset, _) \<Rightarrow>
                        let base = (case offset of Some n \<Rightarrow> set_len n content | None \<Rightarrow> content);
                            disk2 = disk(path \<mapsto> base)
                        in (case stat_error c of
                              Some e \<Rightarrow> (Inl (IoError e), m1, disk2)
                            | None \<Rightarrow>
                                let m2 = m1\<lparr>rollback_offset := Some (length base)\<rparr>
                                in if length (file_entries m) < persisted_entries m then (Inl Panicked, m2, disk2)
                                   else
                                     (case write_pending c base (lines_of env (drop (persisted_entries m) (file_entries m))) of
                                        (Some e, content') \<Rightarrow> (Inl (IoError e), m2, disk(path \<mapsto> content'))
                                      | (None, content') \<Rightarrow>
                                          (Inr (), m2\<lparr>persisted_entries := length (file_entries m), rollback_offset := None\<rparr>,
                                           disk(path \<mapsto> content'))))))
     | _ \<Rightarrow> (Inr (), m, disk))"

text \<open>\<open>rewrite_file\<close>: a temporary file beside the session file, renamed over it.\<close>

definition rewrite_file :: "SessionEnv \<Rightarrow> Call \<Rightarrow> SessionManager \<Rightarrow> Disk \<Rightarrow> unit outcome" where
  "rewrite_file env c m disk =
    (case (persist m, session_file m) of
       (True, Some path) \<Rightarrow>
         (case temp_error c of
            Some e \<Rightarrow> (Inl (IoError e), m, disk)
          | None \<Rightarrow>
         (case write_error c of
            Some (n, e) \<Rightarrow> (Inl (IoError e), m, disk)
          | None \<Rightarrow>
         (case sync_error c of
            Some e \<Rightarrow> (Inl (IoError e), m, disk)
          | None \<Rightarrow>
         (case rename_error c of
            Some e \<Rightarrow> (Inl (IoError e), m, disk)
          | None \<Rightarrow>
              (Inr (), m\<lparr>persisted_entries := length (file_entries m), rollback_offset := None\<rparr>,
               disk(path \<mapsto> lines_of env (file_entries m)))))))
     | _ \<Rightarrow> (Inr (), m, disk))"

subsection \<open>Appending\<close>

definition append_entry :: "SessionEnv \<Rightarrow> Call \<Rightarrow> SessionEntry \<Rightarrow> SessionManager \<Rightarrow> Disk \<Rightarrow> string outcome" where
  "append_entry env c e m disk =
    (let m1 = m\<lparr>file_entries := file_entries m @ [FEntry e], ids := insert (entry_id e) (ids m),
                leaf_id := Some (entry_id e)\<rparr>
     in (case persist_entry env c m1 disk of
           (Inl err, m2, disk') \<Rightarrow> (Inl err, m2\<lparr>persistence_error := Some err\<rparr>, disk')
         | (Inr _, m2, disk') \<Rightarrow> (Inr (entry_id e), m2, disk')))"

definition take_persistence_error :: "SessionManager \<Rightarrow> SessionManagerError option \<times> SessionManager" where
  "take_persistence_error m = (persistence_error m, m\<lparr>persistence_error := None\<rparr>)"

definition next_id :: "Call \<Rightarrow> SessionManager \<Rightarrow> string" where
  "next_id c m = fst (generate_id (\<lambda>i. i \<in> ids m) (new_v4 c) 0)"

text \<open>The common fields of a new entry: a child of the current leaf.\<close>

definition new_head :: "Call \<Rightarrow> SessionManager \<Rightarrow> EntryHead" where
  "new_head c m = \<lparr>eh_id = next_id c m, eh_parent_id = leaf_id m, eh_timestamp = now_iso c, eh_extra = []\<rparr>"

definition append_body :: "SessionEnv \<Rightarrow> Call \<Rightarrow> EntryBody \<Rightarrow> SessionManager \<Rightarrow> Disk \<Rightarrow> string outcome" where
  "append_body env c b m disk = append_entry env c (Known (new_head c m) b) m disk"

definition append_message_value :: "SessionEnv \<Rightarrow> Call \<Rightarrow> Json \<Rightarrow> SessionManager \<Rightarrow> Disk \<Rightarrow> string outcome" where
  "append_message_value env c v m disk = append_body env c (EMessage v) m disk"

definition append_message :: "SessionEnv \<Rightarrow> Call \<Rightarrow> AgentMessage \<Rightarrow> SessionManager \<Rightarrow> Disk \<Rightarrow> string outcome" where
  "append_message env c message m disk = append_body env c (EMessage (message_ser env message)) m disk"

definition append_thinking_level_change :: "SessionEnv \<Rightarrow> Call \<Rightarrow> string \<Rightarrow> SessionManager \<Rightarrow> Disk \<Rightarrow> string outcome" where
  "append_thinking_level_change env c level m disk = append_body env c (EThinkingLevelChange level) m disk"

definition append_model_change :: "SessionEnv \<Rightarrow> Call \<Rightarrow> string \<Rightarrow> string \<Rightarrow> SessionManager \<Rightarrow> Disk \<Rightarrow> string outcome" where
  "append_model_change env c provider model m disk = append_body env c (EModelChange provider model) m disk"

definition append_compaction :: "SessionEnv \<Rightarrow> Call \<Rightarrow> CompactionEntry \<Rightarrow> SessionManager \<Rightarrow> Disk \<Rightarrow> string outcome" where
  "append_compaction env c entry m disk = append_body env c (ECompaction entry) m disk"

definition append_custom_entry :: "SessionEnv \<Rightarrow> Call \<Rightarrow> string \<Rightarrow> Json option \<Rightarrow> SessionManager \<Rightarrow> Disk \<Rightarrow> string outcome" where
  "append_custom_entry env c ty dat m disk = append_body env c (ECustom ty dat) m disk"

definition append_custom_message_entry ::
    "SessionEnv \<Rightarrow> Call \<Rightarrow> string \<Rightarrow> Json \<Rightarrow> bool \<Rightarrow> Json option \<Rightarrow> SessionManager \<Rightarrow> Disk \<Rightarrow> string outcome" where
  "append_custom_message_entry env c ty content display details m disk =
    append_body env c
      (ECustomMessage \<lparr>cme_custom_type = ty, cme_content = content, cme_details = details, cme_display = display\<rparr>)
      m disk"

text \<open>The name on one line: split at \<open>\r\<close> and \<open>\n\<close>, empty parts dropped, joined by blanks, trimmed.\<close>

definition sanitized_name :: "string \<Rightarrow> string" where
  "sanitized_name name =
    trim (join '' '' (filter (\<lambda>p. p \<noteq> []) (concat (map (split_on newline) (split_on (CHR 0x0D) name)))))"

definition append_session_info :: "SessionEnv \<Rightarrow> Call \<Rightarrow> string \<Rightarrow> SessionManager \<Rightarrow> Disk \<Rightarrow> string outcome" where
  "append_session_info env c name m disk = append_body env c (ESessionInfo (Some (sanitized_name name))) m disk"

fun info_name :: "SessionEntry \<Rightarrow> string option option" where
  "info_name (Known _ (ESessionInfo n)) =
    Some (case n of Some s \<Rightarrow> if trim s \<noteq> [] then Some (trim s) else None | None \<Rightarrow> None)"
| "info_name _ = None"

definition get_session_name :: "SessionManager \<Rightarrow> string option" where
  "get_session_name m =
    (case List.map_filter info_name (rev (entries_of (file_entries m))) of [] \<Rightarrow> None | n # _ \<Rightarrow> n)"

definition non_empty :: "string option \<Rightarrow> string option" where
  "non_empty s = (case s of Some t \<Rightarrow> if t \<noteq> [] then Some t else None | None \<Rightarrow> None)"

text \<open>Setting or clearing a label in the two maps.\<close>

definition set_label :: "string \<Rightarrow> string option \<Rightarrow> string \<Rightarrow> SessionManager \<Rightarrow> SessionManager" where
  "set_label target label time m =
    (case non_empty label of
       Some l \<Rightarrow> m\<lparr>labels_by_id := AList.update target l (labels_by_id m),
                   label_timestamps_by_id := AList.update target time (label_timestamps_by_id m)\<rparr>
     | None \<Rightarrow> m\<lparr>labels_by_id := AList.delete target (labels_by_id m),
                  label_timestamps_by_id := AList.delete target (label_timestamps_by_id m)\<rparr>)"

definition append_label_change ::
    "SessionEnv \<Rightarrow> Call \<Rightarrow> string \<Rightarrow> string option \<Rightarrow> SessionManager \<Rightarrow> Disk \<Rightarrow> string outcome" where
  "append_label_change env c target label m disk =
    (if target \<notin> ids m then (Inl (EntryNotFound target), m, disk)
     else
       (case append_body env c (ELabel target label) m disk of
          (result, m', disk') \<Rightarrow> (result, set_label target label (now_iso c) m', disk')))"

subsection \<open>The tree\<close>

definition get_entries :: "SessionManager \<Rightarrow> SessionEntry list" where
  "get_entries m = entries_of (file_entries m)"

definition find_entry :: "SessionManager \<Rightarrow> string \<Rightarrow> SessionEntry option" where
  "find_entry m i = List.find (\<lambda>e. entry_id e = i) (get_entries m)"

definition get_leaf_entry :: "SessionManager \<Rightarrow> SessionEntry option" where
  "get_leaf_entry m = Option.bind (leaf_id m) (find_entry m)"

definition get_children :: "SessionManager \<Rightarrow> string \<Rightarrow> SessionEntry list" where
  "get_children m p = filter (\<lambda>e. parent_id e = Some p) (get_entries m)"

definition get_label :: "SessionManager \<Rightarrow> string \<Rightarrow> string option" where
  "get_label m i = map_of (labels_by_id m) i"

text \<open>
  The walk from an entry to its root, shared by \<open>get_branch\<close> and \<open>build_session_path\<close>; \<open>None\<close> when it
  does not end. The path is collected leaf first and reversed, so it is built root first here.
\<close>

partial_function (option) walk ::
    "(string \<Rightarrow> SessionEntry option) \<Rightarrow> SessionEntry option \<Rightarrow> SessionEntry list \<Rightarrow> SessionEntry list option" where
  "walk look current path =
    (case current of
       None \<Rightarrow> Some path
     | Some e \<Rightarrow> walk look (Option.bind (parent_id e) look) (e # path))"

definition get_branch :: "SessionManager \<Rightarrow> string option \<Rightarrow> SessionEntry list option" where
  "get_branch m from_id =
    (let start = (case from_id of Some i \<Rightarrow> Some i | None \<Rightarrow> leaf_id m)
     in walk (find_entry m) (Option.bind start (find_entry m)) [])"

subsection \<open>Starting and indexing a session\<close>

definition session_file_name :: "string \<Rightarrow> string \<Rightarrow> string \<Rightarrow> string" where
  "session_file_name dir time i =
    path_join dir (replace_char (CHR ''.'') ''-'' (replace_char (CHR '':'') ''-'' time) @ ''_'' @ i @ ''.jsonl'')"

definition new_header :: "Call \<Rightarrow> string \<Rightarrow> string \<Rightarrow> string option \<Rightarrow> SessionHeader" where
  "new_header c i cwd parent = \<lparr>hd_version = Some CURRENT_SESSION_VERSION, hd_id = i, hd_timestamp = now_iso c,
     hd_cwd = JString cwd, parent_session = parent, hd_extra = []\<rparr>"

definition new_session :: "Call \<Rightarrow> NewSessionOptions \<Rightarrow> SessionManager \<Rightarrow>
    (SessionManagerError + string option) \<times> SessionManager" where
  "new_session c opts m =
    (case (case ns_id opts of Some i \<Rightarrow> assert_valid_session_id i | None \<Rightarrow> Inr ()) of
       Inl e \<Rightarrow> (Inl (InvalidSessionId e), m)
     | Inr _ \<Rightarrow>
         let i = (case ns_id opts of Some i \<Rightarrow> i | None \<Rightarrow> new_v7 c);
             m1 = m\<lparr>session_id := i,
                    file_entries := [FSession (new_header c i (sm_cwd m) (ns_parent_session opts))],
                    ids := {}, labels_by_id := [], label_timestamps_by_id := [], leaf_id := None,
                    flushed := False, persisted_entries := 0, rollback_offset := None\<rparr>;
             m2 = (if persist m then m1\<lparr>session_file := Some (session_file_name (session_dir m) (now_iso c) i)\<rparr> else m1)
         in (Inr (session_file m2), m2))"

definition index_entry :: "SessionEntry \<Rightarrow> SessionManager \<Rightarrow> SessionManager" where
  "index_entry e m =
    (let m1 = m\<lparr>ids := insert (entry_id e) (ids m), leaf_id := Some (entry_id e)\<rparr>
     in (case e of
           Known h (ELabel target label) \<Rightarrow> set_label target label (eh_timestamp h) m1
         | _ \<Rightarrow> m1))"

definition build_index :: "SessionManager \<Rightarrow> SessionManager" where
  "build_index m =
    fold index_entry (entries_of (file_entries m))
      (m\<lparr>ids := {}, labels_by_id := [], label_timestamps_by_id := [], leaf_id := None\<rparr>)"

subsection \<open>Branching\<close>

definition branch :: "string \<Rightarrow> SessionManager \<Rightarrow> (SessionManagerError + unit) \<times> SessionManager" where
  "branch i m = (if i \<notin> ids m then (Inl (EntryNotFound i), m) else (Inr (), m\<lparr>leaf_id := Some i\<rparr>))"

definition reset_leaf :: "SessionManager \<Rightarrow> SessionManager" where
  "reset_leaf m = m\<lparr>leaf_id := None\<rparr>"

definition branch_with_summary ::
    "SessionEnv \<Rightarrow> Call \<Rightarrow> string option \<Rightarrow> string \<Rightarrow> Json option \<Rightarrow> bool option \<Rightarrow> Usage option \<Rightarrow>
     SessionManager \<Rightarrow> Disk \<Rightarrow> string outcome" where
  "branch_with_summary env c from_id summary details from_hook usage m disk =
    (if (case from_id of Some i \<Rightarrow> i \<notin> ids m | None \<Rightarrow> False)
     then (Inl (EntryNotFound (str_or_empty from_id)), m, disk)
     else
       append_body env c
         (EBranchSummary \<lparr>be_from_id = (case from_id of Some i \<Rightarrow> i | None \<Rightarrow> ''root''), be_summary = summary,
            be_details = details, be_usage = usage, be_from_hook = from_hook\<rparr>)
         (m\<lparr>leaf_id := from_id\<rparr>) disk)"

text \<open>The path without its labels, chained again.\<close>

fun rechain :: "string option \<Rightarrow> SessionEntry list \<Rightarrow> SessionEntry list" where
  "rechain parent [] = []"
| "rechain parent (e # es) =
    (if is_label e then rechain parent es
     else set_parent_id parent e # rechain (Some (entry_id e)) es)"

text \<open>The label entries of the new session, one after the other.\<close>

fun label_chain :: "(nat \<Rightarrow> string) \<Rightarrow> nat \<Rightarrow> string set \<Rightarrow> string option \<Rightarrow> (string \<times> string \<times> string) list \<Rightarrow>
    SessionEntry list" where
  "label_chain draw k taken parent [] = []"
| "label_chain draw k taken parent ((target, label, time) # rest) =
    (let (i, k') = generate_id (\<lambda>x. x \<in> taken) draw k
     in Known \<lparr>eh_id = i, eh_parent_id = parent, eh_timestamp = time, eh_extra = []\<rparr> (ELabel target (Some label)) #
        label_chain draw k' (insert i taken) (Some i) rest)"

definition last_id :: "SessionEntry list \<Rightarrow> string option" where
  "last_id es = (if es = [] then None else Some (entry_id (last es)))"

definition labels_to_write :: "SessionManager \<Rightarrow> string set \<Rightarrow> (string \<times> string \<times> string) list" where
  "labels_to_write m path_ids =
    map (\<lambda>(target, label). (target, label, str_or_empty (map_of (label_timestamps_by_id m) target)))
      (filter (\<lambda>(target, label). target \<in> path_ids) (sort_key fst (labels_by_id m)))"

definition branched_entries :: "Call \<Rightarrow> SessionManager \<Rightarrow> SessionEntry list \<Rightarrow> SessionEntry list" where
  "branched_entries c m path =
    (let kept = rechain None path;
         path_ids = set (map entry_id kept)
     in kept @ label_chain (new_v4 c) 0 path_ids (last_id kept) (labels_to_write m path_ids))"

text \<open>The state that \<open>create_branched_session\<close> builds before it writes.\<close>

definition branched_manager :: "Call \<Rightarrow> SessionManager \<Rightarrow> SessionEntry list \<Rightarrow> SessionManager" where
  "branched_manager c m path =
    (let header = new_header c (new_v7 c) (sm_cwd m) (if persist m then session_file m else None);
         m1 = m\<lparr>file_entries := FSession header # map FEntry (branched_entries c m path),
                session_id := new_v7 c, persisted_entries := 0, rollback_offset := None,
                session_file := (if persist m then Some (session_file_name (session_dir m) (now_iso c) (new_v7 c))
                                 else session_file m)\<rparr>
     in build_index m1)"

text \<open>\<open>None\<close>: the walk to the root does not end.\<close>

definition create_branched_session ::
    "SessionEnv \<Rightarrow> Call \<Rightarrow> string \<Rightarrow> SessionManager \<Rightarrow> Disk \<Rightarrow> string option outcome option" where
  "create_branched_session env c leaf m disk =
    (case get_branch m (Some leaf) of
       None \<Rightarrow> None
     | Some path \<Rightarrow> Some
         (if path = [] then (Inl (EntryNotFound leaf), m, disk)
          else
            (let m2 = branched_manager c m path
             in if \<not> persist m then (Inr None, m2, disk)
                else if has_assistant (file_entries m2) then
                  (case rewrite_file env c m2 disk of
                     (Inl e, m3, disk') \<Rightarrow> (Inl e, m3, disk')
                   | (Inr _, m3, disk') \<Rightarrow> (Inr (session_file m3), m3\<lparr>flushed := True\<rparr>, disk'))
                else (Inr (session_file m2), m2\<lparr>flushed := False\<rparr>, disk))))"

subsection \<open>Opening\<close>

definition empty_manager :: "SessionEnv \<Rightarrow> string \<Rightarrow> string \<Rightarrow> bool \<Rightarrow> SessionManager" where
  "empty_manager env cwd dir pers = \<lparr>session_id = [], session_file = None, session_dir = normalize_or_raw env dir,
     sm_cwd = resolve_or_raw env cwd, persist = pers, flushed = False, persisted_entries = 0,
     rollback_offset = None, persistence_error = None, file_entries = [], ids = {}, labels_by_id = [],
     label_timestamps_by_id = [], leaf_id = None\<rparr>"

text \<open>The part of \<open>set_session_file_inner\<close> for a file that holds a session.\<close>

definition adopt_entries :: "SessionEnv \<Rightarrow> Call \<Rightarrow> SessionManager \<Rightarrow> Disk \<Rightarrow> unit outcome" where
  "adopt_entries env c m disk =
    (let m1 = m\<lparr>session_id := (case find_header (file_entries m) of Some h \<Rightarrow> hd_id h | None \<Rightarrow> new_v7 c)\<rparr>;
         (migrated, fes) = migrate_to_current_version (new_v4 c) (file_entries m1);
         m2 = m1\<lparr>file_entries := fes\<rparr>
     in (case (if migrated then rewrite_file env c m2 disk else (Inr (), m2, disk)) of
           (Inl e, m3, disk') \<Rightarrow> (Inl e, m3, disk')
         | (Inr _, m3, disk') \<Rightarrow>
             (Inr (), (build_index m3)\<lparr>flushed := True, persisted_entries := length (file_entries m3),
                        rollback_offset := None\<rparr>, disk')))"

definition set_session_file_inner ::
    "SessionEnv \<Rightarrow> Call \<Rightarrow> string \<Rightarrow> FileEntry list option \<Rightarrow> SessionManager \<Rightarrow> Disk \<Rightarrow> unit outcome" where
  "set_session_file_inner env c path preloaded m disk =
    (let resolved = resolve_or_raw env path;
         m1 = m\<lparr>session_file := Some resolved\<rparr>
     in (case disk resolved of
           None \<Rightarrow>
             (case new_session c default_options m1 of
                (Inl e, m2) \<Rightarrow> (Inl e, m2, disk)
              | (Inr _, m2) \<Rightarrow> (Inr (), m2\<lparr>session_file := Some resolved\<rparr>, disk))
         | Some content \<Rightarrow>
             let m2 = m1\<lparr>file_entries := (case preloaded of Some fes \<Rightarrow> fes
                                           | None \<Rightarrow> load_entries_from_file env c disk resolved)\<rparr>
             in if file_entries m2 = [] then
                  (case stat_error c of
                     Some e \<Rightarrow> (Inl (IoError e), m2, disk)
                   | None \<Rightarrow>
                       if content \<noteq> [] then (Inl (InvalidSessionFile resolved), m2, disk)
                       else
                         (case new_session c default_options m2 of
                            (Inl e, m3) \<Rightarrow> (Inl e, m3, disk)
                          | (Inr _, m3) \<Rightarrow>
                              (case rewrite_file env c (m3\<lparr>session_file := Some resolved\<rparr>) disk of
                                 (Inl e, m4, disk') \<Rightarrow> (Inl e, m4, disk')
                               | (Inr _, m4, disk') \<Rightarrow> (Inr (), m4\<lparr>flushed := True\<rparr>, disk'))))
                else adopt_entries env c m2 disk))"

definition set_session_file :: "SessionEnv \<Rightarrow> Call \<Rightarrow> string \<Rightarrow> SessionManager \<Rightarrow> Disk \<Rightarrow> unit outcome" where
  "set_session_file env c path m disk = set_session_file_inner env c path None m disk"

text \<open>\<open>mkdir_error\<close> is the failure of \<open>create_dir_all\<close> for a directory that is missing; it changes no file.\<close>

definition construct :: "SessionEnv \<Rightarrow> Call \<Rightarrow> string \<Rightarrow> string \<Rightarrow> string option \<Rightarrow> bool \<Rightarrow> NewSessionOptions \<Rightarrow>
    FileEntry list option \<Rightarrow> Disk \<Rightarrow> (SessionManagerError + SessionManager) \<times> Disk" where
  "construct env c cwd dir path pers opts preloaded disk =
    (let m = empty_manager env cwd dir pers
     in if pers \<and> session_dir m \<noteq> [] \<and> mkdir_error c \<noteq> None
        then (Inl (IoError (the (mkdir_error c))), disk)
        else
          (case path of
             Some p \<Rightarrow>
               (case set_session_file_inner env c p preloaded m disk of
                  (Inl e, _, disk') \<Rightarrow> (Inl e, disk')
                | (Inr _, m', disk') \<Rightarrow> (Inr m', disk'))
           | None \<Rightarrow>
               (case new_session c opts m of
                  (Inl e, _) \<Rightarrow> (Inl e, disk)
                | (Inr _, m') \<Rightarrow> (Inr m', disk))))"

definition create_manager :: "SessionEnv \<Rightarrow> Call \<Rightarrow> string \<Rightarrow> string \<Rightarrow> NewSessionOptions \<Rightarrow> Disk \<Rightarrow>
    (SessionManagerError + SessionManager) \<times> Disk" where
  "create_manager env c cwd dir opts disk = construct env c cwd dir None True opts None disk"

definition in_memory :: "SessionEnv \<Rightarrow> Call \<Rightarrow> string \<Rightarrow> NewSessionOptions \<Rightarrow> Disk \<Rightarrow>
    (SessionManagerError + SessionManager) \<times> Disk" where
  "in_memory env c cwd opts disk = construct env c cwd [] None False opts None disk"

definition header_cwd :: "SessionHeader option \<Rightarrow> string option" where
  "header_cwd h = Option.bind h (\<lambda>h. as_str (hd_cwd h))"

text \<open>\<open>parent\<close> is the directory of the resolved path, \<open>here\<close> the working directory of the process.\<close>

definition open_manager :: "SessionEnv \<Rightarrow> Call \<Rightarrow> string \<Rightarrow> string option \<Rightarrow> string option \<Rightarrow> string \<Rightarrow> string \<Rightarrow>
    Disk \<Rightarrow> (SessionManagerError + SessionManager) \<times> Disk" where
  "open_manager env c path dir cwd_override parent here disk =
    (let resolved = resolve_or_raw env path;
         scan = (if cwd_override = None \<and> disk resolved \<noteq> None then
                   (case read_session_header env c disk resolved of
                      Inr h \<Rightarrow> Inr (h, None)
                    | Inl (HeaderScanLimit _) \<Rightarrow>
                        let fes = load_entries_from_file env c disk resolved
                        in Inr ((case fes of fe # _ \<Rightarrow> as_header fe | [] \<Rightarrow> None), Some fes)
                    | Inl (FileIo e) \<Rightarrow> Inl e)
                 else Inr (None, None))
     in (case scan of
           Inl e \<Rightarrow> (Inl (IoError e), disk)
         | Inr (header, preloaded) \<Rightarrow>
             let cwd = (case cwd_override of Some d \<Rightarrow> d
                        | None \<Rightarrow> (case header_cwd header of Some d \<Rightarrow> d | None \<Rightarrow> here));
                 d = (case dir of Some d \<Rightarrow> normalize_or_raw env d | None \<Rightarrow> parent)
             in construct env c cwd d (Some resolved) True default_options preloaded disk))"

definition session_cwd_matches :: "SessionEnv \<Rightarrow> string option \<Rightarrow> string \<Rightarrow> bool" where
  "session_cwd_matches env cwd resolved =
    (case cwd of Some d \<Rightarrow> d \<noteq> [] \<and> resolve_or_raw env d = resolved | None \<Rightarrow> False)"

text \<open>
  \<open>find_most_recent_session\<close> over the \<open>.jsonl\<close> files of the directory with their modification times;
  the sort is stable and newest first.
\<close>

definition find_most_recent_session ::
    "SessionEnv \<Rightarrow> Call \<Rightarrow> Disk \<Rightarrow> (string \<times> nat) list \<Rightarrow> string option \<Rightarrow> string option" where
  "find_most_recent_session env c disk listing cwd =
    (let matching = filter (\<lambda>(path, modified).
           (case read_session_header_for_discovery env c disk path of
              None \<Rightarrow> False
            | Some h \<Rightarrow> (case cwd of None \<Rightarrow> True
                         | Some d \<Rightarrow> session_cwd_matches env (header_cwd (Some h)) (resolve_or_raw env d)))) listing
     in (case sort_key (\<lambda>(path, modified). - int modified) matching of [] \<Rightarrow> None | (path, _) # _ \<Rightarrow> Some path))"

definition continue_recent :: "SessionEnv \<Rightarrow> Call \<Rightarrow> string \<Rightarrow> string \<Rightarrow> bool \<Rightarrow> (string \<times> nat) list \<Rightarrow> Disk \<Rightarrow>
    (SessionManagerError + SessionManager) \<times> Disk" where
  "continue_recent env c cwd dir filter_cwd listing disk =
    construct env c cwd dir
      (find_most_recent_session env c disk listing (if filter_cwd then Some cwd else None))
      True default_options None disk"

text \<open>
  \<open>fork_from\<close>: the entries of another session behind a new header, written to a new file that is then
  opened. A write that fails leaves what it wrote.
\<close>

definition fork_from :: "SessionEnv \<Rightarrow> Call \<Rightarrow> string \<Rightarrow> string \<Rightarrow> string \<Rightarrow> NewSessionOptions \<Rightarrow> Disk \<Rightarrow>
    (SessionManagerError + SessionManager) \<times> Disk" where
  "fork_from env c source target_cwd dir opts disk =
    (let resolved = resolve_or_raw env source;
         target = resolve_or_raw env target_cwd;
         fes = load_entries_from_file env c disk resolved
     in if fes = [] then (Inl (ForkSourceEmpty resolved), disk)
        else if list_all (\<lambda>fe. as_header fe = None) fes then (Inl (ForkSourceWithoutHeader resolved), disk)
        else if mkdir_error c \<noteq> None then (Inl (IoError (the (mkdir_error c))), disk)
        else
          (case (case ns_id opts of Some i \<Rightarrow> assert_valid_session_id i | None \<Rightarrow> Inr ()) of
             Inl e \<Rightarrow> (Inl (InvalidSessionId e), disk)
           | Inr _ \<Rightarrow>
               let i = (case ns_id opts of Some i \<Rightarrow> i | None \<Rightarrow> new_v7 c);
                   new_file = session_file_name dir (now_iso c) i;
                   bytes = lines_of env (FSession (new_header c i target (Some resolved)) # map FEntry (entries_of fes))
               in (case open_append c True disk new_file of
                     Inl e \<Rightarrow> (Inl (IoError e), disk)
                   | Inr _ \<Rightarrow>
                       (case write_error c of
                          Some (n, e) \<Rightarrow> (Inl (IoError e), disk(new_file \<mapsto> take n bytes))
                        | None \<Rightarrow>
                            construct env c target dir (Some new_file) True default_options None
                              (disk(new_file \<mapsto> bytes))))))"

text \<open>
  The branch of the runtime's \<open>fork\<close> for a session that is held in memory
  (\<open>core/agent_session_runtime.rs\<close>): a new manager is split off at the leaf that was chosen.
\<close>

definition fork_in_memory :: "SessionEnv \<Rightarrow> Call \<Rightarrow> string \<Rightarrow> string option \<Rightarrow> string option \<Rightarrow> Disk \<Rightarrow>
    (SessionManagerError + SessionManager) option" where
  "fork_in_memory env c cwd previous_session_file target_leaf_id disk =
    (case in_memory env c cwd default_options disk of
       (Inl e, _) \<Rightarrow> Some (Inl e)
     | (Inr m, disk') \<Rightarrow>
         (case target_leaf_id of
            None \<Rightarrow>
              (case new_session c \<lparr>ns_id = None, ns_parent_session = previous_session_file\<rparr> m of
                 (Inl e, _) \<Rightarrow> Some (Inl e)
               | (Inr _, m') \<Rightarrow> Some (Inr m'))
          | Some leaf \<Rightarrow>
              (case create_branched_session env c leaf m disk' of
                 None \<Rightarrow> None
               | Some (Inl e, _, _) \<Rightarrow> Some (Inl e)
               | Some (Inr _, m', _) \<Rightarrow> Some (Inr m'))))"

subsection \<open>The tree view\<close>

datatype SessionTreeNode =
  SessionTreeNode (node_entry: SessionEntry) (children: "SessionTreeNode list") "string option" "string option"

text \<open>\<open>index_of\<close> keeps the last index of an identifier; a parent that is unknown, or the entry itself, makes a root.\<close>

definition index_of :: "SessionEntry list \<Rightarrow> string \<Rightarrow> nat" where
  "index_of es i = last (filter (\<lambda>k. entry_id (es ! k) = i) [0..<length es])"

definition tree_parent :: "SessionEntry list \<Rightarrow> nat \<Rightarrow> nat option" where
  "tree_parent es k =
    (case parent_id (es ! k) of
       None \<Rightarrow> None
     | Some p \<Rightarrow>
         if p = entry_id (es ! k) then None
         else if p \<in> set (map entry_id es) then Some (index_of es p) else None)"

definition child_indices :: "SessionEntry list \<Rightarrow> nat \<Rightarrow> nat list" where
  "child_indices es k = filter (\<lambda>j. tree_parent es j = Some k) [0..<length es]"

definition root_indices :: "SessionEntry list \<Rightarrow> nat list" where
  "root_indices es = filter (\<lambda>j. tree_parent es j = None) [0..<length es]"

definition time_or_0 :: "SessionEnv \<Rightarrow> string \<Rightarrow> int" where
  "time_or_0 env t = (case parse_timestamp_ms env t of Some ms \<Rightarrow> ms | None \<Rightarrow> 0)"

text \<open>The recursion of \<open>assemble\<close>, bounded by its depth.\<close>

fun assemble :: "SessionEnv \<Rightarrow> SessionManager \<Rightarrow> SessionEntry list \<Rightarrow> nat \<Rightarrow> nat \<Rightarrow> SessionTreeNode option" where
  "assemble env m es 0 k = None"
| "assemble env m es (Suc fuel) k =
    map_option (\<lambda>cs. SessionTreeNode (es ! k) (sort_key (\<lambda>n. time_or_0 env (timestamp (node_entry n))) cs)
        (map_of (labels_by_id m) (entry_id (es ! k))) (map_of (label_timestamps_by_id m) (entry_id (es ! k))))
      (those (map (assemble env m es fuel) (child_indices es k)))"

definition get_tree :: "SessionEnv \<Rightarrow> SessionManager \<Rightarrow> SessionTreeNode list option" where
  "get_tree env m =
    (let es = get_entries m in those (map (assemble env m es (length es)) (root_indices es)))"

end
