(* ===== verification/Session_Proofs.thy ===== *)
theory Session_Proofs
  imports Session_Manager
begin

text \<open>
  The session tree over any sequence of operations: identifiers stay distinct, every parent stands
  before its children, so the walk to the root ends; history is append-only.
\<close>

subsection \<open>Fresh identifiers\<close>

text \<open>
  What \<open>uuid::Uuid::new_v4\<close> promises of the \<open>b\<close> identifiers a call can draw: 36 characters, never the
  same twice, and from the \<open>k\<close>-th on none that is in use as a whole. Their first eight characters may
  well be in use.
\<close>

definition fresh_uuids :: "nat \<Rightarrow> (nat \<Rightarrow> string) \<Rightarrow> nat \<Rightarrow> string set \<Rightarrow> bool" where
  "fresh_uuids b draw k used \<longleftrightarrow>
    inj_on draw {..<b} \<and> (\<forall>j < b. length (draw j) = 36) \<and> (\<forall>j. k \<le> j \<and> j < b \<longrightarrow> draw j \<notin> used)"

lemma draw_id_fresh:
  assumes "draw_id n taken draw k = (i, k')" and "\<And>j. k \<le> j \<Longrightarrow> j \<le> k + n \<Longrightarrow> \<not> taken (draw j)"
  shows "\<not> taken i \<and> k < k' \<and> k' \<le> Suc (k + n) \<and> (\<exists>j. k \<le> j \<and> j < k' \<and> (i = draw j \<or> i = take 8 (draw j)))"
  using assms
proof (induction n arbitrary: k)
  case (Suc n)
  show ?case
  proof (cases "taken (take 8 (draw k))")
    case True
    then have "draw_id n taken draw (Suc k) = (i, k')"
      using Suc.prems(1) by (simp add: Let_def)
    moreover have "\<not> taken (draw j)" if "Suc k \<le> j" "j \<le> Suc k + n" for j
      using Suc.prems(2)[of j] that by simp
    ultimately obtain j where "\<not> taken i" "Suc k < k'" "k' \<le> Suc (Suc k + n)" "Suc k \<le> j" "j < k'"
        "i = draw j \<or> i = take 8 (draw j)"
      using Suc.IH[of "Suc k"] by blast
    moreover from this have "k \<le> j" by simp
    ultimately show ?thesis by (intro conjI exI[of _ j]) simp_all
  qed (use Suc.prems in \<open>auto simp: Let_def\<close>)
qed auto

lemma generate_id_fresh:
  assumes "fresh_uuids b draw k used" and "generate_id (\<lambda>x. x \<in> used) draw k = (i, k')" and "k + 101 \<le> b"
  shows "i \<notin> used" and "k' \<le> k + 101" and "fresh_uuids b draw k' (insert i used)"
proof -
  have f: "inj_on draw {..<b}" "\<And>j. j < b \<Longrightarrow> length (draw j) = 36" "\<And>j. k \<le> j \<Longrightarrow> j < b \<Longrightarrow> draw j \<notin> used"
    using assms(1) by (simp_all add: fresh_uuids_def)
  from draw_id_fresh[of 100 "\<lambda>x. x \<in> used" draw k i k'] assms(2,3) f(3)
  obtain l where i: "i \<notin> used" "k < k'" "k' \<le> k + 101" "l < k'" "i = draw l \<or> i = take 8 (draw l)"
    by (auto simp: generate_id_def)
  from i(1) show "i \<notin> used" .
  from i(3) show "k' \<le> k + 101" .
  have l: "l < b" using i(3,4) assms(3) by simp
  have "draw j \<noteq> i" if "k' \<le> j" "j < b" for j
  proof
    assume e: "draw j = i"
    then have "i \<noteq> take 8 (draw l)" using f(2)[OF that(2)] f(2)[OF l] by auto
    then have "draw l = draw j" using i(5) e by simp
    then show False using f(1) i(4) that l by (auto dest: inj_onD)
  qed
  then show "fresh_uuids b draw k' (insert i used)"
    using f i(2) by (auto simp: fresh_uuids_def)
qed

lemma next_id_fresh: "fresh_uuids b (new_v4 c) 0 (ids m) \<Longrightarrow> 101 \<le> b \<Longrightarrow> next_id c m \<notin> ids m"
  using generate_id_fresh(1)[of b "new_v4 c" 0 "ids m"]
  by (cases "generate_id (\<lambda>i. i \<in> ids m) (new_v4 c) 0") (simp add: next_id_def)

text \<open>A hundred tries and the fallback for each entry a call can make: one, or one per label.\<close>

abbreviation fresh_for :: "Call \<Rightarrow> SessionManager \<Rightarrow> bool" where
  "fresh_for c m \<equiv> fresh_uuids (101 * Suc (length (labels_by_id m))) (new_v4 c) 0 (ids m)"

subsection \<open>Trees in creation order\<close>

text \<open>Each identifier is new and each parent has been seen.\<close>

fun chained :: "string set \<Rightarrow> SessionEntry list \<Rightarrow> bool" where
  "chained seen [] \<longleftrightarrow> True"
| "chained seen (e # es) \<longleftrightarrow>
    entry_id e \<notin> seen \<and> set_option (parent_id e) \<subseteq> seen \<and>
    chained (insert (entry_id e) seen) es"

abbreviation ids_of :: "SessionEntry list \<Rightarrow> string set" where
  "ids_of es \<equiv> set (map entry_id es)"

lemma chained_append:
  "chained seen (xs @ ys) \<longleftrightarrow> chained seen xs \<and> chained (seen \<union> ids_of xs) ys"
  by (induction xs arbitrary: seen) auto

lemma chained_distinct: "chained seen es \<Longrightarrow> distinct (map entry_id es) \<and> seen \<inter> ids_of es = {}"
  by (induction es arbitrary: seen) auto

definition tree_ok :: "SessionManager \<Rightarrow> bool" where
  "tree_ok m \<longleftrightarrow> chained {} (get_entries m) \<and> ids m = ids_of (get_entries m) \<and>
    set_option (leaf_id m) \<subseteq> ids m"

subsection \<open>The walk to the root\<close>

abbreviation find_id :: "SessionEntry list \<Rightarrow> string \<Rightarrow> SessionEntry option" where
  "find_id es i \<equiv> List.find (\<lambda>e. entry_id e = i) es"

lemma find_id_None: "find_id es i = None \<longleftrightarrow> i \<notin> ids_of es"
  by (auto simp: find_None_iff)

lemma find_id_append:
  "find_id (xs @ ys) i = (case find_id xs i of Some e \<Rightarrow> Some e | None \<Rightarrow> find_id ys i)"
  by (induction xs) auto

lemma find_id_Some: "find_id es i = Some e \<Longrightarrow> e \<in> set es \<and> entry_id e = i"
  by (auto simp: find_Some_iff)

lemma bind_find_cases: "Option.bind p (find_id es) = None \<or> (\<exists>x \<in> set es. Option.bind p (find_id es) = Some x)"
proof (cases p)
  case (Some i)
  then show ?thesis using find_id_Some[of i es] by (cases "find_id es i") auto
qed simp

text \<open>The path an entry has by the order of creation: the path of its parent and the entry.\<close>

inductive root_path :: "SessionEntry list \<Rightarrow> SessionEntry option \<Rightarrow> SessionEntry list \<Rightarrow> bool" for es where
  root_path_none: "root_path es None []"
| root_path_some: "root_path es (Option.bind (parent_id e) (find_id es)) path \<Longrightarrow> root_path es (Some e) (path @ [e])"

inductive_cases root_path_noneE: "root_path es None path"
inductive_cases root_path_someE: "root_path es (Some e) path"

lemma walk_root_path: "root_path es e path \<Longrightarrow> walk (find_id es) e acc = Some (path @ acc)"
proof (induction arbitrary: acc rule: root_path.induct)
  case root_path_none
  then show ?case by (simp add: walk.simps)
next
  case (root_path_some e path)
  show ?case by (subst walk.simps) (simp add: root_path_some.IH)
qed

lemma root_path_functional: "root_path es e p \<Longrightarrow> root_path es e q \<Longrightarrow> p = q"
  using walk_root_path[of es e p "[]"] walk_root_path[of es e q "[]"] by simp

lemma chained_parent:
  assumes "chained {} es" and "x \<in> set es" and "parent_id x = Some p"
  shows "p \<in> ids_of es"
proof -
  obtain us vs where "es = us @ x # vs" using assms(2) by (meson split_list)
  then show ?thesis using assms by (auto simp: chained_append)
qed

lemma chained_take: "chained {} (xs @ ys) \<Longrightarrow> chained {} xs"
  by (simp add: chained_append)

text \<open>History is append-only: later entries do not change the path of an earlier one.\<close>

lemma root_path_extend:
  assumes "root_path xs f path" and "chained {} xs" and "f = None \<or> (\<exists>x \<in> set xs. f = Some x)"
  shows "root_path (xs @ ys) f path"
  using assms
proof (induction rule: root_path.induct)
  case (root_path_some x path)
  then have x: "x \<in> set xs" by auto
  have "Option.bind (parent_id x) (find_id (xs @ ys)) = Option.bind (parent_id x) (find_id xs)"
    using chained_parent[OF root_path_some.prems(1) x]
    by (cases "parent_id x") (auto simp: find_id_append find_id_None split: option.splits)
  then show ?case
    using root_path.root_path_some[of "xs @ ys" x path] root_path_some.IH[OF root_path_some.prems(1) bind_find_cases]
    by simp
qed (auto intro: root_path.intros)

lemma root_path_exists:
  assumes "chained {} es" and "e = None \<or> (\<exists>x \<in> set es. e = Some x)"
  shows "\<exists>path. root_path es e path"
  using assms
proof (induction es arbitrary: e rule: rev_induct)
  case Nil
  then show ?case by (auto intro: root_path.intros)
next
  case (snoc y ys)
  have ch: "chained {} ys" "entry_id y \<notin> ids_of ys" "\<And>p. parent_id y = Some p \<Longrightarrow> p \<in> ids_of ys"
    using snoc.prems(1) by (auto simp: chained_append)
  show ?case
  proof (cases "e = Some y")
    case True
    let ?f = "Option.bind (parent_id y) (find_id ys)"
    from snoc.IH[OF ch(1) bind_find_cases] obtain path where p: "root_path ys ?f path" by blast
    have "root_path (ys @ [y]) ?f path"
      by (rule root_path_extend[OF p ch(1) bind_find_cases])
    moreover have "Option.bind (parent_id y) (find_id (ys @ [y])) = ?f"
      using ch by (cases "parent_id y") (auto simp: find_id_append find_id_None split: option.splits)
    ultimately show ?thesis
      using root_path.root_path_some[of "ys @ [y]" y path] True by auto
  next
    case False
    then have e: "e = None \<or> (\<exists>x \<in> set ys. e = Some x)" using snoc.prems(2) by auto
    with snoc.IH[OF ch(1)] obtain path where "root_path ys e path" by blast
    then show ?thesis using root_path_extend[OF _ ch(1) e] by blast
  qed
qed

text \<open>A path runs from a root along the parent links.\<close>

fun links :: "string option \<Rightarrow> SessionEntry list \<Rightarrow> bool" where
  "links parent [] \<longleftrightarrow> True"
| "links parent (e # es) \<longleftrightarrow> parent_id e = parent \<and> links (Some (entry_id e)) es"

lemma links_snoc:
  "links parent (es @ [e]) \<longleftrightarrow>
    links parent es \<and> parent_id e = (if es = [] then parent else Some (entry_id (last es)))"
  by (induction es arbitrary: parent) auto

lemma root_path_last: "root_path es (Some x) path \<Longrightarrow> path \<noteq> [] \<and> last path = x"
  by (auto elim: root_path_someE)

lemma root_path_links:
  assumes "root_path es f path" and "chained {} es" and "f = None \<or> (\<exists>x \<in> set es. f = Some x)"
  shows "links None path \<and> set path \<subseteq> set es"
  using assms
proof (induction rule: root_path.induct)
  case (root_path_some x path)
  then have x: "x \<in> set es" by auto
  have IH: "links None path" "set path \<subseteq> set es"
    using root_path_some.IH[OF root_path_some.prems(1) bind_find_cases] by auto
  have "parent_id x = (if path = [] then None else Some (entry_id (last path)))"
  proof (cases "parent_id x")
    case None
    then show ?thesis using root_path_some.hyps by (auto elim: root_path_noneE)
  next
    case (Some p)
    then obtain q where q: "find_id es p = Some q"
      using chained_parent[OF root_path_some.prems(1) x] find_id_None[of p es] by fastforce
    then have "path \<noteq> [] \<and> last path = q"
      using root_path_some.hyps Some by (intro root_path_last) simp
    then show ?thesis using find_id_Some[OF q] Some by simp
  qed
  then show ?case using IH x by (simp add: links_snoc)
qed simp

lemma find_entry_eq: "find_entry m = find_id (get_entries m)"
  by (simp add: fun_eq_iff find_entry_def)

lemma branch_path:
  assumes "tree_ok m" and "i \<in> ids m"
  obtains x path where "get_branch m (Some i) = Some path" "root_path (get_entries m) (Some x) path"
    "x \<in> set (get_entries m)" "entry_id x = i"
proof -
  obtain x where x: "find_id (get_entries m) i = Some x"
    using assms find_id_None[of i "get_entries m"] by (auto simp: tree_ok_def)
  then have xs: "x \<in> set (get_entries m)" "entry_id x = i" using find_id_Some by blast+
  with root_path_exists[of "get_entries m" "Some x"] assms(1)
  obtain path where p: "root_path (get_entries m) (Some x) path" by (auto simp: tree_ok_def)
  then have "get_branch m (Some i) = Some path"
    using walk_root_path[OF p, of "[]"] x by (simp add: get_branch_def find_entry_eq)
  then show ?thesis using that p xs by blast
qed

lemma branch_missing:
  assumes "tree_ok m" and "i \<notin> ids m"
  shows "get_branch m (Some i) = Some []"
proof -
  have "find_id (get_entries m) i = None"
    using assms find_id_None[of i "get_entries m"] by (simp add: tree_ok_def)
  then show ?thesis by (simp add: get_branch_def find_entry_eq walk.simps)
qed

lemma root_path_bounded:
  assumes "chained {} es" and "root_path es (Some x) path" and "x \<in> set es"
  shows "distinct (map entry_id path)"
  using assms
proof (induction es arbitrary: x path rule: rev_induct)
  case (snoc y ys)
  have ch: "chained {} ys" "entry_id y \<notin> ids_of ys" "\<And>p. parent_id y = Some p \<Longrightarrow> p \<in> ids_of ys"
    using snoc.prems(1) by (auto simp: chained_append)
  show ?case
  proof (cases "x \<in> set ys")
    case True
    then obtain q where q: "root_path ys (Some x) q"
      using root_path_exists[OF ch(1), of "Some x"] by blast
    then have "root_path (ys @ [y]) (Some x) q"
      using root_path_extend[OF q ch(1)] True by blast
    then have "q = path" using snoc.prems(2) root_path_functional by blast
    then show ?thesis using snoc.IH[OF ch(1) q True] by simp
  next
    case False
    then have x: "x = y" using snoc.prems(3) by simp
    let ?f = "Option.bind (parent_id y) (find_id ys)"
    obtain q where q: "root_path ys ?f q"
      using root_path_exists[OF ch(1) bind_find_cases] by blast
    have f: "Option.bind (parent_id y) (find_id (ys @ [y])) = ?f"
      using ch by (cases "parent_id y") (auto simp: find_id_append find_id_None split: option.splits)
    have "root_path (ys @ [y]) (Some y) (q @ [y])"
      by (rule root_path_some) (simp add: f root_path_extend[OF q ch(1) bind_find_cases])
    then have path: "path = q @ [y]" using snoc.prems(2) x root_path_functional by blast
    have "distinct (map entry_id q)"
    proof (cases ?f)
      case None
      then show ?thesis using q by (auto elim: root_path_noneE)
    next
      case (Some z)
      then have "z \<in> set ys" using bind_find_cases[of "parent_id y" ys] by auto
      then show ?thesis using snoc.IH[OF ch(1)] q Some by auto
    qed
    moreover have "set q \<subseteq> set ys" using root_path_links[OF q ch(1) bind_find_cases] by simp
    ultimately show ?thesis using path ch(2) by auto
  qed
qed simp

subsection \<open>Operations\<close>

datatype SessionOp =
    AppendMessage AgentMessage
  | AppendMessageValue Json
  | AppendThinkingLevel string
  | AppendModel string string
  | AppendCompaction CompactionEntry
  | AppendCustom string "Json option"
  | AppendCustomMessage string Json bool "Json option"
  | AppendSessionInfo string
  | ChangeLabel string "string option"
  | BranchTo string
  | ResetLeaf
  | SummarizeBranch "string option" string "Json option" "bool option" "Usage option"
  | StartSession NewSessionOptions
  | BranchSession string
  | TakeError

fun session_op :: "SessionEnv \<Rightarrow> Call \<Rightarrow> SessionOp \<Rightarrow> SessionManager \<Rightarrow> Disk \<Rightarrow> (SessionManager \<times> Disk) option" where
  "session_op env c (AppendMessage v) m disk = Some (snd (append_message env c v m disk))"
| "session_op env c (AppendMessageValue v) m disk = Some (snd (append_message_value env c v m disk))"
| "session_op env c (AppendThinkingLevel l) m disk = Some (snd (append_thinking_level_change env c l m disk))"
| "session_op env c (AppendModel p i) m disk = Some (snd (append_model_change env c p i m disk))"
| "session_op env c (AppendCompaction e) m disk = Some (snd (append_compaction env c e m disk))"
| "session_op env c (AppendCustom t d) m disk = Some (snd (append_custom_entry env c t d m disk))"
| "session_op env c (AppendCustomMessage t v b d) m disk = Some (snd (append_custom_message_entry env c t v b d m disk))"
| "session_op env c (AppendSessionInfo n) m disk = Some (snd (append_session_info env c n m disk))"
| "session_op env c (ChangeLabel t l) m disk = Some (snd (append_label_change env c t l m disk))"
| "session_op env c (BranchTo i) m disk = Some (snd (branch i m), disk)"
| "session_op env c ResetLeaf m disk = Some (reset_leaf m, disk)"
| "session_op env c (SummarizeBranch f t d h u) m disk = Some (snd (branch_with_summary env c f t d h u m disk))"
| "session_op env c (StartSession opts) m disk = Some (snd (new_session c opts m), disk)"
| "session_op env c (BranchSession i) m disk = map_option snd (create_branched_session env c i m disk)"
| "session_op env c TakeError m disk = Some (snd (take_persistence_error m), disk)"

text \<open>The operations that add one entry to the tree, at a leaf they may have moved first.\<close>

lemmas append_defs = append_message_def append_message_value_def append_thinking_level_change_def
  append_model_change_def append_compaction_def append_custom_entry_def append_custom_message_entry_def
  append_session_info_def

subsection \<open>What writing leaves alone\<close>

lemma persist_entry_frame:
  assumes "persist_entry env c m disk = (r, m', disk')"
  shows "m' = m\<lparr>flushed := flushed m', persisted_entries := persisted_entries m', rollback_offset := rollback_offset m'\<rparr>"
  using assms
  by (auto simp: persist_entry_def Let_def split: bool.splits option.splits sum.splits prod.splits if_splits)

lemma rewrite_file_frame:
  assumes "rewrite_file env c m disk = (r, m', disk')"
  shows "m' = m\<lparr>persisted_entries := persisted_entries m', rollback_offset := rollback_offset m'\<rparr>"
  using assms
  by (auto simp: rewrite_file_def split: bool.splits option.splits sum.splits prod.splits if_splits)

text \<open>The parts of the state that make up the tree.\<close>

definition same_tree :: "SessionManager \<Rightarrow> SessionManager \<Rightarrow> bool" where
  "same_tree m m' \<longleftrightarrow> file_entries m' = file_entries m \<and> ids m' = ids m \<and> leaf_id m' = leaf_id m"

lemma same_tree_ok: "same_tree m m' \<Longrightarrow> tree_ok m \<Longrightarrow> tree_ok m'"
  by (auto simp: same_tree_def tree_ok_def get_entries_def split: option.splits)

lemma append_entry_tree:
  assumes "append_entry env c e m disk = (r, m', disk')"
  shows "file_entries m' = file_entries m @ [FEntry e]" "ids m' = insert (entry_id e) (ids m)"
    "leaf_id m' = Some (entry_id e)" "labels_by_id m' = labels_by_id m"
    "persist m' = persist m" "session_file m' = session_file m" "session_dir m' = session_dir m"
    "r = Inr i \<Longrightarrow> i = entry_id e"
proof -
  define m1 where "m1 = m\<lparr>file_entries := file_entries m @ [FEntry e], ids := insert (entry_id e) (ids m),
                leaf_id := Some (entry_id e)\<rparr>"
  obtain r2 m2 d2 where p: "persist_entry env c m1 disk = (r2, m2, d2)"
    by (cases "persist_entry env c m1 disk") auto
  have "m' = m2 \<or> (\<exists>err. m' = m2\<lparr>persistence_error := Some err\<rparr>)" and r: "r = Inr i \<Longrightarrow> i = entry_id e"
    using assms p by (auto simp: append_entry_def m1_def[symmetric] split: sum.splits)
  moreover obtain f k n where "m2 = m1\<lparr>flushed := f, persisted_entries := k, rollback_offset := n\<rparr>"
    using persist_entry_frame[OF p] by blast
  ultimately have "file_entries m' = file_entries m1 \<and> ids m' = ids m1 \<and> leaf_id m' = leaf_id m1 \<and>
      labels_by_id m' = labels_by_id m1 \<and> persist m' = persist m1 \<and> session_file m' = session_file m1 \<and>
      session_dir m' = session_dir m1"
    by auto
  then show "file_entries m' = file_entries m @ [FEntry e]" "ids m' = insert (entry_id e) (ids m)"
    "leaf_id m' = Some (entry_id e)" "labels_by_id m' = labels_by_id m"
    "persist m' = persist m" "session_file m' = session_file m" "session_dir m' = session_dir m"
    by (simp_all add: m1_def)
  show "r = Inr i \<Longrightarrow> i = entry_id e" by (rule r)
qed

subsection \<open>Every operation keeps the tree\<close>

lemma append_entry_ok:
  assumes "append_entry env c e m disk = (r, m', disk')" and "tree_ok m"
    and "entry_id e \<notin> ids m" and "set_option (parent_id e) \<subseteq> ids m"
  shows "tree_ok m'"
  using append_entry_tree[OF assms(1)] assms(2-4)
  by (auto simp: tree_ok_def get_entries_def chained_append)

lemma append_body_ok:
  assumes "append_body env c b m disk = (r, m', disk')" and "tree_ok m" and "fresh_for c m"
  shows "tree_ok m'"
  using assms next_id_fresh[OF assms(3)]
  by (intro append_entry_ok[OF assms(1)[unfolded append_body_def]])
    (auto simp: new_head_def tree_ok_def)

lemma set_label_tree [simp]:
  "file_entries (set_label t l s m) = file_entries m" "ids (set_label t l s m) = ids m"
  "leaf_id (set_label t l s m) = leaf_id m" "persist (set_label t l s m) = persist m"
  "session_file (set_label t l s m) = session_file m" "flushed (set_label t l s m) = flushed m"
  "persisted_entries (set_label t l s m) = persisted_entries m"
  "rollback_offset (set_label t l s m) = rollback_offset m" "session_dir (set_label t l s m) = session_dir m"
  "session_id (set_label t l s m) = session_id m" "sm_cwd (set_label t l s m) = sm_cwd m"
  by (simp_all add: set_label_def split: option.splits)

lemma set_label_tree_ok [simp]: "tree_ok (set_label t l s m) = tree_ok m"
  by (simp add: tree_ok_def get_entries_def)

lemma index_entry_tree [simp]:
  "file_entries (index_entry e m) = file_entries m" "ids (index_entry e m) = insert (entry_id e) (ids m)"
  "leaf_id (index_entry e m) = Some (entry_id e)" "persist (index_entry e m) = persist m"
  "session_file (index_entry e m) = session_file m" "flushed (index_entry e m) = flushed m"
  "persisted_entries (index_entry e m) = persisted_entries m"
  "rollback_offset (index_entry e m) = rollback_offset m"
  by (simp_all add: index_entry_def Let_def split: SessionEntry.splits EntryBody.splits)

lemma fold_index_tree:
  "file_entries (fold index_entry es m) = file_entries m"
  "ids (fold index_entry es m) = ids m \<union> ids_of es"
  "leaf_id (fold index_entry es m) = (if es = [] then leaf_id m else Some (entry_id (last es)))"
  "persist (fold index_entry es m) = persist m" "session_file (fold index_entry es m) = session_file m"
  "flushed (fold index_entry es m) = flushed m" "persisted_entries (fold index_entry es m) = persisted_entries m"
  "rollback_offset (fold index_entry es m) = rollback_offset m"
  by (induction es arbitrary: m) auto

lemma build_index_tree:
  "file_entries (build_index m) = file_entries m" "ids (build_index m) = ids_of (get_entries m)"
  "leaf_id (build_index m) = last_id (get_entries m)"
  "persist (build_index m) = persist m" "session_file (build_index m) = session_file m"
  "flushed (build_index m) = flushed m" "persisted_entries (build_index m) = persisted_entries m"
  "rollback_offset (build_index m) = rollback_offset m"
  by (simp_all add: build_index_def fold_index_tree last_id_def get_entries_def)

lemma build_index_ok: "chained {} (get_entries m) \<Longrightarrow> tree_ok (build_index m)"
  by (auto simp: tree_ok_def build_index_tree get_entries_def last_id_def)

lemma set_parent_id_simps [simp]:
  "entry_id (set_parent_id p e) = entry_id e" "parent_id (set_parent_id p e) = p"
  "is_label (set_parent_id p e) = is_label e"
  by (cases e; cases p; simp add: map_str_def json_get_def update_conv opt_string_def; fail)+
    (cases e; auto elim: is_label.elims)

lemma rechain_ids: "ids_of (rechain p es) = entry_id ` {e \<in> set es. \<not> is_label e}"
  by (induction es arbitrary: p) auto

lemma rechain_chained:
  assumes "distinct (map entry_id es)" and "seen \<inter> ids_of es = {}"
    and "set_option p \<subseteq> seen"
  shows "chained seen (rechain p es)"
  using assms by (induction es arbitrary: p seen) auto

lemma label_chain_chained:
  assumes "fresh_uuids b draw k taken" and "set_option p \<subseteq> taken" and "k + 101 * length ls \<le> b"
  shows "chained taken (label_chain draw k taken p ls)"
  using assms
proof (induction ls arbitrary: k taken p)
  case (Cons l ls)
  obtain t n s where l: "l = (t, n, s)" by (cases l)
  obtain i k' where g: "generate_id (\<lambda>x. x \<in> taken) draw k = (i, k')" by fastforce
  from generate_id_fresh[OF Cons.prems(1) g] Cons.IH[of k' "insert i taken" "Some i"] Cons.prems(2,3)
  show ?case by (simp add: l g)
qed simp

lemma last_id_in: "set_option (last_id es) \<subseteq> ids_of es"
  by (simp add: last_id_def)

lemma fresh_uuids_subset: "fresh_uuids b draw k used \<Longrightarrow> used' \<subseteq> used \<Longrightarrow> fresh_uuids b draw k used'"
  by (auto simp: fresh_uuids_def)

lemma branched_entries_chained:
  assumes "distinct (map entry_id path)" and "ids_of path \<subseteq> ids m" and "fresh_for c m"
  shows "chained {} (branched_entries c m path)"
proof -
  let ?kept = "rechain None path"
  have "ids_of ?kept \<subseteq> ids m" unfolding rechain_ids using assms(2) by auto
  then have "fresh_uuids (101 * Suc (length (labels_by_id m))) (new_v4 c) 0 (ids_of ?kept)"
    using assms(3) fresh_uuids_subset by blast
  moreover have "length (labels_to_write m (ids_of ?kept)) \<le> length (labels_by_id m)"
    by (simp add: labels_to_write_def) (metis length_filter_le length_sort)
  ultimately show ?thesis
    using rechain_chained[OF assms(1), of "{}" None] label_chain_chained[OF _ last_id_in]
    by (simp add: branched_entries_def Let_def chained_append)
qed

lemma branch_ids:
  assumes "tree_ok m" and "get_branch m (Some i) = Some path"
  shows "distinct (map entry_id path)" and "ids_of path \<subseteq> ids m"
proof -
  have "distinct (map entry_id path) \<and> ids_of path \<subseteq> ids m"
  proof (cases "i \<in> ids m")
    case True
    from branch_path[OF assms(1) this] assms(2) obtain x where
      "root_path (get_entries m) (Some x) path" "x \<in> set (get_entries m)" by auto
    moreover from this have "set path \<subseteq> set (get_entries m)"
      using root_path_links[of "get_entries m" "Some x"] assms(1) by (simp add: tree_ok_def)
    ultimately show ?thesis
      using root_path_bounded[of "get_entries m"] assms(1) by (auto simp: tree_ok_def)
  qed (use branch_missing[OF assms(1)] assms(2) in simp)
  then show "distinct (map entry_id path)" "ids_of path \<subseteq> ids m" by auto
qed

lemma create_branched_cases:
  assumes "create_branched_session env c i m disk = Some (r, m', disk')"
  obtains (missing) "get_branch m (Some i) = Some []" "m' = m" "disk' = disk" "r = Inl (EntryNotFound i)"
  | (memory) path where "get_branch m (Some i) = Some path" "path \<noteq> []" "\<not> persist m" "r = Inr None"
      "m' = branched_manager c m path" "disk' = disk"
  | (unwritten) path where "get_branch m (Some i) = Some path" "path \<noteq> []" "persist m"
      "\<not> has_assistant (file_entries (branched_manager c m path))"
      "m' = (branched_manager c m path)\<lparr>flushed := False\<rparr>" "disk' = disk"
  | (failed) path e where "get_branch m (Some i) = Some path" "path \<noteq> []" "persist m"
      "rewrite_file env c (branched_manager c m path) disk = (Inl e, m', disk')" "r = Inl e"
  | (written) path m3 where "get_branch m (Some i) = Some path" "path \<noteq> []" "persist m"
      "rewrite_file env c (branched_manager c m path) disk = (Inr (), m3, disk')" "m' = m3\<lparr>flushed := True\<rparr>"
  using assms
  by (auto simp: create_branched_session_def Let_def split: option.splits if_splits sum.splits prod.splits)

lemma branched_manager_simps:
  "file_entries (branched_manager c m path) =
    FSession (new_header c (new_v7 c) (sm_cwd m) (if persist m then session_file m else None)) #
    map FEntry (branched_entries c m path)"
  "get_entries (branched_manager c m path) = branched_entries c m path"
  "persist (branched_manager c m path) = persist m" "flushed (branched_manager c m path) = flushed m"
  "persisted_entries (branched_manager c m path) = 0" "rollback_offset (branched_manager c m path) = None"
  "session_file (branched_manager c m path) =
    (if persist m then Some (session_file_name (session_dir m) (now_iso c) (new_v7 c)) else session_file m)"
  by (simp_all add: branched_manager_def Let_def build_index_tree get_entries_def)

lemma branched_manager_ok:
  assumes "tree_ok m" and "get_branch m (Some i) = Some path" and "fresh_for c m"
  shows "tree_ok (branched_manager c m path)"
proof -
  have "chained {} (branched_entries c m path)"
    by (rule branched_entries_chained) (use branch_ids[OF assms(1,2)] assms(3) in auto)
  then show ?thesis
    unfolding branched_manager_def Let_def by (intro build_index_ok) (simp add: get_entries_def)
qed

lemma rewrite_file_same_tree:
  assumes "rewrite_file env c m disk = (r, m', disk')"
  shows "same_tree m m'"
proof -
  obtain k n where "m' = m\<lparr>persisted_entries := k, rollback_offset := n\<rparr>"
    using rewrite_file_frame[OF assms] by blast
  then show ?thesis by (simp add: same_tree_def)
qed

lemma create_branched_ok:
  assumes "create_branched_session env c i m disk = Some (r, m', disk')" and "tree_ok m"
    and "fresh_for c m"
  shows "tree_ok m'"
  using assms(1)
proof (cases rule: create_branched_cases)
  case (unwritten path)
  then show ?thesis
    using branched_manager_ok[OF assms(2) _ assms(3)] same_tree_ok[of "branched_manager c m path" m']
    by (auto simp: same_tree_def)
next
  case (failed path e)
  then show ?thesis
    using branched_manager_ok[OF assms(2) _ assms(3)] same_tree_ok rewrite_file_same_tree by blast
next
  case (written path m3)
  then have "tree_ok m3"
    using branched_manager_ok[OF assms(2) _ assms(3)] same_tree_ok rewrite_file_same_tree by blast
  then show ?thesis using written same_tree_ok[of m3 m'] by (auto simp: same_tree_def)
qed (use assms branched_manager_ok in auto)

text \<open>One step, for every operation.\<close>

lemma append_body_cases:
  assumes "session_op env c op m disk = Some (m', disk')"
  obtains (append) b m1 r m2 where "append_body env c b m1 disk = (r, m2, disk')"
      "m1 = m \<or> (\<exists>i. m1 = m\<lparr>leaf_id := i\<rparr> \<and> set_option i \<subseteq> ids m)"
      "m' = m2 \<or> (\<exists>t l s. m' = set_label t l s m2)"
  | (leaf) i where "m' = m\<lparr>leaf_id := i\<rparr>" "set_option i \<subseteq> ids m" "disk' = disk"
  | (taken) "m' = m\<lparr>persistence_error := None\<rparr>" "disk' = disk"
  | (start) opts where "m' = snd (new_session c opts m)" "disk' = disk"
  | (fork) i r where "create_branched_session env c i m disk = Some (r, m', disk')"
  | (nothing) "m' = m" "disk' = disk"
proof -
  have append_of: thesis if "snd (append_body env c b m disk) = (m', disk')" for b
    using that by (intro append[of b m "fst (append_body env c b m disk)" m']) (auto simp: prod_eq_iff)
  show thesis
proof (cases op)
  case (ChangeLabel t l)
  show ?thesis
  proof (cases "t \<in> ids m")
    case True
    obtain r m2 d2 where b: "append_body env c (ELabel t l) m disk = (r, m2, d2)"
      by (cases "append_body env c (ELabel t l) m disk") auto
    then have "m' = set_label t l (now_iso c) m2" "d2 = disk'"
      using assms ChangeLabel True by (simp_all add: append_label_change_def)
    then show ?thesis using b by (intro append[of _ m]) auto
  next
    case False
    show ?thesis by (rule nothing) (use assms ChangeLabel False in \<open>simp_all add: append_label_change_def\<close>)
  qed
next
  case (SummarizeBranch f t d h u)
  show ?thesis
  proof (cases "set_option f \<subseteq> ids m")
    case True
    define b where "b = EBranchSummary \<lparr>be_from_id = (case f of Some i \<Rightarrow> i | None \<Rightarrow> ''root''), be_summary = t,
        be_details = d, be_usage = u, be_from_hook = h\<rparr>"
    obtain r m2 d2 where a: "append_body env c b (m\<lparr>leaf_id := f\<rparr>) disk = (r, m2, d2)"
      by (cases "append_body env c b (m\<lparr>leaf_id := f\<rparr>) disk") auto
    have "branch_with_summary env c f t d h u m disk = append_body env c b (m\<lparr>leaf_id := f\<rparr>) disk"
      using True by (cases f) (simp_all add: branch_with_summary_def b_def)
    then have "m' = m2" "d2 = disk'" using assms SummarizeBranch a by simp_all
    then show ?thesis using a True by (intro append[of b "m\<lparr>leaf_id := f\<rparr>"]) auto
  next
    case False
    then have b: "branch_with_summary env c f t d h u m disk = (Inl (EntryNotFound (str_or_empty f)), m, disk)"
      by (cases f) (simp_all add: branch_with_summary_def)
    show ?thesis by (rule nothing) (use assms SummarizeBranch b in simp_all)
  qed
next
  case (BranchTo i)
  show ?thesis
  proof (cases "i \<in> ids m")
    case True
    show ?thesis by (rule leaf[of "Some i"]) (use assms BranchTo True in \<open>simp_all add: branch_def\<close>)
  next
    case False
    show ?thesis by (rule nothing) (use assms BranchTo False in \<open>simp_all add: branch_def\<close>)
  qed
next
  case ResetLeaf
  then show ?thesis using assms leaf[of None] by (auto simp: reset_leaf_def)
next
  case TakeError
  then show ?thesis using assms taken by (auto simp: take_persistence_error_def)
next
  case (StartSession opts)
  then show ?thesis using assms start[of opts] by auto
next
  case (BranchSession i)
  then show ?thesis using assms fork[of i] by auto
qed (use assms append_of in \<open>auto simp: append_defs\<close>)+
qed

lemma new_session_cases:
  obtains (invalid) "snd (new_session c opts m) = m"
  | (valid) i f where "snd (new_session c opts m) = m\<lparr>session_id := i,
      file_entries := [FSession (new_header c i (sm_cwd m) (ns_parent_session opts))],
      ids := {}, labels_by_id := [], label_timestamps_by_id := [], leaf_id := None,
      flushed := False, persisted_entries := 0, rollback_offset := None, session_file := f\<rparr>"
      "i = new_v7 c \<or> valid_session_id i"
proof (cases "case ns_id opts of Some i \<Rightarrow> assert_valid_session_id i | None \<Rightarrow> Inr ()")
  case (Inl e)
  then show ?thesis using invalid by (simp add: new_session_def)
next
  case (Inr u)
  then have "(case ns_id opts of Some i \<Rightarrow> i | None \<Rightarrow> new_v7 c) = new_v7 c \<or>
      valid_session_id (case ns_id opts of Some i \<Rightarrow> i | None \<Rightarrow> new_v7 c)"
    by (cases "ns_id opts") (simp_all add: assert_valid_session_id_def split: if_splits)
  then show ?thesis
    using Inr valid[of "if persist m then Some (session_file_name (session_dir m) (now_iso c) (case ns_id opts of Some i \<Rightarrow> i | None \<Rightarrow> new_v7 c))
         else session_file m" "case ns_id opts of Some i \<Rightarrow> i | None \<Rightarrow> new_v7 c"]
    by (simp add: new_session_def Let_def)
qed

lemma session_op_keeps_tree:
  assumes "session_op env c op m disk = Some (m', disk')" and "tree_ok m" and "fresh_for c m"
  shows "tree_ok m'"
  using assms(1)
proof (cases rule: append_body_cases)
  case (append b m1 r m2)
  then have "tree_ok m1" "fresh_for c m1"
    using assms(2,3) by (auto simp: tree_ok_def get_entries_def)
  then have "tree_ok m2" using append_body_ok append(1) by blast
  then show ?thesis using append(3) by auto
next
  case (start opts)
  show ?thesis
    by (cases c opts m rule: new_session_cases) (use start assms(2) in \<open>auto simp: tree_ok_def get_entries_def\<close>)
next
  case (fork i r)
  then show ?thesis using create_branched_ok assms(2,3) by blast
qed (use assms(2) in \<open>auto simp: tree_ok_def get_entries_def\<close>)

subsection \<open>Sessions\<close>

text \<open>
  What a call may rely on: the identifiers it draws are fresh, and so is the name of a session file made
  from them.
\<close>

definition fresh_call :: "Call \<Rightarrow> SessionManager \<Rightarrow> Disk \<Rightarrow> bool" where
  "fresh_call c m disk \<longleftrightarrow> fresh_for c m \<and> new_v7 c \<noteq> [] \<and>
    disk (session_file_name (session_dir m) (now_iso c) (new_v7 c)) = None"

text \<open>The states of a session that started in this process; other files may change at any time.\<close>

inductive session_states :: "SessionEnv \<Rightarrow> SessionManager \<Rightarrow> Disk \<Rightarrow> bool" for env where
  created: "create_manager env c cwd dir opts disk = (Inr m, disk') \<Longrightarrow> new_v7 c \<noteq> [] \<Longrightarrow> session_states env m disk'"
| held_in_memory: "in_memory env c cwd opts disk = (Inr m, disk') \<Longrightarrow> new_v7 c \<noteq> [] \<Longrightarrow> session_states env m disk'"
| operated: "session_states env m disk \<Longrightarrow> fresh_call c m disk \<Longrightarrow>
    session_op env c op m disk = Some (m', disk') \<Longrightarrow> session_states env m' disk'"
| elsewhere: "session_states env m disk \<Longrightarrow> (\<And>path. session_file m = Some path \<Longrightarrow> disk' path = disk path) \<Longrightarrow>
    session_states env m disk'"

lemma new_manager:
  assumes "construct env c cwd dir None pers opts None disk = (Inr m, disk')"
  shows "disk' = disk" and "m = snd (new_session c opts (empty_manager env cwd dir pers))"
  using assms by (auto simp: construct_def Let_def split: if_splits prod.splits sum.splits)

lemma new_manager_ok:
  assumes "construct env c cwd dir None pers opts None disk = (Inr m, disk')"
  shows "tree_ok m"
  unfolding new_manager(2)[OF assms]
  by (cases c opts "empty_manager env cwd dir pers" rule: new_session_cases)
    (auto simp: tree_ok_def get_entries_def empty_manager_def)

lemma session_states_tree: "session_states env m disk \<Longrightarrow> tree_ok m"
proof (induction rule: session_states.induct)
  case (operated m disk c op m' disk')
  then show ?case using session_op_keeps_tree by (simp add: fresh_call_def)
qed (auto simp: create_manager_def in_memory_def dest: new_manager_ok)

text \<open>Operations other than starting or splitting off a session only add to the entries.\<close>

fun keeps_history :: "SessionOp \<Rightarrow> bool" where
  "keeps_history (StartSession _) = False"
| "keeps_history (BranchSession _) = False"
| "keeps_history _ = True"

lemma session_op_extends:
  assumes "session_op env c op m disk = Some (m', disk')" and "keeps_history op"
  shows "\<exists>more. file_entries m' = file_entries m @ more"
proof -
  have "\<exists>more. file_entries m2 = file_entries m1 @ more" if "append_body env c b m1 disk = (r, m2, d2)" for b m1 r m2 d2
    using append_entry_tree(1)[OF that[unfolded append_body_def]] by blast
  then have a: "\<exists>more. file_entries (fst (snd (append_body env c b m1 disk))) = file_entries m1 @ more" for b m1
    by (metis prod.collapse)
  show ?thesis
  proof (cases op)
    case (ChangeLabel t l)
    then show ?thesis
      using assms a[of "ELabel t l" m] by (auto simp: append_label_change_def split: if_splits prod.splits)
  next
    case (SummarizeBranch f t d h u)
    then show ?thesis
      using assms a[of _ "m\<lparr>leaf_id := f\<rparr>"]
      by (simp add: branch_with_summary_def split: if_splits)
        (metis SessionManager.ext_inject SessionManager.surjective SessionManager.update_convs(14) fst_conv append_Nil2)
  qed (use assms a in \<open>auto simp: append_defs branch_def reset_leaf_def take_persistence_error_def split: if_splits\<close>;
      metis fst_conv)+
qed

subsection \<open>Labels\<close>

text \<open>The label map holds no empty label and one label per entry.\<close>

definition labels_ok :: "SessionManager \<Rightarrow> bool" where
  "labels_ok m \<longleftrightarrow> distinct (map fst (labels_by_id m)) \<and> [] \<notin> ran (map_of (labels_by_id m))"

lemma ran_upd_other:
  "x \<notin> ran f \<Longrightarrow> x \<noteq> a \<Longrightarrow> x \<notin> ran (f(k \<mapsto> a))"
  "x \<notin> ran f \<Longrightarrow> x \<notin> ran (f(k := None))"
  by (auto simp: ran_def split: if_splits)

lemma set_label_labels_ok: "labels_ok m \<Longrightarrow> labels_ok (set_label t l s m)"
  by (cases "non_empty l") (auto simp: labels_ok_def set_label_def non_empty_def distinct_update distinct_delete
      update_conv' delete_conv' ran_upd_other split: option.splits if_splits)

lemma index_entry_labels_ok: "labels_ok m \<Longrightarrow> labels_ok (index_entry e m)"
proof -
  assume a: "labels_ok m"
  have "labels_ok (m\<lparr>ids := i, leaf_id := l\<rparr>)" for i l using a by (simp add: labels_ok_def)
  then show ?thesis using set_label_labels_ok
    by (auto simp: index_entry_def Let_def split: SessionEntry.splits EntryBody.splits)
qed

lemma build_index_labels_ok: "labels_ok (build_index m)"
proof -
  have "labels_ok (fold index_entry es m')" if "labels_ok m'" for es m'
    using that by (induction es arbitrary: m') (simp_all add: index_entry_labels_ok)
  moreover have "labels_ok (m\<lparr>ids := {}, labels_by_id := [], label_timestamps_by_id := [], leaf_id := None\<rparr>)"
    by (simp add: labels_ok_def)
  ultimately show ?thesis by (simp add: build_index_def)
qed

lemma rewrite_file_labels:
  assumes "rewrite_file env c m disk = (r, m', disk')"
  shows "labels_by_id m' = labels_by_id m"
proof -
  obtain k n where "m' = m\<lparr>persisted_entries := k, rollback_offset := n\<rparr>"
    using rewrite_file_frame[OF assms] by blast
  then show ?thesis by simp
qed

lemma session_op_keeps_labels:
  assumes "session_op env c op m disk = Some (m', disk')" and "labels_ok m"
  shows "labels_ok m'"
  using assms(1)
proof (cases rule: append_body_cases)
  case (append b m1 r m2)
  then have "labels_by_id m2 = labels_by_id m"
    using append_entry_tree(4)[OF append(1)[unfolded append_body_def]] by auto
  then have "labels_ok m2" using assms(2) by (simp add: labels_ok_def)
  then show ?thesis using append(3) set_label_labels_ok by auto
next
  case (start opts)
  show ?thesis
    by (cases c opts m rule: new_session_cases) (use start assms(2) in \<open>auto simp: labels_ok_def\<close>)
next
  case (fork i r)
  have b: "labels_ok (branched_manager c m path)" for path
    by (simp add: branched_manager_def Let_def build_index_labels_ok)
  from fork show ?thesis
    by (cases rule: create_branched_cases)
      (use assms(2) b in \<open>auto simp: labels_ok_def dest: rewrite_file_labels\<close>)
qed (use assms(2) in \<open>auto simp: labels_ok_def\<close>)

lemma session_states_labels: "session_states env m disk \<Longrightarrow> labels_ok m"
proof (induction rule: session_states.induct)
  case (created c cwd dir opts disk m disk')
  then show ?case
    using new_manager(2)[of env c cwd dir True opts disk m disk']
    by (cases c opts "empty_manager env cwd dir True" rule: new_session_cases)
      (auto simp: create_manager_def labels_ok_def empty_manager_def)
next
  case (held_in_memory c cwd opts disk m disk')
  then show ?case
    using new_manager(2)[of env c cwd "[]" False opts disk m disk']
    by (cases c opts "empty_manager env cwd [] False" rule: new_session_cases)
      (auto simp: in_memory_def labels_ok_def empty_manager_def)
next
  case (operated m disk c op m' disk')
  then show ?case using session_op_keeps_labels by blast
qed

subsection \<open>Splitting off a session\<close>

lemma index_kept:
  assumes "list_all (\<lambda>e. \<not> is_label e) es"
  shows "labels_by_id (fold index_entry es m) = labels_by_id m"
  using assms
proof (induction es arbitrary: m)
  case (Cons e es)
  have "labels_by_id (index_entry e m) = labels_by_id m"
    using Cons.prems by (auto simp: index_entry_def Let_def split: SessionEntry.splits EntryBody.splits)
  then show ?case using Cons by simp
qed simp

lemma index_labels:
  assumes "distinct (map fst ls)" and "\<forall>(t, l, s) \<in> set ls. l \<noteq> []"
  shows "map_of (labels_by_id (fold index_entry (label_chain draw k taken p ls) m)) t =
    (case map_of (map (\<lambda>(t, l, s). (t, l)) ls) t of Some l \<Rightarrow> Some l | None \<Rightarrow> map_of (labels_by_id m) t)"
  using assms
proof (induction ls arbitrary: k taken p m)
  case (Cons x ls)
  obtain u l s where x: "x = (u, l, s)" by (cases x)
  obtain i k' where g: "generate_id (\<lambda>x. x \<in> taken) draw k = (i, k')" by fastforce
  have "map_of (map (\<lambda>(t, l, s). (t, l)) ls) u = None"
    using Cons.prems(1) x by (force simp: map_of_eq_None_iff)
  then show ?case
    using Cons.IH[of k' "insert i taken" "Some i"] Cons.prems
    by (simp add: x g index_entry_def set_label_def non_empty_def update_conv' split: option.splits)
qed simp

lemma option_eqI: "(\<And>l. x = Some l \<longleftrightarrow> y = Some l) \<Longrightarrow> x = y"
  by (cases x; cases y) auto

lemma labels_to_write_spec:
  assumes "labels_ok m"
  shows "distinct (map fst (labels_to_write m S))" "\<forall>(t, l, s) \<in> set (labels_to_write m S). l \<noteq> []"
    "map_of (map (\<lambda>(t, l, s). (t, l)) (labels_to_write m S)) t = (if t \<in> S then map_of (labels_by_id m) t else None)"
proof -
  let ?xs = "filter (\<lambda>(t, l). t \<in> S) (sort_key fst (labels_by_id m))"
  have m1: "map fst (labels_to_write m S) = map fst ?xs"
    by (simp add: labels_to_write_def comp_def case_prod_unfold)
  have m2: "map (\<lambda>(t, l, s). (t, l)) (labels_to_write m S) = ?xs"
    by (simp add: labels_to_write_def comp_def case_prod_unfold)
  have "distinct (map fst (sort_key fst (labels_by_id m)))"
    using assms by (simp add: labels_ok_def distinct_map)
  then have d: "distinct (map fst ?xs)" by (rule distinct_map_filter)
  show "distinct (map fst (labels_to_write m S))" using d m1 by simp
  have "l \<noteq> []" if "(t, l) \<in> set (labels_by_id m)" for t l
    using assms that by (force simp: labels_ok_def ran_distinct)
  then show "\<forall>(t, l, s) \<in> set (labels_to_write m S). l \<noteq> []"
    by (auto simp: labels_to_write_def)
  have "map_of ?xs t = Some l \<longleftrightarrow> t \<in> S \<and> map_of (labels_by_id m) t = Some l" for l
    using assms by (auto simp: map_of_eq_Some_iff[OF d] labels_ok_def)
  then have "map_of ?xs t = Some l \<longleftrightarrow> (if t \<in> S then map_of (labels_by_id m) t else None) = Some l" for l
    by simp
  then show "map_of (map (\<lambda>(t, l, s). (t, l)) (labels_to_write m S)) t = (if t \<in> S then map_of (labels_by_id m) t else None)"
    unfolding m2 by (rule option_eqI)
qed

lemma rechain_no_labels: "list_all (\<lambda>e. \<not> is_label e) (rechain p es)"
  by (induction es arbitrary: p) simp_all

lemma set_parent_id_twice [simp]: "set_parent_id p (set_parent_id q e) = set_parent_id p e"
proof (cases e)
  case (Unknown m)
  have "AList.update k v (AList.update k w xs) = AList.update k v xs" for k and v w :: Json and xs
    by (induction xs) auto
  then show ?thesis using Unknown by simp
qed simp

text \<open>An entry without its place in the tree.\<close>

abbreviation detached :: "SessionEntry \<Rightarrow> SessionEntry" where
  "detached e \<equiv> set_parent_id None e"

lemma rechain_detached: "map detached (rechain p es) = map detached (filter (\<lambda>e. \<not> is_label e) es)"
  by (induction es arbitrary: p) simp_all

lemma rechain_links: "links p (rechain p es)"
  by (induction es arbitrary: p) simp_all

lemma links_append:
  "links p (xs @ ys) \<longleftrightarrow> links p xs \<and> links (if xs = [] then p else last_id xs) ys"
  by (induction xs arbitrary: p) (auto simp: last_id_def)

lemma label_chain_links: "links p (label_chain draw k taken p ls)"
  by (induction ls arbitrary: k taken p) (auto simp: case_prod_unfold Let_def)

lemma label_chain_labels: "filter (\<lambda>e. \<not> is_label e) (label_chain draw k taken p ls) = []"
  by (induction ls arbitrary: k taken p) (auto simp: case_prod_unfold Let_def)

lemma branched_links: "links None (branched_entries c m path)"
proof -
  have "(if xs = [] then None else last_id xs) = last_id xs" for xs :: "SessionEntry list"
    by (simp add: last_id_def)
  then show ?thesis
    by (simp add: branched_entries_def Let_def links_append rechain_links label_chain_links)
qed

lemma branched_labels:
  assumes "labels_ok m" and "i \<in> entry_id ` {e \<in> set path. \<not> is_label e}"
  shows "map_of (labels_by_id (branched_manager c m path)) i = map_of (labels_by_id m) i"
proof -
  let ?kept = "rechain None path"
  have i: "i \<in> ids_of ?kept" using assms(2) by (simp only: rechain_ids)
  then have "map_of (map (\<lambda>(t, l, s). (t, l)) (labels_to_write m (ids_of ?kept))) i = map_of (labels_by_id m) i"
    using labels_to_write_spec(3)[OF assms(1)] by simp
  moreover have "map_of (labels_by_id (fold index_entry ?kept m0)) i = None" if "labels_by_id m0 = []" for m0
    using index_kept[OF rechain_no_labels] that by simp
  ultimately show ?thesis
    using index_labels[OF labels_to_write_spec(1,2)[OF assms(1)]]
    by (simp add: branched_manager_def Let_def build_index_def branched_entries_def split: option.splits)
qed

lemma find_id_self:
  assumes "distinct (map entry_id es)" and "x \<in> set es"
  shows "find_id es (entry_id x) = Some x"
proof -
  obtain z where z: "find_id es (entry_id x) = Some z"
    using find_id_None[of "entry_id x" es] assms(2) by fastforce
  from find_id_Some[OF z] have "z = x" using assms by (metis distinct_map inj_onD)
  then show ?thesis using z by simp
qed

lemma links_root_path:
  assumes "links None es" and "distinct (map entry_id es)" and "es = us @ x # vs"
  shows "root_path es (Some x) (us @ [x])"
  using assms(3)
proof (induction us arbitrary: x vs rule: rev_induct)
  case Nil
  then have "parent_id x = None" using assms(1) by simp
  then show ?case using root_path.root_path_some[of es x "[]"] by (simp add: root_path.root_path_none)
next
  case (snoc y us)
  then have "parent_id x = Some (entry_id y)"
    using assms(1) by (auto simp: links_append last_id_def)
  moreover have "find_id es (entry_id y) = Some y"
    by (rule find_id_self[OF assms(2)]) (simp add: snoc.prems)
  ultimately show ?case
    using root_path.root_path_some[of es x "us @ [y]"] snoc.IH[of y "x # vs"] snoc.prems by simp
qed

lemma linear_branch:
  assumes "tree_ok m" and "leaf_id m = last_id (get_entries m)" and "links None (get_entries m)"
  shows "get_branch m None = Some (get_entries m)"
proof (cases "get_entries m" rule: rev_cases)
  case Nil
  then show ?thesis using assms(2) by (simp add: get_branch_def last_id_def walk.simps)
next
  case (snoc us x)
  have d: "distinct (map entry_id (get_entries m))"
    using assms(1) chained_distinct[of "{}" "get_entries m"] by (simp add: tree_ok_def)
  have r: "root_path (get_entries m) (Some x) (get_entries m)"
    using links_root_path[OF assms(3) d, of us x "[]"] snoc by simp
  have "find_id (get_entries m) (entry_id x) = Some x"
    by (rule find_id_self[OF d]) (simp add: snoc)
  then show ?thesis
    using walk_root_path[OF r, of "[]"] assms(2) snoc by (simp add: get_branch_def find_entry_eq last_id_def)
qed

end
