(* ===== verification/Session_Durability.thy ===== *)
theory Session_Durability
  imports Session_Proofs Session_Roundtrip "HOL-Library.Sublist"
begin

text \<open>
  The session file against the entries in memory: after any operations, with writes that fail or stop
  half way and truncations that fail, the file holds the lines of the persisted entries and at most a
  torn piece of the pending ones behind them; a load gives back a prefix of the entries.
\<close>

subsection \<open>The file and the entries\<close>

lemma lines_of_append: "lines_of env (xs @ ys) = lines_of env xs @ lines_of env ys"
  by (simp add: lines_of_def)

lemma lines_of_simps [simp]: "lines_of env [] = []" "lines_of env (fe # fes) = line_of env fe @ lines_of env fes"
  by (simp_all add: lines_of_def)

definition file_holds :: "SessionEnv \<Rightarrow> FileEntry list \<Rightarrow> nat \<Rightarrow> nat option \<Rightarrow> string option \<Rightarrow> bool" where
  "file_holds env fes k offset content \<longleftrightarrow>
    (case content of
       None \<Rightarrow> k = 0 \<and> offset = None
     | Some bytes \<Rightarrow>
         \<exists>junk. bytes = lines_of env (take k fes) @ junk \<and> prefix junk (lines_of env (drop k fes)) \<and>
           (case offset of None \<Rightarrow> junk = [] | Some n \<Rightarrow> n = length (lines_of env (take k fes))))"

definition durable :: "SessionEnv \<Rightarrow> SessionManager \<Rightarrow> Disk \<Rightarrow> bool" where
  "durable env m disk \<longleftrightarrow>
    persisted_entries m \<le> length (file_entries m) \<and>
    (\<not> flushed m \<longrightarrow> persisted_entries m = 0 \<and> rollback_offset m = None) \<and>
    (\<forall>path. persist m \<longrightarrow> flushed m \<longrightarrow> session_file m = Some path \<longrightarrow>
      file_holds env (file_entries m) (persisted_entries m) (rollback_offset m) (disk path))"

lemma file_holds_grow:
  assumes "file_holds env fes k offset content" and "k \<le> length fes"
  shows "file_holds env (fes @ later) k offset content"
  using assms by (auto simp: file_holds_def lines_of_append prefix_def split: option.splits)

lemma set_len_base: "set_len (length a) (a @ b) = a"
  by (simp add: set_len_def)

lemma write_pending_prefix:
  assumes "write_pending c base bytes = (r, content)"
  shows "\<exists>junk. content = base @ junk \<and> prefix junk bytes" and "r = None \<Longrightarrow> content = base @ bytes"
  using assms by (auto simp: write_pending_def take_is_prefix split: option.splits if_splits)

lemma open_append_cases:
  assumes "open_append c create_new disk path = Inr content"
  shows "disk path = (if create_new then None else Some content)" and "create_new \<Longrightarrow> content = []"
  using assms by (auto simp: open_append_def split: option.splits if_splits)

lemma persist_entry_durable:
  assumes p: "persist_entry env c m disk = (r, m', disk')" and d: "durable env m disk"
  shows "durable env m' disk' \<and>
    (r = Inr () \<longrightarrow> persist m \<longrightarrow> session_file m \<noteq> None \<longrightarrow> flushed m \<or> has_assistant (file_entries m) \<longrightarrow>
      flushed m' \<and> persisted_entries m' = length (file_entries m') \<and> rollback_offset m' = None)"
proof (cases "persist m \<and> session_file m \<noteq> None \<and> (flushed m \<or> has_assistant (file_entries m))")
  case False
  then have "m' = m \<and> disk' = disk"
    using p by (auto simp: persist_entry_def split: bool.splits option.splits if_splits)
  then show ?thesis using False d by auto
next
  case True
  then obtain path where path: "persist m" "session_file m = Some path" "flushed m \<or> has_assistant (file_entries m)"
    by auto
  show ?thesis
  proof (cases "open_append c (\<not> flushed m) disk path")
    case (Inl e)
    then show ?thesis using p path d by (auto simp: persist_entry_def)
  next
    case (Inr content)
    let ?fes = "file_entries m" and ?k = "persisted_entries m"
    define P where "P = lines_of env (take ?k ?fes)"
    define R where "R = lines_of env (drop ?k ?fes)"
    have k: "?k \<le> length ?fes" using d by (simp add: durable_def)
    have "\<exists>junk. content = P @ junk \<and> prefix junk R \<and>
        (case rollback_offset m of None \<Rightarrow> junk = [] | Some n \<Rightarrow> n = length P)"
    proof (cases "flushed m")
      case True
      then have "file_holds env ?fes ?k (rollback_offset m) (Some content)"
        using d path open_append_cases(1)[OF Inr] by (auto simp: durable_def)
      then show ?thesis unfolding file_holds_def P_def R_def by simp
    next
      case False
      then have "?k = 0" "rollback_offset m = None" "content = []"
        using d open_append_cases(2)[OF Inr] by (simp_all add: durable_def)
      then show ?thesis by (simp add: P_def)
    qed
    then obtain junk where j: "content = P @ junk" "prefix junk R"
      "case rollback_offset m of None \<Rightarrow> junk = [] | Some n \<Rightarrow> n = length P" by blast
    have holds: "file_holds env ?fes ?k n (Some (P @ x))"
      if "prefix x R" "case n of None \<Rightarrow> x = [] | Some l \<Rightarrow> l = length P" for n x
      using that unfolding file_holds_def P_def R_def by simp
    have base: "(case rollback_offset m of Some n \<Rightarrow> set_len n content | None \<Rightarrow> content) = P"
      using j by (auto simp: set_len_base split: option.splits)
    obtain w content' where w: "write_pending c P R = (w, content')" by fastforce
    from write_pending_prefix[OF w] obtain junk' where j': "content' = P @ junk'" "prefix junk' R"
      "w = None \<Longrightarrow> content' = P @ R" by blast
    have all: "file_holds env ?fes (length ?fes) None (Some (P @ R))"
      by (simp add: file_holds_def P_def R_def flip: lines_of_append)
    show ?thesis
    proof (cases "rollback_offset m \<noteq> None \<and> set_len_error c \<noteq> None")
      case True
      then obtain n e where "rollback_offset m = Some n" "set_len_error c = Some e" by auto
      then have "r = Inl (IoError e)" "m' = m\<lparr>flushed := True\<rparr>" "disk' = disk(path \<mapsto> content)"
        using p path Inr by (auto simp: persist_entry_def Let_def)
      then show ?thesis using j k path holds[OF j(2,3)] by (simp add: durable_def)
    next
      case False
      then have step: "persist_entry env c m disk =
          (case stat_error c of
             Some e \<Rightarrow> (Inl (IoError e), m\<lparr>flushed := True\<rparr>, disk(path \<mapsto> P))
           | None \<Rightarrow>
               (case w of
                  Some e \<Rightarrow> (Inl (IoError e), m\<lparr>flushed := True, rollback_offset := Some (length P)\<rparr>, disk(path \<mapsto> content'))
                | None \<Rightarrow> (Inr (), m\<lparr>flushed := True, rollback_offset := None, persisted_entries := length ?fes\<rparr>,
                           disk(path \<mapsto> content'))))"
        using path Inr k base w
        by (auto simp: persist_entry_def Let_def R_def[symmetric] split: option.splits)
      show ?thesis
        using p k path j' all holds[of "[]" "rollback_offset m"] holds[of junk' "Some (length P)"] j(3)
        unfolding step
        by (auto simp: durable_def split: option.splits)
    qed
  qed
qed

lemma append_entry_durable:
  assumes "append_entry env c e m disk = (r, m', disk')" and "durable env m disk"
  shows "durable env m' disk' \<and>
    (r = Inr i \<longrightarrow> persist m \<longrightarrow> session_file m \<noteq> None \<longrightarrow> flushed m \<or> has_assistant (file_entries m') \<longrightarrow>
      flushed m' \<and> persisted_entries m' = length (file_entries m') \<and> rollback_offset m' = None)"
proof -
  define m1 where "m1 = m\<lparr>file_entries := file_entries m @ [FEntry e], ids := insert (entry_id e) (ids m),
                leaf_id := Some (entry_id e)\<rparr>"
  have "durable env m1 disk"
    using assms(2) file_holds_grow[of env "file_entries m" "persisted_entries m"]
    by (auto simp: durable_def m1_def)
  moreover obtain r2 m2 d2 where p: "persist_entry env c m1 disk = (r2, m2, d2)"
    by (cases "persist_entry env c m1 disk") auto
  ultimately have d2: "durable env m2 d2"
    "r2 = Inr () \<longrightarrow> persist m1 \<longrightarrow> session_file m1 \<noteq> None \<longrightarrow> flushed m1 \<or> has_assistant (file_entries m1) \<longrightarrow>
      flushed m2 \<and> persisted_entries m2 = length (file_entries m2) \<and> rollback_offset m2 = None"
    using persist_entry_durable by blast+
  have "r2 = Inr () \<and> m' = m2 \<and> disk' = d2 \<or>
      (\<exists>err. r = Inl err \<and> m' = m2\<lparr>persistence_error := Some err\<rparr> \<and> disk' = d2)"
    using assms(1) p by (auto simp: append_entry_def m1_def[symmetric] split: sum.splits)
  then show ?thesis
    using d2 append_entry_tree(1)[OF assms(1)] by (auto simp: durable_def m1_def)
qed

lemma set_label_durable [simp]: "durable env (set_label t l s m) disk = durable env m disk"
  by (simp add: durable_def)

lemma rewrite_file_durable:
  assumes "rewrite_file env c m disk = (r, m', disk')"
    and "persisted_entries m = 0" "rollback_offset m = None" "persist m" "session_file m = Some path" "disk path = None"
  shows "if r = Inr () then durable env (m'\<lparr>flushed := True\<rparr>) disk' else durable env m' disk'"
  using assms
  by (auto simp: rewrite_file_def durable_def file_holds_def split: option.splits prod.splits)

lemma session_op_durable:
  assumes "session_op env c op m disk = Some (m', disk')" and "durable env m disk" and "fresh_call c m disk"
  shows "durable env m' disk'"
  using assms(1)
proof (cases rule: append_body_cases)
  case (append b m1 r m2)
  then have "durable env m1 disk" using assms(2) by (auto simp: durable_def)
  then have "durable env m2 disk'"
    using append_entry_durable[OF append(1)[unfolded append_body_def]] by blast
  then show ?thesis using append(3) by auto
next
  case (start opts)
  show ?thesis
    by (cases c opts m rule: new_session_cases) (use start assms(2) in \<open>auto simp: durable_def\<close>)
next
  case (fork i r)
  have new: "disk (session_file_name (session_dir m) (now_iso c) (new_v7 c)) = None"
    using assms(3) by (simp add: fresh_call_def)
  from fork show ?thesis
  proof (cases rule: create_branched_cases)
    case (failed path e)
    then show ?thesis
      using rewrite_file_durable[OF failed(4)] new by (auto simp: branched_manager_simps)
  next
    case (written path m3)
    then show ?thesis
      using rewrite_file_durable[OF written(4)] new by (auto simp: branched_manager_simps)
  qed (use assms(2) in \<open>auto simp: durable_def branched_manager_simps\<close>)
qed (use assms(2) in \<open>auto simp: durable_def\<close>)

lemma new_manager_durable:
  assumes "construct env c cwd dir None pers opts None disk = (Inr m, disk')"
  shows "durable env m disk'"
  unfolding new_manager(2)[OF assms]
  by (cases c opts "empty_manager env cwd dir pers" rule: new_session_cases)
    (auto simp: durable_def empty_manager_def)

lemma session_states_durable: "session_states env m disk \<Longrightarrow> durable env m disk"
proof (induction rule: session_states.induct)
  case (operated m disk c op m' disk')
  then show ?case using session_op_durable by blast
qed (auto simp: create_manager_def in_memory_def durable_def[of _ _ "_ :: Disk"] dest: new_manager_durable
    intro: new_manager_durable)

text \<open>The header comes first, with an identifier, and is the only one.\<close>

definition headed :: "FileEntry list \<Rightarrow> bool" where
  "headed fes \<longleftrightarrow> (\<exists>h es. fes = FSession h # map FEntry es \<and> hd_id h \<noteq> [])"

lemma session_op_headed:
  assumes "session_op env c op m disk = Some (m', disk')" and "headed (file_entries m)" and "new_v7 c \<noteq> []"
  shows "headed (file_entries m')"
  using assms(1)
proof (cases rule: append_body_cases)
  case (append b m1 r m2)
  then have "\<exists>e. file_entries m' = file_entries m @ [FEntry e]"
    using append_entry_tree(1)[OF append(1)[unfolded append_body_def]] by auto
  then obtain e where "file_entries m' = file_entries m @ [FEntry e]" by blast
  moreover obtain h es where "file_entries m = FSession h # map FEntry es" "hd_id h \<noteq> []"
    using assms(2) by (auto simp: headed_def)
  ultimately show ?thesis by (auto simp: headed_def intro!: exI[of _ "es @ [e]"])
next
  case (start opts)
  show ?thesis
    by (cases c opts m rule: new_session_cases)
      (use start assms(2,3) in \<open>auto simp: headed_def new_header_def valid_session_id_def\<close>)
next
  case (fork i r)
  have b: "headed (file_entries (branched_manager c m path))" for path
    using assms(3) by (auto simp: headed_def branched_manager_simps new_header_def)
  from fork show ?thesis
  proof (cases rule: create_branched_cases)
    case (failed path e)
    then show ?thesis using b rewrite_file_same_tree[OF failed(4)] by (simp add: same_tree_def)
  next
    case (written path m3)
    then show ?thesis using b rewrite_file_same_tree[OF written(4)] by (simp add: same_tree_def)
  qed (use assms(2) b in auto)
qed (use assms(2) in auto)

lemma new_manager_headed:
  assumes "construct env c cwd dir None pers opts None disk = (Inr m, disk')" and "new_v7 c \<noteq> []"
  shows "headed (file_entries m)"
proof (cases c opts "empty_manager env cwd dir pers" rule: new_session_cases)
  case invalid
  then have "\<exists>e. fst (new_session c opts (empty_manager env cwd dir pers)) = Inl e"
    by (auto simp: new_session_def Let_def empty_manager_def split: sum.splits if_splits)
  then show ?thesis using assms(1) by (auto simp: construct_def Let_def split: if_splits prod.splits sum.splits)
next
  case (valid f i)
  then show ?thesis
    using new_manager(2)[OF assms(1)] assms(2) by (auto simp: headed_def new_header_def valid_session_id_def)
qed

lemma session_states_headed: "session_states env m disk \<Longrightarrow> headed (file_entries m)"
proof (induction rule: session_states.induct)
  case (operated m disk c op m' disk')
  then show ?case using session_op_headed by (simp add: fresh_call_def)
qed (auto simp: create_manager_def in_memory_def dest: new_manager_headed)

subsection \<open>Loading\<close>

lemma cut_lines_split: "split_on newline s = fst (cut_lines s) @ [snd (cut_lines s)]"
  by (induction s) (auto split: prod.splits list.splits)

lemma cut_lines_append:
  "cut_lines (a @ b) = (case cut_lines a of (la, ra) \<Rightarrow> case cut_lines (ra @ b) of (lb, rb) \<Rightarrow> (la @ lb, rb))"
  by (induction a) (auto split: prod.splits list.splits)

lemma cut_lines_rest: "newline \<notin> set (snd (cut_lines s))"
  by (induction s) (auto split: prod.splits list.splits)

lemma parse_lines_append: "parse_lines env (xs @ ys) = parse_lines env xs @ parse_lines env ys"
  by (simp add: parse_lines_def map_filter_def)

text \<open>However the reads cut the file, the load sees its lines.\<close>

lemma split_on_no_sep: "c \<notin> set a \<Longrightarrow> split_on c a = [a]"
  by (induction a) auto

lemma split_on_sep: "c \<notin> set a \<Longrightarrow> split_on c (a @ c # b) = a # split_on c b"
  by (induction a) auto

lemma load_loop_spec:
  assumes "\<And>j. read_error c j = None" and "newline \<notin> set pending"
    and "load_loop env c i entries pending rest = (es, p)"
  shows "es @ parse_lines env [p] = entries @ parse_lines env (split_on newline (pending @ rest))"
  using assms
proof (induction env c i entries pending rest arbitrary: es p rule: load_loop.induct)
  case (1 env c i entries pending rest)
  show ?case
  proof (cases "rest = []")
    case True
    then show ?thesis using 1 by (simp add: load_loop.simps split_on_no_sep)
  next
    case False
    define n where "n = read_length c i SESSION_READ_BUFFER_SIZE"
    obtain ls r where cut: "cut_lines (pending @ take n rest) = (ls, r)" by fastforce
    have step: "load_loop env c (Suc i) (entries @ parse_lines env ls) r (drop n rest) = (es, p)"
      using "1.prems"(3) "1.prems"(1)[of i] False cut by (subst (asm) load_loop.simps) (simp add: n_def Let_def)
    have "es @ parse_lines env [p] =
        (entries @ parse_lines env ls) @ parse_lines env (split_on newline (r @ drop n rest))"
      by (rule "1.IH"[OF _ n_def cut[symmetric] refl])
        (use "1.prems"(1) False step cut_lines_rest[of "pending @ take n rest"] cut in auto)
    moreover have "split_on newline (pending @ rest) = ls @ split_on newline (r @ drop n rest)"
      using cut_lines_append[of "pending @ take n rest" "drop n rest"] cut
      by (simp add: cut_lines_split split: prod.splits)
    ultimately show ?thesis by (simp add: parse_lines_append)
  qed
qed

lemma load_is_lines:
  assumes "\<And>j. read_error c j = None" and "open_error c = None" and "normalize_or_raw env path = path"
    and "disk path = Some content"
  shows "load_entries_from_file env c disk path = valid_file_entries (parse_lines env (split_on newline content))"
proof -
  obtain es p where l: "load_loop env c 0 [] [] content = (es, p)" by fastforce
  from load_loop_spec[OF assms(1) _ this] have "es @ parse_lines env [p] = parse_lines env (split_on newline content)"
    by simp
  then show ?thesis using assms l by (simp add: load_entries_from_file_def)
qed

subsection \<open>Reading back what was written\<close>

text \<open>
  What the JSON text of one value has to do with the value: it reads back, it is one line of UTF-8, and
  no proper prefix of it is a JSON document, also when the last character is cut in two.
\<close>

definition text_ok :: "SessionEnv \<Rightarrow> Json \<Rightarrow> bool" where
  "text_ok env v \<longleftrightarrow>
    (let t = json_text env v
     in newline \<notin> set t \<and> utf8_valid t \<and> trim t \<noteq> [] \<and> json_parse env t = Some v \<and>
        (\<forall>n < length t. json_parse env (from_utf8_lossy (take n t)) = None))"

definition line_ok :: "SessionEnv \<Rightarrow> FileEntry \<Rightarrow> bool" where
  "line_ok env fe \<longleftrightarrow> file_entry_ok (serde env) fe \<and> text_ok env (file_entry_value (serde env) fe)"

lemma line_okI:
  assumes "file_entry_ok (serde env) fe" and "newline \<notin> set (to_json env fe)" and "utf8_valid (to_json env fe)"
    and "trim (to_json env fe) \<noteq> []" and "json_parse env (to_json env fe) = Some (file_entry_value (serde env) fe)"
    and "\<forall>n < length (to_json env fe). json_parse env (from_utf8_lossy (take n (to_json env fe))) = None"
  shows "line_ok env fe"
  using assms by (simp add: line_ok_def text_ok_def Let_def to_json_def)

lemma line_ok_parse:
  assumes "line_ok env fe"
  shows "parse_session_entry_line env (from_utf8_lossy (to_json env fe)) = Some (reread fe)"
  using assms file_entry_reread[of "serde env" fe]
  by (simp add: line_ok_def text_ok_def Let_def to_json_def from_utf8_lossy_valid parse_session_entry_line_def)

lemma line_ok_partial:
  assumes "line_ok env fe" and "strict_prefix part (to_json env fe)"
  shows "parse_session_entry_line env (from_utf8_lossy part) = None"
proof -
  from assms(2) obtain z where z: "to_json env fe = part @ z" "z \<noteq> []"
    by (auto simp: strict_prefix_def prefix_def)
  then have "part = take (length part) (to_json env fe)" "length part < length (to_json env fe)"
    by simp_all
  then show ?thesis
    using assms(1) unfolding line_ok_def text_ok_def Let_def to_json_def parse_session_entry_line_def by auto
qed

lemma prefix_of_lines:
  assumes "prefix junk (lines_of env fes)"
  shows "\<exists>j part. j \<le> length fes \<and> junk = lines_of env (take j fes) @ part \<and>
    (part = [] \<or> j < length fes \<and> prefix part (to_json env (fes ! j)))"
  using assms
proof (induction fes arbitrary: junk)
  case (Cons fe fes)
  show ?case
  proof (cases "prefix junk (to_json env fe)")
    case True
    then show ?thesis by (intro exI[of _ 0] exI[of _ junk]) simp
  next
    case False
    then obtain junk' where j: "junk = line_of env fe @ junk'"
      using Cons.prems by (auto simp: line_of_def prefix_append prefix_Cons)
    then have "prefix junk' (lines_of env fes)" using Cons.prems by simp
    from Cons.IH[OF this] obtain k part where "k \<le> length fes" "junk' = lines_of env (take k fes) @ part"
      "part = [] \<or> k < length fes \<and> prefix part (to_json env (fes ! k))" by blast
    then show ?thesis using j by (intro exI[of _ "Suc k"] exI[of _ part]) auto
  qed
qed simp

lemma lines_split:
  assumes "list_all (line_ok env) fes"
  shows "split_on newline (lines_of env fes @ rest) = map (to_json env) fes @ split_on newline rest"
  using assms
proof (induction fes)
  case (Cons fe fes)
  then have "newline \<notin> set (to_json env fe)"
    by (simp add: line_ok_def text_ok_def Let_def to_json_def)
  then show ?case using Cons by (simp add: line_of_def split_on_sep)
qed simp

lemma parse_lines_map:
  assumes "list_all (line_ok env) fes"
  shows "parse_lines env (map (to_json env) fes) = map reread fes"
  using assms by (induction fes) (simp_all add: parse_lines_def map_filter_simps line_ok_parse)

lemma torn_lines_reload:
  assumes "list_all (line_ok env) fes" and "prefix junk (lines_of env (drop k fes))" and "k \<le> length fes"
  shows "\<exists>n. k \<le> n \<and> n \<le> length fes \<and>
    parse_lines env (split_on newline (lines_of env (take k fes) @ junk)) = map reread (take n fes)"
proof -
  from prefix_of_lines[OF assms(2)] obtain j part where j: "j \<le> length fes - k"
    "junk = lines_of env (take j (drop k fes)) @ part"
    "part = [] \<or> j < length fes - k \<and> prefix part (to_json env (drop k fes ! j))"
    by auto
  have t: "take (k + j) fes = take k fes @ take j (drop k fes)"
    by (simp add: take_add)
  have ok: "list_all (line_ok env) (take (k + j) fes)"
    using assms(1) by (auto simp: list_all_iff dest: in_set_takeD)
  have np: "newline \<notin> set part"
  proof (cases "part = []")
    case False
    then have "drop k fes ! j \<in> set fes" "prefix part (to_json env (drop k fes ! j))"
      using j(3) assms(3) by auto
    then show ?thesis
      using assms(1) by (fastforce simp: list_all_iff line_ok_def text_ok_def Let_def to_json_def prefix_def)
  qed simp
  have "lines_of env (take k fes) @ junk = lines_of env (take (k + j) fes) @ part"
    using j(2) t by (simp add: lines_of_append)
  then have s: "parse_lines env (split_on newline (lines_of env (take k fes) @ junk)) =
      map reread (take (k + j) fes) @ parse_lines env [part]"
    using lines_split[OF ok] parse_lines_map[OF ok] np by (simp add: split_on_no_sep parse_lines_append)
  show ?thesis
  proof (cases "part \<noteq> [] \<and> part = to_json env (drop k fes ! j)")
    case True
    then have l: "j < length fes - k" using j(3) by auto
    then have e: "drop k fes ! j = fes ! (k + j)" "k + j < length fes" using assms(3) by auto
    then have "line_ok env (fes ! (k + j))" using assms(1) by (simp add: list_all_length)
    then have "parse_lines env [part] = [reread (fes ! (k + j))]"
      using True e line_ok_parse by (simp add: parse_lines_def map_filter_simps)
    then have "parse_lines env (split_on newline (lines_of env (take k fes) @ junk)) = map reread (take (Suc (k + j)) fes)"
      using s e by (simp add: take_Suc_conv_app_nth)
    then show ?thesis using e by (intro exI[of _ "Suc (k + j)"]) auto
  next
    case False
    have "parse_lines env [part] = []"
    proof (cases "part = []")
      case True
      then show ?thesis
        by (simp add: parse_lines_def map_filter_simps parse_session_entry_line_def from_utf8_lossy_def trim_def)
    next
      case part: False
      then have "strict_prefix part (to_json env (drop k fes ! j))" "j < length fes - k"
        using j(3) False by (auto simp: strict_prefix_def)
      moreover from this have "line_ok env (drop k fes ! j)"
        using assms(1) by (simp add: list_all_length)
      ultimately show ?thesis using line_ok_partial by (simp add: parse_lines_def map_filter_simps)
    qed
    then show ?thesis using s j(1) assms(3) by (intro exI[of _ "k + j"]) simp
  qed
qed

end
