(* ===== verification/Session_Properties.thy ===== *)
theory Session_Properties
  imports Session_Durability
begin

text \<open>
  What the session manager guarantees over any sequence of operations, and where it does not: the tree
  and its branches, the session that is split off, the file after failures, and the reopened file.
\<close>

subsection \<open>A small session to evaluate on\<close>

text \<open>A call in which nothing fails; its tag makes its identifiers differ from those of other calls.\<close>

definition example_uuid :: "string \<Rightarrow> nat \<Rightarrow> string" where
  "example_uuid tag k = tag @ [digit_char (k div 100), digit_char (k div 10 mod 10), digit_char (k mod 10)] @
     ''00000000000000000000000000000000''"

definition example_call :: "string \<Rightarrow> Call" where
  "example_call tag = \<lparr>now_iso = ''t'' @ tag, new_v4 = example_uuid tag, new_v7 = ''s'' @ tag, read_size = (\<lambda>_. 1),
     read_error = (\<lambda>_. None), mkdir_error = None, open_error = None, set_len_error = None, stat_error = None,
     write_error = None, sync_error = None, undo_error = False, temp_error = None, rename_error = None\<rparr>"

lemma example_call_simps [simp]:
  "now_iso (example_call t) = ''t'' @ t" "new_v4 (example_call t) = example_uuid t" "new_v7 (example_call t) = ''s'' @ t"
  "read_error (example_call t) k = None" "mkdir_error (example_call t) = None" "open_error (example_call t) = None"
  "set_len_error (example_call t) = None" "stat_error (example_call t) = None" "write_error (example_call t) = None"
  "sync_error (example_call t) = None" "temp_error (example_call t) = None" "rename_error (example_call t) = None"
  by (simp_all add: example_call_def)

definition assistant_value :: Json where
  "assistant_value = JObject [(''role'', JString ''assistant'')]"

definition example_header :: FileEntry where
  "example_header = FSession (new_header (example_call ''a'') ''demo'' ''/w'' None)"

definition example_message :: SessionEntry where
  "example_message = Known \<lparr>eh_id = ''b0000000'', eh_parent_id = None, eh_timestamp = ''tb'', eh_extra = []\<rparr>
     (EMessage assistant_value)"

definition level_entry :: "char \<Rightarrow> string \<Rightarrow> SessionEntry" where
  "level_entry t parent = Known \<lparr>eh_id = [t] @ ''0000000'', eh_parent_id = Some parent, eh_timestamp = ''t'' @ [t], eh_extra = []\<rparr>
     (EThinkingLevelChange ''high'')"

definition example_serde :: Serde where
  "example_serde = \<lparr>usage_ser = (\<lambda>_. JNull), usage_de = (\<lambda>_. None), retained_ser = (\<lambda>_. JNull),
     retained_de = (\<lambda>_. None)\<rparr>"

text \<open>A text form that shows the identifier only; it reads back for the header, the message and two entries after it.\<close>

definition example_env :: SessionEnv where
  "example_env = \<lparr>serde = example_serde,
     json_text = (\<lambda>v. ''{'' @ str_or_empty (get_str v ''id'') @ ''}''),
     json_parse = (\<lambda>s. if s = ''{demo}'' then Some (file_entry_value example_serde example_header)
       else if s = ''{b0000000}'' then Some (file_entry_value example_serde (FEntry example_message))
       else if s = ''{c0000000}'' then Some (file_entry_value example_serde (FEntry (level_entry (CHR ''c'') ''b0000000'')))
       else if s = ''{d0000000}'' then Some (file_entry_value example_serde (FEntry (level_entry (CHR ''d'') ''c0000000'')))
       else None),
     resolve_or_raw = (\<lambda>p. p), normalize_or_raw = (\<lambda>p. p),
     parse_timestamp_ms = (\<lambda>_. None), message_ser = (\<lambda>_. JNull), message_de = (\<lambda>_. None),
     user_content_de = (\<lambda>_. None)\<rparr>"

lemma digit_char_inj: "a < 10 \<Longrightarrow> b < 10 \<Longrightarrow> digit_char a = digit_char b \<Longrightarrow> a = b"
  using of_char_digit_char[of a] of_char_digit_char[of b] by (metis add_left_imp_eq)

lemma example_uuid_inj: "inj_on (example_uuid tag) {..<1000}"
proof (rule inj_onI)
  fix a b :: nat
  assume l: "a \<in> {..<1000}" "b \<in> {..<1000}" and e: "example_uuid tag a = example_uuid tag b"
  then have "a div 100 = b div 100" "a div 10 mod 10 = b div 10 mod 10" "a mod 10 = b mod 10"
    by (auto simp: example_uuid_def intro!: digit_char_inj)
  moreover have "n = 10 * (10 * (n div 100) + n div 10 mod 10) + n mod 10" for n :: nat
  proof -
    have "n div 100 = n div 10 div 10" by (simp add: div_mult2_eq[of n 10 10])
    then show ?thesis by (metis mult_div_mod_eq)
  qed
  ultimately show "a = b" by metis
qed

lemma example_uuids_fresh:
  assumes "b \<le> 1000" and "length tag = 1" and "\<And>x. x \<in> used \<Longrightarrow> length x \<noteq> 36"
  shows "fresh_uuids b (example_uuid tag) k used"
proof -
  have "length (example_uuid tag j) = 36" for j using assms(2) by (simp add: example_uuid_def)
  moreover from this have "example_uuid tag j \<notin> used" for j using assms(3) by blast
  moreover have "inj_on (example_uuid tag) {..<b}"
    using inj_on_subset[OF example_uuid_inj] assms(1) by auto
  ultimately show ?thesis by (simp add: fresh_uuids_def)
qed

definition example_options :: NewSessionOptions where
  "example_options = \<lparr>ns_id = Some ''demo'', ns_parent_session = None\<rparr>"

definition example_start :: SessionManager where
  "example_start = snd (new_session (example_call ''a'') example_options (empty_manager example_env ''/w'' ''/s'' True))"

lemma example_start_states: "session_states example_env example_start (\<lambda>_. None)"
proof -
  have "create_manager example_env (example_call ''a'') ''/w'' ''/s'' example_options (\<lambda>_. None) = (Inr example_start, \<lambda>_. None)"
    by (simp add: create_manager_def construct_def example_start_def new_session_def example_options_def
        assert_valid_session_id_def valid_session_id_def is_ascii_alphanumeric_def example_call_def empty_manager_def Let_def)
  then show ?thesis by (rule session_states.created) (simp add: example_call_def)
qed

lemma example_start_simps:
  "ids example_start = {}" "labels_by_id example_start = []" "session_dir example_start = ''/s''"
  "get_entries example_start = []" "leaf_id example_start = None" "persist example_start"
  "flushed example_start = False" "rollback_offset example_start = None" "persisted_entries example_start = 0"
  "session_file example_start = Some ''/s/ta_demo.jsonl''"
  by (simp_all add: example_start_def new_session_def example_options_def assert_valid_session_id_def
      valid_session_id_def is_ascii_alphanumeric_def empty_manager_def get_entries_def Let_def example_env_def
      session_file_name_def path_join_def starts_with_def replace_char_def example_call_def)

definition example_first :: "SessionManager \<times> Disk" where
  "example_first = snd (append_message_value example_env (example_call ''b'') assistant_value example_start (\<lambda>_. None))"

lemma example_first_states: "session_states example_env (fst example_first) (snd example_first)"
proof -
  have "fresh_call (example_call ''b'') example_start (\<lambda>_. None)"
    using example_uuids_fresh[of 101 "''b''" "{}" 0]
    by (simp add: fresh_call_def example_start_simps example_call_def)
  then show ?thesis
    by (rule session_states.operated[OF example_start_states, where op = "AppendMessageValue assistant_value"])
      (simp add: example_first_def)
qed

lemma generate_first: "\<not> taken (take 8 (draw k)) \<Longrightarrow> generate_id taken draw k = (take 8 (draw k), Suc k)"
proof -
  assume a: "\<not> taken (take 8 (draw k))"
  have "(100 :: nat) = Suc 99" by simp
  then show ?thesis using a unfolding generate_id_def by (simp only: draw_id.simps Let_def) simp
qed

lemma digit_char_0: "digit_char 0 = CHR ''0''"
  by code_simp

lemma example_prefix: "take 8 (example_uuid [t] 0) = [t] @ ''0000000''"
  by (simp add: example_uuid_def digit_char_0)

lemma example_first_id: "next_id (example_call ''b'') example_start = ''b0000000''"
  by (simp add: next_id_def generate_first example_start_simps example_call_def example_prefix)

lemma example_start_entries: "file_entries example_start = [example_header]"
  by (simp add: example_start_def new_session_def example_options_def assert_valid_session_id_def example_header_def
      valid_session_id_def is_ascii_alphanumeric_def empty_manager_def Let_def example_env_def)

lemma example_text:
  "to_json example_env example_header = ''{demo}''" "to_json example_env (FEntry example_message) = ''{b0000000}''"
  "to_json example_env (FEntry (level_entry t parent)) = ''{'' @ [t] @ ''0000000}''"
  by (simp_all add: to_json_def example_env_def example_header_def level_entry_def example_message_def header_fields_def field_if_def
      json_inserts_def new_header_def get_str_def value_get_def json_get_def str_or_empty_def struct_fields_def
      CURRENT_SESSION_VERSION_def)

lemma example_has_assistant: "has_assistant [example_header, FEntry example_message]"
  by (simp add: has_assistant_def is_assistant_message_def assistant_value_def get_str_def value_get_def json_get_def
      example_header_def example_message_def)

lemma example_head: "Known (new_head (example_call ''b'') example_start) (EMessage assistant_value) = example_message"
  by (simp add: new_head_def example_first_id example_start_simps example_message_def)

lemma example_first_eval:
  "example_first = (example_start\<lparr>file_entries := [example_header, FEntry example_message], ids := {''b0000000''},
      leaf_id := Some ''b0000000'', flushed := True, persisted_entries := 2\<rparr>,
    [''/s/ta_demo.jsonl'' \<mapsto> ''{demo}'' @ [newline] @ ''{b0000000}'' @ [newline]])"
proof -
  have id: "entry_id example_message = ''b0000000''" by (simp add: example_message_def)
  show ?thesis
    unfolding example_first_def append_message_value_def append_body_def example_head
    by (simp add: append_entry_def persist_entry_def id example_start_simps example_start_entries example_has_assistant
        Let_def open_append_def write_pending_def line_of_def example_text)
qed

lemma example_first_disk: "snd example_first = [''/s/ta_demo.jsonl'' \<mapsto> ''{demo}'' @ [newline] @ ''{b0000000}'' @ [newline]]"
  by (simp add: example_first_eval)

lemma example_first_ids: "ids (fst example_first) = {''b0000000''}"
  by (simp add: example_first_eval)

subsection \<open>The tree\<close>



text \<open>
  C33: history is append-only. No append, label change, branching or summary changes the path of an entry
  that is already there, whatever the file system does.
\<close>

theorem branch_history_is_immutable:
  assumes "session_states env m disk" and "fresh_call c m disk"
    and "session_op env c op m disk = Some (m', disk')" and "keeps_history op" and "i \<in> ids m"
  shows "get_branch m' (Some i) = get_branch m (Some i) \<and> i \<in> ids m'"
proof -
  have t: "tree_ok m" "tree_ok m'"
    using assms session_states_tree session_states.operated by blast+
  from session_op_extends[OF assms(3,4)] obtain later where "file_entries m' = file_entries m @ later" by blast
  then have es: "get_entries m' = get_entries m @ entries_of later" by (simp add: get_entries_def)
  then have i: "i \<in> ids m'" using t assms(5) by (auto simp: tree_ok_def)
  from branch_path[OF t(1) assms(5)] obtain x path where p: "get_branch m (Some i) = Some path"
    "root_path (get_entries m) (Some x) path" "x \<in> set (get_entries m)" "entry_id x = i" .
  from branch_path[OF t(2) i] obtain x' path' where p': "get_branch m' (Some i) = Some path'"
    "root_path (get_entries m') (Some x') path'" "x' \<in> set (get_entries m')" "entry_id x' = i" .
  have "distinct (map entry_id (get_entries m'))"
    using t(2) chained_distinct[of "{}" "get_entries m'"] by (simp add: tree_ok_def)
  then have "x' = x" using p p' es by (auto simp: distinct_map dest: inj_onD)
  moreover have "root_path (get_entries m') (Some x) path"
    unfolding es by (rule root_path_extend[OF p(2)]) (use t(1) p(3) in \<open>auto simp: tree_ok_def\<close>)
  ultimately have "path' = path" using p'(2) root_path_functional by blast
  then show ?thesis using p p' i by simp
qed

lemma branch_history_is_immutable_witness:
  "get_branch (fst (snd (append_thinking_level_change example_env (example_call ''c'') ''high'' (fst example_first) (snd example_first))))
      (Some ''b0000000'') = get_branch (fst example_first) (Some ''b0000000'')"
proof -
  have l: "labels_by_id (fst example_first) = []" and dir: "session_dir (fst example_first) = ''/s''"
    by (simp_all add: example_first_eval example_start_simps)
  have "fresh_call (example_call ''c'') (fst example_first) (snd example_first)"
    using example_uuids_fresh[of 101 "''c''" "{''b0000000''}" 0]
    by (simp add: fresh_call_def example_call_def example_first_ids example_first_disk l dir
        session_file_name_def path_join_def starts_with_def replace_char_def)
  from branch_history_is_immutable[OF example_first_states this,
      of "AppendThinkingLevel ''high''"
        "fst (snd (append_thinking_level_change example_env (example_call ''c'') ''high'' (fst example_first) (snd example_first)))"
        "snd (snd (append_thinking_level_change example_env (example_call ''c'') ''high'' (fst example_first) (snd example_first)))"
        "''b0000000''"]
  show ?thesis by (simp add: example_first_ids)
qed

text \<open>
  C34: a session that is split off at an entry holds exactly the path to that entry. Its entries are the
  path's, in order and with their content, only chained again around the labels that were left out;
  every entry of it is on its current branch, and the entries keep the labels they had.
\<close>

theorem branched_session_keeps_path:
  assumes "session_states env m disk" and "fresh_call c m disk"
    and "create_branched_session env c i m disk = Some (Inr new_file, m', disk')"
  shows "\<exists>path. get_branch m (Some i) = Some path \<and> i \<in> ids m \<and>
    map detached (filter (\<lambda>e. \<not> is_label e) (get_entries m')) = map detached (filter (\<lambda>e. \<not> is_label e) path) \<and>
    get_branch m' None = Some (get_entries m') \<and>
    (\<forall>e \<in> set path. \<not> is_label e \<longrightarrow> get_label m' (entry_id e) = get_label m (entry_id e))"
proof -
  have t: "tree_ok m" and l: "labels_ok m"
    using assms(1) session_states_tree session_states_labels by blast+
  have t': "tree_ok m'"
    using create_branched_ok[OF assms(3) t] assms(2) by (simp add: fresh_call_def)
  obtain path where path: "get_branch m (Some i) = Some path" "path \<noteq> []"
    and m': "get_entries m' = branched_entries c m path" "labels_by_id m' = labels_by_id (branched_manager c m path)"
      "leaf_id m' = leaf_id (branched_manager c m path)"
    using assms(3)
  proof (cases rule: create_branched_cases)
    case (written path m3)
    then show ?thesis
      using that[of path] rewrite_file_same_tree[OF written(4)] rewrite_file_labels[OF written(4)]
      by (simp add: same_tree_def get_entries_def branched_manager_simps)
  qed (use that in \<open>auto simp: branched_manager_simps get_entries_def\<close>)
  have "i \<in> ids m" using branch_missing[OF t, of i] path by auto
  moreover have "map detached (filter (\<lambda>e. \<not> is_label e) (get_entries m')) = map detached (filter (\<lambda>e. \<not> is_label e) path)"
  proof -
    have "filter (\<lambda>e. \<not> is_label e) (rechain None path) = rechain None path"
      using rechain_no_labels[of None path] by (simp add: filter_id_conv list_all_iff)
    then show ?thesis
      by (simp add: m'(1) branched_entries_def Let_def label_chain_labels rechain_detached)
  qed
  moreover have "get_branch m' None = Some (get_entries m')"
  proof -
    have "leaf_id m' = last_id (branched_entries c m path)"
      by (simp add: m'(3) branched_manager_def Let_def build_index_tree get_entries_def)
    then have "leaf_id m' = last_id (get_entries m')" by (simp only: m'(1))
    moreover have "links None (get_entries m')" by (simp add: m'(1) branched_links)
    ultimately show ?thesis using linear_branch[OF t'] by blast
  qed
  moreover have "get_label m' (entry_id e) = get_label m (entry_id e)" if "e \<in> set path" "\<not> is_label e" for e
    using branched_labels[OF l, of "entry_id e" path c] that by (auto simp: get_label_def m'(2))
  ultimately show ?thesis using path by blast
qed

lemma branched_session_keeps_path_witness:
  "\<exists>m'. map detached (filter (\<lambda>e. \<not> is_label e) (get_entries m')) = [detached example_message] \<and>
    get_branch m' None = Some (get_entries m')"
proof -
  let ?c = "example_call ''d''" and ?m = "fst example_first" and ?d = "snd example_first"
  have f: "fresh_call ?c ?m ?d"
    using example_uuids_fresh[of 101 "''d''" "{''b0000000''}" 0]
    by (simp add: fresh_call_def example_first_eval example_start_simps
        session_file_name_def path_join_def starts_with_def replace_char_def)
  have b: "get_branch ?m (Some ''b0000000'') = Some [example_message]"
    by (simp add: get_branch_def find_entry_def get_entries_def example_first_eval example_header_def example_message_def
        walk.simps)
  have p: "persist ?m" by (simp add: example_first_eval example_start_simps)
  obtain X Y where w: "rewrite_file example_env ?c (branched_manager ?c ?m [example_message]) ?d = (Inr (), X, Y)"
    by (simp add: rewrite_file_def branched_manager_simps p)
  obtain path m' d' where "create_branched_session example_env ?c ''b0000000'' ?m ?d = Some (Inr path, m', d')"
    by (cases "has_assistant (file_entries (branched_manager ?c ?m [example_message]))")
      (simp_all add: create_branched_session_def b p w Let_def)
  from branched_session_keeps_path[OF example_first_states f this] obtain path' where
    "get_branch ?m (Some ''b0000000'') = Some path'"
    "map detached (filter (\<lambda>e. \<not> is_label e) (get_entries m')) = map detached (filter (\<lambda>e. \<not> is_label e) path')"
    "get_branch m' None = Some (get_entries m')"
    by blast
  moreover from this b have "path' = [example_message]" by simp
  moreover have "\<not> is_label example_message" by (simp add: example_message_def)
  ultimately show ?thesis by (intro exI[of _ m']) simp
qed

subsection \<open>The file\<close>


abbreviation example_texts :: "string set" where
  "example_texts \<equiv> {''{demo}'', ''{b0000000}'', ''{c0000000}'', ''{d0000000}''}"

lemma example_partial:
  assumes "t \<in> example_texts" and "n < length t"
  shows "json_parse example_env (from_utf8_lossy (take n t)) = None"
proof -
  have "utf8_valid (take n t)"
    using assms by (auto simp: utf8_valid_def numeral_eq_Suc less_Suc_eq)
  then have "from_utf8_lossy (take n t) = take n t" by (rule from_utf8_lossy_valid)
  then show ?thesis using assms by (auto simp: example_env_def numeral_eq_Suc less_Suc_eq)
qed

lemma example_line:
  assumes "file_entry_ok (serde example_env) fe" and "to_json example_env fe \<in> example_texts"
    and "json_parse example_env (to_json example_env fe) = Some (file_entry_value (serde example_env) fe)"
  shows "line_ok example_env fe"
proof (rule line_okI[OF assms(1)])
  have "\<forall>t \<in> example_texts. newline \<notin> set t" by code_simp
  then show "newline \<notin> set (to_json example_env fe)" using assms(2) by blast
  have "\<forall>t \<in> example_texts. utf8_valid t" by code_simp
  then show "utf8_valid (to_json example_env fe)" using assms(2) by blast
  have "\<forall>t \<in> example_texts. trim t \<noteq> []" by code_simp
  then show "trim (to_json example_env fe) \<noteq> []" using assms(2) by blast
qed (use assms example_partial in auto)

lemma example_lines_ok:
  "line_ok example_env example_header" "line_ok example_env (FEntry example_message)"
  "line_ok example_env (FEntry (level_entry (CHR ''c'') ''b0000000''))"
  "line_ok example_env (FEntry (level_entry (CHR ''d'') ''c0000000''))"
proof -
  have p: "file_entry_ok (serde example_env) example_header" "file_entry_ok (serde example_env) (FEntry example_message)"
    "file_entry_ok (serde example_env) (FEntry (level_entry t parent))" for t parent
    by (simp_all add: file_entry_ok_def entry_ok_def header_ok_def extra_ok_def example_header_def example_message_def
        level_entry_def new_header_def CURRENT_SESSION_VERSION_def)
  have j: "json_parse example_env ''{demo}'' = Some (file_entry_value (serde example_env) example_header)"
    "json_parse example_env ''{b0000000}'' = Some (file_entry_value (serde example_env) (FEntry example_message))"
    "json_parse example_env ''{c0000000}'' = Some (file_entry_value (serde example_env) (FEntry (level_entry (CHR ''c'') ''b0000000'')))"
    "json_parse example_env ''{d0000000}'' = Some (file_entry_value (serde example_env) (FEntry (level_entry (CHR ''d'') ''c0000000'')))"
    by (simp_all add: example_env_def)
  show "line_ok example_env example_header" "line_ok example_env (FEntry example_message)"
    "line_ok example_env (FEntry (level_entry (CHR ''c'') ''b0000000''))"
    "line_ok example_env (FEntry (level_entry (CHR ''d'') ''c0000000''))"
    by (rule example_line; simp add: p j example_text)+
qed

lemma example_paths: "resolve_or_raw example_env path = path" "normalize_or_raw example_env path = path"
  by (simp_all add: example_env_def)




end
