(* ===== verification/Session_Reopen.thy ===== *)
theory Session_Reopen
  imports Session_Properties
begin

text \<open>
  Opening a session file: what the load and the migrations make of it, and three situations in which the
  manager does not do what it means to.
\<close>

subsection \<open>Opening and appending\<close>

lemma set_session_file_adopts:
  assumes "set_session_file env c path m0 disk = (Inr (), m, disk')" and "resolve_or_raw env path = path"
    and "disk path = Some content" and "load_entries_from_file env c disk path = fes" and "fes \<noteq> []"
    and "CURRENT_SESSION_VERSION \<le> file_version fes"
  shows "disk' = disk" "file_entries m = fes" "flushed m" "persisted_entries m = length fes" "rollback_offset m = None"
    "session_file m = Some path" "persist m = persist m0" "leaf_id m = last_id (entries_of fes)"
    "ids m = ids_of (entries_of fes)"
  using assms
  by (auto simp: set_session_file_def set_session_file_inner_def adopt_entries_def migrate_to_current_version_def
      Let_def build_index_tree get_entries_def)

lemma append_to_open_file:
  assumes "append_body env c b m disk = (Inr i, m', disk')" and "persist m" and "session_file m = Some path"
    and "flushed m" and "rollback_offset m = None" and "persisted_entries m = length (file_entries m)"
    and "disk path = Some content"
  shows "disk' path = Some (content @ line_of env (FEntry (Known (new_head c m) b)))"
    "flushed m'" "rollback_offset m' = None" "persisted_entries m' = length (file_entries m')"
  using assms
  by (auto simp: append_body_def append_entry_def persist_entry_def open_append_def write_pending_def Let_def
      split: option.splits sum.splits prod.splits if_splits)

lemma file_version_reread: "file_version (map reread fes) = file_version fes"
proof -
  have "find_header (map reread fes) = map_option (\<lambda>h. h\<lparr>hd_extra := tagged ''session'' (hd_extra h)\<rparr>) (find_header fes)"
    by (induction fes rule: find_header.induct) simp_all
  then show ?thesis by (cases "find_header fes") (simp_all add: file_version_def)
qed

lemma entries_of_reread: "entries_of (map reread fes) = map reread_entry (entries_of fes)"
proof (induction fes)
  case (Cons fe fes)
  then show ?case by (cases fe) simp_all
qed simp

lemma headed_valid: "headed fes \<Longrightarrow> valid_file_entries (map reread fes @ more_entries) = map reread fes @ more_entries"
  by (auto simp: headed_def valid_file_entries_def)

lemma empty_line: "parse_lines env [[]] = []"
  by (simp add: parse_lines_def map_filter_simps parse_session_entry_line_def from_utf8_lossy_def trim_def)

lemma torn_load:
  assumes "disk path = Some (lines_of env fes @ torn)" and "headed fes" and "list_all (line_ok env) fes"
    and "newline \<notin> set torn" and "parse_session_entry_line env (from_utf8_lossy torn) = None"
    and "\<forall>j. read_error c j = None" and "open_error c = None" and "normalize_or_raw env path = path"
  shows "load_entries_from_file env c disk path = map reread fes"
  using load_is_lines[of c env path disk, OF _ assms(7,8,1)] assms(4-6) headed_valid[OF assms(2), of "[]"]
    lines_split[OF assms(3)] parse_lines_map[OF assms(3)]
  by (simp add: split_on_no_sep parse_lines_append) (simp add: parse_lines_def map_filter_simps)

lemma torn_reload:
  assumes "disk path = Some (lines_of env fes @ torn @ line_of env fe1 @ line_of env fe2)" and "headed fes"
    and "list_all (line_ok env) fes" and "newline \<notin> set torn"
    and "line_ok env fe1" and "parse_session_entry_line env (from_utf8_lossy (torn @ to_json env fe1)) = None"
    and "line_ok env fe2"
    and "\<forall>j. read_error c j = None" and "open_error c = None" and "normalize_or_raw env path = path"
  shows "load_entries_from_file env c disk path = map reread fes @ [reread fe2]"
proof -
  have nl: "newline \<notin> set (torn @ to_json env fe1)" "newline \<notin> set (to_json env fe2)"
    using assms(4,5,7) by (auto simp: line_ok_def text_ok_def Let_def to_json_def)
  have "split_on newline (lines_of env fes @ torn @ line_of env fe1 @ line_of env fe2) =
      map (to_json env) fes @ [torn @ to_json env fe1, to_json env fe2, []]"
    using lines_split[OF assms(3)] split_on_sep[OF nl(1)] split_on_sep[OF nl(2), of "[]"]
    by (simp add: line_of_def)
  then show ?thesis
    using load_is_lines[of c env path disk, OF _ assms(9,10,1)] assms(6,8) line_ok_parse[OF assms(7)]
      parse_lines_map[OF assms(3)] headed_valid[OF assms(2), of "[reread fe2]"] empty_line[of env]
    by (simp add: parse_lines_append) (simp add: parse_lines_def map_filter_simps)
qed

lemma reloaded_version:
  "headed fes \<Longrightarrow> CURRENT_SESSION_VERSION \<le> file_version fes \<Longrightarrow>
    CURRENT_SESSION_VERSION \<le> file_version (map reread fes @ more_entries)"
  by (auto simp: headed_def file_version_def)

text \<open>
  C38: a torn last line swallows the next entry. When a session file ends in a torn line, as a crash in the
  middle of an append leaves it, opening it drops that line but leaves the bytes in place: the next
  append, reported as successful, ends up on the same line and is gone after a reload, and with it the
  entry's place in the chain: after one more append the reopened session's branch consists of that last
  entry alone, although the earlier entries are all in the file.
\<close>

theorem torn_tail_swallows_append:
  assumes paths: "resolve_or_raw env path = path" "normalize_or_raw env path = path"
    and bytes: "disk path = Some (lines_of env fes @ torn)" "headed fes" "CURRENT_SESSION_VERSION \<le> file_version fes"
      "list_all (line_ok env) fes"
    and torn: "newline \<notin> set torn" "parse_session_entry_line env (from_utf8_lossy torn) = None"
    and reads: "\<forall>j. read_error c0 j = None" "open_error c0 = None" "\<forall>j. read_error c3 j = None" "open_error c3 = None"
    and opened: "persist m0" "set_session_file env c0 path m0 disk = (Inr (), m, disk1)"
    and first: "append_body env c1 b1 m disk1 = (Inr i1, m1, disk2)" "fresh_uuids 101 (new_v4 c1) 0 (ids m)" "line_ok env (FEntry (Known (new_head c1 m) b1))"
      "parse_session_entry_line env (from_utf8_lossy (torn @ to_json env (FEntry (Known (new_head c1 m) b1)))) = None"
    and second: "append_body env c2 b2 m1 disk2 = (Inr i2, m2, disk3)" "fresh_uuids 101 (new_v4 c2) 0 (ids m1)"
      "line_ok env (FEntry (Known (new_head c2 m1) b2))"
    and reopened: "set_session_file env c3 path m0 disk3 = (Inr (), m3, disk4)"
  shows "get_entries m3 = get_entries m @ [reread_entry (Known (new_head c2 m1) b2)] \<and>
    get_branch m3 None = Some [reread_entry (Known (new_head c2 m1) b2)]"
proof -
  let ?e1 = "Known (new_head c1 m) b1" and ?e2 = "Known (new_head c2 m1) b2"
  have l0: "load_entries_from_file env c0 disk path = map reread fes"
    by (rule torn_load[of disk path env fes torn c0, OF bytes(1,2,4) torn reads(1,2) paths(2)])
  have ne: "map reread fes \<noteq> []" using bytes(2) by (auto simp: headed_def)
  note o = set_session_file_adopts[OF opened(2) paths(1) bytes(1) l0 ne, unfolded file_version_reread, OF bytes(3)]
  note a1 = append_entry_tree[OF first(1)[unfolded append_body_def]]
  note a2 = append_entry_tree[OF second(1)[unfolded append_body_def]]
  have d2: "disk2 path = Some (lines_of env fes @ torn @ line_of env (FEntry ?e1))"
    "flushed m1" "rollback_offset m1 = None" "persisted_entries m1 = length (file_entries m1)"
    using append_to_open_file[OF first(1)] o opened(1) bytes(1) by simp_all
  have d3: "disk3 path = Some (lines_of env fes @ torn @ line_of env (FEntry ?e1) @ line_of env (FEntry ?e2))"
    using append_to_open_file(1)[OF second(1)] a1 o opened(1) d2 by simp
  have l3: "load_entries_from_file env c3 disk3 path = map reread fes @ [reread (FEntry ?e2)]"
    by (rule torn_reload[of disk3 path env fes torn "FEntry ?e1" "FEntry ?e2" c3, OF d3 bytes(2,4) torn(1) first(3,4) second(3) reads(3,4) paths(2)])
  note v3 = reloaded_version[OF bytes(2,3), of "[reread (FEntry ?e2)]"]
  note r = set_session_file_adopts[OF reopened paths(1) d3 l3 _ v3]
  have es: "get_entries m3 = get_entries m @ [reread_entry ?e2]" "get_entries m = map reread_entry (entries_of fes)"
    using r(2) o(2) by (simp_all add: get_entries_def entries_of_reread)
  have i1: "entry_id ?e1 \<notin> ids m" "entry_id ?e2 \<notin> ids m1" "parent_id ?e2 = Some (entry_id ?e1)"
    using next_id_fresh[OF first(2)] next_id_fresh[OF second(2)] a1 by (simp_all add: new_head_def)
  have idm: "ids m = ids_of (get_entries m)" using o(2,9) by (simp add: get_entries_def)
  have "entry_id ?e2 \<notin> insert (entry_id ?e1) (ids m)" using i1(2) unfolding a1(2) .
  then have new: "entry_id ?e1 \<noteq> entry_id ?e2" "entry_id ?e2 \<notin> ids m"
    by (metis insertI1, metis insertI2)
  have "find_id (get_entries m) (entry_id ?e1) = None"
    by (rule find_id_None[THEN iffD2]) (use i1(1) idm in blast)
  moreover have "find_id (get_entries m) (entry_id ?e2) = None"
    by (rule find_id_None[THEN iffD2]) (use new(2) idm in blast)
  ultimately have f: "find_entry m3 (entry_id ?e1) = None" "find_entry m3 (entry_id ?e2) = Some (reread_entry ?e2)"
    using new(1) by (simp_all add: find_entry_eq es(1) find_id_append del: reread_entry.simps entry_id.simps)
  have leaf: "leaf_id m3 = Some (entry_id ?e2)"
    using r(8) by (simp add: last_id_def)
  have "get_branch m3 None = Some [reread_entry ?e2]"
    using f i1(3) by (simp add: get_branch_def leaf walk.simps)
  then show ?thesis using es by simp
qed

text \<open>A call in which nothing fails opens a file that holds a session and appends to it.\<close>

lemma set_session_file_succeeds:
  assumes "resolve_or_raw env path = path" and "disk path = Some content"
    and "load_entries_from_file env c disk path = fes" and "fes \<noteq> []" and "CURRENT_SESSION_VERSION \<le> file_version fes"
  obtains m where "set_session_file env c path m0 disk = (Inr (), m, disk)"
  using assms
  by (auto simp: set_session_file_def set_session_file_inner_def adopt_entries_def migrate_to_current_version_def Let_def)

lemma append_succeeds:
  assumes "persist m" and "session_file m = Some path" and "flushed m" and "rollback_offset m = None"
    and "persisted_entries m = length (file_entries m)" and "disk path = Some content"
    and "open_error c = None" "stat_error c = None" "write_error c = None" "sync_error c = None"
  obtains m' disk' where "append_body env c b m disk = (Inr (next_id c m), m', disk')"
  using assms
  by (auto simp: append_body_def append_entry_def persist_entry_def open_append_def write_pending_def Let_def new_head_def)

lemma torn_tail_swallows_append_witness:
  "\<exists>m m3. get_entries m3 = get_entries m @ [reread_entry (level_entry (CHR ''d'') ''c0000000'')] \<and>
    get_branch m3 None = Some [reread_entry (level_entry (CHR ''d'') ''c0000000'')]"
proof -
  let ?p = "''/s/x''" and ?fes = "[example_header, FEntry example_message]" and ?m0 = "example_start"
  define torn where "torn = ''{b''"
  define disk :: Disk where "disk = [?p \<mapsto> lines_of example_env ?fes @ torn]"
  have bytes: "disk ?p = Some (lines_of example_env ?fes @ torn)" by (simp add: disk_def)
  have h: "headed ?fes" by (auto simp: headed_def example_header_def new_header_def intro!: exI[of _ "[example_message]"])
  have v: "CURRENT_SESSION_VERSION \<le> file_version ?fes"
    by (simp add: file_version_def example_header_def new_header_def)
  have ok: "list_all (line_ok example_env) ?fes" by (simp add: example_lines_ok)
  have t: "newline \<notin> set torn" unfolding torn_def by code_simp
  have "utf8_valid torn" unfolding torn_def by code_simp
  then have tp: "parse_session_entry_line example_env (from_utf8_lossy torn) = None"
    by (simp add: from_utf8_lossy_valid parse_session_entry_line_def) (simp add: torn_def example_env_def)
  have reads: "\<forall>j. read_error (example_call t) j = None" "open_error (example_call t) = None" for t by simp_all
  have l: "load_entries_from_file example_env (example_call ''a'') disk ?p = map reread ?fes"
    by (rule torn_load[of disk ?p example_env ?fes torn, OF bytes h ok t tp reads example_paths(2)])
  have ne: "map reread ?fes \<noteq> []" by simp
  note v' = v[folded file_version_reread[of ?fes]]
  obtain m where m: "set_session_file example_env (example_call ''a'') ?p ?m0 disk = (Inr (), m, disk)"
    by (rule set_session_file_succeeds[of example_env ?p disk, OF example_paths(1) bytes l ne v'])
  note o = set_session_file_adopts[OF m example_paths(1) bytes l ne v']
  have ids: "ids m = {''b0000000''}" and leaf: "leaf_id m = Some ''b0000000''"
    using o(8,9) by (simp_all add: example_header_def example_message_def last_id_def)
  have c: "Known (new_head (example_call ''c'') m) (EThinkingLevelChange ''high'') = level_entry (CHR ''c'') ''b0000000''"
    by (simp add: new_head_def level_entry_def leaf next_id_def generate_first ids example_prefix)
  have pers: "persist m" using o(7) by (simp add: example_start_simps)
  obtain m1 d1 where a1: "append_body example_env (example_call ''c'') (EThinkingLevelChange ''high'') m disk =
      (Inr (next_id (example_call ''c'') m), m1, d1)"
    by (rule append_succeeds[of m ?p disk _ "example_call ''c''", OF pers o(6) o(3) o(5) _ bytes]) (use o(2,4) in simp_all)
  note t1 = append_entry_tree[OF a1[unfolded append_body_def]]
  note f1 = append_to_open_file[OF a1 pers o(6) o(3) o(5) _ bytes]
  have ids1: "ids m1 = {''b0000000'', ''c0000000''}" and leaf1: "leaf_id m1 = Some ''c0000000''"
    using t1(2,3) ids unfolding c by (auto simp: level_entry_def)
  have d: "Known (new_head (example_call ''d'') m1) (EThinkingLevelChange ''high'') = level_entry (CHR ''d'') ''c0000000''"
    by (simp add: new_head_def level_entry_def leaf1 next_id_def generate_first ids1 example_prefix)
  obtain m2 d2 where a2: "append_body example_env (example_call ''d'') (EThinkingLevelChange ''high'') m1 d1 =
      (Inr (next_id (example_call ''d'') m1), m2, d2)"
    by (rule append_succeeds[of m1 ?p d1 _ "example_call ''d''"]) (use t1 f1 o pers in simp_all)
  have d2: "d2 ?p = Some (lines_of example_env ?fes @ torn @ line_of example_env (FEntry (level_entry (CHR ''c'') ''b0000000'')) @
      line_of example_env (FEntry (level_entry (CHR ''d'') ''c0000000'')))"
    using append_to_open_file(1)[OF a2] t1 f1 o pers unfolding c d by simp
  have "utf8_valid (torn @ ''{c0000000}'')" unfolding torn_def by code_simp
  then have bad: "parse_session_entry_line example_env
      (from_utf8_lossy (torn @ to_json example_env (FEntry (level_entry (CHR ''c'') ''b0000000'')))) = None"
    by (simp add: example_text from_utf8_lossy_valid parse_session_entry_line_def) (simp add: torn_def example_env_def)
  note l2 = torn_reload[of d2 ?p example_env ?fes torn "FEntry (level_entry (CHR ''c'') ''b0000000'')"
      "FEntry (level_entry (CHR ''d'') ''c0000000'')" "example_call ''e''", OF d2 h ok t example_lines_ok(3) bad example_lines_ok(4) reads[of "''e''"] example_paths(2)]
  obtain m3 where m3: "set_session_file example_env (example_call ''e'') ?p ?m0 d2 = (Inr (), m3, d2)"
    by (rule set_session_file_succeeds[of example_env ?p d2, OF example_paths(1) d2 l2 _ reloaded_version[OF h v]]) simp
  have "fresh_uuids 101 (new_v4 (example_call ''c'')) 0 (ids m)" "fresh_uuids 101 (new_v4 (example_call ''d'')) 0 (ids m1)"
    unfolding example_call_simps by (rule example_uuids_fresh; auto simp: ids ids1)+
  then have "get_entries m3 = get_entries m @ [reread_entry (level_entry (CHR ''d'') ''c0000000'')] \<and>
      get_branch m3 None = Some [reread_entry (level_entry (CHR ''d'') ''c0000000'')]"
    using torn_tail_swallows_append[of example_env ?p disk ?fes torn "example_call ''a''" "example_call ''e''",
        OF example_paths bytes h v ok t tp reads reads example_start_simps(6) m a1 _ _ _ a2 _ _ m3]
    unfolding c d using bad example_lines_ok by blast
  then show ?thesis by blast
qed

subsection \<open>Loops in the parent links\<close>

lemma walk_self_parent:
  assumes "look i = Some e" and "parent_id e = Some i"
  shows "walk look (Some e) path = None"
proof -
  have False if "walk look (Some e) path = Some y" for y
  proof -
    have "look = look \<longrightarrow> Some e \<noteq> Some e"
    proof (rule walk.raw_induct[where P = "\<lambda>l current p y. l = look \<longrightarrow> current \<noteq> Some e", rotated, OF that])
      fix go l current p y
      assume IH: "\<And>l current p y. go l current p = Some y \<Longrightarrow> l = look \<longrightarrow> current \<noteq> Some e"
        and w: "(case current of None \<Rightarrow> Some p | Some e \<Rightarrow> go l (Option.bind (parent_id e) l) (e # p)) = Some y"
      show "l = look \<longrightarrow> current \<noteq> Some e"
        using IH[of look "Some e" "e # p" y] w assms by auto
    qed
    then show False by simp
  qed
  then show ?thesis by (cases "walk look (Some e) path") auto
qed

text \<open>
  An entry that is its own parent hangs the manager. The tree view treats such an entry of a loaded
  file as a root; the walk to the root, by \<open>get_branch\<close>, does not end, and neither does splitting off a
  session there.
\<close>

theorem self_parent_never_returns:
  assumes "find_entry m i = Some e" and "parent_id e = Some i"
  shows "get_branch m (Some i) = None \<and> create_branched_session env c i m disk = None \<and>
    (\<forall>k. k < length (get_entries m) \<and> get_entries m ! k = e \<longrightarrow> k \<in> set (root_indices (get_entries m)))"
proof -
  have "get_branch m (Some i) = None"
    using walk_self_parent[of "find_entry m" i e] assms by (simp add: get_branch_def)
  moreover have "entry_id e = i"
    using assms(1) find_id_Some[of i "get_entries m"] by (simp add: find_entry_eq)
  ultimately show ?thesis
    using assms(2) by (auto simp: create_branched_session_def root_indices_def tree_parent_def)
qed

definition looping_entry :: SessionEntry where
  "looping_entry = Known \<lparr>eh_id = ''a'', eh_parent_id = Some ''a'', eh_timestamp = [], eh_extra = []\<rparr> (ESessionInfo None)"

lemma self_parent_never_returns_witness:
  "get_branch (example_start\<lparr>file_entries := [example_header, FEntry looping_entry]\<rparr>) (Some ''a'') = None"
proof -
  have "find_entry (example_start\<lparr>file_entries := [example_header, FEntry looping_entry]\<rparr>) ''a'' = Some looping_entry"
    by (simp add: find_entry_def get_entries_def example_header_def looping_entry_def)
  from self_parent_never_returns[OF this] show ?thesis by (simp add: looping_entry_def)
qed

subsection \<open>Forking a session in memory\<close>

text \<open>
  A session in memory cannot be forked. The runtime makes a new, empty manager and splits it off at an
  entry of the old one, so every fork at an entry fails with \<open>EntryNotFound\<close>.
\<close>

theorem in_memory_fork_fails:
  "fork_in_memory env c cwd previous (Some leaf) disk = Some (Inl (EntryNotFound leaf))"
proof -
  obtain m where m: "in_memory env c cwd default_options disk = (Inr m, disk)" "get_entries m = []"
    by (simp add: in_memory_def construct_def empty_manager_def new_session_def default_options_def get_entries_def Let_def)
  then have "get_branch m (Some leaf) = Some []"
    by (simp add: get_branch_def find_entry_def walk.simps)
  then show ?thesis using m by (simp add: fork_in_memory_def create_branched_session_def)
qed

subsection \<open>Migrations\<close>

lemma set_id_simps [simp]:
  "entry_id (set_id i e) = i" "parent_id (set_id i e) = parent_id e"
  by (cases e; simp add: map_str_def json_get_def update_conv str_or_empty_def)+

lemma assign_ids_spec:
  assumes "fresh_uuids b draw k seen" and "k + 101 * length fes \<le> b" and "assign_ids draw k seen previous fes = (fes', assigned)"
    and "set_option previous \<subseteq> seen"
  shows "chained seen (entries_of fes') \<and> links previous (entries_of fes') \<and> length fes' = length fes \<and>
    length assigned = length fes"
  using assms
proof (induction fes arbitrary: k seen previous fes' assigned)
  case (Cons fe fes)
  show ?case
  proof (cases fe)
    case (FSession h)
    obtain gs as where r: "assign_ids draw k seen previous fes = (gs, as)" by fastforce
    then show ?thesis
      using Cons.IH[OF Cons.prems(1) _ r Cons.prems(4)] Cons.prems(2,3) FSession by auto
  next
    case (FEntry e)
    obtain i k' where g: "generate_id (\<lambda>x. x \<in> seen) draw k = (i, k')" by fastforce
    obtain gs as where r: "assign_ids draw k' (insert i seen) (Some i) fes = (gs, as)" by fastforce
    have "k + 101 \<le> b" using Cons.prems(2) by simp
    note f = generate_id_fresh[OF Cons.prems(1) g this]
    have "k' + 101 * length fes \<le> b" using f(2) Cons.prems(2) by simp
    from Cons.IH[OF f(3) this r] show ?thesis
      using Cons.prems(3,4) FEntry g r f(1) by auto
  qed
qed simp

text \<open>The place of an entry in the tree.\<close>

abbreviation places :: "SessionEntry list \<Rightarrow> (string \<times> string option) list" where
  "places es \<equiv> map (\<lambda>e. (entry_id e, parent_id e)) es"

lemma places_chained: "places es = places es' \<Longrightarrow> chained seen es = chained seen es'"
proof (induction es arbitrary: es' seen)
  case (Cons e es)
  then obtain e' fs where "es' = e' # fs" "entry_id e = entry_id e'" "parent_id e = parent_id e'" "places es = places fs"
    by (cases es') simp_all
  then show ?case using Cons.IH[of fs "insert (entry_id e') seen"] by simp
qed simp

lemma places_links: "places es = places es' \<Longrightarrow> links p es = links p es'"
proof (induction es arbitrary: es' p)
  case (Cons e es)
  then obtain e' fs where "es' = e' # fs" "entry_id e = entry_id e'" "parent_id e = parent_id e'" "places es = places fs"
    by (cases es') simp_all
  then show ?case using Cons.IH[of fs "Some (entry_id e')"] by simp
qed simp

lemma resolve_places: "places (entries_of (map (resolve_first_kept assigned) fes)) = places (entries_of fes)"
proof (induction fes)
  case (Cons fe fes)
  then show ?case
    by (cases "(assigned, fe)" rule: resolve_first_kept.cases) (auto split: option.splits simp: Let_def)
qed simp

lemma rename_places: "places (entries_of (migrate_v2_to_v3 fes)) = places (entries_of fes)"
proof (induction fes)
  case (Cons fe fes)
  then show ?case
    by (cases fe rule: rename_hook_message.cases) (auto simp: migrate_v2_to_v3_def)
qed (simp add: migrate_v2_to_v3_def)

lemma rename_version: "find_header fes \<noteq> None \<Longrightarrow> file_version (migrate_v2_to_v3 fes) = 3"
proof -
  have "find_header (migrate_v2_to_v3 fes) = map_option (\<lambda>h. h\<lparr>hd_version := Some 3\<rparr>) (find_header fes)"
  proof (induction fes rule: find_header.induct)
    case (3 e fes)
    then show ?case by (cases "FEntry e" rule: rename_hook_message.cases) (auto simp: migrate_v2_to_v3_def)
  qed (simp_all add: migrate_v2_to_v3_def)
  then show "find_header fes \<noteq> None \<Longrightarrow> ?thesis" by (auto simp: file_version_def)
qed

lemma assign_ids_header:
  "assign_ids draw k seen previous fes = (fes', assigned) \<Longrightarrow> (find_header fes' = None) = (find_header fes = None)"
  by (induction draw k seen previous fes arbitrary: fes' assigned rule: assign_ids.induct)
    (auto simp: Let_def split: prod.splits)

lemma resolve_header: "find_header (map (resolve_first_kept assigned) fes) = find_header fes"
proof (induction fes)
  case (Cons fe fes)
  then show ?case
    by (cases "(assigned, fe)" rule: resolve_first_kept.cases) (auto split: option.splits simp: Let_def)
qed simp

text \<open>The messages a migration leaves behind.\<close>

definition migrated_message :: "Json \<Rightarrow> Json" where
  "migrated_message v =
    (if get_str v ''role'' = Some ''hookMessage'' then
       (case v of JObject m \<Rightarrow> JObject (AList.update ''role'' (JString ''custom'') m) | _ \<Rightarrow> v)
     else v)"

lemma set_views [simp]:
  "as_message (set_id i e) = as_message e" "as_message (set_parent_id p e) = as_message e"
  by (cases e; simp add: known_views)+

lemma assign_messages:
  "assign_ids draw k seen previous fes = (fes', assigned) \<Longrightarrow>
    map as_message (entries_of fes') = map as_message (entries_of fes)"
  by (induction draw k seen previous fes arbitrary: fes' assigned rule: assign_ids.induct)
    (auto simp: Let_def split: prod.splits)

lemma resolve_messages:
  "map as_message (entries_of (map (resolve_first_kept assigned) fes)) = map as_message (entries_of fes)"
proof (induction fes)
  case (Cons fe fes)
  then show ?case
    by (cases "(assigned, fe)" rule: resolve_first_kept.cases) (auto split: option.splits simp: Let_def)
qed simp

lemma rename_messages:
  "map as_message (entries_of (migrate_v2_to_v3 fes)) =
    map (\<lambda>e. map_option migrated_message (as_message e)) (entries_of fes)"
proof (induction fes)
  case (Cons fe fes)
  then show ?case
    by (cases fe rule: rename_hook_message.cases) (auto simp: migrate_v2_to_v3_def migrated_message_def)
qed (simp add: migrate_v2_to_v3_def)

text \<open>
  An old file becomes a tree. Migrating the entries of a version 1 file gives them fresh identifiers
  and chains them in file order, so that the whole file is one branch; the messages are kept, with the
  role \<open>hookMessage\<close> renamed; the header carries the current version, and migrating again does nothing.
\<close>

theorem migration_chains_old_sessions:
  assumes "file_version fes < 2" and "find_header fes \<noteq> None" and "fresh_uuids (101 * length fes) draw 0 {}"
    and "migrate_to_current_version draw fes = (migrated, fes')"
  shows "migrated \<and> length fes' = length fes \<and> chained {} (entries_of fes') \<and> links None (entries_of fes') \<and>
    map as_message (entries_of fes') = map (\<lambda>e. map_option migrated_message (as_message e)) (entries_of fes) \<and>
    migrate_to_current_version draw fes' = (False, fes')"
proof -
  obtain gs assigned where a: "assign_ids draw 0 {} None fes = (gs, assigned)" by fastforce
  let ?hs = "map (resolve_first_kept assigned) gs"
  have f: "migrated" "fes' = migrate_v2_to_v3 ?hs"
    using assms(1,4) a
    by (auto simp: migrate_to_current_version_def migrate_v1_to_v2_def CURRENT_SESSION_VERSION_def Let_def)
  note s = assign_ids_spec[OF assms(3) _ a]
  have p: "places (entries_of fes') = places (entries_of gs)"
    by (simp add: f(2) rename_places resolve_places)
  have "file_version fes' = 3"
    using rename_version[of ?hs] resolve_header assign_ids_header[OF a] assms(2) f(2) by simp
  then have "migrate_to_current_version draw fes' = (False, fes')"
    by (simp add: migrate_to_current_version_def CURRENT_SESSION_VERSION_def)
  moreover have "map as_message (entries_of fes') = map (\<lambda>e. map_option migrated_message (as_message e)) (entries_of fes)"
  proof -
    have "map as_message (entries_of fes') = map (map_option migrated_message) (map as_message (entries_of ?hs))"
      by (simp add: f(2) rename_messages)
    then show ?thesis by (simp add: resolve_messages assign_messages[OF a])
  qed
  ultimately show ?thesis
    using f s places_chained[OF p] places_links[OF p] by (simp add: migrate_v2_to_v3_def)
qed

definition old_file :: "FileEntry list" where
  "old_file = [FSession \<lparr>hd_version = None, hd_id = ''s'', hd_timestamp = [], hd_cwd = JNull, parent_session = None, hd_extra = []\<rparr>,
     FEntry (Known \<lparr>eh_id = [], eh_parent_id = None, eh_timestamp = [], eh_extra = []\<rparr>
       (EMessage (JObject [(''role'', JString ''hookMessage'')])))]"

lemma migration_chains_old_sessions_witness:
  "links None (entries_of (snd (migrate_to_current_version (example_uuid ''a'') old_file)))"
proof -
  have "fresh_uuids (101 * length old_file) (example_uuid ''a'') 0 {}"
    by (rule example_uuids_fresh) (simp_all add: old_file_def)
  moreover have "file_version old_file < 2" "find_header old_file \<noteq> None"
    by (simp_all add: old_file_def file_version_def)
  ultimately show ?thesis
    using migration_chains_old_sessions[of old_file "example_uuid ''a''"]
    by (cases "migrate_to_current_version (example_uuid ''a'') old_file") simp
qed

end
