(* ===== verification/Token_Estimate.thy ===== *)
theory Token_Estimate
  imports Messages
begin

text \<open>
  The size of a context (\<open>crates/notagent/src/core/compaction/compaction.rs\<close>): the characters-by-four
  estimate of a message, the provider's own count where it can be trusted, and the test that decides
  whether to compact. Characters are UTF-16 units. Tool-call arguments are measured in their JSON text;
  \<open>json\<close> stands for \<open>serde_json::to_string\<close>. Counts that come from a provider are 64-bit and their sums
  wrap around, as in a release build.
\<close>

subsection \<open>UTF-16 length\<close>

definition utf16_count :: "string \<Rightarrow> nat" where
  "utf16_count s = utf16_units (chars s)"

definition char_width :: "string \<Rightarrow> nat" where
  "char_width ch = (if length ch = 4 then 2 else 1)"

lemma utf16_units_eq: "utf16_units chs = sum_list (map char_width chs)"
  by (simp add: utf16_units_def char_width_def[abs_def])

lemma utf16_units_simps [simp]:
  "utf16_units [] = 0" "utf16_units (ch # chs) = char_width ch + utf16_units chs"
  "utf16_units (xs @ ys) = utf16_units xs + utf16_units ys" "utf16_units (rev xs) = utf16_units xs"
  by (simp_all add: utf16_units_eq rev_map[symmetric])

lemma char_width_bounds: "1 \<le> char_width ch" "char_width ch \<le> 2"
  by (simp_all add: char_width_def)

lemma utf16_count_Nil [simp]: "utf16_count [] = 0"
  by (simp add: utf16_count_def)

text \<open>A string that does not begin in the middle of a character.\<close>

definition char_start :: "string \<Rightarrow> bool" where
  "char_start s \<longleftrightarrow> s = [] \<or> \<not> utf8_cont (of_char (hd s))"

lemma char_start_simps [simp]:
  "char_start []" "char_start (c # cs) \<longleftrightarrow> \<not> utf8_cont (of_char c)"
  by (simp_all add: char_start_def)

lemma while_append_all:
  assumes "\<forall>x\<in>set cs. P x"
  shows "takeWhile P (cs @ b) = cs @ takeWhile P b" "dropWhile P (cs @ b) = dropWhile P b"
    "takeWhile P cs = cs" "dropWhile P cs = []"
  using assms by (simp_all add: takeWhile_append2 dropWhile_append2 takeWhile_eq_all_conv dropWhile_eq_Nil_conv)

lemma while_append_some:
  assumes "\<not> (\<forall>x\<in>set cs. P x)"
  shows "takeWhile P (cs @ b) = takeWhile P cs" "dropWhile P (cs @ b) = dropWhile P cs @ b"
  using assms by (induction cs) (auto split: if_splits)

lemma chars_append: "char_start b \<Longrightarrow> chars (a @ b) = chars a @ chars b"
proof (induction a rule: chars.induct)
  case (2 c cs)
  show ?case
  proof (cases "\<forall>x\<in>set cs. utf8_cont (of_char x)")
    case True
    have "takeWhile (\<lambda>x. utf8_cont (of_char x)) b = []" "dropWhile (\<lambda>x. utf8_cont (of_char x)) b = b"
      using 2(2) by (cases b; simp)+
    then show ?thesis
      by (simp add: while_append_all[OF True])
  next
    case False
    show ?thesis using 2 by (simp add: while_append_some[OF False])
  qed
qed simp

lemma utf16_count_append: "char_start b \<Longrightarrow> utf16_count (a @ b) = utf16_count a + utf16_count b"
  by (simp add: utf16_count_def chars_append)

lemma utf16_count_append_le: "utf16_count (a @ b) \<le> utf16_count a + utf16_count b"
proof (induction a rule: chars.induct)
  case (2 c cs)
  let ?cont = "\<lambda>x. utf8_cont (of_char x)"
  show ?case
  proof (cases "\<forall>x\<in>set cs. ?cont x")
    case all: True
    show ?thesis
    proof (cases b)
      case (Cons d ds)
      have step: "utf16_count (c # cs @ b) = char_width (c # cs @ takeWhile ?cont b) + utf16_units (chars (dropWhile ?cont b))"
        by (simp add: utf16_count_def while_append_all[OF all])
      show ?thesis
      proof (cases "?cont d")
        case True
        then have "utf16_count b = char_width (takeWhile ?cont b) + utf16_units (chars (dropWhile ?cont b))"
          using Cons by (simp add: utf16_count_def)
        moreover have "utf16_count (c # cs) = char_width (c # cs)"
          by (simp add: utf16_count_def while_append_all[OF all])
        ultimately show ?thesis using step
          by (simp add: char_width_def)
      next
        case False
        then show ?thesis using utf16_count_append[of b "c # cs"] Cons by simp
      qed
    qed simp
  next
    case False
    show ?thesis using 2 by (simp add: utf16_count_def while_append_some[OF False])
  qed
qed simp

text \<open>The characters of a text cut at a character are those of the text.\<close>

definition whole_chars :: "string list \<Rightarrow> bool" where
  "whole_chars chs \<longleftrightarrow> chars (concat chs) = chs"

lemma char_start_concat_chars: "char_start (concat (drop (Suc k) (chars s)))"
proof (induction s arbitrary: k rule: chars.induct)
  case (2 c cs)
  show ?case
  proof (cases k)
    case 0
    have "char_start (dropWhile (\<lambda>x. utf8_cont (of_char x)) cs)"
      using hd_dropWhile[of "\<lambda>x. utf8_cont (of_char x)" cs] by (auto simp: char_start_def)
    with 0 show ?thesis by simp
  next
    case (Suc j)
    then show ?thesis using 2 by simp
  qed
qed simp

lemma whole_drop: "whole_chars (drop k (chars s))"
proof (induction s arbitrary: k rule: chars.induct)
  case (2 c cs)
  then show ?case by (cases k) (simp_all add: whole_chars_def)
qed (simp add: whole_chars_def)

lemma whole_take: "whole_chars (take k (chars s))"
proof -
  have "chars s = chars (concat (take k (chars s)) @ concat (drop k (chars s)))"
    by (simp flip: concat_append)
  also have "\<dots> = chars (concat (take k (chars s))) @ chars (concat (drop k (chars s)))"
    by (cases k) (simp_all add: chars_append char_start_concat_chars)
  also have "chars (concat (drop k (chars s))) = drop k (chars s)"
    using whole_drop by (simp add: whole_chars_def)
  finally have "take k (chars s) @ drop k (chars s) = chars (concat (take k (chars s))) @ drop k (chars s)"
    by simp
  then show ?thesis by (metis append_same_eq whole_chars_def)
qed

lemma utf16_count_concat: "whole_chars chs \<Longrightarrow> utf16_count (concat chs) = utf16_units chs"
  by (simp add: utf16_count_def whole_chars_def)

subsection \<open>Settings\<close>

definition RETAINED_USER_TOKENS :: nat where "RETAINED_USER_TOKENS = 20000"

record CompactionSettings =
  enabled :: bool
  reserve_tokens :: nat
  retained_user_tokens :: nat

definition DEFAULT_COMPACTION_SETTINGS :: CompactionSettings where
  "DEFAULT_COMPACTION_SETTINGS =
    \<lparr>enabled = True, reserve_tokens = 16384, retained_user_tokens = RETAINED_USER_TOKENS\<rparr>"

subsection \<open>Counting\<close>

definition wrap_u64 :: "nat \<Rightarrow> nat" where
  "wrap_u64 n = n mod (U64_MAX + 1)"

definition calculate_context_tokens :: "Usage \<Rightarrow> nat" where
  "calculate_context_tokens usage =
    (let parts = wrap_u64 (us_input usage + us_output usage + cache_read usage + cache_write usage)
     in (case total_tokens usage of
           Some n \<Rightarrow> if n > 0 then n else parts
         | None \<Rightarrow> parts))"

definition assistant_usage :: "AgentMessage \<Rightarrow> Usage option" where
  "assistant_usage message =
    (case message of
       Assistant m \<Rightarrow>
         if stop_reason m = Aborted \<or> stop_reason m = Error then None
         else if calculate_context_tokens (am_usage m) > 0 then Some (am_usage m)
         else None
     | _ \<Rightarrow> None)"

record ContextUsageEstimate =
  est_tokens :: nat
  usage_tokens :: nat
  trailing_tokens :: nat
  last_usage_index :: "nat option"

text \<open>The scan from the end; the index counts from the front.\<close>

fun last_usage_from :: "nat \<Rightarrow> AgentMessage list \<Rightarrow> (Usage \<times> nat) option" where
  "last_usage_from i [] = None"
| "last_usage_from i (m # ms) =
    (case last_usage_from (Suc i) ms of
       Some r \<Rightarrow> Some r
     | None \<Rightarrow> map_option (\<lambda>u. (u, i)) (assistant_usage m))"

definition last_assistant_usage_info :: "AgentMessage list \<Rightarrow> (Usage \<times> nat) option" where
  "last_assistant_usage_info messages = last_usage_from 0 messages"

definition ESTIMATED_IMAGE_CHARS :: nat where "ESTIMATED_IMAGE_CHARS = 4800"

fun block_chars :: "TextOrImageContent \<Rightarrow> nat" where
  "block_chars (Text t) = utf16_count (tx_text t)"
| "block_chars (Image _) = ESTIMATED_IMAGE_CHARS"

fun estimate_text_and_image_content_chars :: "UserContent \<Rightarrow> nat" where
  "estimate_text_and_image_content_chars (TextOnly t) = utf16_count t"
| "estimate_text_and_image_content_chars (Blocks bs) = sum_list (map block_chars bs)"

fun assistant_block_chars :: "(Json \<Rightarrow> string) \<Rightarrow> AssistantContent \<Rightarrow> nat" where
  "assistant_block_chars json (AText t) = utf16_count (tx_text t)"
| "assistant_block_chars json (AThinking t) = utf16_count (thinking t)"
| "assistant_block_chars json (AToolCall c) = utf16_count (tc_name c) + utf16_count (json (JObject (arguments c)))"

fun message_chars :: "(Json \<Rightarrow> string) \<Rightarrow> AgentMessage \<Rightarrow> nat" where
  "message_chars json (User m) = estimate_text_and_image_content_chars (um_content m)"
| "message_chars json (Assistant m) = sum_list (map (assistant_block_chars json) (am_content m))"
| "message_chars json (Custom m) = estimate_text_and_image_content_chars (cm_content m)"
| "message_chars json (ToolResult m) = estimate_text_and_image_content_chars (Blocks (trm_content m))"
| "message_chars json (BashExecution m) = utf16_count (bash_command m) + utf16_count (bash_output m)"
| "message_chars json (BranchSummary m) = utf16_count (bs_summary m)"
| "message_chars json (CompactionSummary m) = utf16_count (cs_summary m)"

text \<open>\<open>div_ceil(4)\<close>.\<close>

definition div_ceil4 :: "nat \<Rightarrow> nat" where
  "div_ceil4 n = (n + 3) div 4"

definition estimate_tokens :: "(Json \<Rightarrow> string) \<Rightarrow> AgentMessage \<Rightarrow> nat" where
  "estimate_tokens json message = div_ceil4 (message_chars json message)"

definition estimate_context_tokens :: "(Json \<Rightarrow> string) \<Rightarrow> AgentMessage list \<Rightarrow> ContextUsageEstimate" where
  "estimate_context_tokens json messages =
    (case last_assistant_usage_info messages of
       None \<Rightarrow>
         let estimated = sum_list (map (estimate_tokens json) messages)
         in \<lparr>est_tokens = estimated, usage_tokens = 0, trailing_tokens = estimated, last_usage_index = None\<rparr>
     | Some (usage, index) \<Rightarrow>
         let used = calculate_context_tokens usage;
             trailing = sum_list (map (estimate_tokens json) (drop (Suc index) messages))
         in \<lparr>est_tokens = wrap_u64 (used + trailing), usage_tokens = used, trailing_tokens = trailing,
             last_usage_index = Some index\<rparr>)"

definition should_compact :: "nat \<Rightarrow> nat \<Rightarrow> CompactionSettings \<Rightarrow> bool" where
  "should_compact context_tokens context_window settings \<longleftrightarrow>
    enabled settings \<and> context_tokens > context_window - reserve_tokens settings"

subsection \<open>Facts on the estimate\<close>

lemma div_ceil4_mono: "m \<le> n \<Longrightarrow> div_ceil4 m \<le> div_ceil4 n"
  by (simp add: div_ceil4_def div_le_mono)

lemma div_ceil4_add_le: "div_ceil4 (m + n) \<le> div_ceil4 m + div_ceil4 n"
  by (simp add: div_ceil4_def)

lemma div_ceil4_bounds: "n \<le> 4 * div_ceil4 n" "4 * div_ceil4 n \<le> n + 3"
  by (simp_all add: div_ceil4_def)

lemma last_usage_from_Some:
  "last_usage_from i ms = Some (u, j) \<Longrightarrow>
    i \<le> j \<and> j - i < length ms \<and> assistant_usage (ms ! (j - i)) = Some u \<and>
    (\<forall>k. j - i < k \<and> k < length ms \<longrightarrow> assistant_usage (ms ! k) = None)"
proof (induction ms arbitrary: i)
  case (Cons m ms)
  show ?case
  proof (cases "last_usage_from (Suc i) ms")
    case None
    have "assistant_usage x = None" if "x \<in> set ms" for x
    proof -
      have "last_usage_from k ms = None \<Longrightarrow> \<forall>x\<in>set ms. assistant_usage x = None" for k
        by (induction ms arbitrary: k) (auto split: option.splits)
      then show ?thesis using None that by blast
    qed
    then show ?thesis using Cons.prems None by (auto simp: nth_Cons split: nat.split)
  next
    case (Some r)
    then have r: "last_usage_from (Suc i) ms = Some (u, j)" using Cons.prems by simp
    note ih = Cons.IH[OF r]
    then have "j - i = Suc (j - Suc i)" by (simp add: Suc_diff_Suc)
    with ih show ?thesis by (auto simp: nth_Cons split: nat.split)
  qed
qed simp

end
