(* ===== verification/Retention.thy ===== *)
theory Retention
  imports Token_Estimate Session_Types
begin

text \<open>
  Which of the user's messages survive a compaction, and how much of each
  (\<open>crates/notagent/src/core/compaction/retention.rs\<close>). The selection is a record of identifiers and
  token counts; the texts are cut again whenever the context is built.
\<close>

subsection \<open>Cutting a message\<close>

definition RETAINED_HEAD_TOKENS :: nat where "RETAINED_HEAD_TOKENS = 2000"

definition whole :: "string \<Rightarrow> RetainedEntry" where
  "whole i = \<lparr>re_id = i, prefix_tokens = None, suffix_tokens = None\<rparr>"

fun is_user_input :: "AgentMessage \<Rightarrow> bool" where
  "is_user_input (User _) \<longleftrightarrow> True"
| "is_user_input _ \<longleftrightarrow> False"

fun block_text :: "TextOrImageContent \<Rightarrow> string option" where
  "block_text (Text t) = Some (tx_text t)"
| "block_text (Image _) = None"

text \<open>\<open>collect::<Option<Vec<_>>>\<close>.\<close>

fun collect_options :: "'a option list \<Rightarrow> 'a list option" where
  "collect_options [] = Some []"
| "collect_options (x # xs) =
    (case x of None \<Rightarrow> None | Some y \<Rightarrow> map_option (Cons y) (collect_options xs))"

definition truncatable_text :: "AgentMessage \<Rightarrow> string option" where
  "truncatable_text message =
    (case message of
       User m \<Rightarrow>
         (case um_content m of
            TextOnly t \<Rightarrow> Some t
          | Blocks bs \<Rightarrow> map_option concat (collect_options (map block_text bs)))
     | _ \<Rightarrow> None)"

text \<open>The characters that fit into what is left of a budget.\<close>

fun fitting :: "nat \<Rightarrow> nat \<Rightarrow> string list \<Rightarrow> string list" where
  "fitting budget used [] = []"
| "fitting budget used (ch # chs) =
    (if used + char_width ch > budget then [] else ch # fitting budget (used + char_width ch) chs)"

definition saturating_mul4 :: "nat \<Rightarrow> nat" where
  "saturating_mul4 n = min U64_MAX (n * 4)"

definition keep_prefix :: "string \<Rightarrow> nat \<Rightarrow> string" where
  "keep_prefix s tokens = concat (fitting (saturating_mul4 tokens) 0 (chars s))"

definition keep_suffix :: "string \<Rightarrow> nat \<Rightarrow> string" where
  "keep_suffix s tokens = concat (rev (fitting (saturating_mul4 tokens) 0 (rev (chars s))))"

definition TRUNCATION_NOTE :: string where
  "TRUNCATION_NOTE = ''['' @ ellipsis @ '' earlier part of this message dropped during compaction]''"

definition TRUNCATION_NOTE_TAIL :: string where
  "TRUNCATION_NOTE_TAIL = ''['' @ ellipsis @ '' rest of this message dropped during compaction]''"

definition apply_retention :: "AgentMessage \<Rightarrow> RetainedEntry \<Rightarrow> AgentMessage" where
  "apply_retention message kept =
    (let cut_to = (\<lambda>keep_start tokens.
         (case (truncatable_text message, message) of
            (Some t, User original) \<Rightarrow>
              user_text
                (if keep_start then keep_prefix t tokens @ [newline] @ TRUNCATION_NOTE_TAIL
                 else TRUNCATION_NOTE @ [newline] @ keep_suffix t tokens)
                (um_timestamp original)
          | _ \<Rightarrow> message))
     in (case (prefix_tokens kept, suffix_tokens kept) of
           (Some tokens, _) \<Rightarrow> cut_to True tokens
         | (None, Some tokens) \<Rightarrow> cut_to False tokens
         | (None, None) \<Rightarrow> message))"

definition elision_message :: "nat \<Rightarrow> int \<Rightarrow> AgentMessage" where
  "elision_message omitted time =
    user_text
      (''[Compaction dropped roughly '' @ show_nat omitted @ '' tokens of user messages here. '' @
       ''The messages above are the oldest in this session, the messages below are the '' @
       ''most recent, and the summary at the end of the conversation covers what was '' @
       ''dropped in between.]'') time"

subsection \<open>Selection\<close>

text \<open>
  The loop that fills the tail walks the candidates from the newest; it returns the entries it kept,
  newest first, and how many candidates it took. The loop for the head is the same, with the cut on the
  other side.
\<close>

fun fill :: "(Json \<Rightarrow> string) \<Rightarrow> (string \<Rightarrow> nat \<Rightarrow> RetainedEntry) \<Rightarrow> nat \<Rightarrow> (string \<times> AgentMessage) list \<Rightarrow> RetainedEntry list" where
  "fill json cutter remaining [] = []"
| "fill json cutter remaining ((i, message) # rest) =
    (if remaining = 0 then []
     else if estimate_tokens json message \<le> remaining
     then whole i # fill json cutter (remaining - estimate_tokens json message) rest
     else if truncatable_text message \<noteq> None then [cutter i remaining]
     else [])"

definition cut_suffix :: "string \<Rightarrow> nat \<Rightarrow> RetainedEntry" where
  "cut_suffix i n = \<lparr>re_id = i, prefix_tokens = None, suffix_tokens = Some n\<rparr>"

definition cut_prefix :: "string \<Rightarrow> nat \<Rightarrow> RetainedEntry" where
  "cut_prefix i n = \<lparr>re_id = i, prefix_tokens = Some n, suffix_tokens = None\<rparr>"

definition kept_tokens :: "(Json \<Rightarrow> string) \<Rightarrow> (string \<times> AgentMessage) list \<Rightarrow> RetainedEntry \<Rightarrow> nat" where
  "kept_tokens json candidates e =
    (case (prefix_tokens e, suffix_tokens e) of
       (Some n, _) \<Rightarrow> n
     | (None, Some n) \<Rightarrow> n
     | (None, None) \<Rightarrow>
         (case find (\<lambda>(i, _). i = re_id e) candidates of
            Some (_, message) \<Rightarrow> estimate_tokens json message
          | None \<Rightarrow> 0))"

definition select_retained :: "(Json \<Rightarrow> string) \<Rightarrow> (string \<times> AgentMessage) list \<Rightarrow> nat \<Rightarrow> nat \<Rightarrow> RetainedSelection" where
  "select_retained json candidates budget head_budget =
    (let total = sum_list (map (\<lambda>(_, message). estimate_tokens json message) candidates)
     in if total \<le> budget
        then \<lparr>rs_head = [], rs_tail = map (\<lambda>(i, _). whole i) candidates, omitted_tokens = 0\<rparr>
        else
          let head_budget' = min head_budget (budget div 2);
              tail_budget = budget - head_budget';
              tail = rev (fill json cut_suffix tail_budget (rev candidates));
              tail_start = length candidates - length tail;
              head = fill json cut_prefix head_budget' (take tail_start candidates);
              kept = sum_list (map (kept_tokens json candidates) (head @ tail))
          in \<lparr>rs_head = head, rs_tail = tail, omitted_tokens = total - kept\<rparr>)"

end
