(* ===== verification/Session_Context.thy ===== *)
theory Session_Context
  imports Retention Session_Manager
begin

text \<open>
  From the entries of a session to the context of the agent (\<open>crates/notagent/src/core/session_manager.rs\<close>):
  the path to the leaf, the entries a compaction left, and their messages. Walks to the root may not end
  on a file with a cycle of parents; the results are then \<open>None\<close>.
\<close>

subsection \<open>The path\<close>

fun find_map :: "('a \<Rightarrow> 'b option) \<Rightarrow> 'a list \<Rightarrow> 'b option" where
  "find_map f [] = None"
| "find_map f (x # xs) = (case f x of Some y \<Rightarrow> Some y | None \<Rightarrow> find_map f xs)"

definition get_latest_compaction_entry :: "SessionEntry list \<Rightarrow> CompactionEntry option" where
  "get_latest_compaction_entry entries = find_map as_compaction (rev entries)"

text \<open>A hash map collected from the entries: the last entry with an identifier wins.\<close>

definition build_entry_index :: "SessionEntry list \<Rightarrow> string \<Rightarrow> SessionEntry option" where
  "build_entry_index entries = map_of (rev (map (\<lambda>e. (entry_id e, e)) entries))"

datatype LeafSelector = Undefined | Null | Id string

definition last_entry :: "SessionEntry list \<Rightarrow> SessionEntry option" where
  "last_entry entries = (if entries = [] then None else Some (last entries))"

definition build_session_path ::
    "SessionEntry list \<Rightarrow> LeafSelector \<Rightarrow> (string \<Rightarrow> SessionEntry option) \<Rightarrow> SessionEntry list option" where
  "build_session_path entries leaf index =
    (case leaf of
       Null \<Rightarrow> Some []
     | Id i \<Rightarrow> walk index (case index i of Some e \<Rightarrow> Some e | None \<Rightarrow> last_entry entries) []
     | Undefined \<Rightarrow> walk index (last_entry entries) [])"

subsection \<open>Settings\<close>

record SessionModel =
  sm_provider :: string
  sm_model_id :: string

record SessionContext =
  ctx_messages :: "AgentMessage list"
  ctx_thinking_level :: string
  ctx_model :: "SessionModel option"

fun entry_settings :: "SessionEntry \<Rightarrow> string \<times> SessionModel option \<Rightarrow> string \<times> SessionModel option" where
  "entry_settings (Known _ (EThinkingLevelChange level)) (_, model) = (level, model)"
| "entry_settings (Known _ (EModelChange provider model_id)) (level, _) =
    (level, Some \<lparr>sm_provider = provider, sm_model_id = model_id\<rparr>)"
| "entry_settings (Known _ (EMessage v)) (level, model) =
    (if get_str v ''role'' = Some ''assistant''
     then (level, Some \<lparr>sm_provider = str_or_empty (get_str v ''provider''), sm_model_id = str_or_empty (get_str v ''model'')\<rparr>)
     else (level, model))"
| "entry_settings _ s = s"

definition get_session_context_settings :: "SessionEntry list \<Rightarrow> string \<times> SessionModel option" where
  "get_session_context_settings path = fold entry_settings path (''off'', None)"

subsection \<open>The messages of an entry\<close>

definition repaired_message :: "Json \<Rightarrow> Json" where
  "repaired_message v =
    (case v of
       JObject fs \<Rightarrow>
         if str_or_empty (map_str fs ''role'') \<in> {''user'', ''assistant'', ''toolResult''} \<and>
            (json_get fs ''content'' = None \<or> json_get fs ''content'' = Some JNull)
         then JObject (AList.update ''content'' (JArray []) fs)
         else v
     | _ \<Rightarrow> v)"

fun session_entry_to_context_messages :: "SessionEnv \<Rightarrow> SessionEntry \<Rightarrow> AgentMessage list" where
  "session_entry_to_context_messages env (Known h (EMessage v)) =
    (case message_de env (repaired_message v) of Some m \<Rightarrow> [m] | None \<Rightarrow> [])"
| "session_entry_to_context_messages env (Known h (ECustomMessage e)) =
    [Custom (create_custom_message (cme_custom_type e)
       (case user_content_de env (cme_content e) of Some c \<Rightarrow> c | None \<Rightarrow> Blocks [])
       (cme_display e) (cme_details e) (time_or_0 env (eh_timestamp h)))]"
| "session_entry_to_context_messages env (Known h (EBranchSummary e)) =
    (if be_summary e = [] then []
     else [BranchSummary (create_branch_summary_message (be_summary e) (be_from_id e) (time_or_0 env (eh_timestamp h)))])"
| "session_entry_to_context_messages env (Known h (ECompaction e)) =
    [CompactionSummary (create_compaction_summary_message (ce_summary e) (clamp_u64 (tokens_before e))
       (map_option clamp_u64 (tokens_after e)) (time_or_0 env (eh_timestamp h)))]"
| "session_entry_to_context_messages env _ = []"

subsection \<open>Compaction-aware entries\<close>

fun is_compaction :: "SessionEntry \<Rightarrow> bool" where
  "is_compaction (Known _ (ECompaction _)) \<longleftrightarrow> True"
| "is_compaction _ \<longleftrightarrow> False"

text \<open>The entries before the compaction, from the first one that is kept.\<close>

definition from_first_kept :: "string \<Rightarrow> SessionEntry list \<Rightarrow> SessionEntry list" where
  "from_first_kept i before = dropWhile (\<lambda>e. entry_id e \<noteq> i) before"

definition compacted_entries :: "SessionEntry list \<Rightarrow> SessionEntry list" where
  "compacted_entries path =
    (case find is_compaction (rev path) of
       None \<Rightarrow> path
     | Some c \<Rightarrow>
         let before = takeWhile (\<lambda>e. entry_id e \<noteq> entry_id c) path;
             rest = dropWhile (\<lambda>e. entry_id e \<noteq> entry_id c) path
         in (case rest of
               [] \<Rightarrow> path
             | e # after \<Rightarrow>
                 (case Option.bind (as_compaction e) retained of
                    Some r \<Rightarrow> filter (\<lambda>x. rs_find r (entry_id x) \<noteq> None) before @ e # after
                  | None \<Rightarrow>
                      e # from_first_kept
                            (case as_compaction e of Some ce \<Rightarrow> first_kept_entry_id ce | None \<Rightarrow> []) before @ after)))"

definition build_context_entries_indexed ::
    "SessionEntry list \<Rightarrow> LeafSelector \<Rightarrow> (string \<Rightarrow> SessionEntry option) \<Rightarrow> SessionEntry list option" where
  "build_context_entries_indexed entries leaf index =
    map_option compacted_entries (build_session_path entries leaf index)"

definition build_context_entries :: "SessionEntry list \<Rightarrow> LeafSelector \<Rightarrow> SessionEntry list option" where
  "build_context_entries entries leaf = build_context_entries_indexed entries leaf (build_entry_index entries)"

subsection \<open>The context\<close>

fun with_recovery :: "string option \<Rightarrow> string \<Rightarrow> AgentMessage \<Rightarrow> AgentMessage" where
  "with_recovery (Some file_name) i (CompactionSummary m) =
    CompactionSummary (m\<lparr>cs_recovery := Some \<lparr>recovery_file = file_name, recovery_id = i\<rparr>\<rparr>)"
| "with_recovery _ i m = m"

definition entry_messages ::
    "SessionEnv \<Rightarrow> RetainedSelection option \<Rightarrow> string option \<Rightarrow> SessionEntry \<Rightarrow> AgentMessage list" where
  "entry_messages env kept session_log e =
    (let messages = map (with_recovery session_log (entry_id e)) (session_entry_to_context_messages env e);
         cut_messages = (case Option.bind kept (\<lambda>r. rs_find r (entry_id e)) of
                           Some record_ \<Rightarrow> map (\<lambda>m. apply_retention m record_) messages
                         | None \<Rightarrow> messages)
     in cut_messages @
        (case kept of
           Some r \<Rightarrow>
             if elision_after r = Some (entry_id e)
             then [elision_message (omitted_tokens r) (time_or_0 env (timestamp e))]
             else []
         | None \<Rightarrow> []))"

definition context_messages :: "SessionEnv \<Rightarrow> string option \<Rightarrow> SessionEntry list \<Rightarrow> AgentMessage list" where
  "context_messages env session_log entries =
    (let kept = Option.bind (find_map as_compaction (rev entries)) retained
     in concat (map (entry_messages env kept session_log) entries))"

definition build_session_context_with_log ::
    "SessionEnv \<Rightarrow> SessionEntry list \<Rightarrow> LeafSelector \<Rightarrow> string option \<Rightarrow> SessionContext option" where
  "build_session_context_with_log env entries leaf session_log =
    (let index = build_entry_index entries
     in Option.bind (build_session_path entries leaf index) (\<lambda>path.
          let (level, model) = get_session_context_settings path
          in map_option (\<lambda>context_entries.
               \<lparr>ctx_messages = context_messages env session_log context_entries, ctx_thinking_level = level,
                ctx_model = model\<rparr>)
             (build_context_entries_indexed entries leaf index)))"

definition build_session_context :: "SessionEnv \<Rightarrow> SessionEntry list \<Rightarrow> LeafSelector \<Rightarrow> SessionContext option" where
  "build_session_context env entries leaf = build_session_context_with_log env entries leaf None"

subsection \<open>The manager's view\<close>

definition leaf_selector :: "SessionManager \<Rightarrow> LeafSelector" where
  "leaf_selector m = (case leaf_id m of Some i \<Rightarrow> Id i | None \<Rightarrow> Null)"

definition manager_context_entries :: "SessionManager \<Rightarrow> SessionEntry list option" where
  "manager_context_entries m = build_context_entries (get_entries m) (leaf_selector m)"

text \<open>The session file is named only when it exists.\<close>

definition manager_session_context :: "SessionEnv \<Rightarrow> SessionManager \<Rightarrow> Disk \<Rightarrow> SessionContext option" where
  "manager_session_context env m disk =
    (let session_log = (case session_file m of
                          Some f \<Rightarrow> if persist m \<and> disk f \<noteq> None then Some f else None
                        | None \<Rightarrow> None)
     in build_session_context_with_log env (get_entries m) (leaf_selector m) session_log)"

end
