(* ===== verification/Summary_Text.thy ===== *)
theory Summary_Text
  imports Session_Context
begin

text \<open>
  The texts around a summary (\<open>crates/notagent/src/core/compaction/utils.rs\<close>): the files and operations a
  conversation touched, and the conversation serialized for a summarization request. \<open>json\<close> is the
  \<open>Display\<close> form of a JSON value. Sets of paths are \<open>BTreeSet\<close>s, iterated in byte order.
\<close>

subsection \<open>Files\<close>

record FileOperations =
  fo_read :: "string set"
  fo_written :: "string set"
  fo_edited :: "string set"

definition create_file_ops :: FileOperations where
  "create_file_ops = \<lparr>fo_read = {}, fo_written = {}, fo_edited = {}\<rparr>"

definition argument_str :: "ToolCall \<Rightarrow> string \<Rightarrow> string option" where
  "argument_str call k = map_str (arguments call) k"

fun file_op :: "AssistantContent \<Rightarrow> FileOperations \<Rightarrow> FileOperations" where
  "file_op (AToolCall call) ops =
    (case argument_str call ''path'' of
       None \<Rightarrow> ops
     | Some path \<Rightarrow>
         if tc_name call \<in> {''read'', ''read_minified''} then ops\<lparr>fo_read := insert path (fo_read ops)\<rparr>
         else if tc_name call = ''write'' then ops\<lparr>fo_written := insert path (fo_written ops)\<rparr>
         else if tc_name call \<in> {''patch'', ''patch_minified'', ''multi_patch_minified''}
         then ops\<lparr>fo_edited := insert path (fo_edited ops)\<rparr>
         else ops)"
| "file_op _ ops = ops"

fun extract_file_ops_from_message :: "AgentMessage \<Rightarrow> FileOperations \<Rightarrow> FileOperations" where
  "extract_file_ops_from_message (Assistant m) ops = fold file_op (am_content m) ops"
| "extract_file_ops_from_message _ ops = ops"

text \<open>\<open>str::encode_utf16\<close>: the code point of each character, as one unit or two.\<close>

definition code_point :: "string \<Rightarrow> nat" where
  "code_point ch =
    (case map of_char ch of
       [a] \<Rightarrow> a
     | [a, b] \<Rightarrow> (a - 0xC0) * 0x40 + (b - 0x80)
     | [a, b, c] \<Rightarrow> (a - 0xE0) * 0x1000 + (b - 0x80) * 0x40 + (c - 0x80)
     | [a, b, c, d] \<Rightarrow> (a - 0xF0) * 0x40000 + (b - 0x80) * 0x1000 + (c - 0x80) * 0x40 + (d - 0x80)
     | _ \<Rightarrow> 0)"

definition code_units :: "nat \<Rightarrow> nat list" where
  "code_units cp =
    (if cp < 0x10000 then [cp]
     else [0xD800 + (cp - 0x10000) div 0x400, 0xDC00 + (cp - 0x10000) mod 0x400])"

definition encode_utf16 :: "string \<Rightarrow> nat list" where
  "encode_utf16 s = concat (map (code_units \<circ> code_point) (chars s))"

text \<open>A stable sort by \<open>js_string_cmp\<close>.\<close>

definition sort_js :: "string list \<Rightarrow> string list" where
  "sort_js paths = sort_key encode_utf16 paths"

definition compute_file_lists :: "FileOperations \<Rightarrow> string list \<times> string list" where
  "compute_file_lists ops =
    (let modified = sorted_list_of_set (fo_edited ops \<union> fo_written ops);
         read_only = filter (\<lambda>p. p \<notin> set modified) (sorted_list_of_set (fo_read ops))
     in (sort_js read_only, sort_js modified))"

definition file_section :: "string \<Rightarrow> string list \<Rightarrow> string list" where
  "file_section tag files =
    (if files = [] then []
     else [''<'' @ tag @ ''>'' @ [newline] @ join [newline] files @ [newline] @ ''</'' @ tag @ ''>''])"

definition format_file_operations :: "string list \<Rightarrow> string list \<Rightarrow> string" where
  "format_file_operations read_files modified_files =
    (let sections = file_section ''read-files'' read_files @ file_section ''modified-files'' modified_files
     in if sections = [] then [] else nl2 @ join nl2 sections)"

subsection \<open>Operations\<close>

datatype Operation = OpRead | OpWritten | OpPatched | OpRan

fun op_label :: "Operation \<Rightarrow> string" where
  "op_label OpRead = ''read''"
| "op_label OpWritten = ''wrote''"
| "op_label OpPatched = ''patched''"
| "op_label OpRan = ''ran''"

record OperationRecord =
  op_target :: string
  op_operation :: Operation

definition COMMAND_MAX_CHARS :: nat where "COMMAND_MAX_CHARS = 120"
definition OUTLINE_MAX_LINES :: nat where "OUTLINE_MAX_LINES = 200"

type_synonym OperationOutline = "OperationRecord list"

definition record_operation :: "string \<Rightarrow> Operation \<Rightarrow> OperationOutline \<Rightarrow> OperationOutline" where
  "record_operation target operation records =
    filter (\<lambda>r. op_target r \<noteq> target) records @ [\<lparr>op_target = target, op_operation = operation\<rparr>]"

definition extend_from_records :: "OperationRecord list \<Rightarrow> OperationOutline \<Rightarrow> OperationOutline" where
  "extend_from_records records outline = fold (\<lambda>r. record_operation (op_target r) (op_operation r)) records outline"

text \<open>\<open>str::lines\<close>: a line ends at a line feed, with the carriage return before it dropped.\<close>

definition carriage_return :: char where "carriage_return = char_of (13 :: nat)"

definition strip_cr :: "string \<Rightarrow> string" where
  "strip_cr line = (if line \<noteq> [] \<and> last line = carriage_return then butlast line else line)"

definition str_lines :: "string \<Rightarrow> string list" where
  "str_lines s =
    (let parts = split_on newline s
     in map strip_cr (butlast parts) @ (if last parts = [] then [] else [last parts]))"

definition shorten_command :: "string \<Rightarrow> string" where
  "shorten_command command =
    (let first_line = trim (case str_lines command of [] \<Rightarrow> [] | l # _ \<Rightarrow> l);
         units = utf16_count first_line;
         multiline = 1 < length (str_lines command)
     in if units \<le> COMMAND_MAX_CHARS \<and> \<not> multiline then first_line
        else (if units > COMMAND_MAX_CHARS then utf16_prefix COMMAND_MAX_CHARS (chars first_line) else first_line) @
             '' '' @ ellipsis)"

fun operation_of :: "AssistantContent \<Rightarrow> OperationOutline \<Rightarrow> OperationOutline" where
  "operation_of (AToolCall call) outline =
    (let name = tc_name call; path = argument_str call ''path''
     in if name \<in> {''read'', ''read_minified''} \<and> path \<noteq> None then record_operation (the path) OpRead outline
        else if name = ''write'' \<and> path \<noteq> None then record_operation (the path) OpWritten outline
        else if name \<in> {''patch'', ''patch_minified'', ''multi_patch_minified'', ''edit''} \<and> path \<noteq> None
        then record_operation (the path) OpPatched outline
        else if name = ''bash'' then
          (case argument_str call ''command'' of
             Some command \<Rightarrow> record_operation (shorten_command command) OpRan outline
           | None \<Rightarrow> outline)
        else outline)"
| "operation_of _ outline = outline"

fun extract_operations_from_message :: "AgentMessage \<Rightarrow> OperationOutline \<Rightarrow> OperationOutline" where
  "extract_operations_from_message (Assistant m) outline = fold operation_of (am_content m) outline"
| "extract_operations_from_message _ outline = outline"

definition format_operation_outline :: "OperationOutline \<Rightarrow> string" where
  "format_operation_outline records =
    (if records = [] then []
     else
       let omitted = length records - OUTLINE_MAX_LINES;
           lines = (if omitted > 0 then [''['' @ show_nat omitted @ '' earlier operations omitted]''] else []) @
                   map (\<lambda>r. op_label (op_operation r) @ '' '' @ op_target r) (drop omitted records)
       in nl2 @ ''<operations>'' @ [newline] @ join [newline] lines @ [newline] @ ''</operations>'')"

subsection \<open>The serialized conversation\<close>

definition TOOL_RESULT_MAX_CHARS :: nat where "TOOL_RESULT_MAX_CHARS = 2000"

definition truncate_for_summary :: "string \<Rightarrow> nat \<Rightarrow> string" where
  "truncate_for_summary s max_chars =
    (if utf16_count s \<le> max_chars then s
     else utf16_prefix max_chars (chars s) @ nl2 @ ''[... '' @ show_nat (utf16_count s - max_chars) @
          '' more characters truncated]'')"

definition call_text :: "(Json \<Rightarrow> string) \<Rightarrow> ToolCall \<Rightarrow> string" where
  "call_text json call =
    tc_name call @ ''('' @ join '', '' (map (\<lambda>(k, v). k @ ''='' @ json v) (arguments call)) @ '')''"

fun thinking_of :: "AssistantContent \<Rightarrow> string option" where
  "thinking_of (AThinking t) = Some (thinking t)"
| "thinking_of _ = None"

fun call_of :: "AssistantContent \<Rightarrow> ToolCall option" where
  "call_of (AToolCall c) = Some c"
| "call_of _ = None"

fun is_text :: "AssistantContent \<Rightarrow> bool" where
  "is_text (AText _) \<longleftrightarrow> True"
| "is_text _ \<longleftrightarrow> False"

fun message_parts :: "(Json \<Rightarrow> string) \<Rightarrow> AgentMessage \<Rightarrow> string list" where
  "message_parts json (User m) =
    (let content = content_text_with (user_content_ref (um_content m)) []
     in if content = [] then [] else [''[User]: '' @ content])"
| "message_parts json (Assistant m) =
    (let thinking_parts = List.map_filter thinking_of (am_content m);
         tool_calls = map (call_text json) (List.map_filter call_of (am_content m))
     in (if thinking_parts = [] then [] else [''[Assistant thinking]: '' @ join [newline] thinking_parts]) @
        (if list_ex is_text (am_content m) then [''[Assistant]: '' @ content_text (RAssistant (am_content m))] else []) @
        (if tool_calls = [] then [] else [''[Assistant tool calls]: '' @ join ''; '' tool_calls]))"
| "message_parts json (ToolResult m) =
    (let content = content_text_with (RUser (trm_content m)) []
     in if content = [] then []
        else [''[Tool result]: '' @ truncate_for_summary content TOOL_RESULT_MAX_CHARS])"
| "message_parts json _ = []"

definition serialize_parts :: "(Json \<Rightarrow> string) \<Rightarrow> AgentMessage list \<Rightarrow> string list" where
  "serialize_parts json messages = concat (map (message_parts json) messages)"

definition serialize_conversation :: "(Json \<Rightarrow> string) \<Rightarrow> AgentMessage list \<Rightarrow> string" where
  "serialize_conversation json messages = join nl2 (serialize_parts json messages)"

record SerializedConversation =
  sc_text :: string
  dropped_messages :: nat
  dropped_tokens :: nat

definition fragment_tokens :: "string \<Rightarrow> nat" where
  "fragment_tokens s = div_ceil4 (utf16_count s)"

text \<open>The loop over the parts: what remains is above the budget, so the oldest part goes.\<close>

fun drop_oldest :: "nat \<Rightarrow> nat \<Rightarrow> nat \<Rightarrow> nat \<Rightarrow> string list \<Rightarrow> SerializedConversation" where
  "drop_oldest budget remaining count dropped [] = \<lparr>sc_text = [], dropped_messages = count, dropped_tokens = dropped\<rparr>"
| "drop_oldest budget remaining count dropped (p # ps) =
    (if remaining > budget
     then drop_oldest budget (remaining - fragment_tokens p) (Suc count) (dropped + fragment_tokens p) ps
     else \<lparr>sc_text = join nl2 (p # ps), dropped_messages = count, dropped_tokens = dropped\<rparr>)"

definition serialize_conversation_within :: "(Json \<Rightarrow> string) \<Rightarrow> AgentMessage list \<Rightarrow> nat \<Rightarrow> SerializedConversation" where
  "serialize_conversation_within json messages budget =
    (let parts = serialize_parts json messages;
         full = sum_list (map fragment_tokens parts)
     in if budget = 0 \<or> full \<le> budget
        then \<lparr>sc_text = join nl2 parts, dropped_messages = 0, dropped_tokens = 0\<rparr>
        else drop_oldest budget full 0 0 parts)"

end
