(* ===== verification/Compaction.thy ===== *)
theory Compaction
  imports Summary_Text
begin

text \<open>
  Compaction (\<open>crates/notagent/src/core/compaction/compaction.rs\<close>) and branch summaries
  (\<open>branch_summarization.rs\<close>): what is decided before the model is asked, the request, and the result.
  The model is a parameter: \<open>respond k prompt max_tokens\<close> is the message that the \<open>k\<close>-th request of the
  operation ends with, after the retries of the stream. The factors 0.8 and 0.9, floating-point in the code, are exact
  fractions here; the two agree for token counts below $2^{49}$.
\<close>

subsection \<open>Tracking operations\<close>

fun as_array :: "Json \<Rightarrow> Json list option" where
  "as_array (JArray vs) = Some vs"
| "as_array _ = None"

definition json_array_of :: "Json \<Rightarrow> string \<Rightarrow> Json list" where
  "json_array_of v k = (case Option.bind (value_get v k) as_array of Some vs \<Rightarrow> vs | None \<Rightarrow> [])"

text \<open>
  The derived serde forms of \<open>Operation\<close> and \<open>OperationRecord\<close>. Reading accepts a unit variant also as an
  object with its name and null, and a struct also as the array of its fields.
\<close>

definition operation_name :: "Operation \<Rightarrow> string" where
  "operation_name operation =
    (case operation of OpRead \<Rightarrow> ''read'' | OpWritten \<Rightarrow> ''written'' | OpPatched \<Rightarrow> ''patched'' | OpRan \<Rightarrow> ''ran'')"

fun operation_de :: "Json \<Rightarrow> Operation option" where
  "operation_de (JString s) = List.find (\<lambda>x. operation_name x = s) [OpRead, OpWritten, OpPatched, OpRan]"
| "operation_de (JObject [(s, JNull)]) = List.find (\<lambda>x. operation_name x = s) [OpRead, OpWritten, OpPatched, OpRan]"
| "operation_de _ = None"

definition record_value :: "OperationRecord \<Rightarrow> Json" where
  "record_value r = JObject [(''target'', JString (op_target r)), (''operation'', JString (operation_name (op_operation r)))]"

definition record_of :: "Json \<Rightarrow> Json \<Rightarrow> OperationRecord option" where
  "record_of target operation =
    Option.bind (as_str target) (\<lambda>t.
      map_option (\<lambda>x. \<lparr>op_target = t, op_operation = x\<rparr>) (operation_de operation))"

fun record_de :: "Json \<Rightarrow> OperationRecord option" where
  "record_de (JObject fs) =
    Option.bind (json_get fs ''target'') (\<lambda>target. Option.bind (json_get fs ''operation'') (record_of target))"
| "record_de (JArray [target, operation]) = record_of target operation"
| "record_de _ = None"

definition record_paths :: "Operation \<Rightarrow> Json list \<Rightarrow> OperationOutline \<Rightarrow> OperationOutline" where
  "record_paths operation paths outline =
    fold (\<lambda>path. record_operation path operation) (List.map_filter as_str paths) outline"

definition carried_operations :: "CompactionEntry \<Rightarrow> OperationOutline" where
  "carried_operations previous =
    (case ce_details previous of
       Some details \<Rightarrow>
         if ce_from_hook previous = Some True then []
         else
           record_paths OpPatched (json_array_of details ''modifiedFiles'')
             (record_paths OpRead (json_array_of details ''readFiles'')
               (extend_from_records (List.map_filter record_de (json_array_of details ''operations'')) []))
     | None \<Rightarrow> [])"

definition extract_operations :: "AgentMessage list \<Rightarrow> SessionEntry option \<Rightarrow> OperationOutline" where
  "extract_operations messages previous =
    fold extract_operations_from_message messages
      (case Option.bind previous as_compaction of Some ce \<Rightarrow> carried_operations ce | None \<Rightarrow> [])"

definition get_last_assistant_usage :: "SessionEnv \<Rightarrow> SessionEntry list \<Rightarrow> Usage option" where
  "get_last_assistant_usage env entries =
    find_map (\<lambda>e.
      if as_message e \<noteq> None then
        (case session_entry_to_context_messages env e of [] \<Rightarrow> None | m # _ \<Rightarrow> assistant_usage m)
      else None) (rev entries)"

subsection \<open>Preparation\<close>

record CompactionPreparation =
  cp_first_kept_entry_id :: string
  messages_to_summarize :: "AgentMessage list"
  cp_retained :: RetainedSelection
  retained_messages :: "AgentMessage list"
  cp_tokens_before :: nat
  outline :: OperationOutline
  settings :: CompactionSettings

definition user_candidates :: "SessionEnv \<Rightarrow> SessionEntry list \<Rightarrow> (string \<times> AgentMessage) list" where
  "user_candidates env entries =
    List.map_filter (\<lambda>e.
      (case session_entry_to_context_messages env e of
         [] \<Rightarrow> None
       | ms \<Rightarrow> if is_user_input (last ms) then Some (entry_id e, last ms) else None)) entries"

definition retained_messages_of :: "(string \<times> AgentMessage) list \<Rightarrow> RetainedSelection \<Rightarrow> AgentMessage list" where
  "retained_messages_of candidates kept =
    concat (map (\<lambda>r.
      (case find (\<lambda>(i, _). i = re_id r) candidates of
         Some (_, message) \<Rightarrow> [apply_retention message r]
       | None \<Rightarrow> []) @
      (if elision_after kept = Some (re_id r) then [elision_message (omitted_tokens kept) 0] else []))
      (rs_entries kept))"

definition first_kept :: "RetainedSelection \<Rightarrow> SessionEntry list \<Rightarrow> string" where
  "first_kept kept context_entries =
    (case oldest_id kept of
       Some i \<Rightarrow> i
     | None \<Rightarrow> (case context_entries of e # _ \<Rightarrow> entry_id e | [] \<Rightarrow> []))"

text \<open>The outer option is \<open>None\<close> when the walk over the entries does not end.\<close>

definition prepare_compaction ::
    "SessionEnv \<Rightarrow> SessionEntry list \<Rightarrow> CompactionSettings \<Rightarrow> CompactionPreparation option option" where
  "prepare_compaction env path_entries sets =
    (if path_entries \<noteq> [] \<and> is_compaction (last path_entries) then Some None
     else
       Option.bind (build_context_entries path_entries Undefined) (\<lambda>context_entries.
       map_option (\<lambda>ctx.
         let messages = ctx_messages ctx;
             candidates = user_candidates env context_entries;
             kept = select_retained (json_text env) candidates (retained_user_tokens sets) RETAINED_HEAD_TOKENS;
             first = first_kept kept context_entries
         in if messages = [] \<or> list_all is_user_input messages \<or> first = [] then None
            else Some \<lparr>cp_first_kept_entry_id = first, messages_to_summarize = messages, cp_retained = kept,
                       retained_messages = retained_messages_of candidates kept,
                       cp_tokens_before = est_tokens (estimate_context_tokens (json_text env) messages),
                       outline = extract_operations messages (find is_compaction (rev path_entries)),
                       settings = sets\<rparr>)
       (build_session_context env path_entries Undefined)))"

subsection \<open>The request\<close>

definition HANDOFF_PROMPT :: string where
  \<open>HANDOFF_PROMPT =
    ''You are about to run out of context. Write a first-person handoff note to yourself so you can continue this task after the earlier conversation is cleared.'' @
    [newline] @
    [newline] @
    ''--- This message is a direct task, not part of the above conversation ---'' @
    [newline] @
    [newline] @
    ''Write the note as your own continuing train of thought: first person, present tense, the way you would reason through the next move. Do not write a third-party report about someone else's work, and do not impose fixed section headings '' @
    em_dash @
    '' let the shape follow the task. Write the note in the same language the conversation has been using; do not switch to English because these instructions are in English.'' @
    [newline] @
    [newline] @
    ''Make the note self-sufficient. The next turn will see the user's own messages and this note, and nothing else: every assistant message, tool call and tool result above will be gone. In your own words, preserve what you genuinely need:'' @
    [newline] @
    [newline] @
    ''- What the current request is asking for: your reading of its intent, and any ambiguity you have already resolved. Do not re-transcribe the request itself, since the user's messages are kept verbatim. If several requests are in play, say which one governs the next move.'' @
    [newline] @
    ''- The instructions and constraints in force '' @
    em_dash @
    '' user preferences, project rules, tooling limits '' @
    em_dash @
    '' condensed to what still matters. Keep decisions you have already settled (what you chose and why) separate from questions still open, so the next turn neither reopens a closed choice nor treats an undecided point as decided.'' @
    [newline] @
    ''- What has actually been done, at high fidelity: the exact commands run, the exact paths touched, whether each succeeded or failed, and the results themselves '' @
    em_dash @
    '' the concrete values, the key lines, the error text, the signature a lookup revealed. Re-running to recover them may be slow or impossible. Keep only the final working version of any code and drop intermediate attempts.'' @
    [newline] @
    ''- What you still do not know: files referenced but not read, schemas assumed but unseen, questions the user has not answered. Name these gaps so the next turn checks them instead of assuming.'' @
    [newline] @
    ''- The forward plan. You hold more context on this task now than you ever will again, so invest here. Give the exact next command or tool call, then the remaining sequence, the decisions already made for those steps, the edge cases you can foresee and how you mean to handle them.'' @
    [newline] @
    [newline] @
    ''Be honest about uncertainty. If an earlier step claimed something was done but never verified it '' @
    em_dash @
    '' tests "passing", a fix "working", a file "created" '' @
    em_dash @
    '' say so plainly and treat it as unverified.'' @
    [newline] @
    [newline] @
    ''Keep the note proportional to the task. A long multi-step task warrants detail; a nearly finished one needs a sentence or two. Include the identifiers and references needed to continue, and omit anything that does not change the next move.'' @
    [newline] @
    [newline] @
    ''Respond with text only. Do not call any tools.''\<close>

record LlmModel =
  context_window :: nat
  model_max_tokens :: nat

type_synonym responder = "nat \<Rightarrow> string \<Rightarrow> nat \<Rightarrow> AssistantMessage"

record GeneratedSummary =
  gs_text :: string
  gs_usage :: Usage
  gs_dropped_tokens :: nat

definition summary_max_tokens :: "LlmModel \<Rightarrow> nat \<Rightarrow> nat" where
  "summary_max_tokens model reserve =
    (let budget = 4 * reserve div 5
     in if model_max_tokens model > 0 then min budget (model_max_tokens model) else budget)"

definition summary_prompt :: "SerializedConversation \<Rightarrow> string option \<Rightarrow> string" where
  "summary_prompt conversation custom_instructions =
    (if dropped_messages conversation > 0
     then ''[The oldest '' @ show_nat (dropped_messages conversation) @
          '' messages of this conversation did not fit and are not shown.]'' @ nl2
     else []) @
    ''<conversation>'' @ [newline] @ sc_text conversation @ [newline] @ ''</conversation>'' @ nl2 @
    HANDOFF_PROMPT @
    (case custom_instructions of
       Some instructions \<Rightarrow> nl2 @ ''Optional instruction from the user:'' @ [newline] @ instructions
     | None \<Rightarrow> [])"

definition generate_summary_with_usage ::
    "SessionEnv \<Rightarrow> responder \<Rightarrow> nat \<Rightarrow> AgentMessage list \<Rightarrow> LlmModel \<Rightarrow> nat \<Rightarrow> nat \<Rightarrow> string option \<Rightarrow>
     string + GeneratedSummary" where
  "generate_summary_with_usage env respond k messages model reserve budget custom_instructions =
    (let conversation = serialize_conversation_within (json_text env) (convert_to_llm messages) budget;
         response = respond k (summary_prompt conversation custom_instructions) (summary_max_tokens model reserve)
     in if stop_reason response = Error then
          Inl (''Summarization failed: '' @
               (case error_message response of Some e \<Rightarrow> e | None \<Rightarrow> ''Unknown error''))
        else if stop_reason response = Aborted then Inl ''Compaction cancelled''
        else if stop_reason response = Length then Inl ''Summarization stopped before the summary was complete''
        else
          let t = content_text (RAssistant (am_content response))
          in if trim t = [] then Inl ''Summarization returned an empty summary''
             else Inr \<lparr>gs_text = t, gs_usage = am_usage response, gs_dropped_tokens = dropped_tokens conversation\<rparr>)"

subsection \<open>Compaction\<close>

record CompactionResult =
  cr_summary :: string
  cr_first_kept_entry_id :: string
  cr_retained :: RetainedSelection
  cr_tokens_before :: nat
  estimated_tokens_after :: "nat option"
  cr_dropped_tokens :: nat
  cr_usage :: "Usage option"
  cr_details :: "Json option"

definition request_budget :: "LlmModel \<Rightarrow> CompactionSettings \<Rightarrow> nat" where
  "request_budget model sets = context_window model - reserve_tokens sets"

text \<open>The summary, with one retry at half the budget; \<open>cancelled\<close> is the token after the first request.\<close>

definition write_summary ::
    "SessionEnv \<Rightarrow> responder \<Rightarrow> bool \<Rightarrow> CompactionPreparation \<Rightarrow> LlmModel \<Rightarrow> string option \<Rightarrow> string + GeneratedSummary" where
  "write_summary env respond cancelled prep model custom_instructions =
    (let budget = request_budget model (settings prep);
         attempt = (\<lambda>k b. generate_summary_with_usage env respond k (messages_to_summarize prep) model
                       (reserve_tokens (settings prep)) b custom_instructions)
     in (case attempt 0 budget of
           Inr summary \<Rightarrow> Inr summary
         | Inl err \<Rightarrow>
             if budget > 0 \<and> err \<noteq> ''Compaction cancelled'' \<and> \<not> cancelled
             then map_err (\<lambda>retry_error. err @ [newline] @ ''Retrying with a smaller request also failed: '' @ retry_error)
                    (attempt 1 (budget div 2))
             else Inl err))"

definition compaction_details :: "OperationOutline \<Rightarrow> Json" where
  "compaction_details records = JObject [(''operations'', JArray (map record_value records))]"

definition compact ::
    "SessionEnv \<Rightarrow> responder \<Rightarrow> bool \<Rightarrow> CompactionPreparation \<Rightarrow> LlmModel \<Rightarrow> string option \<Rightarrow> string + CompactionResult" where
  "compact env respond cancelled prep model custom_instructions =
    (if cp_first_kept_entry_id prep = [] then Inl ''First kept entry has no UUID - session may need migration''
     else
       and_then (write_summary env respond cancelled prep model custom_instructions) (\<lambda>summary.
         let t = gs_text summary @ format_operation_outline (outline prep);
             tokens_after = sum_list (map (estimate_tokens (json_text env)) (retained_messages prep)) +
               estimate_tokens (json_text env)
                 (CompactionSummary (create_compaction_summary_message t (cp_tokens_before prep) None 0))
         in Inr \<lparr>cr_summary = t, cr_first_kept_entry_id = cp_first_kept_entry_id prep, cr_retained = cp_retained prep,
                 cr_tokens_before = cp_tokens_before prep, estimated_tokens_after = Some tokens_after,
                 cr_dropped_tokens = gs_dropped_tokens summary, cr_usage = Some (gs_usage summary),
                 cr_details = Some (compaction_details (outline prep))\<rparr>))"

subsection \<open>Branch summaries\<close>

record CollectEntriesResult =
  cer_entries :: "SessionEntry list"
  common_ancestor_id :: "string option"

text \<open>The loop that collects the entries down to the common ancestor; \<open>None\<close> when it does not end.\<close>

partial_function (option) collect_up ::
    "(string \<Rightarrow> SessionEntry option) \<Rightarrow> string option \<Rightarrow> string option \<Rightarrow> SessionEntry list \<Rightarrow> SessionEntry list option" where
  "collect_up look ancestor current collected =
    (case current of
       None \<Rightarrow> Some collected
     | Some i \<Rightarrow>
         if Some i = ancestor then Some collected
         else (case look i of
                 None \<Rightarrow> Some collected
               | Some e \<Rightarrow> collect_up look ancestor (parent_id e) (e # collected)))"

definition collect_entries_for_branch_summary ::
    "SessionManager \<Rightarrow> string option \<Rightarrow> string \<Rightarrow> CollectEntriesResult option" where
  "collect_entries_for_branch_summary m old_leaf_id target_id =
    (case old_leaf_id of
       None \<Rightarrow> Some \<lparr>cer_entries = [], common_ancestor_id = None\<rparr>
     | Some old \<Rightarrow>
         Option.bind (get_branch m (Some old)) (\<lambda>old_branch.
         Option.bind (get_branch m (Some target_id)) (\<lambda>target_path.
           let ancestor = map_option entry_id
                 (find (\<lambda>e. entry_id e \<in> set (map entry_id old_branch)) (rev target_path))
           in map_option (\<lambda>es. \<lparr>cer_entries = es, common_ancestor_id = ancestor\<rparr>)
                (collect_up (find_entry m) ancestor (Some old) []))))"

definition message_from_entry :: "SessionEnv \<Rightarrow> SessionEntry \<Rightarrow> AgentMessage option" where
  "message_from_entry env e =
    (case session_entry_to_context_messages env e of
       [] \<Rightarrow> None
     | ToolResult _ # _ \<Rightarrow> None
     | m # _ \<Rightarrow> Some m)"

record BranchPreparation =
  bp_messages :: "AgentMessage list"
  bp_file_ops :: FileOperations
  bp_total_tokens :: nat

fun carried_files :: "SessionEntry \<Rightarrow> FileOperations \<Rightarrow> FileOperations" where
  "carried_files (Known _ (EBranchSummary e)) ops =
    (case be_details e of
       Some details \<Rightarrow>
         if be_from_hook e = Some True then ops
         else ops\<lparr>fo_read := fo_read ops \<union> set (List.map_filter as_str (json_array_of details ''readFiles'')),
                  fo_edited := fo_edited ops \<union> set (List.map_filter as_str (json_array_of details ''modifiedFiles''))\<rparr>
     | None \<Rightarrow> ops)"
| "carried_files _ ops = ops"

fun is_summary_entry :: "SessionEntry \<Rightarrow> bool" where
  "is_summary_entry (Known _ (ECompaction _)) \<longleftrightarrow> True"
| "is_summary_entry (Known _ (EBranchSummary _)) \<longleftrightarrow> True"
| "is_summary_entry _ \<longleftrightarrow> False"

text \<open>The loop over the entries, newest first.\<close>

fun take_entries :: "SessionEnv \<Rightarrow> nat \<Rightarrow> SessionEntry list \<Rightarrow> BranchPreparation \<Rightarrow> BranchPreparation" where
  "take_entries env budget [] prep = prep"
| "take_entries env budget (e # es) prep =
    (case message_from_entry env e of
       None \<Rightarrow> take_entries env budget es prep
     | Some message \<Rightarrow>
         let prep1 = prep\<lparr>bp_file_ops := extract_file_ops_from_message message (bp_file_ops prep)\<rparr>;
             tokens = estimate_tokens (json_text env) message;
             prep2 = prep1\<lparr>bp_messages := message # bp_messages prep, bp_total_tokens := bp_total_tokens prep + tokens\<rparr>
         in if budget > 0 \<and> bp_total_tokens prep + tokens > budget
            then (if is_summary_entry e \<and> 10 * bp_total_tokens prep < 9 * budget then prep2 else prep1)
            else take_entries env budget es prep2)"

definition prepare_branch_entries :: "SessionEnv \<Rightarrow> SessionEntry list \<Rightarrow> nat \<Rightarrow> BranchPreparation" where
  "prepare_branch_entries env entries budget =
    take_entries env budget (rev entries)
      \<lparr>bp_messages = [], bp_file_ops = fold carried_files entries create_file_ops, bp_total_tokens = 0\<rparr>"

definition BRANCH_SUMMARY_PREAMBLE :: string where
  "BRANCH_SUMMARY_PREAMBLE =
    ''The user explored a different conversation branch before returning here.'' @ [newline] @
    ''Summary of that exploration:'' @ nl2"

definition BRANCH_SUMMARY_PROMPT :: string where
  \<open>BRANCH_SUMMARY_PROMPT =
    ''Create a structured summary of this conversation branch for context when returning later.'' @
    [newline] @
    [newline] @
    ''Use this EXACT format:'' @
    [newline] @
    [newline] @
    ''## Goal'' @
    [newline] @
    ''[What was the user trying to accomplish in this branch?]'' @
    [newline] @
    [newline] @
    ''## Constraints & Preferences'' @
    [newline] @
    ''- [Any constraints, preferences, or requirements mentioned]'' @
    [newline] @
    ''- [Or "(none)" if none were mentioned]'' @
    [newline] @
    [newline] @
    ''## Progress'' @
    [newline] @
    ''### Done'' @
    [newline] @
    ''- [x] [Completed tasks/changes]'' @
    [newline] @
    [newline] @
    ''### In Progress'' @
    [newline] @
    ''- [ ] [Work that was started but not finished]'' @
    [newline] @
    [newline] @
    ''### Blocked'' @
    [newline] @
    ''- [Issues preventing progress, if any]'' @
    [newline] @
    [newline] @
    ''## Key Decisions'' @
    [newline] @
    ''- **[Decision]**: [Brief rationale]'' @
    [newline] @
    [newline] @
    ''## Next Steps'' @
    [newline] @
    ''1. [What should happen next to continue this work]'' @
    [newline] @
    [newline] @
    ''Keep each section concise. Preserve exact file paths, function names, and error messages.''\<close>

record BranchSummaryResult =
  bsr_summary :: "string option"
  bsr_usage :: "Usage option"
  bsr_read_files :: "string list option"
  bsr_modified_files :: "string list option"
  bsr_aborted :: bool
  bsr_error :: "string option"

definition default_branch_summary :: BranchSummaryResult where
  "default_branch_summary =
    \<lparr>bsr_summary = None, bsr_usage = None, bsr_read_files = None, bsr_modified_files = None, bsr_aborted = False,
     bsr_error = None\<rparr>"

definition branch_instructions :: "bool \<Rightarrow> string option \<Rightarrow> string" where
  "branch_instructions replace_instructions custom =
    (case custom of
       None \<Rightarrow> BRANCH_SUMMARY_PROMPT
     | Some c \<Rightarrow>
         if replace_instructions then c
         else BRANCH_SUMMARY_PROMPT @ nl2 @ ''Additional focus: '' @ c)"

definition branch_budget :: "LlmModel \<Rightarrow> nat option \<Rightarrow> nat" where
  "branch_budget model reserve =
    (if context_window model > 0 then context_window model else 128000) -
    (case reserve of Some n \<Rightarrow> n | None \<Rightarrow> 16384)"

definition generate_branch_summary ::
    "SessionEnv \<Rightarrow> responder \<Rightarrow> SessionEntry list \<Rightarrow> LlmModel \<Rightarrow> nat option \<Rightarrow> bool \<Rightarrow> string option \<Rightarrow> BranchSummaryResult" where
  "generate_branch_summary env respond entries model reserve replace_instructions custom =
    (let prep = prepare_branch_entries env entries (branch_budget model reserve)
     in if bp_messages prep = [] then default_branch_summary\<lparr>bsr_summary := Some ''No content to summarize''\<rparr>
        else
          let conversation = serialize_conversation (json_text env) (convert_to_llm (bp_messages prep));
              prompt = ''<conversation>'' @ [newline] @ conversation @ [newline] @ ''</conversation>'' @ nl2 @
                branch_instructions replace_instructions custom;
              response = respond 0 prompt 2048
          in if stop_reason response = Aborted then default_branch_summary\<lparr>bsr_aborted := True\<rparr>
             else if stop_reason response = Error then
               default_branch_summary\<lparr>bsr_error :=
                 Some (case error_message response of Some e \<Rightarrow> e | None \<Rightarrow> ''Summarization failed'')\<rparr>
             else
               let (read_files, modified_files) = compute_file_lists (bp_file_ops prep)
               in \<lparr>bsr_summary = Some (BRANCH_SUMMARY_PREAMBLE @ content_text (RAssistant (am_content response)) @
                                         format_file_operations read_files modified_files),
                   bsr_usage = Some (am_usage response), bsr_read_files = Some read_files,
                   bsr_modified_files = Some modified_files, bsr_aborted = False, bsr_error = None\<rparr>)"

end
