(* ===== verification/Session_Compaction.thy ===== *)
theory Session_Compaction
  imports Compaction
begin

text \<open>
  How a session compacts itself and moves in its tree (\<open>crates/notagent/src/core/agent_session.rs\<close>): the
  shared body of the manual and the automatic compaction, the decision after a response, and the
  navigation to another entry with a summary of the branch left behind. Overflow is recognized as in
  \<open>crates/notagent-ai/src/utils/overflow.rs\<close>, with the two sets of regular expressions as parameters.
\<close>

subsection \<open>Recognizing an overflow\<close>

record OverflowPatterns =
  overflow_match :: "string \<Rightarrow> bool"
  non_overflow_match :: "string \<Rightarrow> bool"

definition is_context_overflow :: "OverflowPatterns \<Rightarrow> AssistantMessage \<Rightarrow> nat option \<Rightarrow> bool" where
  "is_context_overflow pats m window =
    (let input_tokens = wrap_u64 (us_input (am_usage m) + cache_read (am_usage m)) in
     (stop_reason m = Error \<and>
        (case error_message m of
           Some e \<Rightarrow> e \<noteq> [] \<and> \<not> non_overflow_match pats e \<and> overflow_match pats e
         | None \<Rightarrow> False)) \<or>
     (case window of
        Some w \<Rightarrow>
          w \<noteq> 0 \<and>
          ((stop_reason m = Stop \<and> input_tokens > w) \<or>
           (stop_reason m = Length \<and> us_output (am_usage m) = 0 \<and> 100 * input_tokens \<ge> 99 * w))
      | None \<Rightarrow> False))"

definition is_recoverable_length :: "AssistantMessage \<Rightarrow> nat \<Rightarrow> bool" where
  "is_recoverable_length m desired \<longleftrightarrow>
    stop_reason m = Length \<and> desired > 0 \<and> us_output (am_usage m) < desired"

subsection \<open>Running a compaction\<close>

datatype CompactionReason = Manual | Threshold | Overflow

datatype CompactionFailure = Failed string | NotPersisted SessionManagerError

text \<open>
  What a compaction meets outside the session: the model it asks with its credentials (or why there is
  none), the model's answers, and whether the cancellation token is set before the retry, after the
  requests and after the compaction was applied.
\<close>

record Attempt =
  request_model :: "string + LlmModel"
  answers :: responder
  cancelled_early :: bool
  cancelled_late :: bool
  cancelled_after :: bool

definition i64_of_u64 :: "nat \<Rightarrow> int" where
  "i64_of_u64 n = wrap_i64 (int n)"

definition result_entry :: "CompactionResult \<Rightarrow> CompactionEntry" where
  "result_entry r =
    \<lparr>ce_summary = cr_summary r, first_kept_entry_id = cr_first_kept_entry_id r, retained = Some (cr_retained r),
     tokens_before = i64_of_u64 (cr_tokens_before r),
     tokens_after = map_option i64_of_u64 (estimated_tokens_after r), ce_details = cr_details r,
     ce_usage = cr_usage r, ce_from_hook = None\<rparr>"

definition estimate_messages_tokens :: "SessionEnv \<Rightarrow> AgentMessage list \<Rightarrow> nat" where
  "estimate_messages_tokens env messages = sum_list (map (estimate_tokens (json_text env)) messages)"

text \<open>
  The result, the messages the agent continues with, the manager and the disk; \<open>None\<close> when a walk over the
  entries does not end.
\<close>

definition run_compaction ::
    "SessionEnv \<Rightarrow> Call \<Rightarrow> Attempt \<Rightarrow> CompactionSettings \<Rightarrow> string option \<Rightarrow> SessionManager \<Rightarrow> Disk \<Rightarrow>
     ((CompactionFailure + CompactionResult \<times> AgentMessage list) \<times> SessionManager \<times> Disk) option" where
  "run_compaction env c att sets custom m disk =
    (case request_model att of
       Inl err \<Rightarrow> Some (Inl (Failed err), m, disk)
     | Inr model \<Rightarrow>
         Option.bind (get_branch m None) (\<lambda>path.
         Option.bind (prepare_compaction env path sets) (\<lambda>preparation.
           case preparation of
             None \<Rightarrow>
               Some (Inl (Failed (if path \<noteq> [] \<and> is_compaction (last path) then ''Already compacted''
                                  else ''Nothing to compact (session too small)'')), m, disk)
           | Some prep \<Rightarrow>
               (case compact env (answers att) (cancelled_early att) prep model custom of
                  Inl err \<Rightarrow> Some (Inl (Failed err), m, disk)
                | Inr result \<Rightarrow>
                    if cancelled_late att then Some (Inl (Failed ''Compaction cancelled''), m, disk)
                    else
                      (case append_compaction env c (result_entry result) m disk of
                         (Inl err, m', disk') \<Rightarrow> Some (Inl (NotPersisted err), m', disk')
                       | (Inr _, m', disk') \<Rightarrow>
                           map_option (\<lambda>ctx.
                             (Inr (result\<lparr>estimated_tokens_after := Some (estimate_messages_tokens env (ctx_messages ctx))\<rparr>,
                                   ctx_messages ctx), m', disk'))
                             (manager_session_context env m' disk'))))))"

subsection \<open>Deciding\<close>

text \<open>
  The part of a session that the decision reads and writes: the agent's messages, the flag of the overflow
  recovery, and the manager with the disk.
\<close>

record Compacting =
  agent_messages :: "AgentMessage list"
  overflow_recovery_attempted :: bool
  manager :: SessionManager
  disk_of :: Disk

definition drop_trailing_assistant_message :: "StopReason set option \<Rightarrow> AgentMessage list \<Rightarrow> AgentMessage list" where
  "drop_trailing_assistant_message reasons messages =
    (if messages \<noteq> [] \<and>
        (case last messages of
           Assistant a \<Rightarrow> (case reasons of None \<Rightarrow> True | Some rs \<Rightarrow> stop_reason a \<in> rs)
         | _ \<Rightarrow> False)
     then butlast messages else messages)"

text \<open>Whether the run is to be continued; \<open>queued\<close> tells whether messages wait.\<close>

definition run_auto_compaction ::
    "SessionEnv \<Rightarrow> Call \<Rightarrow> Attempt \<Rightarrow> CompactionSettings \<Rightarrow> bool \<Rightarrow> bool \<Rightarrow> Compacting \<Rightarrow> (bool \<times> Compacting) option" where
  "run_auto_compaction env c att sets queued will_retry s =
    Option.bind (get_branch (manager s) None) (\<lambda>path.
    Option.bind (prepare_compaction env path sets) (\<lambda>preparation.
      if preparation = None then Some (False, s)
      else
        map_option (\<lambda>(outcome, m', disk').
          let s1 = s\<lparr>manager := m', disk_of := disk'\<rparr>
          in (case outcome of
                Inl _ \<Rightarrow> (False, s1)
              | Inr (_, messages) \<Rightarrow>
                  let s2 = s1\<lparr>agent_messages := messages\<rparr>
                  in if cancelled_after att then (False, s2)
                     else if will_retry
                     then (True, s2\<lparr>agent_messages := drop_trailing_assistant_message (Some {Error, Length}) messages\<rparr>)
                     else (queued, s2)))
          (run_compaction env c att sets None (manager s) (disk_of s))))"

text \<open>The timestamp of the newest compaction on the branch.\<close>

definition compaction_time :: "SessionEnv \<Rightarrow> SessionEntry list \<Rightarrow> int option" where
  "compaction_time env path =
    map_option (\<lambda>e. time_or_0 env (timestamp e)) (find is_compaction (rev path))"

definition is_stale :: "SessionEnv \<Rightarrow> SessionEntry list \<Rightarrow> AssistantMessage \<Rightarrow> bool" where
  "is_stale env path m \<longleftrightarrow> (\<exists>t \<in> set_option (compaction_time env path). am_timestamp m \<le> t)"

text \<open>The tokens the threshold is compared with; \<open>None\<close> when there is no usage to go by.\<close>

definition threshold_tokens ::
    "SessionEnv \<Rightarrow> SessionEntry list \<Rightarrow> AgentMessage list \<Rightarrow> AssistantMessage \<Rightarrow> nat option" where
  "threshold_tokens env path messages m =
    (let direct = calculate_context_tokens (am_usage m)
     in if stop_reason m = Error \<or> direct = 0 then
          let estimate = estimate_context_tokens (json_text env) messages
          in (case last_usage_index estimate of
                None \<Rightarrow> None
              | Some i \<Rightarrow>
                  (case (if i < length messages then Some (messages ! i) else None) of
                     Some (Assistant u) \<Rightarrow> if is_stale env path u then None else Some (est_tokens estimate)
                   | _ \<Rightarrow> Some (est_tokens estimate)))
        else Some direct)"

text \<open>
  \<open>check_compaction\<close>: \<open>same_model\<close> tells whether the message came from the session's model, \<open>live\<close> is that
  model as the catalog knows it, \<open>has_model\<close> whether one is selected.
\<close>

definition check_compaction ::
    "SessionEnv \<Rightarrow> OverflowPatterns \<Rightarrow> Call \<Rightarrow> Attempt \<Rightarrow> CompactionSettings \<Rightarrow> LlmModel option \<Rightarrow> bool \<Rightarrow> bool \<Rightarrow>
     AssistantMessage \<Rightarrow> bool \<Rightarrow> Compacting \<Rightarrow> (bool \<times> Compacting) option" where
  "check_compaction env pats c att sets live same_model queued m skip_aborted_check s =
    (if \<not> enabled sets then Some (False, s)
     else if skip_aborted_check \<and> stop_reason m = Aborted then Some (False, s)
     else
       Option.bind (get_branch (manager s) None) (\<lambda>path.
         let window = (case live of Some l \<Rightarrow> context_window l | None \<Rightarrow> 0);
             auto = (\<lambda>will_retry s'. if live = None then Some (False, s')
                       else run_auto_compaction env c att sets queued will_retry s')
         in if is_stale env path m then Some (False, s)
            else if same_model \<and>
                 (is_context_overflow pats m (Some window) \<or>
                  is_recoverable_length m (case live of Some l \<Rightarrow> model_max_tokens l | None \<Rightarrow> 0))
            then (if stop_reason m = Stop then auto False s
                  else if overflow_recovery_attempted s then Some (False, s)
                  else auto True (s\<lparr>overflow_recovery_attempted := True,
                                   agent_messages := drop_trailing_assistant_message None (agent_messages s)\<rparr>))
            else
              (case threshold_tokens env path (agent_messages s) m of
                 None \<Rightarrow> Some (False, s)
               | Some n \<Rightarrow> if should_compact n window sets then auto False s else Some (False, s))))"

subsection \<open>Moving in the tree\<close>

record NavigateTreeOptions =
  nt_summarize :: bool
  nt_custom_instructions :: "string option"
  nt_replace_instructions :: bool
  nt_label :: "string option"

record NavigateTreeResult =
  nt_editor_text :: "string option"
  nt_cancelled :: bool
  nt_aborted :: bool
  nt_summary_entry :: "BranchSummaryEntry option"

definition default_navigate_result :: NavigateTreeResult where
  "default_navigate_result = \<lparr>nt_editor_text = None, nt_cancelled = False, nt_aborted = False, nt_summary_entry = None\<rparr>"

fun json_content_text :: "Json \<Rightarrow> string" where
  "json_content_text (JString t) = t"
| "json_content_text (JArray blocks) =
    concat (List.map_filter (\<lambda>b. get_str b ''text'') (filter (\<lambda>b. get_str b ''type'' = Some ''text'') blocks))"
| "json_content_text _ = []"

text \<open>Where the leaf lands, and the text that goes back into the editor.\<close>

fun landing :: "string \<Rightarrow> SessionEntry \<Rightarrow> string option \<times> string option" where
  "landing target_id (Known h (EMessage v)) =
    (if get_str v ''role'' = Some ''user''
     then (eh_parent_id h, Some (case value_get v ''content'' of Some content \<Rightarrow> json_content_text content | None \<Rightarrow> []))
     else (Some target_id, None))"
| "landing target_id (Known h (ECustomMessage e)) = (eh_parent_id h, Some (json_content_text (cme_content e)))"
| "landing target_id _ = (Some target_id, None)"

definition summary_details :: "BranchSummaryResult \<Rightarrow> Json" where
  "summary_details r =
    JObject [(''readFiles'', JArray (map JString (case bsr_read_files r of Some fs \<Rightarrow> fs | None \<Rightarrow> []))),
             (''modifiedFiles'', JArray (map JString (case bsr_modified_files r of Some fs \<Rightarrow> fs | None \<Rightarrow> [])))]"

text \<open>
  The moves of the leaf and the entries written, \<open>c1\<close> for the summary and \<open>c2\<close> for the label. A label that
  cannot be written is dropped; a summary that cannot be written ends the navigation.
\<close>

fun as_branch_summary :: "SessionEntry \<Rightarrow> BranchSummaryEntry option" where
  "as_branch_summary (Known _ (EBranchSummary e)) = Some e"
| "as_branch_summary _ = None"

definition move_leaf ::
    "SessionEnv \<Rightarrow> Call \<Rightarrow> Call \<Rightarrow> string \<Rightarrow> string option \<Rightarrow> (string \<times> Json \<times> Usage option) option \<Rightarrow> string option \<Rightarrow>
     SessionManager \<Rightarrow> Disk \<Rightarrow> (SessionManagerError + BranchSummaryEntry option) \<times> SessionManager \<times> Disk" where
  "move_leaf env c1 c2 target_id new_leaf summary label m disk =
    (case summary of
       Some (t, details, usage) \<Rightarrow>
         (case branch_with_summary env c1 new_leaf t (Some details) None usage m disk of
            (Inl err, m1, disk1) \<Rightarrow> (Inl err, m1, disk1)
          | (Inr i, m1, disk1) \<Rightarrow>
              let entry = Option.bind (find_entry m1 i) as_branch_summary
              in (case label of
                    None \<Rightarrow> (Inr entry, m1, disk1)
                  | Some l \<Rightarrow> (Inr entry, snd (append_label_change env c2 i (Some l) m1 disk1))))
     | None \<Rightarrow>
         let (r, m1) = (case new_leaf of Some leaf \<Rightarrow> branch leaf m | None \<Rightarrow> (Inr (), reset_leaf m))
         in (case r of
               Inl err \<Rightarrow> (Inl err, m1, disk)
             | Inr _ \<Rightarrow>
                 (case label of
                    None \<Rightarrow> (Inr None, m1, disk)
                  | Some l \<Rightarrow> (Inr None, snd (append_label_change env c2 target_id (Some l) m1 disk)))))"

datatype NavigateError = NavigateFailed string | NavigateManager SessionManagerError

definition navigate_tree ::
    "SessionEnv \<Rightarrow> Call \<Rightarrow> Call \<Rightarrow> bool \<Rightarrow> bool \<Rightarrow> (string + LlmModel) \<Rightarrow> responder \<Rightarrow> nat \<Rightarrow> string \<Rightarrow> NavigateTreeOptions \<Rightarrow>
     SessionManager \<Rightarrow> Disk \<Rightarrow>
     ((NavigateError + NavigateTreeResult \<times> AgentMessage list option) \<times> SessionManager \<times> Disk) option" where
  "navigate_tree env c1 c2 streaming has_model request respond reserve target_id opts m disk =
    (if streaming then
       Some (Inl (NavigateFailed ''Wait for the current response to finish before navigating the session tree.''), m, disk)
     else if Some target_id = leaf_id m then Some (Inr (default_navigate_result, None), m, disk)
     else if nt_summarize opts \<and> \<not> has_model then
       Some (Inl (NavigateFailed ''No model available for summarization''), m, disk)
     else
       (case find_entry m target_id of
          None \<Rightarrow> Some (Inl (NavigateFailed (''Entry '' @ target_id @ '' not found'')), m, disk)
        | Some target \<Rightarrow>
            Option.bind (collect_entries_for_branch_summary m (leaf_id m) target_id) (\<lambda>collected.
              let entries = cer_entries collected;
                  (new_leaf, editor_text) = landing target_id target;
                  finish = (\<lambda>summary.
                    (case move_leaf env c1 c2 target_id new_leaf summary (nt_label opts) m disk of
                       (Inl err, m1, disk1) \<Rightarrow> Some (Inl (NavigateManager err), m1, disk1)
                     | (Inr entry, m1, disk1) \<Rightarrow>
                         map_option (\<lambda>ctx.
                           (Inr (\<lparr>nt_editor_text = editor_text, nt_cancelled = False, nt_aborted = False,
                                  nt_summary_entry = entry\<rparr>, Some (ctx_messages ctx)), m1, disk1))
                           (manager_session_context env m1 disk1)))
              in if nt_summarize opts \<and> entries \<noteq> [] then
                   (case request of
                      Inl err \<Rightarrow> Some (Inl (NavigateFailed err), m, disk)
                    | Inr model \<Rightarrow>
                        let r = generate_branch_summary env respond entries model (Some reserve)
                                  (nt_replace_instructions opts) (nt_custom_instructions opts)
                        in if bsr_aborted r
                           then Some (Inr (default_navigate_result\<lparr>nt_cancelled := True, nt_aborted := True\<rparr>, None), m, disk)
                           else
                             (case bsr_error r of
                                Some err \<Rightarrow> Some (Inl (NavigateFailed err), m, disk)
                              | None \<Rightarrow> finish (map_option (\<lambda>t. (t, summary_details r, bsr_usage r)) (bsr_summary r))))
                 else finish None)))"

end
