(* ===== verification/Retention_Proofs.thy ===== *)
theory Retention_Proofs
  imports Retention
begin

text \<open>
  What the selection of \<open>Retention\<close> keeps: a head and a tail of the candidates in their order, within
  the budget, with cuts that keep the beginning of the last head message and the end of the first tail
  message.
\<close>

subsection \<open>Cuts\<close>

lemma fitting_take: "fitting budget used chs = take (length (fitting budget used chs)) chs"
  by (induction chs arbitrary: used) simp_all

lemma fitting_units: "used \<le> budget \<Longrightarrow> used + utf16_units (fitting budget used chs) \<le> budget"
proof (induction chs arbitrary: used)
  case (Cons ch chs)
  then show ?case using Cons.IH[of "used + char_width ch"] by (auto simp: not_less algebra_simps)
qed simp

lemma fitting_nonempty: "2 \<le> budget \<Longrightarrow> chs \<noteq> [] \<Longrightarrow> fitting budget 0 chs \<noteq> []"
  by (cases chs) (use char_width_bounds(2) in \<open>auto simp: not_less intro: order_trans\<close>)

lemma keep_prefix_take: "\<exists>k. keep_prefix s n = concat (take k (chars s))"
  unfolding keep_prefix_def by (metis fitting_take)

lemma keep_suffix_drop: "\<exists>k. keep_suffix s n = concat (drop k (chars s))"
  unfolding keep_suffix_def by (metis fitting_take rev_take rev_rev_ident)

lemma saturating_mul4_le: "saturating_mul4 n \<le> 4 * n"
  by (simp add: saturating_mul4_def)

lemma keep_prefix_count: "utf16_count (keep_prefix s n) \<le> 4 * n"
proof -
  have "whole_chars (fitting (saturating_mul4 n) 0 (chars s))"
    by (subst fitting_take) (rule whole_take)
  then show ?thesis
    using fitting_units[of 0 "saturating_mul4 n" "chars s"] saturating_mul4_le[of n]
    by (simp add: keep_prefix_def utf16_count_concat)
qed

lemma keep_suffix_count: "utf16_count (keep_suffix s n) \<le> 4 * n"
proof -
  let ?f = "fitting (saturating_mul4 n) 0 (rev (chars s))"
  have "rev ?f = drop (length (chars s) - length ?f) (chars s)"
    using arg_cong[OF fitting_take[of "saturating_mul4 n" 0 "rev (chars s)"], of rev] by (simp add: rev_take)
  then have "whole_chars (rev ?f)" by (simp add: whole_drop)
  then show ?thesis
    using fitting_units[of 0 "saturating_mul4 n" "rev (chars s)"] saturating_mul4_le[of n]
    by (simp add: keep_suffix_def utf16_count_concat)
qed

lemma keep_prefix_prefix: "\<exists>rest. s = keep_prefix s n @ rest"
proof -
  obtain k where "keep_prefix s n = concat (take k (chars s))" using keep_prefix_take by blast
  then have "s = keep_prefix s n @ concat (drop k (chars s))" by (simp flip: concat_append)
  then show ?thesis ..
qed

lemma keep_suffix_suffix: "\<exists>front. s = front @ keep_suffix s n"
proof -
  obtain k where "keep_suffix s n = concat (drop k (chars s))" using keep_suffix_drop by blast
  then have "s = concat (take k (chars s)) @ keep_suffix s n" by (simp flip: concat_append)
  then show ?thesis ..
qed

lemma chars_nonempty: "\<forall>ch\<in>set (chars s). ch \<noteq> []"
  by (induction s rule: chars.induct) simp_all

lemma chars_eq_Nil_iff [simp]: "chars s = [] \<longleftrightarrow> s = []"
  by (cases s) simp_all

lemma keep_suffix_nonempty: "0 < n \<Longrightarrow> s \<noteq> [] \<Longrightarrow> keep_suffix s n \<noteq> []"
proof -
  assume a: "0 < n" "s \<noteq> []"
  have "2 \<le> saturating_mul4 n" using a(1) by (simp add: saturating_mul4_def U64_MAX_def)
  then have ne: "fitting (saturating_mul4 n) 0 (rev (chars s)) \<noteq> []" (is "?f \<noteq> []")
    using a(2) by (intro fitting_nonempty) simp_all
  have "set ?f \<subseteq> set (chars s)" by (subst fitting_take) (metis set_rev set_take_subset)
  then show ?thesis using ne chars_nonempty[of s] by (cases ?f) (auto simp: keep_suffix_def)
qed

text \<open>What a note adds to a message that was cut.\<close>

lemma note_counts:
  "utf16_count ([newline] @ TRUNCATION_NOTE_TAIL) = 51" "utf16_count (TRUNCATION_NOTE @ [newline]) = 59"
  by code_simp+

lemma estimate_user_text: "estimate_tokens json (user_text t time) = div_ceil4 (utf16_count t)"
  by (simp add: estimate_tokens_def user_text_def TextContent_new_def)

lemma div_ceil4_note: "m \<le> 4 * n \<Longrightarrow> div_ceil4 (m + k) \<le> n + div_ceil4 k"
  by (simp add: div_ceil4_def)

lemma apply_retention_whole [simp]: "apply_retention m (whole i) = m"
  by (simp add: apply_retention_def whole_def)

lemma estimate_cut_prefix:
  assumes "truncatable_text m \<noteq> None"
  shows "estimate_tokens json (apply_retention m (cut_prefix i n)) \<le> n + 13"
proof -
  obtain t u where t: "truncatable_text m = Some t" "m = User u"
    using assms by (cases m) (auto simp: truncatable_text_def)
  have "utf16_count (keep_prefix t n @ [newline] @ TRUNCATION_NOTE_TAIL) \<le> utf16_count (keep_prefix t n) + 51"
    using utf16_count_append_le[of "keep_prefix t n" "[newline] @ TRUNCATION_NOTE_TAIL"] note_counts(1) by simp
  then have "div_ceil4 (utf16_count (keep_prefix t n @ [newline] @ TRUNCATION_NOTE_TAIL)) \<le> n + div_ceil4 51"
    using div_ceil4_note[OF keep_prefix_count[of t n], of 51] div_ceil4_mono order_trans by blast
  then show ?thesis
    using t by (simp add: apply_retention_def cut_prefix_def estimate_user_text div_ceil4_def)
qed

lemma estimate_cut_suffix:
  assumes "truncatable_text m \<noteq> None"
  shows "estimate_tokens json (apply_retention m (cut_suffix i n)) \<le> n + 15"
proof -
  obtain t u where t: "truncatable_text m = Some t" "m = User u"
    using assms by (cases m) (auto simp: truncatable_text_def)
  have "utf16_count (TRUNCATION_NOTE @ [newline] @ keep_suffix t n) \<le> utf16_count (keep_suffix t n) + 59"
    using utf16_count_append_le[of "TRUNCATION_NOTE @ [newline]" "keep_suffix t n"] note_counts(2) by simp
  then have "div_ceil4 (utf16_count (TRUNCATION_NOTE @ [newline] @ keep_suffix t n)) \<le> n + div_ceil4 59"
    using div_ceil4_note[OF keep_suffix_count[of t n], of 59] div_ceil4_mono order_trans by blast
  then show ?thesis
    using t by (simp add: apply_retention_def cut_suffix_def estimate_user_text div_ceil4_def)
qed

subsection \<open>Filling a budget\<close>

lemma retained_simps [simp]:
  "re_id (whole i) = i" "re_id (cut_prefix i n) = i" "re_id (cut_suffix i n) = i"
  by (simp_all add: whole_def cut_prefix_def cut_suffix_def)

lemma kept_cut [simp]: "kept_tokens json cs (cut_prefix i n) = n" "kept_tokens json cs (cut_suffix i n) = n"
  by (simp_all add: kept_tokens_def cut_prefix_def cut_suffix_def)

lemma find_candidate:
  assumes "distinct (map fst cs)" and "(i, m) \<in> set cs"
  shows "find (\<lambda>(j, _). j = i) cs = Some (i, m)"
  using assms by (induction cs) (auto simp: rev_image_eqI)

lemma kept_whole:
  assumes "distinct (map fst cs)" and "(i, m) \<in> set cs"
  shows "kept_tokens json cs (whole i) = estimate_tokens json m"
  using find_candidate[OF assms] by (simp add: kept_tokens_def whole_def)

text \<open>The message that a retained entry becomes in the context.\<close>

definition rebuilt :: "(string \<times> AgentMessage) list \<Rightarrow> RetainedEntry \<Rightarrow> AgentMessage option" where
  "rebuilt candidates e =
    map_option (\<lambda>(_, message). apply_retention message e) (find (\<lambda>(i, _). i = re_id e) candidates)"

definition rebuilt_tokens :: "(Json \<Rightarrow> string) \<Rightarrow> (string \<times> AgentMessage) list \<Rightarrow> RetainedEntry \<Rightarrow> nat" where
  "rebuilt_tokens json candidates e =
    (case rebuilt candidates e of Some m \<Rightarrow> estimate_tokens json m | None \<Rightarrow> 0)"

lemma fill_ids:
  assumes "\<And>i n. re_id (cutter i n) = i"
  shows "map re_id (fill json cutter r cs) = take (length (fill json cutter r cs)) (map fst cs)"
  using assms by (induction json cutter r cs rule: fill.induct) auto

lemma fill_sum:
  assumes "distinct (map fst cands)" and "\<And>i n. kept_tokens json cands (cutter i n) = n"
    and "set cs \<subseteq> set cands"
  shows "sum_list (map (kept_tokens json cands) (fill json cutter r cs)) \<le> r"
  using assms(3)
proof (induction cs arbitrary: r)
  case (Cons c cs)
  obtain i m where c: "c = (i, m)" by fastforce
  have "kept_tokens json cands (whole i) = estimate_tokens json m"
    using kept_whole[OF assms(1)] Cons.prems c by auto
  with Cons.IH[of "r - estimate_tokens json m"] Cons.prems c show ?case by (auto simp: assms(2))
qed simp

lemma fill_rebuilt:
  assumes d: "distinct (map fst cands)"
    and cut: "\<And>i n m. truncatable_text m \<noteq> None \<Longrightarrow> estimate_tokens json (apply_retention m (cutter i n)) \<le> n + k"
    and ids: "\<And>i n. re_id (cutter i n) = i" and "set cs \<subseteq> set cands"
  shows "sum_list (map (rebuilt_tokens json cands) (fill json cutter r cs)) \<le> r + k"
  using assms(4)
proof (induction cs arbitrary: r)
  case (Cons c cs)
  obtain i m where c: "c = (i, m)" by fastforce
  have f: "find (\<lambda>(j, _). j = i) cands = Some (i, m)"
    using find_candidate[OF d] Cons.prems c by auto
  then have "rebuilt_tokens json cands (whole i) = estimate_tokens json m"
    by (simp add: rebuilt_tokens_def rebuilt_def)
  moreover have "truncatable_text m \<noteq> None \<Longrightarrow> rebuilt_tokens json cands (cutter i r) \<le> r + k"
    using cut[of m i r] f by (simp add: rebuilt_tokens_def rebuilt_def ids)
  ultimately show ?case
    using Cons.IH[of "r - estimate_tokens json m"] Cons.prems c by auto
qed simp

lemma fill_nonempty:
  "0 < r \<Longrightarrow> truncatable_text m \<noteq> None \<Longrightarrow> fill json cutter r ((i, m) # cs) \<noteq> []"
  by simp

lemma fill_length: "length (fill json cutter r cs) \<le> length cs"
  by (induction json cutter r cs rule: fill.induct) auto

subsection \<open>The selection\<close>

abbreviation total_tokens_of :: "(Json \<Rightarrow> string) \<Rightarrow> (string \<times> AgentMessage) list \<Rightarrow> nat" where
  "total_tokens_of json cs \<equiv> sum_list (map (\<lambda>(_, message). estimate_tokens json message) cs)"

lemma kept_all_whole:
  assumes "distinct (map fst cands)" and "set cs \<subseteq> set cands"
  shows "sum_list (map (kept_tokens json cands) (map (\<lambda>(i, _). whole i) cs)) = total_tokens_of json cs"
    "sum_list (map (rebuilt_tokens json cands) (map (\<lambda>(i, _). whole i) cs)) = total_tokens_of json cs"
  using assms(2) find_candidate[OF assms(1)] kept_whole[OF assms(1)]
  by (induction cs) (auto simp: rebuilt_tokens_def rebuilt_def)

text \<open>The selection past the case in which everything fits.\<close>

lemma select_retained_parts:
  assumes "\<not> total_tokens_of json cands \<le> budget"
  obtains h t where "rs_head (select_retained json cands budget hb) = fill json cut_prefix h (take t cands)"
    and "rs_tail (select_retained json cands budget hb) = rev (fill json cut_suffix (budget - h) (rev cands))"
    and "t + length (rs_tail (select_retained json cands budget hb)) = length cands"
    and "h \<le> budget div 2"
    and "omitted_tokens (select_retained json cands budget hb) = total_tokens_of json cands -
       sum_list (map (kept_tokens json cands) (rs_entries (select_retained json cands budget hb)))"
proof -
  let ?h = "min hb (budget div 2)"
  let ?tail = "rev (fill json cut_suffix (budget - ?h) (rev cands))"
  have "length ?tail \<le> length cands" using fill_length[of json cut_suffix "budget - ?h" "rev cands"] by simp
  then show ?thesis
    using assms by (intro that[of ?h "length cands - length ?tail"])
      (simp_all add: select_retained_def rs_entries_def Let_def)
qed

lemma fill_tail_ids:
  assumes "t + length (fill json cut_suffix r (rev cs)) = length cs"
  shows "map re_id (rev (fill json cut_suffix r (rev cs))) = drop t (map fst cs)"
proof -
  let ?f = "fill json cut_suffix r (rev cs)"
  have "map re_id (rev ?f) = rev (take (length ?f) (rev (map fst cs)))"
    using fill_ids[of cut_suffix json r "rev cs"] by (simp add: rev_map[symmetric])
  also have "\<dots> = drop (length cs - length ?f) (map fst cs)" by (simp add: rev_take)
  also have "length cs - length ?f = t" using assms by simp
  finally show ?thesis .
qed

lemma fill_head_ids:
  assumes "f = fill json cut_prefix r (take t cs)"
  shows "length f \<le> t" "map re_id f = take (length f) (map fst cs)"
  using fill_ids[of cut_prefix json r "take t cs"] fill_length[of json cut_prefix r "take t cs"] assms
  by (simp_all add: min.absorb1 take_map[symmetric])

lemma selection_order:
  "\<exists>h t. h \<le> t \<and> t \<le> length cands \<and> map re_id (rs_head (select_retained json cands budget hb)) = take h (map fst cands) \<and>
    map re_id (rs_tail (select_retained json cands budget hb)) = drop t (map fst cands)"
proof (cases "total_tokens_of json cands \<le> budget")
  case True
  then show ?thesis
    by (intro exI[of _ 0]) (auto simp: select_retained_def)
next
  case False
  let ?sel = "select_retained json cands budget hb"
  from select_retained_parts[OF False, of hb] obtain h t
    where p: "rs_head ?sel = fill json cut_prefix h (take t cands)"
      "rs_tail ?sel = rev (fill json cut_suffix (budget - h) (rev cands))" "t + length (rs_tail ?sel) = length cands"
    by metis
  have "map re_id (rs_tail ?sel) = drop t (map fst cands)"
    using fill_tail_ids[of t json "budget - h" cands] p(2,3) by simp
  then show ?thesis using fill_head_ids[OF p(1)] p(3) by (metis le_add1)
qed

lemma selection_amounts:
  assumes "distinct (map fst cands)" and "sel = select_retained json cands budget hb"
  shows "sum_list (map (kept_tokens json cands) (rs_entries sel)) \<le> budget"
    and "sum_list (map (kept_tokens json cands) (rs_entries sel)) + omitted_tokens sel = total_tokens_of json cands"
    and "sum_list (map (rebuilt_tokens json cands) (rs_entries sel)) \<le> budget + 28"
proof (atomize (full), cases "total_tokens_of json cands \<le> budget")
  case True
  then have "sel = \<lparr>rs_head = [], rs_tail = map (\<lambda>(i, _). whole i) cands, omitted_tokens = 0\<rparr>"
    by (simp add: assms(2) select_retained_def)
  then show "sum_list (map (kept_tokens json cands) (rs_entries sel)) \<le> budget \<and>
      sum_list (map (kept_tokens json cands) (rs_entries sel)) + omitted_tokens sel = total_tokens_of json cands \<and>
      sum_list (map (rebuilt_tokens json cands) (rs_entries sel)) \<le> budget + 28"
    using kept_all_whole[OF assms(1) order_refl, of json] True by (simp add: rs_entries_def)
next
  case False
  obtain h t where p: "rs_head sel = fill json cut_prefix h (take t cands)"
      "rs_tail sel = rev (fill json cut_suffix (budget - h) (rev cands))" "h \<le> budget div 2"
      "omitted_tokens sel = total_tokens_of json cands - sum_list (map (kept_tokens json cands) (rs_entries sel))"
    using select_retained_parts[OF False, of hb] unfolding assms(2) by metis
  have "sum_list (map (kept_tokens json cands) (rs_entries sel)) \<le> budget"
    using fill_sum[OF assms(1), of json cut_prefix "take t cands" h]
      fill_sum[OF assms(1), of json cut_suffix "rev cands" "budget - h"] set_take_subset[of t cands] p(3)
    by (simp add: rs_entries_def p(1,2) rev_map[symmetric])
  moreover have "sum_list (map (rebuilt_tokens json cands) (rs_entries sel)) \<le> budget + 28"
    using fill_rebuilt[where cutter = cut_prefix and k = 13 and json = json and cs = "take t cands" and r = h,
        OF assms(1) estimate_cut_prefix]
      fill_rebuilt[where cutter = cut_suffix and k = 15 and json = json and cs = "rev cands" and r = "budget - h",
        OF assms(1) estimate_cut_suffix] set_take_subset[of t cands] p(3)
    by (simp add: rs_entries_def p(1,2) rev_map[symmetric])
  ultimately show "sum_list (map (kept_tokens json cands) (rs_entries sel)) \<le> budget \<and>
      sum_list (map (kept_tokens json cands) (rs_entries sel)) + omitted_tokens sel = total_tokens_of json cands \<and>
      sum_list (map (rebuilt_tokens json cands) (rs_entries sel)) \<le> budget + 28"
    using False p(4) by simp
qed

lemma newest_is_selected:
  assumes "cands \<noteq> []" and "0 < budget" and "truncatable_text (snd (last cands)) \<noteq> None"
  shows "rs_tail (select_retained json cands budget hb) \<noteq> []"
proof (cases "total_tokens_of json cands \<le> budget")
  case True
  then show ?thesis using assms(1) by (simp add: select_retained_def)
next
  case False
  from select_retained_parts[OF False, of hb] obtain h
    where p: "rs_tail (select_retained json cands budget hb) = rev (fill json cut_suffix (budget - h) (rev cands))"
      "h \<le> budget div 2" by metis
  obtain cs i m where cs: "cands = cs @ [(i, m)]" using assms(1) by (metis prod.exhaust rev_exhaust)
  have "0 < budget - h" using assms(2) p(2) by linarith
  then show ?thesis
    unfolding p(1) using fill_nonempty[of "budget - h" m json cut_suffix i "rev cs"] assms(3) by (simp add: cs)
qed


text \<open>A long opening and a long last message around a short one, with a budget of two tokens.\<close>

definition example_candidates :: "(string \<times> AgentMessage) list" where
  "example_candidates =
    [(''a'', user_text ''do not touch the database'' 0), (''b'', user_text ''go'' 1),
     (''c'', user_text ''now write the tests'' 2)]"

lemma example_suffix: "keep_suffix ''now write the tests'' 1 = ''ests''"
proof -
  have "saturating_mul4 1 = 4" by (simp add: saturating_mul4_def U64_MAX_def)
  moreover have "concat (rev (fitting 4 0 (rev (chars ''now write the tests'')))) = ''ests''" by code_simp
  ultimately show ?thesis by (simp add: keep_suffix_def)
qed


end
