(* ===== verification/Compaction_Proofs.thy ===== *)
theory Compaction_Proofs
  imports Session_Compaction Retention_Proofs Session_Properties "HOL-Library.Sublist"
begin

text \<open>
  What compaction guarantees: the serialized conversation stays within its budget, the context after a
  compaction is the one that was announced, and the branch left behind is summarized from the point where
  it parts from the target.
\<close>

subsection \<open>The serialized conversation\<close>

abbreviation parts_tokens :: "string list \<Rightarrow> nat" where
  "parts_tokens ps \<equiv> sum_list (map fragment_tokens ps)"

lemma drop_oldest_spec:
  assumes "remaining = parts_tokens ps"
  shows "\<exists>k \<le> length ps. drop_oldest budget remaining count dropped ps =
      \<lparr>sc_text = join nl2 (drop k ps), dropped_messages = count + k, dropped_tokens = dropped + parts_tokens (take k ps)\<rparr> \<and>
    parts_tokens (drop k ps) \<le> budget \<and> (\<forall>j < k. budget < parts_tokens (drop j ps))"
  using assms
proof (induction ps arbitrary: remaining count dropped)
  case (Cons p ps)
  show ?case
  proof (cases "remaining > budget")
    case True
    from Cons.IH[OF refl, of "Suc count" "dropped + fragment_tokens p"]
    obtain k where k: "k \<le> length ps" "drop_oldest budget (parts_tokens ps) (Suc count) (dropped + fragment_tokens p) ps =
        \<lparr>sc_text = join nl2 (drop k ps), dropped_messages = Suc count + k,
         dropped_tokens = dropped + fragment_tokens p + parts_tokens (take k ps)\<rparr>"
      "parts_tokens (drop k ps) \<le> budget" "\<forall>j < k. budget < parts_tokens (drop j ps)" by blast
    have "\<forall>j < Suc k. budget < parts_tokens (drop j (p # ps))"
      using k(4) True Cons.prems by (auto simp: less_Suc_eq_0_disj)
    then show ?thesis using k(1-3) True Cons.prems by (intro exI[of _ "Suc k"]) simp
  next
    case False
    then show ?thesis using Cons.prems by (intro exI[of _ 0]) simp
  qed
qed simp

lemma utf16_count_join: "utf16_count (join nl2 ps) \<le> sum_list (map utf16_count ps) + 2 * (length ps - 1)"
proof (induction nl2 ps rule: join.induct)
  case (3 x y xs)
  have "utf16_count nl2 = 2" by code_simp
  then show ?case
    using 3 utf16_count_append_le[of x "nl2 @ join nl2 (y # xs)"] utf16_count_append_le[of nl2 "join nl2 (y # xs)"]
    by simp
qed simp_all

lemma units_le_tokens: "sum_list (map utf16_count ps) \<le> 4 * parts_tokens ps"
  using div_ceil4_bounds(1) by (induction ps) (simp_all add: fragment_tokens_def add_mono)

text \<open>
  The request for a summary fits. Under a budget that is not zero the oldest parts of the conversation
  are dropped, no more of them than necessary, and what was dropped is accounted for; the parts that are
  sent are within the budget, so that their text exceeds it at most by the blank lines between them.
\<close>

theorem summary_request_fits:
  assumes "0 < budget" and sc_def: "sc = serialize_conversation_within json messages budget"
    and parts_def: "parts = serialize_parts json messages"
  shows "sc_text sc = join nl2 (drop (dropped_messages sc) parts) \<and>
    dropped_tokens sc + parts_tokens (drop (dropped_messages sc) parts) = parts_tokens parts \<and>
    parts_tokens (drop (dropped_messages sc) parts) \<le> budget \<and>
    (\<forall>j < dropped_messages sc. budget < parts_tokens (drop j parts)) \<and>
    utf16_count (sc_text sc) \<le> 4 * budget + 2 * (length parts - dropped_messages sc - 1)"
proof -
  have "\<exists>k. sc = \<lparr>sc_text = join nl2 (drop k parts), dropped_messages = k, dropped_tokens = parts_tokens (take k parts)\<rparr> \<and>
    parts_tokens (drop k parts) \<le> budget \<and> (\<forall>j < k. budget < parts_tokens (drop j parts))"
  proof (cases "parts_tokens parts \<le> budget")
    case True
    then show ?thesis
      unfolding sc_def parts_def by (intro exI[of _ 0]) (simp add: serialize_conversation_within_def Let_def)
  next
    case False
    then show ?thesis
      using drop_oldest_spec[of "parts_tokens parts" parts budget 0 0] assms
      unfolding sc_def parts_def by (auto simp: serialize_conversation_within_def Let_def)
  qed
  then obtain k where k: "sc = \<lparr>sc_text = join nl2 (drop k parts), dropped_messages = k, dropped_tokens = parts_tokens (take k parts)\<rparr>"
    "parts_tokens (drop k parts) \<le> budget" "\<forall>j < k. budget < parts_tokens (drop j parts)" by blast
  have "parts_tokens (take k parts) + parts_tokens (drop k parts) = parts_tokens parts"
    by (metis append_take_drop_id map_append sum_list_append)
  moreover have "utf16_count (join nl2 (drop k parts)) \<le> 4 * budget + 2 * (length parts - k - 1)"
    using utf16_count_join[of "drop k parts"] units_le_tokens[of "drop k parts"] k(2) by simp
  ultimately show ?thesis using k by simp
qed

lemma summary_request_fits_witness:
  "let messages = [user_text ''abcd'' 0, user_text ''efgh'' 1];
       sc = serialize_conversation_within (\<lambda>_. []) messages 3
   in sc = \<lparr>sc_text = ''[User]: efgh'', dropped_messages = 1, dropped_tokens = 3\<rparr> \<and>
      parts_tokens (drop (dropped_messages sc) (serialize_parts (\<lambda>_. []) messages)) \<le> 3"
proof -
  let ?ms = "[user_text ''abcd'' 0, user_text ''efgh'' 1]"
  have "serialize_conversation_within (\<lambda>_. []) ?ms 3 = \<lparr>sc_text = ''[User]: efgh'', dropped_messages = 1, dropped_tokens = 3\<rparr>"
    by code_simp
  then show ?thesis
    using summary_request_fits[of 3 _ "\<lambda>_. []" ?ms, OF _ refl refl] by (simp add: Let_def)
qed

text \<open>
  A budget of zero is no budget. For a model whose context window is not larger than the reserve, the
  budget of the request is zero, which the serialization reads as \<open>no limit\<close>: the whole conversation is sent,
  however large it is, a failure is not retried with less, and since the threshold is zero as well, the
  session wants to compact at every context that is not empty.
\<close>

theorem small_window_is_unlimited:
  assumes "context_window model \<le> reserve_tokens (settings prep)"
  shows "write_summary env respond cancelled prep model custom =
      generate_summary_with_usage env respond 0 (messages_to_summarize prep) model (reserve_tokens (settings prep)) 0 custom \<and>
    serialize_conversation_within (json_text env) (convert_to_llm (messages_to_summarize prep)) 0 =
      \<lparr>sc_text = serialize_conversation (json_text env) (convert_to_llm (messages_to_summarize prep)),
       dropped_messages = 0, dropped_tokens = 0\<rparr> \<and>
    (should_compact n (context_window model) (settings prep) \<longleftrightarrow> enabled (settings prep) \<and> 0 < n)"
  using assms
  by (simp add: write_summary_def request_budget_def serialize_conversation_within_def serialize_conversation_def
      should_compact_def Let_def split: sum.split)

definition small_model_preparation :: CompactionPreparation where
  "small_model_preparation =
    \<lparr>cp_first_kept_entry_id = ''a'', messages_to_summarize = [user_text ''hello'' 0],
     cp_retained = \<lparr>rs_head = [], rs_tail = [whole ''a''], omitted_tokens = 0\<rparr>, retained_messages = [user_text ''hello'' 0],
     cp_tokens_before = 2, outline = [], settings = DEFAULT_COMPACTION_SETTINGS\<rparr>"

lemma small_window_is_unlimited_witness:
  "should_compact 1 16384 (settings small_model_preparation) \<and>
   dropped_messages (serialize_conversation_within (\<lambda>_. []) (convert_to_llm (messages_to_summarize small_model_preparation)) 0) = 0"
proof -
  have "context_window \<lparr>context_window = 16384, model_max_tokens = 0\<rparr> \<le> reserve_tokens (settings small_model_preparation)"
    by (simp add: small_model_preparation_def DEFAULT_COMPACTION_SETTINGS_def)
  from small_window_is_unlimited[OF this, of "example_env\<lparr>json_text := \<lambda>_. []\<rparr>" _ _ _ 1] show ?thesis
    by (simp add: small_model_preparation_def DEFAULT_COMPACTION_SETTINGS_def)
qed

subsection \<open>Files of a branch\<close>

text \<open>
  A long branch forgets its files. The comment on \<open>prepare_branch_entries\<close> says that file operations are
  collected from every entry regardless of what fits. They are collected in the loop that stops at the
  first message over the budget: when the newest message alone exceeds it, the files of all earlier tool
  calls are missing from the summary's lists; only those of nested summaries are carried over.
\<close>

theorem branch_files_forgotten:
  assumes "message_from_entry env e = Some message" and "0 < budget"
    and "budget < estimate_tokens (json_text env) message"
  shows "bp_file_ops (prepare_branch_entries env (es @ [e]) budget) =
    extract_file_ops_from_message message (fold carried_files (es @ [e]) create_file_ops)"
  using assms by (simp add: prepare_branch_entries_def Let_def)

text \<open>Messages for the examples: a text stands for itself, with one text for a call of the write tool.\<close>

definition assistant_with :: "AssistantContent list \<Rightarrow> AssistantMessage" where
  "assistant_with content =
    \<lparr>am_content = content, am_api = [], am_provider = [], am_model = [], response_model = None, response_id = None,
     diagnostics = None, am_usage = Usage_default, stop_reason = Stop, deferred = None, error_message = None,
     raw_stop_reason = None, end_turn = None, am_timestamp = 0\<rparr>"

definition write_call :: ToolCall where
  "write_call = \<lparr>tc_id = ''1'', tc_name = ''write'', arguments = [(''path'', JString ''main.rs'')], thought_signature = None,
     namespace = None, tc_extra = []\<rparr>"

fun example_message_de :: "Json \<Rightarrow> AgentMessage option" where
  "example_message_de (JString s) =
    Some (if s = ''write'' then Assistant (assistant_with [AToolCall write_call]) else user_text s 0)"
| "example_message_de _ = None"

definition chat_env :: SessionEnv where
  "chat_env = example_env\<lparr>message_de := example_message_de, json_text := \<lambda>_. []\<rparr>"

definition chat_entry :: "string \<Rightarrow> string option \<Rightarrow> string \<Rightarrow> SessionEntry" where
  "chat_entry i parent t =
    Known \<lparr>eh_id = i, eh_parent_id = parent, eh_timestamp = [], eh_extra = []\<rparr> (EMessage (JString t))"

lemma chat_env_simps [simp]:
  "message_de chat_env = example_message_de" "json_text chat_env = (\<lambda>_. [])" "parse_timestamp_ms chat_env = (\<lambda>_. None)"
  by (simp_all add: chat_env_def example_env_def)

lemma branch_files_forgotten_witness:
  "let ops = bp_file_ops (prepare_branch_entries chat_env [chat_entry ''a'' None ''write'', chat_entry ''b'' (Some ''a'') ''a long text''] 2)
   in compute_file_lists ops = ([], []) \<and>
      compute_file_lists (bp_file_ops (prepare_branch_entries chat_env [chat_entry ''a'' None ''write''] 2)) = ([], [''main.rs''])"
proof -
  let ?e = "chat_entry ''b'' (Some ''a'') ''a long text''"
  have m: "message_from_entry chat_env ?e = Some (user_text ''a long text'' 0)"
    by (simp add: message_from_entry_def chat_entry_def repaired_message_def user_text_def)
  have t: "2 < estimate_tokens (json_text chat_env) (user_text ''a long text'' 0)" by code_simp
  have x: "extract_file_ops_from_message (user_text ''a long text'' 0) ops = ops" for ops
    by (simp add: user_text_def)
  have "bp_file_ops (prepare_branch_entries chat_env ([chat_entry ''a'' None ''write''] @ [?e]) 2) = create_file_ops"
    by (subst branch_files_forgotten[OF m _ t]) (simp_all add: x chat_entry_def)
  moreover have "compute_file_lists create_file_ops = ([], [])" by code_simp
  moreover have "compute_file_lists (bp_file_ops (prepare_branch_entries chat_env [chat_entry ''a'' None ''write''] 2)) = ([], [''main.rs''])"
    by code_simp
  ultimately show ?thesis by (simp add: Let_def)
qed

subsection \<open>The branch left behind\<close>

lemma root_path_split:
  assumes "root_path es f path" and "path = us @ x # vs"
  shows "root_path es (Some x) (us @ [x])"
  using assms
proof (induction arbitrary: vs rule: root_path.induct)
  case (root_path_some e path)
  show ?case
  proof (cases vs rule: rev_cases)
    case Nil
    then show ?thesis using root_path_some by (auto intro: root_path.root_path_some)
  next
    case (snoc ws y)
    then show ?thesis using root_path_some by simp
  qed
qed simp

lemma collect_up_to_root:
  assumes "links None vs" and "\<forall>e\<in>set vs. look (entry_id e) = Some e"
  shows "collect_up look None (last_id vs) acc = Some (vs @ acc)"
  using assms
proof (induction vs arbitrary: acc rule: rev_induct)
  case Nil
  then show ?case by (simp add: collect_up.simps last_id_def)
next
  case (snoc x vs)
  have "last_id (vs @ [x]) = Some (entry_id x)" "parent_id x = last_id vs"
    using snoc.prems(1) by (simp_all add: last_id_def links_snoc)
  then show ?case
    using snoc by (subst collect_up.simps) (simp add: links_snoc)
qed

lemma collect_up_to_ancestor:
  assumes "links None (us @ a # vs)" and "\<forall>e\<in>set vs. look (entry_id e) = Some e \<and> entry_id e \<noteq> entry_id a"
  shows "collect_up look (Some (entry_id a)) (last_id (us @ a # vs)) acc = Some (vs @ acc)"
  using assms
proof (induction vs arbitrary: acc rule: rev_induct)
  case Nil
  then show ?case by (simp add: collect_up.simps last_id_def)
next
  case (snoc x vs)
  have l: "links None ((us @ a # vs) @ [x])" using snoc.prems(1) by simp
  then have "last_id (us @ a # vs @ [x]) = Some (entry_id x)" "parent_id x = last_id (us @ a # vs)"
    by (simp add: last_id_def) (use l in \<open>simp add: links_snoc last_id_def del: append_assoc append_Cons\<close>)
  moreover have "links None (us @ a # vs)" using l unfolding links_snoc by simp
  ultimately show ?case
    using snoc by (subst collect_up.simps) simp
qed

lemma find_split:
  "find P xs = Some a \<Longrightarrow> \<exists>us vs. xs = us @ a # vs \<and> P a \<and> (\<forall>u\<in>set us. \<not> P u)"
proof (induction xs)
  case (Cons x xs)
  then show ?case
    by (cases "P x") (auto intro: exI[of _ "[]"], metis Cons_eq_appendI set_ConsD)
qed simp

text \<open>Two paths to a root agree up to the last entry they share.\<close>

lemma shared_prefix:
  assumes "root_path es f (us @ a # vs)" and "root_path es g (us' @ a # vs')"
  shows "us = us'"
  using root_path_functional[OF root_path_split[OF assms(1) refl] root_path_split[OF assms(2) refl]] by simp

lemma longest_common_prefix_split:
  "set xs \<inter> set ys = {} \<Longrightarrow> longest_common_prefix (us @ xs) (us @ ys) = us"
proof (induction us)
  case Nil
  then show ?case by (cases xs; cases ys) auto
qed simp

lemma branch_links:
  assumes "tree_ok m" and "get_branch m (Some i) = Some path" and "i \<in> ids m"
  obtains x where "root_path (get_entries m) (Some x) path" "links None path" "set path \<subseteq> set (get_entries m)"
    "distinct (map entry_id path)" "last_id path = Some i"
proof -
  obtain x where x: "root_path (get_entries m) (Some x) path" "x \<in> set (get_entries m)" "entry_id x = i"
    using branch_path[OF assms(1,3)] assms(2) by (metis option.inject)
  have ch: "chained {} (get_entries m)" using assms(1) by (simp add: tree_ok_def)
  show ?thesis
    using that[OF x(1)] root_path_links[OF x(1) ch] root_path_bounded[OF ch x(1,2)] root_path_last[OF x(1)] x(2,3)
    by (auto simp: last_id_def)
qed

lemma last_shared_entry:
  assumes d: "distinct (map entry_id es)" and p: "root_path es f old_path" "root_path es g target_path"
    and sub: "set old_path \<subseteq> set es" "set target_path \<subseteq> set es"
    and a: "find (\<lambda>e. entry_id e \<in> set (map entry_id old_path)) (rev target_path) = Some a"
  obtains us vs where "old_path = us @ a # vs" "longest_common_prefix old_path target_path = us @ [a]"
proof -
  from find_split[OF a] obtain rs ts where r: "rev target_path = rs @ a # ts" "entry_id a \<in> set (map entry_id old_path)"
      "\<forall>e\<in>set rs. entry_id e \<notin> set (map entry_id old_path)" by blast
  have t: "target_path = rev ts @ a # rev rs" using arg_cong[OF r(1), of rev] by simp
  obtain a' where "a' \<in> set old_path" "entry_id a' = entry_id a" using r(2) by auto
  moreover have "inj_on entry_id (set es)" using d by (simp add: distinct_map)
  ultimately have "a \<in> set old_path" using sub t by (metis in_set_conv_decomp inj_onD subsetD)
  then obtain us vs where o: "old_path = us @ a # vs" by (meson split_list)
  have us: "us = rev ts" using shared_prefix p unfolding o t by blast
  show ?thesis
    using that[OF o] longest_common_prefix_split[of vs "rev rs" "us @ [a]"] r(3) by (auto simp: o t us)
qed

text \<open>
  A navigation summarizes exactly what it leaves. For two entries of a session the entries collected are
  those of the old branch after the part it has in common with the branch of the target, in order, and the
  ancestor reported is the last entry of that part; the collection always ends.
\<close>

theorem left_branch_is_collected:
  assumes ok: "tree_ok m" and old: "get_branch m (Some old) = Some old_path" and target: "get_branch m (Some target) = Some target_path"
    and ids: "old \<in> ids m" "target \<in> ids m"
  shows "collect_entries_for_branch_summary m (Some old) target =
    Some \<lparr>cer_entries = drop (length (longest_common_prefix old_path target_path)) old_path,
          common_ancestor_id = last_id (longest_common_prefix old_path target_path)\<rparr>"
proof -
  let ?es = "get_entries m"
  obtain x where x: "root_path ?es (Some x) old_path" "links None old_path" "set old_path \<subseteq> set ?es"
      "distinct (map entry_id old_path)" "last_id old_path = Some old"
    by (rule branch_links[OF ok old ids(1)])
  obtain y where y: "root_path ?es (Some y) target_path" "set target_path \<subseteq> set ?es"
    by (rule branch_links[OF ok target ids(2)])
  have d: "distinct (map entry_id ?es)" using ok chained_distinct by (auto simp: tree_ok_def)
  have look: "\<forall>e\<in>set old_path. find_id ?es (entry_id e) = Some e" using find_id_self[OF d] x(3) by blast
  show ?thesis
  proof (cases "find (\<lambda>e. entry_id e \<in> set (map entry_id old_path)) (rev target_path)")
    case None
    then have "set old_path \<inter> set target_path = {}" by (auto simp: find_None_iff)
    then have "longest_common_prefix old_path target_path = []"
      using longest_common_prefix_split[of old_path target_path "[]"] by simp
    then show ?thesis
      using None old target collect_up_to_root[OF x(2) look, of "[]"] x(5)
      by (simp add: collect_entries_for_branch_summary_def find_entry_eq) (simp add: last_id_def)
  next
    case (Some a)
    obtain us vs where o: "old_path = us @ a # vs" and lcp: "longest_common_prefix old_path target_path = us @ [a]"
      by (rule last_shared_entry[OF d x(1) y(1) x(3) y(2) Some])
    have "\<forall>e\<in>set vs. find_id ?es (entry_id e) = Some e \<and> entry_id e \<noteq> entry_id a"
      using look x(4) unfolding o by (auto simp: image_iff)
    from collect_up_to_ancestor[OF x(2)[unfolded o] this, of "[]"]
    have "collect_up (find_id ?es) (Some (entry_id a)) (Some old) [] = Some vs"
      unfolding x(5)[symmetric] o by simp
    moreover have "drop (length (us @ [a])) old_path = vs" "last_id (us @ [a]) = Some (entry_id a)"
      by (simp_all add: o last_id_def)
    ultimately show ?thesis
      using Some old target unfolding lcp by (simp add: collect_entries_for_branch_summary_def find_entry_eq)
  qed
qed

text \<open>Two answers to the same message: leaving one for the other.\<close>

definition fork_manager :: SessionManager where
  "fork_manager = example_start\<lparr>
     file_entries := map FEntry [chat_entry ''a'' None ''hi'', chat_entry ''b'' (Some ''a'') ''one'',
       chat_entry ''c'' (Some ''a'') ''two'', chat_entry ''d'' (Some ''c'') ''three''],
     ids := {''a'', ''b'', ''c'', ''d''}, leaf_id := Some ''d''\<rparr>"

lemma fork_manager_simps [simp]:
  "get_entries fork_manager = [chat_entry ''a'' None ''hi'', chat_entry ''b'' (Some ''a'') ''one'',
     chat_entry ''c'' (Some ''a'') ''two'', chat_entry ''d'' (Some ''c'') ''three'']"
  "ids fork_manager = {''a'', ''b'', ''c'', ''d''}" "leaf_id fork_manager = Some ''d''"
  by (simp_all add: fork_manager_def get_entries_def)

lemma chat_entry_simps [simp]: "entry_id (chat_entry i p t) = i" "parent_id (chat_entry i p t) = p"
  by (simp_all add: chat_entry_def)

lemma left_branch_is_collected_witness:
  "collect_entries_for_branch_summary fork_manager (Some ''d'') ''b'' =
    Some \<lparr>cer_entries = [chat_entry ''c'' (Some ''a'') ''two'', chat_entry ''d'' (Some ''c'') ''three''],
          common_ancestor_id = Some ''a''\<rparr>"
proof -
  have ok: "tree_ok fork_manager" by (simp add: tree_ok_def insert_commute)
  have old: "get_branch fork_manager (Some ''d'') =
      Some [chat_entry ''a'' None ''hi'', chat_entry ''c'' (Some ''a'') ''two'', chat_entry ''d'' (Some ''c'') ''three'']"
    and target: "get_branch fork_manager (Some ''b'') =
      Some [chat_entry ''a'' None ''hi'', chat_entry ''b'' (Some ''a'') ''one'']"
    by (simp_all add: get_branch_def find_entry_eq walk.simps)
  show ?thesis
    using left_branch_is_collected[OF ok old target] by (simp add: last_id_def chat_entry_def)
qed

end
