(* ===== verification/Compaction_Context.thy ===== *)
theory Compaction_Context
  imports Compaction_Proofs
begin

text \<open>
  The context after a compaction is the one that was announced: the messages carried through, with the cuts
  and the note of the selection, followed by the summary, and of exactly the estimated size.
\<close>

subsection \<open>Paths as sessions of their own\<close>

lemma build_entry_index_eq: "distinct (map entry_id es) \<Longrightarrow> build_entry_index es = find_id es"
proof
  fix i assume d: "distinct (map entry_id es)"
  show "build_entry_index es i = find_id es i"
  proof (cases "find_id es i")
    case None
    then have "i \<notin> ids_of es" by (simp add: find_id_None)
    then have "map_of (rev (map (\<lambda>e. (entry_id e, e)) es)) i = None"
      by (simp add: map_of_eq_None_iff image_image)
    then show ?thesis using None by (simp add: build_entry_index_def)
  next
    case (Some e)
    note e = find_id_Some[OF Some]
    have "distinct (map fst (rev (map (\<lambda>e. (entry_id e, e)) es)))"
      using d by (simp add: comp_def flip: rev_map)
    then have "map_of (rev (map (\<lambda>e. (entry_id e, e)) es)) i = Some e"
      by (rule map_of_is_SomeI) (use e in auto)
    then show ?thesis using Some by (simp add: build_entry_index_def)
  qed
qed

lemma last_entry_root_path:
  assumes "links None path" and "distinct (map entry_id path)"
  shows "root_path path (last_entry path) path"
proof (cases path rule: rev_cases)
  case Nil
  then show ?thesis by (simp add: last_entry_def root_path_none)
next
  case (snoc us x)
  then show ?thesis using links_root_path[OF assms, of us x "[]"] by (simp add: last_entry_def)
qed

lemma path_of_path:
  assumes "links None path" and "distinct (map entry_id path)"
  shows "build_session_path path Undefined (build_entry_index path) = Some path"
  using walk_root_path[OF last_entry_root_path[OF assms], of "[]"] build_entry_index_eq[OF assms(2)]
  by (simp add: build_session_path_def)

subsection \<open>Candidates\<close>

lemma context_messages_cases:
  "session_entry_to_context_messages env e = [] \<or> (\<exists>m. session_entry_to_context_messages env e = [m])"
  by (cases "(env, e)" rule: session_entry_to_context_messages.cases) (auto split: option.splits)

definition user_entry :: "SessionEnv \<Rightarrow> SessionEntry \<Rightarrow> bool" where
  "user_entry env e \<longleftrightarrow> (\<exists>m. session_entry_to_context_messages env e = [m] \<and> is_user_input m)"

abbreviation entry_message :: "SessionEnv \<Rightarrow> SessionEntry \<Rightarrow> AgentMessage" where
  "entry_message env e \<equiv> hd (session_entry_to_context_messages env e)"

lemma user_candidates_eq:
  "user_candidates env es = map (\<lambda>e. (entry_id e, entry_message env e)) (filter (user_entry env) es)"
proof (induction es)
  case (Cons e es)
  then show ?case
    using context_messages_cases[of env e] by (auto simp: user_candidates_def user_entry_def map_filter_simps)
qed (simp add: user_candidates_def map_filter_simps)

lemma compaction_no_user: "is_compaction e \<Longrightarrow> \<not> user_entry env e"
  by (cases e rule: is_compaction.cases) (simp_all add: user_entry_def)

lemma subseq_set: "subseq xs ys \<Longrightarrow> set xs \<subseteq> set ys"
  by (induction rule: list_emb.induct) auto

lemma subseq_distinct: "subseq xs ys \<Longrightarrow> distinct ys \<Longrightarrow> distinct xs"
proof (induction rule: list_emb.induct)
  case (list_emb_Cons2 x y xs ys)
  then show ?case using subseq_set[of xs ys] by auto
qed simp_all

lemma subseq_filter_eq:
  "subseq xs ys \<Longrightarrow> distinct ys \<Longrightarrow> \<forall>y\<in>set ys. P y \<longrightarrow> y \<in> set xs \<Longrightarrow> filter P ys = filter P xs"
proof (induction rule: list_emb.induct)
  case (list_emb_Cons xs ys y)
  then have "y \<notin> set xs" using list_emb_set by fastforce
  then show ?case using list_emb_Cons by auto
next
  case (list_emb_Cons2 x y xs ys)
  then show ?case by auto
qed simp

text \<open>The candidates of a compaction stand on the path in their order.\<close>

lemma compacted_users_subseq:
  assumes "distinct (map entry_id path)"
  shows "subseq (filter (user_entry env) (compacted_entries path)) path"
proof (cases "find is_compaction (rev path)")
  case None
  then show ?thesis by (simp add: compacted_entries_def)
next
  case (Some c)
  from find_split[OF Some] obtain us vs where "rev path = us @ c # vs" "is_compaction c" by blast
  then have c: "c \<in> set path" "is_compaction c" by (metis in_set_conv_decomp set_rev)+
  obtain before after where path: "path = before @ c # after" "\<forall>e\<in>set before. entry_id e \<noteq> entry_id c"
  proof -
    obtain before after where "path = before @ c # after" using c(1) by (meson split_list)
    then show ?thesis using assms that[of before after] by (fastforce simp: image_iff)
  qed
  have tw: "takeWhile (\<lambda>e. entry_id e \<noteq> entry_id c) path = before" "dropWhile (\<lambda>e. entry_id e \<noteq> entry_id c) path = c # after"
    using path(2) by (simp_all add: path(1) takeWhile_append2 dropWhile_append2)
  have dw: "subseq (dropWhile P before) before" for P :: "SessionEntry \<Rightarrow> bool"
    by (metis list_emb_append2 subseq_order.order_refl takeWhile_dropWhile_id)
  have "subseq (filter (user_entry env) xs @ filter (user_entry env) after) (before @ c # after)"
    if "subseq xs before" for xs
    using that by (intro list_emb_append_mono) (auto intro: subseq_order.order_trans subseq_filter_left)
  note part = this[folded path(1)]
  have "compacted_entries path =
      (case Option.bind (as_compaction c) retained of
         Some r \<Rightarrow> filter (\<lambda>x. rs_find r (entry_id x) \<noteq> None) before @ c # after
       | None \<Rightarrow> c # from_first_kept (case as_compaction c of Some ce \<Rightarrow> first_kept_entry_id ce | None \<Rightarrow> []) before @ after)"
    using Some tw by (simp add: compacted_entries_def)
  then show ?thesis
    using compaction_no_user[OF c(2), of env] part[OF dw] part[OF subseq_filter_left[of _ before]]
    by (simp add: from_first_kept_def split: option.split)
qed

subsection \<open>The path after an append\<close>

lemma leaf_root_path:
  assumes "tree_ok m" and "get_branch m None = Some path"
  shows "root_path (get_entries m) (Option.bind (leaf_id m) (find_id (get_entries m))) path"
proof -
  let ?f = "Option.bind (leaf_id m) (find_id (get_entries m))"
  obtain p where p: "root_path (get_entries m) ?f p"
    using root_path_exists[OF _ bind_find_cases] assms(1) unfolding tree_ok_def by blast
  then show ?thesis
    using walk_root_path[OF p, of "[]"] assms(2) by (simp add: get_branch_def find_entry_eq split: option.splits)
qed

lemma path_after_append:
  assumes ok: "tree_ok m" and branch: "get_branch m None = Some path"
    and append: "append_entry env c e m disk = (r, m', disk')" and e: "parent_id e = leaf_id m" "entry_id e \<notin> ids m"
  shows "build_session_path (get_entries m') (leaf_selector m') (build_entry_index (get_entries m')) = Some (path @ [e])"
    and "distinct (map entry_id (path @ [e]))" and "set path \<subseteq> set (get_entries m)" and "links None path"
proof -
  let ?es = "get_entries m"
  note a = append_entry_tree[OF append]
  have es: "get_entries m' = ?es @ [e]" using a(1) by (simp add: get_entries_def)
  have ch: "chained {} ?es" "ids m = ids_of ?es" "set_option (leaf_id m) \<subseteq> ids m"
    using ok unfolding tree_ok_def by blast+
  note p = leaf_root_path[OF ok branch]
  note l = root_path_links[OF p ch(1) bind_find_cases]
  have "Option.bind (parent_id e) (find_id (?es @ [e])) = Option.bind (leaf_id m) (find_id ?es)"
    using ch(2,3) e(1) find_id_None[of _ ?es]
    by (cases "leaf_id m") (auto simp: find_id_append split: option.splits)
  then have p': "root_path (?es @ [e]) (Some e) (path @ [e])"
    using root_path_some[of "?es @ [e]" e path] root_path_extend[OF p ch(1) bind_find_cases, of "[e]"] by simp
  have ch': "chained {} (?es @ [e])"
    using ch e by (auto simp: chained_append)
  show "distinct (map entry_id (path @ [e]))"
    using root_path_bounded[OF ch' p'] by simp
  show "set path \<subseteq> set ?es" "links None path" using l by simp_all
  have "find_id (?es @ [e]) (entry_id e) = Some e"
    using e(2) find_id_None[of "entry_id e" ?es] ch(2) by (simp add: find_id_append)
  then show "build_session_path (get_entries m') (leaf_selector m') (build_entry_index (get_entries m')) = Some (path @ [e])"
    using walk_root_path[OF p', of "[]"] build_entry_index_eq[of "?es @ [e]"] chained_distinct[OF ch'] a(3)
    by (simp add: es leaf_selector_def build_session_path_def)
qed

subsection \<open>The messages after a compaction\<close>

lemma compacted_after_compaction:
  assumes "distinct (map entry_id (path @ [Known h (ECompaction ce)]))" and "retained ce = Some sel"
  shows "compacted_entries (path @ [Known h (ECompaction ce)]) =
    filter (\<lambda>x. rs_find sel (entry_id x) \<noteq> None) path @ [Known h (ECompaction ce)]"
proof -
  have "\<forall>e\<in>set path. entry_id e \<noteq> eh_id h" using assms(1) by (auto simp: image_iff)
  then have "takeWhile (\<lambda>e. entry_id e \<noteq> eh_id h) (path @ [Known h (ECompaction ce)]) = path"
    "dropWhile (\<lambda>e. entry_id e \<noteq> eh_id h) (path @ [Known h (ECompaction ce)]) = [Known h (ECompaction ce)]"
    by (simp_all add: takeWhile_append2 dropWhile_append2)
  then show ?thesis using assms(2) by (simp add: compacted_entries_def)
qed

text \<open>Messages that differ at most in the time of an elision note.\<close>

definition same_message :: "AgentMessage \<Rightarrow> AgentMessage \<Rightarrow> bool" where
  "same_message a b \<longleftrightarrow> a = b \<or> (\<exists>n s t. a = elision_message n s \<and> b = elision_message n t)"

lemma same_message_tokens: "same_message a b \<Longrightarrow> estimate_tokens json a = estimate_tokens json b"
  by (auto simp: same_message_def elision_message_def estimate_user_text)

lemma same_messages_tokens:
  "list_all2 same_message as bs \<Longrightarrow> sum_list (map (estimate_tokens json) as) = sum_list (map (estimate_tokens json) bs)"
  by (induction rule: list_all2_induct) (simp_all add: same_message_tokens)

lemma list_all2_concat_map:
  "list_all2 R xs ys \<Longrightarrow> (\<And>x y. x \<in> set xs \<Longrightarrow> y \<in> set ys \<Longrightarrow> R x y \<Longrightarrow> list_all2 Q (f x) (g y)) \<Longrightarrow>
    list_all2 Q (concat (map f xs)) (concat (map g ys))"
proof (induction rule: list_all2_induct)
  case (Cons x xs y ys)
  then show ?case by (auto intro!: list_all2_appendI)
qed simp

lemma list_all2_of_map_eq: "map f xs = map g ys \<Longrightarrow> list_all2 (\<lambda>x y. f x = g y) xs ys"
  by (induction xs arbitrary: ys) (auto simp: Cons_eq_map_conv)

lemma with_recovery_user: "is_user_input m \<Longrightarrow> with_recovery log i m = m"
  by (cases m; cases log) simp_all

lemma find_distinct: "distinct (map f xs) \<Longrightarrow> x \<in> set xs \<Longrightarrow> find (\<lambda>y. f y = f x) xs = Some x"
  by (induction xs) (auto simp: rev_image_eqI)

lemma rs_find_iff: "rs_find sel i \<noteq> None \<longleftrightarrow> i \<in> set (map re_id (rs_entries sel))"
  by (auto simp: rs_find_def find_None_iff image_iff)

text \<open>The entries that carry the messages of a selection, in the order of the selection.\<close>

lemma retained_entries:
  assumes d: "distinct (map entry_id us)"
    and "map re_id (rs_head sel) = take h (map entry_id us)" "map re_id (rs_tail sel) = drop t (map entry_id us)" "h \<le> t"
  shows "filter (\<lambda>x. rs_find sel (entry_id x) \<noteq> None) us = take h us @ drop t us"
    and "map re_id (rs_entries sel) = map entry_id (take h us @ drop t us)"
    and "r \<in> set (rs_entries sel) \<Longrightarrow> rs_find sel (re_id r) = Some r"
proof -
  show ids: "map re_id (rs_entries sel) = map entry_id (take h us @ drop t us)"
    using assms by (simp add: rs_entries_def take_map drop_map)
  have some: "rs_find sel i \<noteq> None \<longleftrightarrow> i \<in> set (map entry_id (take h us @ drop t us))" for i
    unfolding rs_find_iff ids ..
  have us: "us = take h us @ drop h (take t us) @ drop t us"
    using \<open>h \<le> t\<close> by (metis append.assoc append_take_drop_id min.absorb1 take_take)
  have mid: "entry_id x \<notin> set (map entry_id (take h us @ drop t us))" if "x \<in> set (drop h (take t us))" for x
    using d that by (subst (asm) us) auto
  show "filter (\<lambda>x. rs_find sel (entry_id x) \<noteq> None) us = take h us @ drop t us"
  proof -
    have "filter (\<lambda>x. entry_id x \<in> set (map entry_id (take h us @ drop t us))) (take h us @ drop h (take t us) @ drop t us) =
        take h us @ drop t us"
      unfolding filter_append using mid by (simp add: filter_empty_conv filter_id_conv)
    then show ?thesis unfolding some using us by simp
  qed
  have "distinct (map re_id (rs_entries sel))"
    using d unfolding ids by (subst (asm) us) auto
  then show "r \<in> set (rs_entries sel) \<Longrightarrow> rs_find sel (re_id r) = Some r"
    by (simp add: rs_find_def find_distinct)
qed

lemma entry_messages_retained:
  assumes "user_entry env e" and "rs_find sel (entry_id e) = Some r"
  shows "entry_messages env (Some sel) log e =
    apply_retention (entry_message env e) r #
      (if elision_after sel = Some (entry_id e) then [elision_message (omitted_tokens sel) (time_or_0 env (timestamp e))] else [])"
  using assms by (auto simp: entry_messages_def user_entry_def with_recovery_user)

lemma announced_messages:
  assumes us: "subseq us path" "distinct (map entry_id path)" "\<forall>e\<in>set us. user_entry env e"
    and cands: "cands = map (\<lambda>e. (entry_id e, entry_message env e)) us"
    and sel: "sel = select_retained json cands budget hb"
  shows "list_all2 same_message
      (concat (map (entry_messages env (Some sel) log) (filter (\<lambda>x. rs_find sel (entry_id x) \<noteq> None) path)))
      (retained_messages_of cands sel)"
    and "set (map re_id (rs_entries sel)) \<subseteq> ids_of path"
proof -
  have sub: "set us \<subseteq> set path" by (rule subseq_set[OF us(1)])
  have "subseq (map entry_id us) (map entry_id path)" using us(1) by (rule subseq_map)
  then have du: "distinct (map entry_id us)" using us(2) by (rule subseq_distinct)
  then have dc: "distinct (map fst cands)" by (simp add: cands comp_def)
  obtain h t where ht: "h \<le> t" "map re_id (rs_head sel) = take h (map entry_id us)" "map re_id (rs_tail sel) = drop t (map entry_id us)"
    using selection_order[of cands json budget hb] unfolding sel[symmetric] by (auto simp: cands comp_def)
  note r = retained_entries[OF du ht(2,3,1)]
  show "set (map re_id (rs_entries sel)) \<subseteq> ids_of path"
    using sub by (auto simp: r(2) dest: in_set_takeD in_set_dropD)
  have "filter (\<lambda>x. rs_find sel (entry_id x) \<noteq> None) path = filter (\<lambda>x. rs_find sel (entry_id x) \<noteq> None) us"
  proof (rule subseq_filter_eq[OF us(1)])
    show "distinct path" using us(2) by (simp add: distinct_map)
    show "\<forall>y\<in>set path. rs_find sel (entry_id y) \<noteq> None \<longrightarrow> y \<in> set us"
    proof (intro ballI impI)
      fix y assume y: "y \<in> set path" "rs_find sel (entry_id y) \<noteq> None"
      then have "entry_id y \<in> set (map re_id (rs_entries sel))"
        by (simp only: rs_find_iff)
      then obtain x where "x \<in> set us" "entry_id x = entry_id y"
        unfolding r(2) by (auto dest: in_set_takeD in_set_dropD)
      moreover have "inj_on entry_id (set path)" using us(2) by (simp add: distinct_map)
      ultimately show "y \<in> set us" using y(1) sub by (metis inj_onD subsetD)
    qed
  qed
  then have f: "filter (\<lambda>x. rs_find sel (entry_id x) \<noteq> None) path = take h us @ drop t us" unfolding r(1) .
  have "list_all2 (\<lambda>e x. entry_id e = re_id x) (take h us @ drop t us) (rs_entries sel)"
    by (rule list_all2_of_map_eq) (simp only: r(2))
  then show "list_all2 same_message
      (concat (map (entry_messages env (Some sel) log) (filter (\<lambda>x. rs_find sel (entry_id x) \<noteq> None) path)))
      (retained_messages_of cands sel)"
    unfolding f retained_messages_of_def
  proof (rule list_all2_concat_map)
    fix e x assume e: "e \<in> set (take h us @ drop t us)" "x \<in> set (rs_entries sel)" "entry_id e = re_id x"
    have eu: "e \<in> set us" using e(1) by (auto dest: in_set_takeD in_set_dropD)
    have "find (\<lambda>(i, _). i = re_id x) cands = Some (entry_id e, entry_message env e)"
      unfolding e(3)[symmetric] by (rule find_candidate[OF dc]) (use eu in \<open>simp add: cands\<close>)
    moreover have "entry_messages env (Some sel) log e =
        apply_retention (entry_message env e) x #
          (if elision_after sel = Some (entry_id e) then [elision_message (omitted_tokens sel) (time_or_0 env (timestamp e))] else [])"
      using us(3) eu r(3)[OF e(2)] e(3) by (intro entry_messages_retained) simp_all
    ultimately show "list_all2 same_message (entry_messages env (Some sel) log e)
        ((case find (\<lambda>(i, _). i = re_id x) cands of Some (_, message) \<Rightarrow> [apply_retention message x] | None \<Rightarrow> []) @
         (if elision_after sel = Some (re_id x) then [elision_message (omitted_tokens sel) 0] else []))"
      using e(3) by (auto simp: same_message_def)
  qed
qed

lemma prepare_compaction_Some:
  assumes "prepare_compaction env path sets = Some (Some prep)" and "links None path" "distinct (map entry_id path)"
  shows "retained_messages prep = retained_messages_of (user_candidates env (compacted_entries path)) (cp_retained prep)"
    and "cp_retained prep = select_retained (json_text env) (user_candidates env (compacted_entries path))
      (retained_user_tokens sets) RETAINED_HEAD_TOKENS"
  using assms(1) path_of_path[OF assms(2,3)]
  by (auto simp: prepare_compaction_def build_context_entries_def build_context_entries_indexed_def
      Let_def split: if_splits)

lemma compact_Inr:
  assumes "compact env respond cancelled prep model custom = Inr result"
  shows "cr_retained result = cp_retained prep"
    and "estimated_tokens_after result = Some (sum_list (map (estimate_tokens (json_text env)) (retained_messages prep)) +
      div_ceil4 (utf16_count (cr_summary result)))"
  using assms
  by (auto simp: compact_def Let_def estimate_tokens_def create_compaction_summary_message_def and_then_eq_Inr_iff
      split: if_splits)

text \<open>The summary's own entry is last, and not one of those carried through.\<close>

lemma summary_messages:
  assumes "entry_id (Known h (ECompaction ce)) \<notin> set (map re_id (rs_entries sel))"
  shows "\<exists>s. entry_messages env (Some sel) log (Known h (ECompaction ce)) = [CompactionSummary s] \<and> cs_summary s = ce_summary ce"
proof -
  have n: "rs_find sel (eh_id h) = None" using rs_find_iff[of sel "eh_id h"] assms by auto
  have "elision_after sel \<noteq> Some (eh_id h)"
  proof
    assume "elision_after sel = Some (eh_id h)"
    then have "rs_head sel \<noteq> []" "re_id (last (rs_head sel)) = eh_id h"
      by (simp_all add: elision_after_def split: if_splits)
    then have "eh_id h \<in> re_id ` set (rs_head sel)" by (metis image_eqI last_in_set)
    then show False using assms by (simp add: rs_entries_def)
  qed
  with n show ?thesis
    by (cases log) (simp_all add: entry_messages_def create_compaction_summary_message_def)
qed

lemma context_after_compaction:
  assumes ok: "tree_ok m" and branch: "get_branch m None = Some path" and fresh: "fresh_for c m"
    and prep: "prepare_compaction env path sets = Some (Some prep)"
    and append: "append_compaction env c ce m disk = (r, m', disk')" and ce: "retained ce = Some (cp_retained prep)"
    and ctx: "manager_session_context env m' disk' = Some ctx"
  shows "\<exists>kept s. ctx_messages ctx = kept @ [CompactionSummary s] \<and> cs_summary s = ce_summary ce \<and>
    list_all2 same_message kept (retained_messages prep)"
proof -
  let ?e = "Known (new_head c m) (ECompaction ce)" and ?sel = "cp_retained prep"
  let ?us = "filter (user_entry env) (compacted_entries path)"
  have e: "parent_id ?e = leaf_id m" "entry_id ?e \<notin> ids m"
    using next_id_fresh[OF fresh] by (simp_all add: new_head_def)
  note p = path_after_append[OF ok branch append[unfolded append_compaction_def append_body_def] e]
  have d: "distinct (map entry_id path)" using p(2) by simp
  note prep' = prepare_compaction_Some[OF prep p(4) d, unfolded user_candidates_eq]
  obtain log where ctx': "ctx_messages ctx = context_messages env log (compacted_entries (path @ [?e]))"
    using ctx p(1) by (auto simp: manager_session_context_def build_session_context_with_log_def
        build_context_entries_indexed_def Let_def split_beta)
  note us = compacted_users_subseq[OF d, of env]
  have u: "\<forall>e\<in>set ?us. user_entry env e" by simp
  note a = announced_messages(1)[OF us d u refl prep'(2), of log] announced_messages(2)[OF us d u refl prep'(2)]
  have "set (map re_id (rs_entries ?sel)) \<subseteq> ids m"
    using subset_trans[OF a(2), of "ids_of (get_entries m)"] image_mono[OF p(3), of entry_id] ok
    unfolding tree_ok_def by simp
  then have "entry_id ?e \<notin> set (map re_id (rs_entries ?sel))" using e(2) by blast
  from summary_messages[OF this, of env log] obtain s
    where s: "entry_messages env (Some ?sel) log ?e = [CompactionSummary s]" "cs_summary s = ce_summary ce" by blast
  let ?kept = "concat (map (entry_messages env (Some ?sel) log) (filter (\<lambda>x. rs_find ?sel (entry_id x) \<noteq> None) path))"
  have "ctx_messages ctx = ?kept @ [CompactionSummary s]"
    unfolding ctx' compacted_after_compaction[OF p(2) ce]
    using s(1) ce by (simp add: context_messages_def)
  moreover have "list_all2 same_message ?kept (retained_messages prep)"
    using a(1) by (simp only: prep'(1))
  ultimately show ?thesis using s(2) by blast
qed

text \<open>
  C39: a compaction does what it announces. When the session compacts itself, the agent continues with the
  messages the preparation carried through, cut as recorded and with the note where some were dropped,
  followed by the summary and nothing else; and the size measured on this new context is exactly the size
  that was worked out, and written to the session file, before the entry existed.
\<close>

theorem compaction_gives_announced_context:
  assumes "tree_ok m" and "fresh_for c m"
    and run: "run_compaction env c att sets custom m disk = Some (Inr (result, messages), m', disk')"
  shows "\<exists>path prep model kept s. get_branch m None = Some path \<and> prepare_compaction env path sets = Some (Some prep) \<and>
    request_model att = Inr model \<and> compact env (answers att) (cancelled_early att) prep model custom = Inr result \<and>
    messages = kept @ [CompactionSummary s] \<and> cs_summary s = cr_summary result \<and>
    list_all2 same_message kept (retained_messages prep) \<and>
    estimated_tokens_after result = Some (estimate_messages_tokens env messages)"
proof -
  obtain model where model: "request_model att = Inr model"
    using run by (auto simp: run_compaction_def split: sum.splits)
  obtain path where path: "get_branch m None = Some path"
    using run model by (auto simp: run_compaction_def Option.bind_eq_Some_conv)
  obtain prep where prep: "prepare_compaction env path sets = Some (Some prep)"
    using run model path by (auto simp: run_compaction_def Option.bind_eq_Some_conv split: option.splits)
  obtain result0 where comp: "compact env (answers att) (cancelled_early att) prep model custom = Inr result0"
    using run model path prep by (auto simp: run_compaction_def split: sum.splits)
  obtain i where app: "append_compaction env c (result_entry result0) m disk = (Inr i, m', disk')"
    using run model path prep comp by (auto simp: run_compaction_def split: if_splits prod.splits sum.splits)
  obtain ctx where ctx: "manager_session_context env m' disk' = Some ctx" "messages = ctx_messages ctx"
      "result = result0\<lparr>estimated_tokens_after := Some (estimate_messages_tokens env messages)\<rparr>"
    using run model path prep comp app by (auto simp: run_compaction_def split: if_splits)
  have "retained (result_entry result0) = Some (cp_retained prep)"
    using compact_Inr(1)[OF comp] by (simp add: result_entry_def)
  from context_after_compaction[OF assms(1) path assms(2) prep app this ctx(1)]
  obtain kept s where k: "messages = kept @ [CompactionSummary s]" "cs_summary s = cr_summary result0"
      "list_all2 same_message kept (retained_messages prep)"
    using ctx(2) by (auto simp: result_entry_def)
  have "estimated_tokens_after result0 = Some (estimate_messages_tokens env messages)"
    using compact_Inr(2)[OF comp] same_messages_tokens[OF k(3), of "json_text env"] k(2)
    by (simp add: k(1) estimate_messages_tokens_def estimate_tokens_def)
  then have "result = result0" using ctx(3) by simp
  then show ?thesis
    using model path prep comp k \<open>estimated_tokens_after result0 = _\<close> by blast
qed

subsection \<open>A compaction of a short session\<close>

definition chat_manager :: SessionManager where
  "chat_manager = example_start\<lparr>persist := False, session_file := None, labels_by_id := [],
     file_entries := map FEntry [chat_entry ''a'' None ''hi'', chat_entry ''b'' (Some ''a'') ''write''],
     ids := {''a'', ''b''}, leaf_id := Some ''b''\<rparr>"

definition chat_attempt :: Attempt where
  "chat_attempt = \<lparr>request_model = Inr \<lparr>context_window = 20000, model_max_tokens = 0\<rparr>,
     answers = (\<lambda>_ _ _. assistant_with [AText (TextContent_new ''wrote main.rs'')]), cancelled_early = False,
     cancelled_late = False, cancelled_after = False\<rparr>"

lemma chat_manager_simps [simp]:
  "get_entries chat_manager = [chat_entry ''a'' None ''hi'', chat_entry ''b'' (Some ''a'') ''write'']"
  "ids chat_manager = {''a'', ''b''}" "leaf_id chat_manager = Some ''b''" "persist chat_manager = False"
  "labels_by_id chat_manager = []" "session_file chat_manager = None"
  by (simp_all add: chat_manager_def get_entries_def)

lemma chat_branch: "get_branch chat_manager None = Some (get_entries chat_manager)"
  by (simp add: get_branch_def find_entry_eq walk.simps)

lemma chat_ok: "tree_ok chat_manager" "fresh_for (example_call ''z'') chat_manager"
proof -
  have "fresh_uuids 101 (example_uuid ''z'') 0 {''a'', ''b''}"
    by (rule example_uuids_fresh) auto
  then show "fresh_for (example_call ''z'') chat_manager" by simp
qed (simp add: tree_ok_def)

lemma chat_messages:
  "session_entry_to_context_messages chat_env (chat_entry i p ''hi'') = [user_text ''hi'' 0]"
  "session_entry_to_context_messages chat_env (chat_entry i p ''write'') = [Assistant (assistant_with [AToolCall write_call])]"
  by (simp_all add: chat_entry_def repaired_message_def)

lemma chat_prepared:
  "\<exists>prep. prepare_compaction chat_env (get_entries chat_manager) DEFAULT_COMPACTION_SETTINGS = Some (Some prep) \<and>
    retained_messages prep = [user_text ''hi'' 0] \<and> cp_first_kept_entry_id prep = ''a'' \<and>
    settings prep = DEFAULT_COMPACTION_SETTINGS"
proof -
  let ?path = "get_entries chat_manager"
  have p: "build_session_path ?path Undefined (build_entry_index ?path) = Some ?path"
    by (rule path_of_path) simp_all
  have c: "compacted_entries ?path = ?path" by (simp add: compacted_entries_def chat_entry_def)
  have m: "context_messages chat_env None ?path = [user_text ''hi'' 0, Assistant (assistant_with [AToolCall write_call])]"
    by (simp add: context_messages_def entry_messages_def chat_messages) (simp add: chat_entry_def)
  have u: "user_candidates chat_env ?path = [(''a'', user_text ''hi'' 0)]"
    by (simp add: user_candidates_def map_filter_simps chat_messages) (simp add: user_text_def)
  have s: "select_retained (\<lambda>_. []) [(''a'', user_text ''hi'' 0)] 20000 RETAINED_HEAD_TOKENS =
      \<lparr>rs_head = [], rs_tail = [whole ''a''], omitted_tokens = 0\<rparr>"
  proof -
    have "estimate_tokens (\<lambda>_. []) (user_text ''hi'' 0) = 1" by code_simp
    then show ?thesis by (simp add: select_retained_def)
  qed
  have f: "first_kept \<lparr>rs_head = [], rs_tail = [whole ''a''], omitted_tokens = 0\<rparr> ?path = ''a''"
    by (simp add: first_kept_def oldest_id_def rs_entries_def)
  have r: "retained_messages_of [(''a'', user_text ''hi'' 0)] \<lparr>rs_head = [], rs_tail = [whole ''a''], omitted_tokens = 0\<rparr> =
      [user_text ''hi'' 0]"
    by (simp add: retained_messages_of_def rs_entries_def elision_after_def)
  have b: "build_context_entries ?path Undefined = Some ?path"
    unfolding build_context_entries_def build_context_entries_indexed_def p by (simp only: c option.map)
  obtain ctx where ctx: "build_session_context chat_env ?path Undefined = Some ctx"
      "ctx_messages ctx = [user_text ''hi'' 0, Assistant (assistant_with [AToolCall write_call])]"
    unfolding build_session_context_def build_session_context_with_log_def build_context_entries_indexed_def Let_def p
    using m by (simp add: c split_beta del: chat_manager_simps(1))
  have n: "\<not> is_compaction (last ?path)" by (simp add: chat_entry_def)
  have "prepare_compaction chat_env ?path DEFAULT_COMPACTION_SETTINGS =
      Some (Some \<lparr>cp_first_kept_entry_id = ''a'',
        messages_to_summarize = [user_text ''hi'' 0, Assistant (assistant_with [AToolCall write_call])],
        cp_retained = \<lparr>rs_head = [], rs_tail = [whole ''a''], omitted_tokens = 0\<rparr>, retained_messages = [user_text ''hi'' 0],
        cp_tokens_before = est_tokens (estimate_context_tokens (json_text chat_env) (context_messages chat_env None ?path)),
        outline = extract_operations (context_messages chat_env None ?path) (find is_compaction (rev ?path)),
        settings = DEFAULT_COMPACTION_SETTINGS\<rparr>)"
    using n b ctx u s f r
    by (simp add: prepare_compaction_def Let_def DEFAULT_COMPACTION_SETTINGS_def RETAINED_USER_TOKENS_def m
        del: chat_manager_simps(1))
  then show ?thesis by simp
qed

lemma compaction_gives_announced_context_witness:
  "\<exists>result s m' disk'.
    run_compaction chat_env (example_call ''z'') chat_attempt DEFAULT_COMPACTION_SETTINGS None chat_manager (\<lambda>_. None) =
      Some (Inr (result, [user_text ''hi'' 0, CompactionSummary s]), m', disk') \<and>
    estimated_tokens_after result = Some (estimate_messages_tokens chat_env [user_text ''hi'' 0, CompactionSummary s])"
proof -
  obtain prep where prep: "prepare_compaction chat_env (get_entries chat_manager) DEFAULT_COMPACTION_SETTINGS = Some (Some prep)"
      "retained_messages prep = [user_text ''hi'' 0]" "cp_first_kept_entry_id prep = ''a''"
    using chat_prepared by blast
  have "trim ''wrote main.rs'' \<noteq> []" by code_simp
  then obtain result where comp: "compact chat_env (answers chat_attempt) (cancelled_early chat_attempt) prep
      \<lparr>context_window = 20000, model_max_tokens = 0\<rparr> None = Inr result"
    using prep(3) by (simp add: compact_def write_summary_def generate_summary_with_usage_def chat_attempt_def
        assistant_with_def content_text_def TextContent_new_def Let_def)
  obtain i m' disk' where app: "append_compaction chat_env (example_call ''z'') (result_entry result) chat_manager (\<lambda>_. None) =
      (Inr i, m', disk')"
    by (simp add: append_compaction_def append_body_def append_entry_def persist_entry_def Let_def)
  have "parent_id (Known (new_head (example_call ''z'') chat_manager) b) = leaf_id chat_manager"
    "entry_id (Known (new_head (example_call ''z'') chat_manager) b) \<notin> ids chat_manager" for b
    using next_id_fresh[OF chat_ok(2)] by (simp_all add: new_head_def)
  from path_after_append(1)[OF chat_ok(1) chat_branch app[unfolded append_compaction_def append_body_def] this]
  obtain ctx where ctx: "manager_session_context chat_env m' disk' = Some ctx"
    by (auto simp: manager_session_context_def build_session_context_with_log_def build_context_entries_indexed_def
        Let_def split_beta)
  obtain result' messages where run: "run_compaction chat_env (example_call ''z'') chat_attempt DEFAULT_COMPACTION_SETTINGS None
      chat_manager (\<lambda>_. None) = Some (Inr (result', messages), m', disk')"
    using chat_branch prep(1) comp app ctx by (simp add: run_compaction_def chat_attempt_def)
  from compaction_gives_announced_context[OF chat_ok run] chat_branch prep
  obtain kept s where k: "messages = kept @ [CompactionSummary s]" "list_all2 same_message kept [user_text ''hi'' 0]"
      "estimated_tokens_after result' = Some (estimate_messages_tokens chat_env messages)"
    by auto
  have "same_message x (user_text ''hi'' 0) \<Longrightarrow> x = user_text ''hi'' 0" for x
    by (auto simp: same_message_def elision_message_def user_text_def TextContent_new_def)
  then have "kept = [user_text ''hi'' 0]"
    using k(2) by (auto simp: list_all2_Cons2)
  then show ?thesis using run k by auto
qed

end
