(* ===== verification/Utf8.thy ===== *)
theory Utf8
  imports Prelude
begin

text \<open>
  UTF-8 read one character at a time: what \<open>std::str::from_utf8\<close> finds at the head of a byte string
  (a complete character, a malformed one of so many bytes, or the beginning of one), the error
  \<open>Utf8Error\<close> reports (\<open>valid_up_to\<close>, \<open>error_len\<close>), and what this says of
  \<open>String::from_utf8_lossy\<close> and of the cuts that leave valid text.
\<close>

section \<open>One character\<close>

datatype Utf8Step = Complete nat | Malformed nat | Unfinished

fun utf8_step :: "nat list \<Rightarrow> Utf8Step" where
  "utf8_step [] = Unfinished"
| "utf8_step (b # bs) =
    (if b < 0x80 then Complete 1
     else if 0xC2 \<le> b \<and> b \<le> 0xDF then
       (case bs of [] \<Rightarrow> Unfinished | c # _ \<Rightarrow> if utf8_cont c then Complete 2 else Malformed 1)
     else if 0xE0 \<le> b \<and> b \<le> 0xEF then
       (case bs of [] \<Rightarrow> Unfinished
        | c # cs \<Rightarrow>
            if (if b = 0xE0 then 0xA0 else 0x80) \<le> c \<and> c \<le> (if b = 0xED then 0x9F else 0xBF) then
              (case cs of [] \<Rightarrow> Unfinished | d # _ \<Rightarrow> if utf8_cont d then Complete 3 else Malformed 2)
            else Malformed 1)
     else if 0xF0 \<le> b \<and> b \<le> 0xF4 then
       (case bs of [] \<Rightarrow> Unfinished
        | c # cs \<Rightarrow>
            if (if b = 0xF0 then 0x90 else 0x80) \<le> c \<and> c \<le> (if b = 0xF4 then 0x8F else 0xBF) then
              (case cs of [] \<Rightarrow> Unfinished
               | d # ds \<Rightarrow>
                   if utf8_cont d then
                     (case ds of [] \<Rightarrow> Unfinished | e # _ \<Rightarrow> if utf8_cont e then Complete 4 else Malformed 3)
                   else Malformed 2)
            else Malformed 1)
     else Malformed 1)"

text \<open>\<open>Utf8Error\<close>: \<open>None\<close> for valid text, else \<open>valid_up_to\<close> and \<open>error_len\<close>.\<close>

function utf8_error :: "nat list \<Rightarrow> (nat \<times> nat option) option" where
  "utf8_error bs =
    (if bs = [] then None
     else (case utf8_step bs of
        Complete n \<Rightarrow> map_option (\<lambda>(valid_up_to, error_len). (n + valid_up_to, error_len)) (utf8_error (drop (max 1 n) bs))
      | Malformed n \<Rightarrow> Some (0, Some n)
      | Unfinished \<Rightarrow> Some (0, None)))"
  by pat_completeness auto
termination
  by (relation "measure length") auto

declare utf8_step.simps [simp del] utf8_error.simps [simp del]

lemma utf8_step_bounds:
  "utf8_step bs = Complete n \<Longrightarrow> 0 < n \<and> n \<le> length bs"
  "utf8_step bs = Malformed n \<Longrightarrow> 0 < n \<and> n \<le> length bs"
  by (cases bs; auto simp: utf8_step.simps split: if_splits list.splits)+

lemma utf8_step_append:
  "utf8_step bs = Complete n \<Longrightarrow> utf8_step (bs @ cs) = Complete n"
  "utf8_step bs = Malformed n \<Longrightarrow> utf8_step (bs @ cs) = Malformed n"
  by (cases bs; auto simp: utf8_step.simps split: if_splits list.splits)+

lemma utf8_step_lead:
  assumes "utf8_step (b # bs) = Complete n"
  shows "\<not> utf8_cont b \<and> list_all utf8_cont (take (n - 1) bs)"
  using assms by (auto simp: utf8_step.simps utf8_cont_def split: if_splits list.splits)

lemma utf8_ok_step:
  "bs \<noteq> [] \<Longrightarrow> utf8_ok bs \<longleftrightarrow> (\<exists>n. utf8_step bs = Complete n \<and> utf8_ok (drop n bs))"
  by (cases bs) (auto simp: utf8_step.simps split: if_splits list.splits)

lemma utf8_lossy_step:
  assumes "bs \<noteq> []"
  shows "utf8_lossy bs =
    (case utf8_step bs of
       Complete n \<Rightarrow> take n bs @ utf8_lossy (drop n bs)
     | Malformed n \<Rightarrow> [0xEF, 0xBF, 0xBD] @ utf8_lossy (drop n bs)
     | Unfinished \<Rightarrow> [0xEF, 0xBF, 0xBD])"
proof -
  obtain b rest where bs: "bs = b # rest" using assms by (cases bs) auto
  show ?thesis
    unfolding bs by (subst utf8_lossy.simps) (auto simp: utf8_step.simps split: list.split)
qed

section \<open>Cutting valid text\<close>

lemma utf8_ok_Cons_lead: "utf8_ok (b # bs) \<Longrightarrow> \<not> utf8_cont b"
  using utf8_ok_step [of "b # bs"] utf8_step_lead by blast

lemma utf8_ok_append_cancel: "utf8_ok a \<Longrightarrow> utf8_ok (a @ b) \<longleftrightarrow> utf8_ok b"
proof (induction a rule: length_induct)
  case (1 a)
  show ?case
  proof (cases "a = []")
    case False
    then obtain n where n: "utf8_step a = Complete n" "utf8_ok (drop n a)"
      using 1(2) utf8_ok_step by blast
    then have "utf8_ok (drop n a @ b) \<longleftrightarrow> utf8_ok b"
      using 1(1) utf8_step_bounds(1) [OF n(1)] by (metis diff_less length_drop length_greater_0_conv False)
    then show ?thesis
      using utf8_ok_step [of "a @ b"] utf8_step_append(1) [OF n(1)] utf8_step_bounds(1) [OF n(1)] False by simp
  qed simp
qed

lemma utf8_ok_split:
  "utf8_ok (a @ b) \<Longrightarrow> b = [] \<or> \<not> utf8_cont (hd b) \<Longrightarrow> utf8_ok a \<and> utf8_ok b"
proof (induction a rule: length_induct)
  case (1 a)
  show ?case
  proof (cases a)
    case (Cons x xs)
    then obtain n where n: "utf8_step (a @ b) = Complete n" "utf8_ok (drop n (a @ b))"
      using 1(2) utf8_ok_step [of "a @ b"] by auto
    have le: "n \<le> length a"
    proof (rule ccontr)
      assume "\<not> n \<le> length a"
      then have less: "length xs < n - 1" and ne: "b \<noteq> []"
        using Cons utf8_step_bounds(1) [OF n(1)] by auto
      then have "hd b \<in> set (take (n - 1) (xs @ b))" by (cases b) (auto simp: take_Cons')
      moreover have "list_all utf8_cont (take (n - 1) (xs @ b))"
        using utf8_step_lead [of x "xs @ b" n] n(1) Cons by simp
      ultimately have "utf8_cont (hd b)" by (simp only: list_all_iff)
      then show False using 1(3) ne by simp
    qed
    then have rest: "utf8_ok (drop n a @ b)" using n(2) by simp
    have pos: "0 < n" using utf8_step_bounds(1) [OF n(1)] by simp
    then have IH: "utf8_ok (drop n a) \<and> utf8_ok b"
      using 1(1,3) rest Cons by (metis diff_less length_drop length_greater_0_conv list.discI)
    have "utf8_step a = Complete n"
    proof (cases "utf8_step a")
      case (Complete m)
      then show ?thesis using utf8_step_append(1) [OF Complete, of b] n(1) by simp
    next
      case (Malformed m)
      then show ?thesis using utf8_step_append(2) [OF Malformed, of b] n(1) by simp
    next
      case Unfinished
      then show ?thesis using n(1) le Cons
        by (cases b) (auto simp: utf8_step.simps split: if_splits list.splits)
    qed
    then show ?thesis using IH utf8_ok_step [of a] Cons by auto
  qed (use 1 in simp)
qed

lemma utf8_valid_append: "utf8_valid a \<Longrightarrow> utf8_valid (a @ b) \<longleftrightarrow> utf8_valid b"
  by (simp add: utf8_valid_def utf8_ok_append_cancel)

lemma utf8_valid_split:
  "utf8_valid (a @ b) \<Longrightarrow> b = [] \<or> \<not> utf8_cont (of_char (hd b)) \<Longrightarrow> utf8_valid a \<and> utf8_valid b"
  unfolding utf8_valid_def using utf8_ok_split [of "map of_char a" "map of_char b"] hd_map [of b "of_char :: char \<Rightarrow> nat"] by fastforce

lemma utf8_valid_Nil [simp]: "utf8_valid []"
  by (simp add: utf8_valid_def)

section \<open>The error report and lossy decoding\<close>

lemma utf8_error_decrease: "utf8_error bs = Some (v, Some n) \<Longrightarrow> 0 < n \<and> v + n \<le> length bs"
proof (induction bs arbitrary: v rule: utf8_error.induct)
  case (1 bs)
  show ?case
  proof (cases "utf8_step bs")
    case (Complete m)
    then obtain v' where v': "utf8_error (drop (max 1 m) bs) = Some (v', Some n)" "v = m + v'" and ne: "bs \<noteq> []"
      using 1(2) by (auto simp: utf8_error.simps [of bs] split: if_splits)
    have "max 1 m = m" using utf8_step_bounds(1) [OF Complete] by simp
    then show ?thesis using 1(1) [OF ne Complete v'(1)] v'(2) utf8_step_bounds(1) [OF Complete] by auto
  next
    case (Malformed m)
    then show ?thesis using 1(2) utf8_step_bounds(2) [OF Malformed] by (auto simp: utf8_error.simps [of bs] split: if_splits)
  qed (use 1(2) in \<open>auto simp: utf8_error.simps [of bs] split: if_splits\<close>)
qed

lemma utf8_error_None: "utf8_error bs = None \<Longrightarrow> utf8_ok bs"
proof (induction bs rule: utf8_error.induct)
  case (1 bs)
  show ?case
  proof (cases "bs = []")
    case False
    then obtain n where n: "utf8_step bs = Complete n" "utf8_error (drop (max 1 n) bs) = None"
      using 1(2) by (auto simp: utf8_error.simps [of bs] split: Utf8Step.splits if_splits)
    have "max 1 n = n" using utf8_step_bounds(1) [OF n(1)] by simp
    then show ?thesis using 1(1) [OF False n(1)] n utf8_ok_step [OF False] by auto
  qed simp
qed

lemma utf8_error_Some:
  "utf8_error bs = Some (v, e) \<Longrightarrow> utf8_ok (take v bs) \<and> v < length bs \<and>
    utf8_step (drop v bs) = (case e of None \<Rightarrow> Unfinished | Some n \<Rightarrow> Malformed n)"
proof (induction bs arbitrary: v rule: utf8_error.induct)
  case (1 bs)
  have ne: "bs \<noteq> []" using 1(2) by (auto simp: utf8_error.simps)
  show ?case
  proof (cases "utf8_step bs")
    case (Complete n)
    have n: "max 1 n = n" "0 < n" "n \<le> length bs" using utf8_step_bounds(1) [OF Complete] by simp_all
    obtain v' where v': "utf8_error (drop n bs) = Some (v', e)" "v = n + v'"
      using 1(2) ne Complete n(1) by (auto simp: utf8_error.simps [of bs])
    have IH: "utf8_ok (take v' (drop n bs))" "v' < length bs - n"
      "utf8_step (drop (v' + n) bs) = (case e of None \<Rightarrow> Unfinished | Some n \<Rightarrow> Malformed n)"
      using 1(1) [OF ne Complete, of v'] v'(1) n(1) by (simp_all add: add.commute)
    have step: "utf8_step (take v bs) = Complete n"
    proof (cases "utf8_step (take v bs)")
      case C: (Complete m)
      then show ?thesis using utf8_step_append(1) [OF C, of "drop v bs"] Complete by simp
    next
      case M: (Malformed m)
      then show ?thesis using utf8_step_append(2) [OF M, of "drop v bs"] Complete by simp
    next
      case U: Unfinished
      have "take v bs = take n bs @ take v' (drop n bs)" using v'(2) by (simp add: take_add)
      moreover have "utf8_step (take n bs) = Complete n"
        using Complete by (cases bs) (auto simp: utf8_step.simps split: if_splits list.splits)
      ultimately show ?thesis using utf8_step_append(1) by simp
    qed
    have "drop n (take v bs) = take v' (drop n bs)" using v'(2) by (simp add: drop_take)
    then have "utf8_ok (take v bs)"
      using IH(1) step utf8_ok_step [of "take v bs"] v'(2) n ne by auto
    then show ?thesis using IH v'(2) by (simp add: add.commute)
  qed (use 1(2) ne in \<open>auto simp: utf8_error.simps [of bs]\<close>)
qed

lemma utf8_lossy_append_ok: "utf8_ok a \<Longrightarrow> utf8_lossy (a @ b) = a @ utf8_lossy b"
proof (induction a rule: length_induct)
  case (1 a)
  show ?case
  proof (cases "a = []")
    case False
    then obtain n where n: "utf8_step a = Complete n" "utf8_ok (drop n a)"
      using 1(2) utf8_ok_step by blast
    have len: "0 < n" "n \<le> length a" using utf8_step_bounds(1) [OF n(1)] by simp_all
    then have "utf8_lossy (drop n a @ b) = drop n a @ utf8_lossy b"
      using 1(1) n(2) False by (metis diff_less length_drop length_greater_0_conv)
    then show ?thesis
      using utf8_lossy_step [of "a @ b"] utf8_step_append(1) [OF n(1)] len False by simp
  qed simp
qed

lemma utf8_lossy_malformed:
  assumes "utf8_step bs = Malformed n"
  shows "utf8_lossy (bs @ rest) = [0xEF, 0xBF, 0xBD] @ utf8_lossy (drop n bs @ rest)"
proof -
  have "bs \<noteq> []" using assms by (auto simp: utf8_step.simps)
  then show ?thesis
    using utf8_lossy_step [of "bs @ rest"] utf8_step_append(2) [OF assms] utf8_step_bounds(2) [OF assms] by simp
qed

lemma utf8_lossy_valid: "utf8_ok (utf8_lossy bs)"
proof (induction bs rule: length_induct)
  case (1 bs)
  show ?case
  proof (cases "bs = []")
    case False
    have fffd: "utf8_ok ([0xEF, 0xBF, 0xBD] @ xs) \<longleftrightarrow> utf8_ok xs" for xs
      by (rule utf8_ok_append_cancel) (simp add: utf8_cont_def)
    show ?thesis
    proof (cases "utf8_step bs")
      case (Complete n)
      have "utf8_ok (utf8_lossy (drop n bs))"
        using 1 utf8_step_bounds(1) [OF Complete] False by (metis diff_less length_drop length_greater_0_conv)
      moreover have "utf8_ok (take n bs)"
        using Complete False by (cases bs) (auto simp: utf8_step.simps utf8_cont_def split: if_splits list.splits)
      ultimately show ?thesis using Complete utf8_lossy_step [OF False] by (simp add: utf8_ok_append_cancel)
    next
      case (Malformed n)
      have "utf8_ok (utf8_lossy (drop n bs))"
        using 1 utf8_step_bounds(2) [OF Malformed] False by (metis diff_less length_drop length_greater_0_conv)
      then show ?thesis using Malformed utf8_lossy_step [OF False] fffd by simp
    next
      case Unfinished
      then show ?thesis using utf8_lossy_step [OF False] fffd [of "[]"] by simp
    qed
  qed simp
qed

text \<open>At most three continuation bytes follow each other in valid text.\<close>

lemma utf8_cont_run: "utf8_ok bs \<Longrightarrow> length (takeWhile utf8_cont (drop i bs)) \<le> 3"
proof (induction bs arbitrary: i rule: length_induct)
  case (1 bs)
  show ?case
  proof (cases "bs = []")
    case False
    then obtain n where n: "utf8_step bs = Complete n" "utf8_ok (drop n bs)"
      using 1(2) utf8_ok_step by blast
    have len: "0 < n" "n \<le> length bs" using utf8_step_bounds(1) [OF n(1)] by simp_all
    have four: "n \<le> 4" using n(1) by (cases bs) (auto simp: utf8_step.simps split: if_splits list.splits)
    show ?thesis
    proof (cases "i < n")
      case True
      have "takeWhile utf8_cont (drop n bs) = []"
        using n(2) utf8_ok_Cons_lead by (cases "drop n bs") auto
      then have "length (takeWhile utf8_cont (drop i (take n bs) @ drop n bs)) \<le> n - i"
        using length_takeWhile_le [of utf8_cont "drop i (take n bs)"] len(2)
        by (cases "\<forall>x \<in> set (drop i (take n bs)). utf8_cont x") (auto simp: takeWhile_append)
      moreover have "drop i bs = drop i (take n bs) @ drop n bs"
        using True by (metis append_take_drop_id drop_append length_take len(2) min.absorb2 diff_is_0_eq drop_0 less_imp_le)
      moreover have "takeWhile utf8_cont bs = []"
        using 1(2) False utf8_ok_Cons_lead by (cases bs) auto
      ultimately show ?thesis using four by (cases i) simp_all
    next
      case F: False
      then have "drop i bs = drop (i - n) (drop n bs)" by simp
      moreover have "length (drop n bs) < length bs" using len False by (metis diff_less length_drop length_greater_0_conv)
      ultimately show ?thesis using 1(1) n(2) by metis
    qed
  qed simp
qed

end
