(* ===== verification/Text_Lines.thy ===== *)
theory Text_Lines
  imports Utf8
begin

text \<open>
  Lines of text and positions in a string, as the file tools use them: splitting at line feeds and
  joining again, \<open>str::find\<close>, \<open>str::replace\<close> and \<open>str::matches\<close> with a string pattern, and the
  character boundaries of a UTF-8 string.
\<close>

section \<open>Splitting and joining\<close>

lemma newline_chr: "newline = CHR 0x0A"
  by code_simp

lemma split_on_not_Nil [simp]: "split_on c s \<noteq> []"
  by (induction s) (auto split: list.splits)

lemma join_Cons_if: "join sep (x # xs) = (if xs = [] then x else x @ sep @ join sep xs)"
  by (cases xs) simp_all

lemma join_append:
  "xs \<noteq> [] \<Longrightarrow> ys \<noteq> [] \<Longrightarrow> join sep (xs @ ys) = join sep xs @ sep @ join sep ys"
  by (induction xs) (auto simp: join_Cons_if)

lemma join_split_on [simp]: "join [c] (split_on c s) = s"
  by (induction s) (auto simp: join_Cons_if split: list.splits)

lemma split_on_pieces: "l \<in> set (split_on c s) \<Longrightarrow> c \<notin> set l"
  by (induction s arbitrary: l) (auto split: list.splits if_splits)

lemma split_on_plain: "c \<notin> set s \<Longrightarrow> split_on c s = [s]"
  by (induction s) auto

lemma split_on_cut: "c \<notin> set x \<Longrightarrow> split_on c (x @ c # s) = x # split_on c s"
  by (induction x) auto

lemma split_on_join:
  "ls \<noteq> [] \<Longrightarrow> list_all (\<lambda>l. c \<notin> set l) ls \<Longrightarrow> split_on c (join [c] ls) = ls"
proof (induction ls)
  case (Cons l ls)
  then show ?case by (cases "ls = []") (simp_all add: join_Cons_if split_on_plain split_on_cut)
qed simp

lemma length_split_on: "length (split_on c s) = Suc (length (filter (\<lambda>x. x = c) s))"
  by (induction s) (auto split: list.splits)

lemma split_on_append:
  "split_on c (s @ t) = butlast (split_on c s) @ (last (split_on c s) @ hd (split_on c t)) # tl (split_on c t)"
proof (induction s)
  case Nil
  show ?case by (cases "split_on c t") auto
next
  case (Cons x s)
  show ?case
    by (cases "split_on c s" rule: rev_cases; cases "butlast (split_on c s)") (use Cons in \<open>auto split: list.splits\<close>)
qed

lemma last_split_on_sep: "last (split_on c (s @ [c])) = []"
  by (simp add: split_on_append)

lemma length_join: "length (join [c] ls) = sum_list (map length ls) + (length ls - 1)"
  by (induction ls) (auto simp: join_Cons_if)

lemma length_join_append: "length (join [c] xs) \<le> length (join [c] (xs @ ys))" "length (join [c] ys) \<le> length (join [c] (xs @ ys))"
  by (cases "xs = []"; cases "ys = []"; simp add: join_append)+

lemma length_join_take_mono: "j \<le> k \<Longrightarrow> length (join [c] (take j ls)) \<le> length (join [c] (take k ls))"
  using length_join_append(1) [of c "take j ls" "take (k - j) (drop j ls)"] by (simp add: take_add [symmetric])

lemma length_join_drop_mono: "j \<le> k \<Longrightarrow> length (join [c] (drop k ls)) \<le> length (join [c] (drop j ls))"
  using length_join_append(2) [of c "drop k ls" "take (k - j) (drop j ls)"] append_take_drop_id [of "k - j" "drop j ls"] by simp

section \<open>Searching and replacing\<close>

text \<open>\<open>str::find\<close>, \<open>str::matches(p).count()\<close> and \<open>str::replace\<close> for a string pattern that is not empty.\<close>

fun find_str :: "string \<Rightarrow> string \<Rightarrow> nat option" where
  "find_str [] p = (if p = [] then Some 0 else None)"
| "find_str (c # s) p = (if starts_with (c # s) p then Some 0 else map_option Suc (find_str s p))"

function count_matches :: "string \<Rightarrow> string \<Rightarrow> nat" where
  "count_matches s p =
    (if p = [] \<or> s = [] then 0
     else if starts_with s p then Suc (count_matches (drop (length p) s) p)
     else count_matches (tl s) p)"
  by pat_completeness auto
termination
  by (relation "measure (\<lambda>(s, p). length s)") auto

function replace_str :: "string \<Rightarrow> string \<Rightarrow> string \<Rightarrow> string" where
  "replace_str p r s =
    (if p = [] \<or> s = [] then s
     else if starts_with s p then r @ replace_str p r (drop (length p) s)
     else hd s # replace_str p r (tl s))"
  by pat_completeness auto
termination
  by (relation "measure (\<lambda>(p, r, s). length s)") auto

declare count_matches.simps [simp del] replace_str.simps [simp del]

lemma starts_with_iff: "starts_with s p \<longleftrightarrow> (\<exists>t. s = p @ t)"
  unfolding starts_with_def by (metis append_eq_conv_conj append_take_drop_id)

lemma find_str_SomeD: "find_str s p = Some i \<Longrightarrow> \<exists>b. s = take i s @ p @ b \<and> i + length p \<le> length s"
proof (induction s arbitrary: i)
  case (Cons c s)
  show ?case
  proof (cases "starts_with (c # s) p")
    case True
    then obtain t where t: "c # s = p @ t" by (auto simp: starts_with_iff)
    then have "length (c # s) = length p + length t" by simp
    moreover have "i = 0" using Cons.prems True by simp
    ultimately show ?thesis using t by simp
  next
    case False
    then obtain i' where i: "find_str s p = Some i'" "i = Suc i'" using Cons.prems by auto
    then show ?thesis using Cons.IH by auto
  qed
qed (simp split: if_splits)

lemma find_str_first:
  "find_str s p = Some i \<Longrightarrow> j < i \<Longrightarrow> \<not> starts_with (drop j s) p"
proof (induction s arbitrary: i j)
  case (Cons c s)
  then obtain i' where i': "find_str s p = Some i'" "i = Suc i'" by (auto split: if_splits)
  show ?case using Cons.prems i' Cons.IH [OF i'(1)] by (cases j) (auto split: if_splits)
qed (simp split: if_splits)

lemma find_str_None: "find_str s p = None \<longleftrightarrow> (\<nexists>a b. s = a @ p @ b)"
proof (induction s)
  case (Cons c s)
  have "(\<exists>a b. c # s = a @ p @ b) \<longleftrightarrow> (\<exists>b. c # s = p @ b) \<or> (\<exists>a b. s = a @ p @ b)"
    by (metis append_Cons append_Nil list.exhaust list.inject)
  then show ?case using Cons by (auto simp: starts_with_iff)
qed simp

lemma replace_char_append [simp]: "replace_char c r (a @ b) = replace_char c r a @ replace_char c r b"
  by (simp add: replace_char_def)

lemma replace_char_Nil [simp]: "replace_char c r [] = []"
  by (simp add: replace_char_def)

lemma replace_char_Cons [simp]: "replace_char c r (x # s) = (if x = c then r else [x]) @ replace_char c r s"
  by (simp add: replace_char_def)

section \<open>Character boundaries\<close>

abbreviation cont_char :: "char \<Rightarrow> bool" where
  "cont_char c \<equiv> utf8_cont (of_char c)"

text \<open>\<open>str::is_char_boundary\<close>; a string slice panics at an index that is none.\<close>

definition is_char_boundary :: "string \<Rightarrow> nat \<Rightarrow> bool" where
  "is_char_boundary s i \<longleftrightarrow> i = length s \<or> (i < length s \<and> \<not> cont_char (s ! i))"

text \<open>The first index from \<open>i\<close> on at which a character starts, or the end.\<close>

function skip_to_char :: "string \<Rightarrow> nat \<Rightarrow> nat" where
  "skip_to_char s i = (if i < length s \<and> cont_char (s ! i) then skip_to_char s (Suc i) else i)"
  by pat_completeness auto
termination
  by (relation "measure (\<lambda>(s, i). length s - i)") auto

declare skip_to_char.simps [simp del]

lemma drop_skip_to_char: "drop (skip_to_char s i) s = dropWhile cont_char (drop i s)"
proof (induction s i rule: skip_to_char.induct)
  case (1 s i)
  then show ?case
    by (cases "i < length s")
      (simp_all add: skip_to_char.simps [of s i] Cons_nth_drop_Suc [symmetric])
qed

lemma skip_to_char_ge: "i \<le> skip_to_char s i"
proof (induction s i rule: skip_to_char.induct)
  case (1 s i)
  then show ?case by (subst skip_to_char.simps) auto
qed

lemma skip_to_char_le: "i \<le> length s \<Longrightarrow> skip_to_char s i \<le> length s"
proof (induction s i rule: skip_to_char.induct)
  case (1 s i)
  then show ?case by (subst skip_to_char.simps) auto
qed

end
