(* ===== verification/Truncate.thy ===== *)
theory Truncate
  imports Text_Lines Token_Estimate
begin

text \<open>
  Truncation of tool output (\<open>core/tools/truncate.rs\<close>): at most so many lines and so many bytes,
  counted from the head or from the tail. Strings are their UTF-8 bytes. \<open>truncate_head\<close> indexes the
  first line without a check, so its model returns \<open>None\<close> where the code would panic.
\<close>

section \<open>The operations\<close>

definition DEFAULT_MAX_LINES :: nat where "DEFAULT_MAX_LINES = 2000"
definition DEFAULT_MAX_BYTES :: nat where "DEFAULT_MAX_BYTES = 50 * 1024"

datatype TruncatedBy = ByLines | ByBytes

record TruncationResult =
  tr_content :: string
  truncated :: bool
  truncated_by :: "TruncatedBy option"
  total_lines :: nat
  total_bytes :: nat
  output_lines :: nat
  output_bytes :: nat
  last_line_partial :: bool
  first_line_exceeds_limit :: bool
  tr_max_lines :: nat
  tr_max_bytes :: nat

record TruncationOptions =
  opt_max_lines :: "nat option"
  opt_max_bytes :: "nat option"

fun unwrap_or :: "'a option \<Rightarrow> 'a \<Rightarrow> 'a" where
  "unwrap_or (Some x) _ = x"
| "unwrap_or None d = d"

definition resolve :: "TruncationOptions \<Rightarrow> nat \<times> nat" where
  "resolve opts =
    (unwrap_or (opt_max_lines opts) DEFAULT_MAX_LINES, unwrap_or (opt_max_bytes opts) DEFAULT_MAX_BYTES)"

definition ends_with_newline :: "string \<Rightarrow> bool" where
  "ends_with_newline s \<longleftrightarrow> s \<noteq> [] \<and> last s = newline"

definition split_lines_for_counting :: "string \<Rightarrow> string list" where
  "split_lines_for_counting s =
    (if s = [] then []
     else let lines = split_on newline s in if ends_with_newline s then butlast lines else lines)"

text \<open>
  \<open>{:.1}\<close> of a quotient by a power of two, which is exact below \<open>2^53\<close>: the nearest tenth, ties to
  the even digit.
\<close>

definition tenths :: "nat \<Rightarrow> nat \<Rightarrow> nat" where
  "tenths n d =
    (let q = n * 10 div d; r = n * 10 mod d
     in if 2 * r > d \<or> (2 * r = d \<and> odd q) then q + 1 else q)"

definition show_tenths :: "nat \<Rightarrow> string" where
  "show_tenths t = show_nat (t div 10) @ ''.'' @ show_nat (t mod 10)"

definition format_size :: "nat \<Rightarrow> string" where
  "format_size bytes =
    (if bytes < 1024 then show_nat bytes @ ''B''
     else if bytes < 1024 * 1024 then show_tenths (tenths bytes 1024) @ ''KB''
     else show_tenths (tenths bytes (1024 * 1024)) @ ''MB'')"

definition untruncated :: "string \<Rightarrow> nat \<Rightarrow> nat \<Rightarrow> nat \<times> nat \<Rightarrow> TruncationResult" where
  "untruncated s lines bytes limits =
    \<lparr>tr_content = s, truncated = False, truncated_by = None, total_lines = lines, total_bytes = bytes,
     output_lines = lines, output_bytes = bytes, last_line_partial = False,
     first_line_exceeds_limit = False, tr_max_lines = fst limits, tr_max_bytes = snd limits\<rparr>"

text \<open>The loop of \<open>truncate_head\<close> over \<open>lines.iter().enumerate().take(max_lines)\<close>.\<close>

fun head_loop ::
  "nat \<Rightarrow> nat \<Rightarrow> string list \<Rightarrow> nat \<Rightarrow> string list \<Rightarrow> string list \<times> nat \<times> TruncatedBy" where
  "head_loop max_bytes index out count [] = (out, count, ByLines)"
| "head_loop max_bytes index out count (line # lines) =
    (let line_bytes = length line + (if index > 0 then 1 else 0)
     in if count + line_bytes > max_bytes then (out, count, ByBytes)
        else head_loop max_bytes (Suc index) (out @ [line]) (count + line_bytes) lines)"

definition truncate_head :: "string \<Rightarrow> TruncationOptions \<Rightarrow> TruncationResult option" where
  "truncate_head s opts =
    (let (max_lines, max_bytes) = resolve opts;
         bytes = length s;
         lines = split_lines_for_counting s;
         count = length lines
     in if count \<le> max_lines \<and> bytes \<le> max_bytes then Some (untruncated s count bytes (max_lines, max_bytes))
        else (case lines of
           [] \<Rightarrow> None
         | first # _ \<Rightarrow>
             if length first > max_bytes then
               Some \<lparr>tr_content = [], truncated = True, truncated_by = Some ByBytes, total_lines = count,
                 total_bytes = bytes, output_lines = 0, output_bytes = 0, last_line_partial = False,
                 first_line_exceeds_limit = True, tr_max_lines = max_lines, tr_max_bytes = max_bytes\<rparr>
             else
               let (out, n, by0) = head_loop max_bytes 0 [] 0 (take max_lines lines);
                   by1 = (if length out \<ge> max_lines \<and> n \<le> max_bytes then ByLines else by0);
                   output = join [newline] out
               in Some \<lparr>tr_content = output, truncated = True, truncated_by = Some by1, total_lines = count,
                    total_bytes = bytes, output_lines = length out, output_bytes = length output,
                    last_line_partial = False, first_line_exceeds_limit = False,
                    tr_max_lines = max_lines, tr_max_bytes = max_bytes\<rparr>))"

definition truncate_string_to_bytes_from_end :: "string \<Rightarrow> nat \<Rightarrow> string" where
  "truncate_string_to_bytes_from_end s max_bytes =
    (if length s \<le> max_bytes then s
     else from_utf8_lossy (drop (skip_to_char s (length s - max_bytes)) s))"

text \<open>The loop of \<open>truncate_tail\<close> over the lines from the last one up.\<close>

fun tail_loop ::
  "nat \<Rightarrow> nat \<Rightarrow> string list \<Rightarrow> nat \<Rightarrow> string list \<Rightarrow> string list \<times> nat \<times> TruncatedBy \<times> bool" where
  "tail_loop max_lines max_bytes out count [] = (out, count, ByLines, False)"
| "tail_loop max_lines max_bytes out count (line # rest) =
    (if length out \<ge> max_lines then (out, count, ByLines, False)
     else
       let line_bytes = length line + (if out \<noteq> [] then 1 else 0)
       in if count + line_bytes > max_bytes then
            (if out = [] then
               let part = truncate_string_to_bytes_from_end line max_bytes
               in ([part], length part, ByBytes, True)
             else (out, count, ByBytes, False))
          else tail_loop max_lines max_bytes (line # out) (count + line_bytes) rest)"

definition truncate_tail :: "string \<Rightarrow> TruncationOptions \<Rightarrow> TruncationResult" where
  "truncate_tail s opts =
    (let (max_lines, max_bytes) = resolve opts;
         bytes = length s;
         lines = split_lines_for_counting s;
         count = length lines
     in if count \<le> max_lines \<and> bytes \<le> max_bytes then untruncated s count bytes (max_lines, max_bytes)
        else
          let (out, n, by0, partial) = tail_loop max_lines max_bytes [] 0 (rev lines);
              by1 = (if length out \<ge> max_lines \<and> n \<le> max_bytes then ByLines else by0);
              output = join [newline] out
          in \<lparr>tr_content = output, truncated = True, truncated_by = Some by1, total_lines = count,
               total_bytes = bytes, output_lines = length out, output_bytes = length output,
               last_line_partial = partial, first_line_exceeds_limit = False,
               tr_max_lines = max_lines, tr_max_bytes = max_bytes\<rparr>)"

record TruncatedLine =
  tl_text :: string
  was_truncated :: bool

text \<open>The loop of \<open>truncate_line\<close>: the bytes before the first character that no longer fits.\<close>

fun line_end :: "nat \<Rightarrow> nat \<Rightarrow> nat \<Rightarrow> string list \<Rightarrow> nat" where
  "line_end max_chars index units [] = index"
| "line_end max_chars index units (ch # chs) =
    (let width = (if length ch = 4 then 2 else 1)
     in if units + width > max_chars then index
        else line_end max_chars (index + length ch) (units + width) chs)"

definition truncate_line :: "string \<Rightarrow> nat \<Rightarrow> TruncatedLine" where
  "truncate_line line max_chars =
    (if utf16_count line \<le> max_chars then \<lparr>tl_text = line, was_truncated = False\<rparr>
     else \<lparr>tl_text = take (line_end max_chars 0 0 (chars line)) line @ ''... [truncated]'', was_truncated = True\<rparr>)"

text \<open>Evaluation on concrete inputs.\<close>

lemmas truncate_tail_eval = truncate_tail_def resolve_def split_lines_for_counting_def ends_with_newline_def
  newline_chr Let_def untruncated_def

section \<open>Lines\<close>

lemma split_lines_Nil [simp]: "split_lines_for_counting [] = []"
  by (simp add: split_lines_for_counting_def)

lemma split_lines_eq_Nil [simp]: "split_lines_for_counting s = [] \<longleftrightarrow> s = []"
proof -
  have "length (split_on newline s) \<ge> 2" if "ends_with_newline s"
  proof -
    have "s = butlast s @ [newline]" using that by (metis append_butlast_last_id ends_with_newline_def)
    then have "newline \<in> set s" by (metis in_set_conv_decomp)
    then show ?thesis by (auto simp: length_split_on in_set_conv_decomp)
  qed
  then show ?thesis by (auto simp: split_lines_for_counting_def Let_def butlast_conv_take)
qed

text \<open>The lines, joined again, are the text without its final line feed.\<close>

lemma join_split_lines:
  "join [newline] (split_lines_for_counting s) = (if ends_with_newline s then butlast s else s)"
proof (cases "ends_with_newline s")
  case True
  then have ne: "s \<noteq> []" and s: "s = butlast s @ [newline]"
    by (auto simp: ends_with_newline_def) (metis append_butlast_last_id)
  have "split_on newline s = split_on newline (butlast s) @ [[]]"
    using s split_on_append [of newline "butlast s" "[newline]"]
    by (metis append.right_neutral append_butlast_last_id list.sel(1,3) split_on.simps split_on_not_Nil append_Cons append_assoc append_Nil)
  then show ?thesis using True ne by (simp add: split_lines_for_counting_def)
qed (auto simp: split_lines_for_counting_def Let_def)

lemma split_lines_no_newline: "l \<in> set (split_lines_for_counting s) \<Longrightarrow> newline \<notin> set l"
  by (auto simp: split_lines_for_counting_def Let_def split: if_splits dest: in_set_butlastD split_on_pieces)

section \<open>Truncation from the head\<close>

lemma head_loop_lines:
  assumes "head_loop mb i out n lines = (out', n', by0)" and "i = length out"
    and "n = length (join [newline] out)" and "n \<le> mb"
  shows "\<exists>k \<le> length lines. out' = out @ take k lines \<and> length (join [newline] out') \<le> mb \<and>
    (k < length lines \<longrightarrow> length (join [newline] (out @ take (Suc k) lines)) > mb) \<and>
    n' = length (join [newline] out')"
  using assms
proof (induction mb i out n lines rule: head_loop.induct)
  case (2 mb i out n line lines)
  have len: "length (join [newline] (out @ [line])) = n + (length line + (if i > 0 then 1 else 0))"
    using 2(3,4) by (cases "out = []") (simp_all add: join_append)
  show ?case
  proof (cases "n + (length line + (if i > 0 then 1 else 0)) > mb")
    case True
    then have "out' = out" "n' = n" using 2(2) by (simp_all add: Let_def split: if_splits)
    then show ?thesis using True len 2(4,5) by (intro exI [of _ 0]) simp
  next
    case False
    obtain k where k: "k \<le> length lines" "out' = (out @ [line]) @ take k lines"
      "length (join [newline] out') \<le> mb"
      "k < length lines \<longrightarrow> length (join [newline] ((out @ [line]) @ take (Suc k) lines)) > mb"
      "n' = length (join [newline] out')"
      using 2(1) [OF refl False] 2(2,3) False len by (auto simp: Let_def)
    then show ?thesis by (intro exI [of _ "Suc k"]) simp
  qed
qed auto


text \<open>What is shown of a text: the reference for both directions.\<close>

lemma text_fits:
  assumes "split_lines_for_counting s = lines" and "length lines \<le> ml" and "length s \<le> mb"
  shows "length (join [newline] lines) \<le> mb"
  using assms join_split_lines [of s] by (auto split: if_splits)

lemma truncate_head_cases:
  assumes "resolve opts = (ml, mb)" and "split_lines_for_counting s = lines"
  obtains (whole) "length lines \<le> ml" "length s \<le> mb"
      "truncate_head s opts = Some (untruncated s (length lines) (length s) (ml, mb))"
  | (first) r line rest where "length lines > ml \<or> length s > mb" "lines = line # rest" "length line > mb"
      "truncate_head s opts = Some r" "tr_content r = []" "truncated r" "output_lines r = 0"
      "output_bytes r = 0" "first_line_exceeds_limit r" "total_lines r = length lines"
  | (part) r k where "length lines > ml \<or> length s > mb" "truncate_head s opts = Some r" "truncated r"
      "\<not> first_line_exceeds_limit r" "k \<le> length lines" "k \<le> ml" "tr_content r = join [newline] (take k lines)"
      "output_lines r = k" "output_bytes r = length (tr_content r)" "output_bytes r \<le> mb"
      "k < ml \<longrightarrow> k < length lines \<longrightarrow> length (join [newline] (take (Suc k) lines)) > mb"
      "0 < ml \<longrightarrow> 0 < k" "total_lines r = length lines"
proof (cases "length lines \<le> ml \<and> length s \<le> mb")
  case True
  then show ?thesis using whole assms by (simp add: truncate_head_def)
next
  case False
  then obtain line rest where l: "lines = line # rest"
    using assms(2) by (cases lines) (auto dest: arg_cong [of _ _ "\<lambda>x. x = []"])
  show ?thesis
  proof (cases "length line > mb")
    case True
    then show ?thesis using False assms l by (intro first [of line rest]) (auto simp: truncate_head_def Let_def)
  next
    case fits: False
    obtain out n by0 where loop: "head_loop mb 0 [] 0 (take ml lines) = (out, n, by0)" by (metis prod_cases3)
    have "\<exists>k \<le> length (take ml lines). out = take k (take ml lines) \<and> length (join [newline] out) \<le> mb \<and>
      (k < length (take ml lines) \<longrightarrow> length (join [newline] (take (Suc k) (take ml lines))) > mb)"
      using head_loop_lines [OF loop] by auto
    then obtain k where k: "k \<le> length (take ml lines)" "out = take k (take ml lines)" "length (join [newline] out) \<le> mb"
      "k < length (take ml lines) \<longrightarrow> length (join [newline] (take (Suc k) (take ml lines))) > mb" by blast
    have "0 < k" if "0 < ml" using k(4) fits l that by (cases k) auto
    moreover have len: "length out = k" using k(1,2) by simp
    moreover have "\<exists>r. truncate_head s opts = Some r \<and> tr_content r = join [newline] out \<and> truncated r \<and>
        \<not> first_line_exceeds_limit r \<and> output_lines r = length out \<and>
        output_bytes r = length (join [newline] out) \<and> total_lines r = length lines"
      using False fits loop assms l by (auto simp add: truncate_head_def Let_def)
    moreover have "length lines > ml \<or> length s > mb" using False by auto
    ultimately show ?thesis using k by (elim exE conjE) (rule part [of _ k]; force)
  qed
qed

lemma truncate_head_total: "truncate_head s opts \<noteq> None"
proof -
  obtain ml mb where "resolve opts = (ml, mb)" by fastforce
  then show ?thesis by (rule truncate_head_cases [OF _ refl]) auto
qed

section \<open>Truncation from the tail\<close>

lemma drop_skip_to_char_valid: "utf8_valid s \<Longrightarrow> utf8_valid (drop (skip_to_char s i) s)"
proof -
  let ?i = "skip_to_char s i"
  assume s: "utf8_valid s"
  have "drop ?i s = [] \<or> \<not> cont_char (hd (drop ?i s))"
    unfolding drop_skip_to_char using hd_dropWhile [of cont_char "drop i s"] by blast
  then show ?thesis using utf8_valid_split [of "take ?i s" "drop ?i s"] s by simp
qed

lemma from_end_valid:
  assumes "utf8_valid s"
  shows "truncate_string_to_bytes_from_end s mb =
    (if length s \<le> mb then s else drop (skip_to_char s (length s - mb)) s)"
  using drop_skip_to_char_valid [OF assms]
  by (simp add: truncate_string_to_bytes_from_end_def from_utf8_lossy_valid)

lemma from_end_bound: "utf8_valid s \<Longrightarrow> length (truncate_string_to_bytes_from_end s mb) \<le> mb"
  using skip_to_char_ge [of "length s - mb" s] by (auto simp: from_end_valid)

lemma tail_loop_lines:
  assumes "tail_loop ml mb out n (rev lines) = (out', n', by0, partial)"
    and "n = length (join [newline] out)" and "n \<le> mb" and "length out \<le> ml"
  shows "(\<exists>k \<le> length lines. \<not> partial \<and> out' = drop k lines @ out \<and> length out' \<le> ml \<and>
      n' = length (join [newline] out') \<and> n' \<le> mb \<and>
      (0 < k \<longrightarrow> length out' < ml \<longrightarrow> out' \<noteq> [] \<and> length (join [newline] (drop (k - 1) lines @ out)) > mb)) \<or>
    (partial \<and> out = [] \<and> lines \<noteq> [] \<and> length (last lines) > mb \<and> 0 < ml \<and>
      out' = [truncate_string_to_bytes_from_end (last lines) mb] \<and> n' = length (hd out'))"
  using assms
proof (induction lines arbitrary: out n rule: rev_induct)
  case (snoc line lines)
  let ?b = "length line + (if out \<noteq> [] then 1 else 0)"
  have len: "length (join [newline] (line # out)) = n + ?b"
    using snoc(3) by (simp add: join_Cons_if)
  show ?case
  proof (cases "length out \<ge> ml \<or> n + ?b > mb")
    case True
    then show ?thesis
    proof (cases "length out < ml \<and> out = []")
      case T: True
      then show ?thesis using snoc(2-) True by (auto simp: Let_def)
    next
      case F: False
      then have "out' = out" "n' = n" "\<not> partial" using snoc(2) True by (auto simp: Let_def split: if_splits)
      then show ?thesis using snoc(3-) True F len
        by (intro disjI1 exI [of _ "length (lines @ [line])"]) auto
    qed
  next
    case False
    then have rec: "tail_loop ml mb (line # out) (n + ?b) (rev lines) = (out', n', by0, partial)"
      using snoc(2) by (simp add: Let_def)
    have prems: "n + ?b = length (join [newline] (line # out))" "n + ?b \<le> mb" "length (line # out) \<le> ml"
      using False len by auto
    obtain k where k: "k \<le> length lines" "\<not> partial" "out' = drop k lines @ line # out" "length out' \<le> ml"
      "n' = length (join [newline] out')" "n' \<le> mb"
      "0 < k \<longrightarrow> length out' < ml \<longrightarrow> length (join [newline] (drop (k - 1) lines @ line # out)) > mb"
      using snoc(1) [OF rec prems] by (elim disjE exE conjE) simp_all
    have "drop (k - 1) (lines @ [line]) @ out = drop (k - 1) lines @ line # out" using k(1) by simp
    then show ?thesis using k by (intro disjI1 exI [of _ k]) auto
  qed
qed auto

lemma split_lines_valid:
  assumes "utf8_valid s" and "l \<in> set (split_on newline s)"
  shows "utf8_valid l"
  using assms
proof (induction "split_on newline s" arbitrary: s)
  case (Cons x xs)
  have s: "s = join [newline] (x # xs)" using Cons(2) by (metis join_split_on)
  show ?case
  proof (cases "xs = []")
    case True
    then have "split_on newline s = [s]" using Cons(2) s by simp
    then show ?thesis using Cons(3,4) by simp
  next
    case False
    let ?t = "join [newline] xs"
    have nl: "\<not> cont_char newline" "utf8_valid [newline]"
      by (simp_all add: newline_def utf8_cont_def utf8_valid_def)
    have s': "s = x @ newline # ?t" using s False by (simp add: join_Cons_if)
    have x: "utf8_valid x" "utf8_valid (newline # ?t)"
      using utf8_valid_split [of x "newline # ?t"] Cons(3) s' nl by auto
    have t: "utf8_valid ?t" using x(2) utf8_valid_append [OF nl(2), of ?t] by simp
    have "split_on newline ?t = xs"
      using False split_on_join [of xs newline] Cons(2) split_on_pieces [of _ newline s]
      by (metis list.set_intros(2) list_all_iff)
    then show ?thesis using Cons(1) [of ?t] Cons(2,4) x t by (metis set_ConsD)
  qed
qed simp


lemma split_lines_valid_counting:
  "utf8_valid s \<Longrightarrow> l \<in> set (split_lines_for_counting s) \<Longrightarrow> utf8_valid l"
  using split_lines_valid
  by (auto simp: split_lines_for_counting_def Let_def split: if_splits dest: in_set_butlastD)

text \<open>
  C24: Truncation from the tail. For a valid UTF-8 text the result never exceeds the line limit or the
  byte limit, and its counters say exactly what it holds. A text within both limits is returned as it
  is. Otherwise the result consists of the last lines, as many as fit, and one more line would not
  have fitted; when not even the last line fits, it is a final piece of that line that does not begin
  in the middle of a character.
\<close>

theorem tail_truncation:
  assumes "utf8_valid s" and "resolve opts = (ml, mb)" and "r = truncate_tail s opts"
    and "lines = split_lines_for_counting s"
  shows "output_lines r \<le> ml \<and> output_bytes r = length (tr_content r) \<and> output_bytes r \<le> mb \<and>
    total_lines r = length lines \<and> total_bytes r = length s \<and>
    (truncated r \<longleftrightarrow> length lines > ml \<or> length s > mb) \<and>
    (\<not> truncated r \<longrightarrow> tr_content r = s) \<and>
    (truncated r \<longrightarrow> \<not> last_line_partial r \<longrightarrow>
       tr_content r = join [newline] (drop (length lines - output_lines r) lines) \<and>
       (output_lines r < ml \<longrightarrow> output_lines r < length lines \<longrightarrow>
          length (join [newline] (drop (length lines - Suc (output_lines r)) lines)) > mb)) \<and>
    (last_line_partial r \<longrightarrow>
       lines \<noteq> [] \<and> length (last lines) > mb \<and> utf8_valid (tr_content r) \<and>
       (\<exists>cut. last lines = cut @ tr_content r))"
proof (cases "length lines \<le> ml \<and> length s \<le> mb")
  case True
  then show ?thesis using assms by (simp add: truncate_tail_def untruncated_def Let_def)
next
  case False
  obtain out n by0 partial where loop: "tail_loop ml mb [] 0 (rev lines) = (out, n, by0, partial)"
    by (metis prod_cases4)
  have r: "tr_content r = join [newline] out" "truncated r" "output_lines r = length out"
    "output_bytes r = length (join [newline] out)" "last_line_partial r = partial"
    "total_lines r = length lines" "total_bytes r = length s"
    using loop unfolding assms(3) truncate_tail_def assms(2) prod.case Let_def assms(4) [symmetric] if_not_P [OF False]
    by simp_all
  have "(\<exists>k \<le> length lines. \<not> partial \<and> out = drop k lines \<and> length out \<le> ml \<and> length (join [newline] out) \<le> mb \<and>
      (0 < k \<longrightarrow> length out < ml \<longrightarrow> length (join [newline] (drop (k - 1) lines)) > mb)) \<or>
    (partial \<and> lines \<noteq> [] \<and> length (last lines) > mb \<and> 0 < ml \<and>
      out = [truncate_string_to_bytes_from_end (last lines) mb])"
    using tail_loop_lines [OF loop] by auto
  then consider k where "k \<le> length lines" "\<not> partial" "out = drop k lines" "length out \<le> ml"
      "length (join [newline] out) \<le> mb"
      "0 < k \<longrightarrow> length out < ml \<longrightarrow> length (join [newline] (drop (k - 1) lines)) > mb"
    | "partial" "lines \<noteq> []" "length (last lines) > mb" "0 < ml"
      "out = [truncate_string_to_bytes_from_end (last lines) mb]"
    by blast
  then show ?thesis
  proof cases
    case 1
    moreover have "length lines - (length lines - k) = k" "length lines - Suc (length lines - k) = k - 1"
      using 1(1) by auto
    ultimately show ?thesis using r False by auto
  next
    case 2
    have v: "utf8_valid (last lines)" using split_lines_valid_counting [OF assms(1)] 2(2) assms(4) by simp
    let ?p = "truncate_string_to_bytes_from_end (last lines) mb"
    let ?i = "skip_to_char (last lines) (length (last lines) - mb)"
    have p: "?p = drop ?i (last lines)" using 2(3) from_end_valid [OF v] by simp
    have "utf8_valid ?p" unfolding p by (rule drop_skip_to_char_valid [OF v])
    moreover have "length ?p \<le> mb" by (rule from_end_bound [OF v])
    moreover have "\<exists>cut. last lines = cut @ ?p" unfolding p by (metis append_take_drop_id)
    moreover have "length lines > ml \<or> length s > mb" using False by auto
    ultimately show ?thesis using r 2 by simp
  qed
qed

theorem tail_truncation_witness:
  "tr_content (truncate_tail (''ab'' @ [newline] @ ''cde'' @ [newline] @ ''fg'') \<lparr>opt_max_lines = Some 5, opt_max_bytes = Some 6\<rparr>) =
     ''cde'' @ [newline] @ ''fg'' \<and>
   output_bytes (truncate_tail (''ab'' @ [newline] @ ''cde'' @ [newline] @ ''fg'') \<lparr>opt_max_lines = Some 5, opt_max_bytes = Some 6\<rparr>) \<le> 6"
proof -
  let ?s = "''ab'' @ [newline] @ ''cde'' @ [newline] @ ''fg''"
  let ?o = "\<lparr>opt_max_lines = Some 5, opt_max_bytes = Some 6\<rparr>"
  have v: "utf8_valid ?s" by code_simp
  have o: "resolve ?o = (5, 6)" by (simp add: resolve_def)
  have "tr_content (truncate_tail ?s ?o) = ''cde'' @ [newline] @ ''fg''" by (simp add: truncate_tail_eval)
  then show ?thesis using tail_truncation [OF v o refl refl] by blast
qed

text \<open>
  Only the end of a text decides what is kept of it: cutting it after a line feed, with more than
  \<open>max_bytes\<close> bytes left, changes nothing.
\<close>

lemma tail_loop_more:
  assumes "out \<noteq> [] \<or> xs \<noteq> []" and "n = length (join [newline] out)"
    and "mb \<le> length (join [newline] (rev xs @ out))"
  shows "tail_loop ml mb out n (xs @ ys) = tail_loop ml mb out n xs \<or>
    (let (out1, n1, b1, p1) = tail_loop ml mb out n (xs @ ys); (out2, n2, b2, p2) = tail_loop ml mb out n xs
     in out1 = out2 \<and> n1 = n2 \<and> p1 = p2)"
  using assms
proof (induction xs arbitrary: out n)
  case Nil
  then show ?case by (cases ys) (auto simp: Let_def)
next
  case (Cons line xs)
  let ?b = "length line + (if out \<noteq> [] then 1 else 0)"
  have n: "n + ?b = length (join [newline] (line # out))" using Cons(3) by (simp add: join_Cons_if)
  show ?case using Cons(1) [of "line # out", OF _ n] Cons(4) by (auto simp: Let_def)
qed

end
