(* ===== verification/Output_Accumulator.thy ===== *)
theory Output_Accumulator
  imports Truncate
begin

text \<open>
  The output of a running command (\<open>core/tools/output_accumulator.rs\<close>): bytes arrive in chunks, are
  decoded across chunk borders, counted, kept in a rolling tail and, once the output is large, written
  in full to a temporary file. The file system is an argument of the operations that touch it:
  \<open>create_path\<close> is the path \<open>File::create\<close> succeeds with, \<open>write_all\<close> what reaches the file of the
  bytes given to it. The field \<open>temp_data\<close> is the content of the file at \<open>temp_file_path\<close>;
  \<open>temp_file\<close> says whether its handle is open. \<open>append\<close> on a finished accumulator panics: \<open>None\<close>.
\<close>

section \<open>The operations\<close>

record OutputAccumulatorOptions =
  oo_max_lines :: nat
  oo_max_bytes :: nat
  oo_temp_file_prefix :: string

record OutputAccumulator =
  acc_max_lines :: nat
  acc_max_bytes :: nat
  max_rolling_bytes :: nat
  temp_file_prefix :: string
  pending_bytes :: string
  raw_chunks :: "string list"
  tail_text :: string
  tail_bytes :: nat
  tail_starts_at_line_boundary :: bool
  total_raw_bytes :: nat
  total_decoded_bytes :: nat
  completed_lines :: nat
  acc_total_lines :: nat
  current_line_bytes :: nat
  has_open_line :: bool
  finished :: bool
  temp_file_path :: "string option"
  temp_file :: bool
  temp_data :: string

record Sink =
  create_path :: "string option"
  write_all :: "string \<Rightarrow> string"

record OutputSnapshot =
  snap_content :: string
  truncation :: TruncationResult
  snap_full_output_path :: "string option"

definition OutputAccumulatorOptions_default :: OutputAccumulatorOptions where
  "OutputAccumulatorOptions_default =
    \<lparr>oo_max_lines = DEFAULT_MAX_LINES, oo_max_bytes = DEFAULT_MAX_BYTES, oo_temp_file_prefix = ''notagent-output''\<rparr>"

definition accumulator_new :: "OutputAccumulatorOptions \<Rightarrow> OutputAccumulator" where
  "accumulator_new opts =
    \<lparr>acc_max_lines = oo_max_lines opts, acc_max_bytes = oo_max_bytes opts,
     max_rolling_bytes = max (oo_max_bytes opts * 2) 1, temp_file_prefix = oo_temp_file_prefix opts,
     pending_bytes = [], raw_chunks = [], tail_text = [], tail_bytes = 0,
     tail_starts_at_line_boundary = True, total_raw_bytes = 0, total_decoded_bytes = 0,
     completed_lines = 0, acc_total_lines = 0, current_line_bytes = 0, has_open_line = False,
     finished = False, temp_file_path = None, temp_file = False, temp_data = []\<rparr>"

text \<open>The decoded text of the bytes held so far, and the bytes of a character that is not complete yet.\<close>

function decode_streaming :: "string \<Rightarrow> string \<times> string" where
  "decode_streaming bytes =
    (case utf8_error (map of_char bytes) of
       None \<Rightarrow> (bytes, [])
     | Some (valid_up_to, None) \<Rightarrow> (from_utf8_lossy (take valid_up_to bytes), drop valid_up_to bytes)
     | Some (valid_up_to, Some error_len) \<Rightarrow>
         (case decode_streaming (drop (valid_up_to + error_len) bytes) of
            (decoded, pending) \<Rightarrow> (from_utf8_lossy (take valid_up_to bytes) @ replacement @ decoded, pending)))"
  by pat_completeness auto
termination
proof (relation "measure length")
  fix bytes x v e n
  assume "utf8_error (map of_char bytes) = Some x" "(v, e) = x" "e = Some n"
  then show "(drop (v + n) bytes, bytes) \<in> measure length"
    using utf8_error_decrease [of "map of_char bytes" v n] by auto
qed simp

declare decode_streaming.simps [simp del]

definition trim_tail :: "OutputAccumulator \<Rightarrow> OutputAccumulator" where
  "trim_tail acc =
    (if length (tail_text acc) \<le> max_rolling_bytes acc then acc\<lparr>tail_bytes := length (tail_text acc)\<rparr>
     else
       let start = skip_to_char (tail_text acc) (length (tail_text acc) - max_rolling_bytes acc);
           boundary = (if start \<noteq> 0 then tail_text acc ! (start - 1) = newline
                       else tail_starts_at_line_boundary acc);
           kept = from_utf8_lossy (drop start (tail_text acc))
       in acc\<lparr>tail_starts_at_line_boundary := boundary, tail_text := kept, tail_bytes := length kept\<rparr>)"

definition append_decoded_text :: "string \<Rightarrow> OutputAccumulator \<Rightarrow> OutputAccumulator" where
  "append_decoded_text s acc =
    (if s = [] then acc
     else
       let bytes = length s;
           acc1 = acc\<lparr>total_decoded_bytes := total_decoded_bytes acc + bytes,
             tail_text := tail_text acc @ s, tail_bytes := tail_bytes acc + bytes\<rparr>;
           acc2 = (if tail_bytes acc1 > max_rolling_bytes acc1 * 2 then trim_tail acc1 else acc1);
           newlines = length (filter (\<lambda>c. c = newline) s);
           acc3 = (if newlines = 0 then
                acc2\<lparr>current_line_bytes := current_line_bytes acc2 + bytes, has_open_line := True\<rparr>
              else
                let rest = last (split_on newline s)
                in acc2\<lparr>completed_lines := completed_lines acc2 + newlines,
                     current_line_bytes := length rest, has_open_line := rest \<noteq> []\<rparr>)
       in acc3\<lparr>acc_total_lines := completed_lines acc3 + (if has_open_line acc3 then 1 else 0)\<rparr>)"

definition snapshot_text :: "OutputAccumulator \<Rightarrow> string" where
  "snapshot_text acc =
    (if tail_starts_at_line_boundary acc then tail_text acc
     else (case find_str (tail_text acc) [newline] of
        Some i \<Rightarrow> drop (Suc i) (tail_text acc)
      | None \<Rightarrow> tail_text acc))"

definition should_use_temp_file :: "OutputAccumulator \<Rightarrow> bool" where
  "should_use_temp_file acc \<longleftrightarrow>
    total_raw_bytes acc > acc_max_bytes acc \<or> total_decoded_bytes acc > acc_max_bytes acc \<or>
    acc_total_lines acc > acc_max_lines acc"

definition ensure_temp_file :: "Sink \<Rightarrow> OutputAccumulator \<Rightarrow> OutputAccumulator" where
  "ensure_temp_file io acc =
    (if temp_file_path acc \<noteq> None then acc
     else (case create_path io of
        None \<Rightarrow> acc
      | Some path \<Rightarrow>
          acc\<lparr>raw_chunks := [], temp_data := concat (map (write_all io) (raw_chunks acc)),
            temp_file_path := Some path, temp_file := True\<rparr>))"

definition accumulator_append :: "Sink \<Rightarrow> string \<Rightarrow> OutputAccumulator \<Rightarrow> OutputAccumulator option" where
  "accumulator_append io bytes acc =
    (if finished acc then None
     else
       let (decoded, pending) = decode_streaming (pending_bytes acc @ bytes);
           acc1 = append_decoded_text decoded
             (acc\<lparr>total_raw_bytes := total_raw_bytes acc + length bytes, pending_bytes := pending\<rparr>)
       in Some
         (if temp_file acc1 \<or> should_use_temp_file acc1 then
            let acc2 = ensure_temp_file io acc1
            in if temp_file acc2 then acc2\<lparr>temp_data := temp_data acc2 @ write_all io bytes\<rparr> else acc2
          else if bytes \<noteq> [] then acc1\<lparr>raw_chunks := raw_chunks acc1 @ [bytes]\<rparr>
          else acc1))"

definition accumulator_finish :: "Sink \<Rightarrow> OutputAccumulator \<Rightarrow> OutputAccumulator" where
  "accumulator_finish io acc =
    (if finished acc then acc
     else
       let rest = pending_bytes acc;
           acc1 = acc\<lparr>finished := True, pending_bytes := []\<rparr>;
           acc2 = (if rest \<noteq> [] then append_decoded_text (from_utf8_lossy rest) acc1 else acc1)
       in if should_use_temp_file acc2 then ensure_temp_file io acc2 else acc2)"

definition accumulator_snapshot :: "Sink \<Rightarrow> bool \<Rightarrow> OutputAccumulator \<Rightarrow> OutputSnapshot \<times> OutputAccumulator" where
  "accumulator_snapshot io persist_if_truncated acc =
    (let tail_truncation = truncate_tail (snapshot_text acc)
           \<lparr>opt_max_lines = Some (acc_max_lines acc), opt_max_bytes = Some (acc_max_bytes acc)\<rparr>;
         cut_off = (acc_total_lines acc > acc_max_lines acc \<or> total_decoded_bytes acc > acc_max_bytes acc);
         cut_by = (if cut_off then
             (case truncated_by tail_truncation of
                Some by0 \<Rightarrow> Some by0
              | None \<Rightarrow> Some (if total_decoded_bytes acc > acc_max_bytes acc then ByBytes else ByLines))
           else None);
         result = tail_truncation\<lparr>truncated := cut_off, truncated_by := cut_by,
           total_lines := acc_total_lines acc, total_bytes := total_decoded_bytes acc,
           tr_max_lines := acc_max_lines acc, tr_max_bytes := acc_max_bytes acc\<rparr>;
         acc1 = (if persist_if_truncated \<and> truncated result then ensure_temp_file io acc else acc)
     in (\<lparr>snap_content = tr_content result, truncation = result, snap_full_output_path = temp_file_path acc1\<rparr>, acc1))"

definition close_temp_file :: "OutputAccumulator \<Rightarrow> OutputAccumulator" where
  "close_temp_file acc = acc\<lparr>temp_file := False\<rparr>"

definition accumulator_persist :: "Sink \<Rightarrow> OutputAccumulator \<Rightarrow> OutputAccumulator" where
  "accumulator_persist io acc = ensure_temp_file io acc"

definition get_last_line_bytes :: "OutputAccumulator \<Rightarrow> nat" where
  "get_last_line_bytes acc = current_line_bytes acc"

text \<open>A run of appends.\<close>

fun append_all :: "(Sink \<times> string) list \<Rightarrow> OutputAccumulator \<Rightarrow> OutputAccumulator option" where
  "append_all [] acc = Some acc"
| "append_all ((io, bytes) # rest) acc = Option.bind (accumulator_append io bytes acc) (append_all rest)"

section \<open>Streaming decoding\<close>


lemma from_utf8_lossy_append: "utf8_valid a \<Longrightarrow> from_utf8_lossy (a @ b) = a @ from_utf8_lossy b"
  by (simp add: from_utf8_lossy_def utf8_valid_def utf8_lossy_append_ok comp_def)

lemma decode_streaming_sound:
  "decode_streaming bytes = (decoded, pending) \<Longrightarrow>
    from_utf8_lossy (bytes @ rest) = decoded @ from_utf8_lossy (pending @ rest) \<and> utf8_valid decoded"
proof (induction bytes arbitrary: decoded pending rule: decode_streaming.induct)
  case (1 bytes)
  let ?bs = "map of_char bytes :: nat list"
  show ?case
  proof (cases "utf8_error ?bs")
    case None
    then have "decoded = bytes" "pending = []" using 1(2) by (simp_all add: decode_streaming.simps [of bytes])
    then show ?thesis using utf8_error_None [OF None]
      by (simp add: from_utf8_lossy_def utf8_lossy_append_ok utf8_valid_def comp_def)
  next
    case (Some x)
    obtain v e where x: "x = (v, e)" by fastforce
    have ok: "utf8_ok (take v ?bs)" and step: "utf8_step (drop v ?bs) = (case e of None \<Rightarrow> Unfinished | Some n \<Rightarrow> Malformed n)"
      using utf8_error_Some [of ?bs v e] Some x by auto
    have valid: "utf8_valid (take v bytes)" using ok by (simp add: utf8_valid_def take_map)
    have lossy: "from_utf8_lossy (bytes @ rest) = take v bytes @ from_utf8_lossy (drop v bytes @ rest)"
      using from_utf8_lossy_append [OF valid, of "drop v bytes @ rest"] by (metis append_assoc append_take_drop_id)
    show ?thesis
    proof (cases e)
      case E: None
      then have "decoded = take v bytes" "pending = drop v bytes"
        using 1(2) Some x from_utf8_lossy_valid [OF valid] by (simp_all add: decode_streaming.simps [of bytes])
      then show ?thesis using lossy valid by simp
    next
      case E: (Some n)
      obtain d p where rec: "decode_streaming (drop (v + n) bytes) = (d, p)" by fastforce
      then have dp: "decoded = take v bytes @ replacement @ d" "pending = p"
        using 1(2) Some x E from_utf8_lossy_valid [OF valid] by (simp_all add: decode_streaming.simps [of bytes])
      have IH: "from_utf8_lossy (drop (v + n) bytes @ rest) = d @ from_utf8_lossy (p @ rest)" "utf8_valid d"
        using 1(1) [OF Some x [symmetric] E rec] by auto
      have "from_utf8_lossy (drop v bytes @ rest) = replacement @ from_utf8_lossy (drop (v + n) bytes @ rest)"
        using utf8_lossy_malformed [of "drop v ?bs" n "map of_char rest"] step E
        by (simp add: from_utf8_lossy_def replacement_def drop_map add.commute)
      moreover have "utf8_valid replacement" by (simp add: utf8_valid_def replacement_def utf8_cont_def)
      ultimately show ?thesis using lossy IH dp valid by (simp add: utf8_valid_append)
    qed
  qed
qed

lemma from_utf8_lossy_is_valid: "utf8_valid (from_utf8_lossy s)"
proof -
  have small: "utf8_ok bs \<Longrightarrow> \<forall>b \<in> set bs. b < 256" for bs
  proof (induction bs rule: length_induct)
    case (1 bs)
    show ?case
    proof (cases "bs = []")
      case False
      then obtain n where n: "utf8_step bs = Complete n" "utf8_ok (drop n bs)"
        using 1(2) utf8_ok_step by blast
      have "\<forall>b \<in> set (take n bs). b < 256"
        using n(1) by (cases bs) (auto simp: utf8_step.simps utf8_cont_def split: if_splits list.splits)
      moreover have "\<forall>b \<in> set (drop n bs). b < 256"
        using 1(1) n(2) utf8_step_bounds(1) [OF n(1)] False by (metis diff_less length_drop length_greater_0_conv)
      ultimately show ?thesis by (metis Un_iff append_take_drop_id set_append)
    qed simp
  qed
  have "map (of_char \<circ> char_of) (utf8_lossy (map of_char s)) = utf8_lossy (map of_char s)"
    using small [OF utf8_lossy_valid] by (intro map_idI) (simp add: of_char_of)
  then show ?thesis using utf8_lossy_valid by (simp add: utf8_valid_def from_utf8_lossy_def)
qed

section \<open>What the accumulator knows of the output\<close>

text \<open>\<open>out\<close> is the text decoded so far; \<open>gone\<close> the part of it the rolling tail has dropped.\<close>

definition counts :: "string \<Rightarrow> OutputAccumulator \<Rightarrow> bool" where
  "counts out acc \<longleftrightarrow>
    total_decoded_bytes acc = length out \<and>
    completed_lines acc = length (filter (\<lambda>c. c = newline) out) \<and>
    current_line_bytes acc = length (last (split_on newline out)) \<and>
    has_open_line acc = (last (split_on newline out) \<noteq> []) \<and>
    acc_total_lines acc = length (split_lines_for_counting out)"

definition keeps_tail :: "string \<Rightarrow> string \<Rightarrow> OutputAccumulator \<Rightarrow> bool" where
  "keeps_tail gone out acc \<longleftrightarrow>
    out = gone @ tail_text acc \<and> tail_bytes acc = length (tail_text acc) \<and> utf8_valid (tail_text acc) \<and>
    tail_starts_at_line_boundary acc = (gone = [] \<or> last gone = newline) \<and>
    (gone \<noteq> [] \<longrightarrow> max_rolling_bytes acc \<le> length (tail_text acc) + 3 \<and> max_rolling_bytes acc * 2 < length out)"

lemma last_split_on_append:
  "last (split_on c (s @ t)) = (if c \<in> set t then last (split_on c t) else last (split_on c s) @ t)"
proof (cases "c \<in> set t")
  case True
  then have "length (split_on c t) \<ge> 2" by (auto simp: length_split_on in_set_conv_decomp)
  then have "tl (split_on c t) \<noteq> []" by (cases "split_on c t") auto
  then show ?thesis using True
    by (simp add: split_on_append) (metis last_tl)
next
  case False
  then show ?thesis by (simp add: split_on_append split_on_plain)
qed

lemma ends_with_newline_iff: "ends_with_newline s \<longleftrightarrow> s \<noteq> [] \<and> last (split_on newline s) = []"
proof (cases s rule: rev_cases)
  case (snoc t c)
  then show ?thesis by (auto simp: ends_with_newline_def last_split_on_append)
qed (simp add: ends_with_newline_def)

lemma count_lines:
  "length (split_lines_for_counting s) =
    length (filter (\<lambda>c. c = newline) s) + (if last (split_on newline s) \<noteq> [] then 1 else 0)"
  by (cases "s = []") (auto simp: split_lines_for_counting_def ends_with_newline_iff length_split_on)


lemma trim_tail_counts [simp]: "counts out (trim_tail acc) = counts out acc"
  by (simp add: trim_tail_def counts_def Let_def)

lemma counts_append:
  assumes "counts out acc"
  shows "counts (out @ s) (append_decoded_text s acc)"
proof (cases "s = []")
  case False
  have none: "length (filter (\<lambda>c. c = newline) s) = 0 \<longleftrightarrow> newline \<notin> set s" by (auto simp: filter_empty_conv)
  show ?thesis
    using False assms none
    by (auto simp: append_decoded_text_def Let_def counts_def count_lines last_split_on_append trim_tail_def)
qed (use assms in \<open>simp add: append_decoded_text_def\<close>)

lemma skip_to_char_run:
  assumes "utf8_valid s" and "i \<le> length s"
  shows "skip_to_char s i \<le> i + 3"
proof -
  have "length (drop (skip_to_char s i) s) + length (takeWhile cont_char (drop i s)) = length (drop i s)"
    unfolding drop_skip_to_char by (metis length_append takeWhile_dropWhile_id add.commute)
  moreover have "length (takeWhile cont_char (drop i s)) \<le> 3"
    using utf8_cont_run [of "map of_char s" i] assms(1)
    by (simp add: utf8_valid_def takeWhile_map drop_map comp_def)
  ultimately show ?thesis using skip_to_char_le [OF assms(2)] assms(2) by simp
qed

lemma trim_tail_keeps:
  assumes "keeps_tail gone out acc" and "tail_bytes acc > max_rolling_bytes acc * 2" and "0 < max_rolling_bytes acc"
  shows "\<exists>gone. keeps_tail gone out (trim_tail acc)"
proof -
  let ?t = "tail_text acc" and ?m = "max_rolling_bytes acc"
  let ?start = "skip_to_char ?t (length ?t - ?m)"
  have t: "out = gone @ ?t" "tail_bytes acc = length ?t" "utf8_valid ?t" using assms(1) by (auto simp: keeps_tail_def)
  have big: "length ?t > ?m * 2" "length ?t > ?m" using assms(2,3) t(2) by auto
  have start: "?start \<noteq> 0" "?start \<le> length ?t" "?start \<le> length ?t - ?m + 3"
    using skip_to_char_ge [of "length ?t - ?m" ?t] skip_to_char_le [of "length ?t - ?m" ?t]
      skip_to_char_run [OF t(3), of "length ?t - ?m"] big by auto
  have kept: "from_utf8_lossy (drop ?start ?t) = drop ?start ?t" "utf8_valid (drop ?start ?t)"
    using from_utf8_lossy_valid drop_skip_to_char_valid [OF t(3)] by auto
  have trim: "trim_tail acc = acc\<lparr>tail_starts_at_line_boundary := ?t ! (?start - 1) = newline,
      tail_text := drop ?start ?t, tail_bytes := length (drop ?start ?t)\<rparr>"
    using big start(1) kept(1) by (simp add: trim_tail_def Let_def)
  have ne: "take ?start ?t \<noteq> []" using start(1) big by auto
  have "last (take ?start ?t) = ?t ! (?start - 1)"
    unfolding last_conv_nth [OF ne] using start(1,2) by (simp add: min_def)
  then have last: "last (gone @ take ?start ?t) = ?t ! (?start - 1)" "gone @ take ?start ?t \<noteq> []"
    using ne by simp_all
  have "keeps_tail (gone @ take ?start ?t) out (trim_tail acc)"
    unfolding trim keeps_tail_def using t kept(2) last start(3) big by auto
  then show ?thesis by blast
qed

lemma keeps_tail_append:
  assumes "keeps_tail gone out acc" and "utf8_valid s" and "0 < max_rolling_bytes acc"
  shows "\<exists>gone. keeps_tail gone (out @ s) (append_decoded_text s acc)"
proof (cases "s = []")
  case False
  let ?a = "acc\<lparr>total_decoded_bytes := total_decoded_bytes acc + length s,
    tail_text := tail_text acc @ s, tail_bytes := tail_bytes acc + length s\<rparr>"
  have a: "keeps_tail gone (out @ s) ?a"
    using assms(1,2) by (auto simp: keeps_tail_def utf8_valid_append)
  have "\<exists>gone. keeps_tail gone (out @ s) (if tail_bytes ?a > max_rolling_bytes ?a * 2 then trim_tail ?a else ?a)"
    using trim_tail_keeps [OF a] assms(3) a by auto
  moreover have "keeps_tail g (out @ s) (append_decoded_text s acc) =
      keeps_tail g (out @ s) (if tail_bytes ?a > max_rolling_bytes ?a * 2 then trim_tail ?a else ?a)" for g
    using False by (simp add: append_decoded_text_def Let_def keeps_tail_def)
  ultimately show ?thesis by blast
qed (use assms in \<open>auto simp: append_decoded_text_def\<close>)

text \<open>Everything \<open>append_decoded_text\<close> leaves alone.\<close>

lemma append_decoded_text_frame [simp]:
  "acc_max_lines (append_decoded_text s acc) = acc_max_lines acc"
  "acc_max_bytes (append_decoded_text s acc) = acc_max_bytes acc"
  "max_rolling_bytes (append_decoded_text s acc) = max_rolling_bytes acc"
  "pending_bytes (append_decoded_text s acc) = pending_bytes acc"
  "raw_chunks (append_decoded_text s acc) = raw_chunks acc"
  "total_raw_bytes (append_decoded_text s acc) = total_raw_bytes acc"
  "finished (append_decoded_text s acc) = finished acc"
  "temp_file_path (append_decoded_text s acc) = temp_file_path acc"
  "temp_file (append_decoded_text s acc) = temp_file acc"
  "temp_data (append_decoded_text s acc) = temp_data acc"
  by (simp_all add: append_decoded_text_def trim_tail_def Let_def)


definition tracks :: "string \<Rightarrow> OutputAccumulator \<Rightarrow> bool" where
  "tracks raw acc \<longleftrightarrow>
    total_raw_bytes acc = length raw \<and> max_rolling_bytes acc = max (acc_max_bytes acc * 2) 1 \<and>
    (\<exists>out gone. counts out acc \<and> keeps_tail gone out acc \<and>
      (\<forall>rest. from_utf8_lossy (raw @ rest) = out @ from_utf8_lossy (pending_bytes acc @ rest)))"

lemma temp_file_frame [simp]:
  "counts out (ensure_temp_file io acc) = counts out acc"
  "keeps_tail gone out (ensure_temp_file io acc) = keeps_tail gone out acc"
  "tracks raw (ensure_temp_file io acc) = tracks raw acc"
  "tracks raw (acc\<lparr>temp_data := d\<rparr>) = tracks raw acc"
  "tracks raw (acc\<lparr>raw_chunks := r\<rparr>) = tracks raw acc"
  "acc_max_lines (ensure_temp_file io acc) = acc_max_lines acc"
  "acc_max_bytes (ensure_temp_file io acc) = acc_max_bytes acc"
  "finished (ensure_temp_file io acc) = finished acc"
  "pending_bytes (ensure_temp_file io acc) = pending_bytes acc"
  "snapshot_text (ensure_temp_file io acc) = snapshot_text acc"
  by (auto simp: ensure_temp_file_def counts_def keeps_tail_def tracks_def snapshot_text_def split: option.splits)

lemma tracks_new: "tracks [] (accumulator_new opts)"
proof -
  have "counts [] (accumulator_new opts)" "keeps_tail [] [] (accumulator_new opts)"
    by (simp_all add: accumulator_new_def counts_def keeps_tail_def)
  moreover have "from_utf8_lossy ([] @ rest) = [] @ from_utf8_lossy (pending_bytes (accumulator_new opts) @ rest)" for rest
    by (simp add: accumulator_new_def)
  moreover have "total_raw_bytes (accumulator_new opts) = 0"
      "max_rolling_bytes (accumulator_new opts) = max (acc_max_bytes (accumulator_new opts) * 2) 1"
    by (simp_all add: accumulator_new_def)
  ultimately show ?thesis unfolding tracks_def by (metis list.size(3))
qed

text \<open>The step that appending and finishing share: decoded text is added, the rest stays pending.\<close>

lemma tracks_decoded:
  assumes "tracks raw acc" and "utf8_valid decoded"
    and "\<And>rest. from_utf8_lossy (pending_bytes acc @ bytes @ rest) = decoded @ from_utf8_lossy (pending @ rest)"
    and "total_raw_bytes acc' = total_raw_bytes acc + length bytes" "pending_bytes acc' = pending"
    and "\<And>out. counts out acc' = counts out acc" "\<And>gone out. keeps_tail gone out acc' = keeps_tail gone out acc"
    and "max_rolling_bytes acc' = max_rolling_bytes acc" "acc_max_bytes acc' = acc_max_bytes acc"
  shows "tracks (raw @ bytes) (append_decoded_text decoded acc')"
proof -
  obtain out gone where o: "counts out acc" "keeps_tail gone out acc"
      "\<And>rest. from_utf8_lossy (raw @ rest) = out @ from_utf8_lossy (pending_bytes acc @ rest)"
    using assms(1) unfolding tracks_def by blast
  have "0 < max_rolling_bytes acc'" using assms(1,8) by (auto simp: tracks_def)
  then obtain gone' where g: "keeps_tail gone' (out @ decoded) (append_decoded_text decoded acc')"
    using keeps_tail_append [of gone out acc' decoded] o(2) assms(2,7) by auto
  have c: "counts (out @ decoded) (append_decoded_text decoded acc')"
    using counts_append [of out acc' decoded] o(1) assms(6) by simp
  have l: "from_utf8_lossy ((raw @ bytes) @ rest) = (out @ decoded) @ from_utf8_lossy (pending @ rest)" for rest
    using o(3) [of "bytes @ rest"] assms(3) [of rest] by simp
  show ?thesis unfolding tracks_def
    using assms(1,4,5,8,9) c g l by (intro conjI exI [of _ "out @ decoded"] exI [of _ gone']) (simp_all add: tracks_def)
qed

lemma tracks_append:
  assumes "tracks raw acc" and "accumulator_append io bytes acc = Some acc'"
  shows "tracks (raw @ bytes) acc'"
proof -
  obtain decoded pending where d: "decode_streaming (pending_bytes acc @ bytes) = (decoded, pending)" by fastforce
  let ?acc = "acc\<lparr>total_raw_bytes := total_raw_bytes acc + length bytes, pending_bytes := pending\<rparr>"
  have "tracks (raw @ bytes) (append_decoded_text decoded ?acc)"
    using assms(1) decode_streaming_sound [OF d]
    by (intro tracks_decoded [of raw acc]) (auto simp: counts_def keeps_tail_def)
  then show ?thesis using assms(2) d by (auto simp: accumulator_append_def Let_def split: if_splits)
qed

text \<open>After \<open>finish\<close> the accumulator stands for the whole output, decoded at once.\<close>

definition complete :: "string \<Rightarrow> OutputAccumulator \<Rightarrow> bool" where
  "complete raw acc \<longleftrightarrow>
    counts (from_utf8_lossy raw) acc \<and> (\<exists>gone. keeps_tail gone (from_utf8_lossy raw) acc) \<and>
    max_rolling_bytes acc = max (acc_max_bytes acc * 2) 1"

lemma complete_ensure [simp]: "complete raw (ensure_temp_file io acc) = complete raw acc"
  by (simp add: complete_def) (auto simp: ensure_temp_file_def split: option.splits)

lemma complete_finish:
  assumes "tracks raw acc" and "\<not> finished acc"
  shows "complete raw (accumulator_finish io acc)"
proof -
  let ?acc = "acc\<lparr>finished := True, pending_bytes := []\<rparr>"
  let ?d = "from_utf8_lossy (pending_bytes acc)"
  obtain out gone where o: "counts out acc" "keeps_tail gone out acc"
      "\<And>rest. from_utf8_lossy (raw @ rest) = out @ from_utf8_lossy (pending_bytes acc @ rest)"
    using assms(1) unfolding tracks_def by blast
  have lossy: "from_utf8_lossy raw = out @ ?d" using o(3) [of "[]"] by simp
  have same: "counts out ?acc" "keeps_tail gone out ?acc"
    using o(1,2) unfolding counts_def keeps_tail_def by auto
  have roll: "max_rolling_bytes ?acc = max (acc_max_bytes ?acc * 2) 1" using assms(1) by (simp add: tracks_def)
  have "complete raw (append_decoded_text ?d ?acc)"
    unfolding complete_def lossy
    using counts_append [OF same(1), of ?d] keeps_tail_append [OF same(2) from_utf8_lossy_is_valid] roll by auto
  moreover have "append_decoded_text [] ?acc = ?acc" by (simp add: append_decoded_text_def)
  ultimately have "complete raw (if pending_bytes acc \<noteq> [] then append_decoded_text ?d ?acc else ?acc)"
    by (auto simp: from_utf8_lossy_def)
  then show ?thesis using assms(2) by (auto simp: accumulator_finish_def Let_def)
qed

lemma append_not_finished:
  "accumulator_append io bytes acc = Some acc' \<Longrightarrow>
    \<not> finished acc \<and> \<not> finished acc' \<and> acc_max_lines acc' = acc_max_lines acc \<and> acc_max_bytes acc' = acc_max_bytes acc"
  by (auto simp: accumulator_append_def Let_def split: if_splits prod.splits)

lemma finish_frame [simp]:
  "acc_max_lines (accumulator_finish io acc) = acc_max_lines acc"
  "acc_max_bytes (accumulator_finish io acc) = acc_max_bytes acc"
  by (simp_all add: accumulator_finish_def Let_def)

text \<open>Appending never fails before \<open>finish\<close>, and the accumulator follows the stream.\<close>

lemma append_all_tracks:
  assumes "tracks raw acc" and "\<not> finished acc"
  shows "\<exists>acc'. append_all chunks acc = Some acc' \<and> tracks (raw @ concat (map snd chunks)) acc' \<and>
    \<not> finished acc' \<and> acc_max_lines acc' = acc_max_lines acc \<and> acc_max_bytes acc' = acc_max_bytes acc"
  using assms
proof (induction chunks arbitrary: raw acc)
  case (Cons c chunks)
  obtain io bytes where c: "c = (io, bytes)" by fastforce
  obtain d p where "decode_streaming (pending_bytes acc @ bytes) = (d, p)" by fastforce
  then obtain acc1 where a: "accumulator_append io bytes acc = Some acc1"
    using Cons.prems(2) by (simp add: accumulator_append_def Let_def)
  then show ?case
    using Cons.IH [OF tracks_append [OF Cons.prems(1) a]] append_not_finished [OF a] c by auto
qed simp

section \<open>Snapshots\<close>

text \<open>Cutting the text before a line with more than the byte limit left does not change what is kept.\<close>

lemma split_lines_cut:
  assumes "t \<noteq> []"
  shows "split_lines_for_counting (a @ newline # t) = split_on newline a @ split_lines_for_counting t"
proof -
  have "split_on newline (a @ newline # t) = split_on newline a @ split_on newline t"
    by (simp add: split_on_append)
  moreover have "ends_with_newline (a @ newline # t) = ends_with_newline t"
    using assms by (simp add: ends_with_newline_def)
  ultimately show ?thesis using assms by (simp add: split_lines_for_counting_def Let_def butlast_append)
qed

lemma truncate_tail_cut:
  assumes "resolve opts = (ml, mb)" and "length t > mb"
  shows "tr_content (truncate_tail (a @ newline # t) opts) = tr_content (truncate_tail t opts) \<and>
    output_lines (truncate_tail (a @ newline # t) opts) = output_lines (truncate_tail t opts) \<and>
    last_line_partial (truncate_tail (a @ newline # t) opts) = last_line_partial (truncate_tail t opts)"
proof -
  let ?A = "split_on newline a" and ?L = "split_lines_for_counting t"
  have ne: "t \<noteq> []" using assms(2) by auto
  have "mb \<le> length (join [newline] ?L)"
    using assms(2) ne by (auto simp: join_split_lines)
  then have same: "tail_loop ml mb [] 0 (rev ?L @ rev ?A) = tail_loop ml mb [] 0 (rev ?L) \<or>
    (let (out1, n1, b1, p1) = tail_loop ml mb [] 0 (rev ?L @ rev ?A); (out2, n2, b2, p2) = tail_loop ml mb [] 0 (rev ?L)
     in out1 = out2 \<and> n1 = n2 \<and> p1 = p2)"
    using tail_loop_more [of "[]" "rev ?L" 0 mb ml "rev ?A"] ne by simp
  obtain o1 n1 b1 p1 where l1: "tail_loop ml mb [] 0 (rev ?L @ rev ?A) = (o1, n1, b1, p1)" by (metis prod_cases4)
  obtain o2 n2 b2 p2 where l2: "tail_loop ml mb [] 0 (rev ?L) = (o2, n2, b2, p2)" by (metis prod_cases4)
  have "o1 = o2" "p1 = p2" using same l1 l2 by auto
  then show ?thesis
    using assms l1 l2 by (simp add: truncate_tail_def Let_def split_lines_cut [OF ne])
qed


abbreviation limits :: "OutputAccumulator \<Rightarrow> TruncationOptions" where
  "limits acc \<equiv> \<lparr>opt_max_lines = Some (acc_max_lines acc), opt_max_bytes = Some (acc_max_bytes acc)\<rparr>"

lemma find_newline:
  assumes "find_str s [newline] = Some i"
  obtains p where "s = p @ newline # drop (Suc i) s" "newline \<notin> set p" "i = length p"
proof -
  obtain b where b: "s = take i s @ [newline] @ b" "i + 1 \<le> length s"
    using find_str_SomeD [OF assms] by auto
  have len: "length (take i s) = i" using b(2) by simp
  have "drop (Suc i) s = b" using b len by (metis append_assoc append_eq_conv_conj length_append_singleton)
  moreover have "newline \<notin> set (take i s)"
  proof
    assume "newline \<in> set (take i s)"
    then obtain j where j: "j < i" "s ! j = newline" "j < length s" by (auto simp: in_set_conv_nth)
    then have "starts_with (drop j s) [newline]" by (simp add: starts_with_def take_Suc_conv_app_nth hd_drop_conv_nth take_Suc)
    then show False using find_str_first [OF assms j(1)] by blast
  qed
  ultimately show ?thesis using that [of "take i s"] b(1) len by simp
qed

lemma snapshot_text_enough:
  assumes "keeps_tail gone out acc" and "max_rolling_bytes acc = max (acc_max_bytes acc * 2) 1"
    and small: "\<And>l. l \<in> set (split_on newline out) \<Longrightarrow> length l + 4 < acc_max_bytes acc"
  obtains (whole) "snapshot_text acc = out"
  | (part) a where "out = a @ newline # snapshot_text acc" "acc_max_bytes acc < length (snapshot_text acc)"
proof (cases "gone = []")
  case True
  then show ?thesis using whole assms(1) by (simp add: keeps_tail_def snapshot_text_def)
next
  case False
  let ?t = "tail_text acc" and ?mb = "acc_max_bytes acc"
  have out: "out = gone @ ?t" and len: "?mb * 2 \<le> length ?t + 3"
      and flag: "tail_starts_at_line_boundary acc = (last gone = newline)"
    using assms(1,2) False by (auto simp: keeps_tail_def)
  have mb: "4 < ?mb" using small [of "last (split_on newline out)"] by (simp add: last_in_set)
  show ?thesis
  proof (cases "last gone = newline")
    case True
    then have "out = butlast gone @ newline # ?t" using out False by (metis append_Cons append_Nil append_assoc append_butlast_last_id)
    then show ?thesis using part [of "butlast gone"] True flag len mb by (simp add: snapshot_text_def)
  next
    case F: False
    show ?thesis
    proof (cases "find_str ?t [newline]")
      case None
      then have "newline \<notin> set ?t" by (auto simp: find_str_None in_set_conv_decomp)
      then have "length ?t \<le> length (last (split_on newline out))" using out by (simp add: last_split_on_append)
      then show ?thesis using small [of "last (split_on newline out)"] len by (simp add: last_in_set)
    next
      case (Some i)
      then obtain p where p: "?t = p @ newline # drop (Suc i) ?t" "newline \<notin> set p" "i = length p"
        by (rule find_newline)
      have o: "out = (gone @ p) @ newline # drop (Suc i) ?t" using out p(1) by simp
      have "last (split_on newline gone) @ p \<in> set (split_on newline out)"
        unfolding o split_on_append [of newline "gone @ p"]
        using last_split_on_append [of newline gone p] p(2) last_in_set [of "split_on newline (gone @ p)"] by simp
      then have "length p + 4 < ?mb" using small by fastforce
      moreover have "length ?t = length p + 1 + length (drop (Suc i) ?t)" using p(1) by (metis add_Suc_right length_append length_Cons Suc_eq_plus1 add_Suc)
      moreover have "snapshot_text acc = drop (Suc i) ?t" using F flag Some by (simp add: snapshot_text_def)
      ultimately show ?thesis using part [of "gone @ p"] o len by simp
    qed
  qed
qed

end
