(* ===== verification/Output_Proofs.thy ===== *)
theory Output_Proofs
  imports Output_Accumulator
begin

text \<open>
  What the output accumulator guarantees: a snapshot is the truncated whole output, the temporary file
  holds every byte, and the case in which an overlong line makes the output disappear.
\<close>

section \<open>The snapshot\<close>

lemma snapshot_fields:
  assumes "accumulator_snapshot io persist acc = (snap, acc')"
  shows "snap_content snap = tr_content (truncate_tail (snapshot_text acc) (limits acc))"
    "tr_content (truncation snap) = snap_content snap"
    "output_lines (truncation snap) = output_lines (truncate_tail (snapshot_text acc) (limits acc))"
    "last_line_partial (truncation snap) = last_line_partial (truncate_tail (snapshot_text acc) (limits acc))"
    "truncated (truncation snap) = (acc_total_lines acc > acc_max_lines acc \<or> total_decoded_bytes acc > acc_max_bytes acc)"
    "total_lines (truncation snap) = acc_total_lines acc" "total_bytes (truncation snap) = total_decoded_bytes acc"
    "acc' = (if persist \<and> truncated (truncation snap) then ensure_temp_file io acc else acc)"
    "snap_full_output_path snap = temp_file_path acc'"
  using assms by (auto simp: accumulator_snapshot_def Let_def)

lemma truncate_tail_totals:
  assumes "resolve opts = (ml, mb)"
  shows "truncated (truncate_tail s opts) \<longleftrightarrow> length (split_lines_for_counting s) > ml \<or> length s > mb"
    "total_lines (truncate_tail s opts) = length (split_lines_for_counting s)"
    "total_bytes (truncate_tail s opts) = length s"
  using assms by (auto simp: truncate_tail_def untruncated_def Let_def split: prod.splits)

lemma complete_snapshot:
  assumes "complete raw acc" and "accumulator_snapshot io persist acc = (snap, acc')"
    and small: "\<And>l. l \<in> set (split_on newline (from_utf8_lossy raw)) \<Longrightarrow> length l + 4 < acc_max_bytes acc"
    and whole: "whole = truncate_tail (from_utf8_lossy raw) (limits acc)"
  shows "snap_content snap = tr_content whole \<and> output_lines (truncation snap) = output_lines whole \<and>
    last_line_partial (truncation snap) = last_line_partial whole \<and> truncated (truncation snap) = truncated whole \<and>
    total_lines (truncation snap) = total_lines whole \<and> total_bytes (truncation snap) = total_bytes whole"
proof -
  let ?out = "from_utf8_lossy raw"
  have lim: "resolve (limits acc) = (acc_max_lines acc, acc_max_bytes acc)" by (simp add: resolve_def)
  obtain gone where k: "keeps_tail gone ?out acc" and c: "counts ?out acc"
      and r: "max_rolling_bytes acc = max (acc_max_bytes acc * 2) 1"
    using assms(1) by (auto simp: complete_def)
  have "tr_content (truncate_tail (snapshot_text acc) (limits acc)) = tr_content whole \<and>
      output_lines (truncate_tail (snapshot_text acc) (limits acc)) = output_lines whole \<and>
      last_line_partial (truncate_tail (snapshot_text acc) (limits acc)) = last_line_partial whole"
  proof (rule snapshot_text_enough [OF k r small])
    assume "snapshot_text acc = ?out"
    then show ?thesis using whole by simp
  next
    fix a
    assume "?out = a @ newline # snapshot_text acc" "acc_max_bytes acc < length (snapshot_text acc)"
    then show ?thesis using truncate_tail_cut [OF lim, of "snapshot_text acc" a] whole by simp
  qed
  then show ?thesis
    using snapshot_fields [OF assms(2)] truncate_tail_totals [OF lim, of ?out] c whole by (simp add: counts_def)
qed

lemma new_frame [simp]:
  "acc_max_lines (accumulator_new opts) = oo_max_lines opts" "acc_max_bytes (accumulator_new opts) = oo_max_bytes opts"
  "\<not> finished (accumulator_new opts)"
  by (simp_all add: accumulator_new_def)


definition good_sink :: Sink where "good_sink = \<lparr>create_path = Some ''/tmp/out.log'', write_all = (\<lambda>d. d)\<rparr>"

definition sample_options :: OutputAccumulatorOptions where
  "sample_options = \<lparr>oo_max_lines = 1, oo_max_bytes = 10, oo_temp_file_prefix = ''t''\<rparr>"

definition sample_chunks :: "(Sink \<times> string) list" where
  "sample_chunks = [(good_sink, ''ab'' @ [newline, CHR 0xC3]), (good_sink, [CHR 0xA9] @ ''d'')]"

lemma sample_raw: "concat (map snd sample_chunks) = ''ab'' @ [newline, CHR 0xC3, CHR 0xA9] @ ''d''"
  by (simp add: sample_chunks_def)


section \<open>The temporary file\<close>

definition reliable :: "Sink \<Rightarrow> bool" where
  "reliable io \<longleftrightarrow> create_path io \<noteq> None \<and> write_all io = (\<lambda>d. d)"

definition stored :: "string \<Rightarrow> OutputAccumulator \<Rightarrow> bool" where
  "stored raw acc \<longleftrightarrow>
    (if temp_file_path acc = None then \<not> temp_file acc \<and> concat (raw_chunks acc) = raw
     else temp_file acc \<and> temp_data acc = raw)"

lemma stored_ensure: "reliable io \<Longrightarrow> stored raw acc \<Longrightarrow> stored raw (ensure_temp_file io acc) \<and> temp_file_path (ensure_temp_file io acc) \<noteq> None"
  by (auto simp: stored_def ensure_temp_file_def reliable_def)

lemma stored_append:
  assumes "reliable io" and "stored raw acc" and "accumulator_append io bytes acc = Some acc'"
  shows "stored (raw @ bytes) acc'"
proof -
  obtain d p where d: "decode_streaming (pending_bytes acc @ bytes) = (d, p)" by fastforce
  let ?acc = "append_decoded_text d (acc\<lparr>total_raw_bytes := total_raw_bytes acc + length bytes, pending_bytes := p\<rparr>)"
  have s: "stored raw ?acc" using assms(2) by (simp add: stored_def)
  show ?thesis
  proof (cases "temp_file ?acc \<or> should_use_temp_file ?acc")
    case True
    then have "acc' = (ensure_temp_file io ?acc)\<lparr>temp_data := temp_data (ensure_temp_file io ?acc) @ bytes\<rparr>"
      using assms(1,3) d stored_ensure [OF assms(1) s] by (auto simp: accumulator_append_def Let_def reliable_def stored_def split: if_splits)
    then show ?thesis using stored_ensure [OF assms(1) s] by (auto simp: stored_def)
  next
    case False
    then have "acc' = (if bytes \<noteq> [] then ?acc\<lparr>raw_chunks := raw_chunks ?acc @ [bytes]\<rparr> else ?acc)"
      using assms(3) d by (auto simp: accumulator_append_def Let_def split: if_splits)
    then show ?thesis using s False by (auto simp: stored_def split: if_splits)
  qed
qed

lemma stored_append_all:
  assumes "list_all (reliable \<circ> fst) chunks" and "stored raw acc" and "append_all chunks acc = Some acc'"
  shows "stored (raw @ concat (map snd chunks)) acc'"
  using assms
proof (induction chunks arbitrary: raw acc)
  case (Cons c chunks)
  obtain io bytes acc1 where c: "c = (io, bytes)" "accumulator_append io bytes acc = Some acc1" "append_all chunks acc1 = Some acc'"
    using Cons.prems(3) by (cases c) (auto split: bind_splits)
  then show ?case
    using Cons.IH [OF _ stored_append [OF _ Cons.prems(2) c(2)] c(3)] Cons.prems(1) by simp
qed simp

lemma stored_finish:
  assumes "reliable io" and "stored raw acc" and "\<not> finished acc"
  shows "stored raw (accumulator_finish io acc)"
proof -
  let ?acc = "acc\<lparr>finished := True, pending_bytes := []\<rparr>"
  have "stored raw (append_decoded_text d ?acc)" "stored raw ?acc" for d using assms(2) by (simp_all add: stored_def)
  then show ?thesis using stored_ensure [OF assms(1)] assms(3) by (auto simp: accumulator_finish_def Let_def)
qed

text \<open>
  C27: When the final snapshot says that output was cut off, it names a file that holds every byte the
  command wrote, in order, also the bytes that are no valid text: provided the file could be created
  and written.
\<close>

theorem cut_output_is_in_the_file:
  assumes "list_all (reliable \<circ> fst) chunks" and "reliable io"
    and "append_all chunks (accumulator_new opts) = Some acc"
    and "accumulator_snapshot io True (accumulator_finish io acc) = (snap, acc')"
    and "truncated (truncation snap)"
  shows "snap_full_output_path snap = temp_file_path acc' \<and> temp_file_path acc' \<noteq> None \<and>
    temp_data acc' = concat (map snd chunks)"
proof -
  have "stored [] (accumulator_new opts)" by (simp add: stored_def accumulator_new_def)
  then have s: "stored (concat (map snd chunks)) acc" using stored_append_all [OF assms(1) _ assms(3), of "[]"] by simp
  have "\<not> finished acc" using append_all_tracks [OF tracks_new [of opts], of chunks] assms(3) by auto
  then have "stored (concat (map snd chunks)) acc' \<and> temp_file_path acc' \<noteq> None"
    using stored_ensure [OF assms(2) stored_finish [OF assms(2) s]] snapshot_fields(8) [OF assms(4)] assms(5) by simp
  then show ?thesis using snapshot_fields(9) [OF assms(4)] by (simp add: stored_def)
qed


lemma good_sink_reliable: "reliable good_sink" "list_all (reliable \<circ> fst) sample_chunks"
  by (simp_all add: reliable_def good_sink_def sample_chunks_def)

text \<open>What holds of a result of the accumulator, whatever it is.\<close>

lemma finished_totals:
  assumes "append_all chunks (accumulator_new opts) = Some acc"
    and "accumulator_snapshot io persist (accumulator_finish io acc) = (snap, acc')"
  shows "total_bytes (truncation snap) = length (from_utf8_lossy (concat (map snd chunks)))"
    "total_lines (truncation snap) = length (split_lines_for_counting (from_utf8_lossy (concat (map snd chunks))))"
    "truncated (truncation snap) \<longleftrightarrow>
       total_lines (truncation snap) > oo_max_lines opts \<or> total_bytes (truncation snap) > oo_max_bytes opts"
proof -
  have t: "tracks (concat (map snd chunks)) acc" "\<not> finished acc"
      "acc_max_lines acc = oo_max_lines opts" "acc_max_bytes acc = oo_max_bytes opts"
    using append_all_tracks [OF tracks_new [of opts], of chunks] assms(1) by auto
  have "counts (from_utf8_lossy (concat (map snd chunks))) (accumulator_finish io acc)"
    using complete_finish [OF t(1,2), of io] by (simp add: complete_def)
  then show "total_bytes (truncation snap) = length (from_utf8_lossy (concat (map snd chunks)))"
    "total_lines (truncation snap) = length (split_lines_for_counting (from_utf8_lossy (concat (map snd chunks))))"
    "truncated (truncation snap) \<longleftrightarrow>
       total_lines (truncation snap) > oo_max_lines opts \<or> total_bytes (truncation snap) > oo_max_bytes opts"
    using snapshot_fields(5-7) [OF assms(2)] t(3,4) by (simp_all add: counts_def)
qed

theorem cut_output_is_in_the_file_witness:
  "\<exists>acc snap acc'. append_all sample_chunks (accumulator_new sample_options) = Some acc \<and>
    accumulator_snapshot good_sink True (accumulator_finish good_sink acc) = (snap, acc') \<and>
    snap_full_output_path snap = temp_file_path acc' \<and> temp_data acc' = ''ab'' @ [newline, CHR 0xC3, CHR 0xA9] @ ''d''"
proof -
  let ?raw = "''ab'' @ [newline, CHR 0xC3, CHR 0xA9] @ ''d''"
  obtain acc where a: "append_all sample_chunks (accumulator_new sample_options) = Some acc"
    using append_all_tracks [OF tracks_new [of sample_options], of sample_chunks] by auto
  obtain snap acc' where s: "accumulator_snapshot good_sink True (accumulator_finish good_sink acc) = (snap, acc')" by fastforce
  have lossy: "from_utf8_lossy ?raw = ?raw" by (rule from_utf8_lossy_valid) code_simp
  have "truncated (truncation snap)"
    using finished_totals(2,3) [OF a s] unfolding sample_raw lossy
    by (simp add: sample_options_def split_lines_for_counting_def ends_with_newline_def newline_chr)
  then show ?thesis
    using cut_output_is_in_the_file [OF good_sink_reliable(2,1) a s] a s sample_raw by auto
qed

section \<open>A line longer than the tail\<close>

lemma long_line_trimmed:
  assumes "0 < m" and "4 * m \<le> n" and "max_rolling_bytes acc = 2 * m" "tail_text acc = []" "tail_bytes acc = 0"
  shows "snapshot_text (append_decoded_text (replicate n CHR ''x'' @ [newline]) acc) = []"
proof -
  let ?s = "replicate n CHR ''x'' @ [newline]"
  have x: "\<not> cont_char CHR ''x''" by (simp add: utf8_cont_def)
  note roll = assms(3-5)
  let ?i = "length ?s - 2 * m"
  have less: "Suc n - 2 * m < n" "0 < Suc n - 2 * m" using assms(1,2) by linarith+
  then have i: "?i < n" "0 < ?i" "?s ! ?i = CHR ''x''" "?s ! (?i - 1) = CHR ''x''"
    by (simp_all add: nth_append)
  then have start: "skip_to_char ?s ?i = ?i" using x by (subst skip_to_char.simps) simp
  have kept: "drop ?i ?s = replicate (n - ?i) CHR ''x'' @ [newline]" using i(1) by simp
  have valid: "utf8_valid (replicate k CHR ''x'' @ [newline])" for k
    by (induction k) (simp_all add: utf8_valid_def newline_chr)
  have lossy: "from_utf8_lossy (drop ?i ?s) = drop ?i ?s" unfolding kept by (rule from_utf8_lossy_valid [OF valid])
  let ?t = "append_decoded_text ?s acc"
  have "tail_text ?t = drop ?i ?s" "\<not> tail_starts_at_line_boundary ?t"
    using roll i start lossy assms(1,2)
    by (simp_all add: append_decoded_text_def trim_tail_def Let_def newline_chr)
  moreover have "find_str (replicate k CHR ''x'' @ [newline]) [newline] = Some k" for k
    by (induction k) (simp_all add: starts_with_def newline_chr)
  ultimately show ?thesis unfolding snapshot_text_def kept by simp
qed

end
