(* ===== verification/Read_Tool.thy ===== *)
theory Read_Tool
  imports Truncate
begin

text \<open>
  The read tool (\<open>core/tools/read.rs\<close>): the choice of the view, the selected lines of a text file,
  their truncation and the notice that tells the model where to go on, and images as attachments.
  The file system, image processing, the minifier and path resolution are fields of the environment;
  \<open>aborted i\<close> is what the cancellation signal says at the \<open>i\<close>-th check. \<open>None\<close> stands for a panic.
\<close>

section \<open>The tool\<close>

datatype ProcessImageResult = ImageFailed string | ImageOk string string "string list"

record ReadEnv =
  re_access :: "string \<Rightarrow> string + unit"
  re_detect_image_mime_type :: "string \<Rightarrow> string option"
  re_read_file :: "string \<Rightarrow> string + string"
  re_process_image :: "string \<Rightarrow> string \<Rightarrow> bool \<Rightarrow> ProcessImageResult"
  re_minify_for_path :: "string \<Rightarrow> string \<Rightarrow> bool \<Rightarrow> string option"
  re_resolve_read_path :: "string \<Rightarrow> string \<Rightarrow> string"
  re_debug :: "string \<Rightarrow> string"

record ReadToolDefinition =
  rt_cwd :: string
  rt_plain :: bool
  rt_auto_resize_images :: bool

fun truncated_by_json :: "TruncatedBy option \<Rightarrow> Json" where
  "truncated_by_json None = JNull"
| "truncated_by_json (Some ByLines) = JString ''lines''"
| "truncated_by_json (Some ByBytes) = JString ''bytes''"

definition truncation_json :: "TruncationResult \<Rightarrow> Json" where
  "truncation_json t = JObject
    [(''content'', JString (tr_content t)), (''truncated'', JBool (truncated t)),
     (''truncatedBy'', truncated_by_json (truncated_by t)),
     (''totalLines'', JNumber (PosInt (total_lines t))), (''totalBytes'', JNumber (PosInt (total_bytes t))),
     (''outputLines'', JNumber (PosInt (output_lines t))), (''outputBytes'', JNumber (PosInt (output_bytes t))),
     (''lastLinePartial'', JBool (last_line_partial t)),
     (''firstLineExceedsLimit'', JBool (first_line_exceeds_limit t)),
     (''maxLines'', JNumber (PosInt (tr_max_lines t))), (''maxBytes'', JNumber (PosInt (tr_max_bytes t)))]"

text \<open>\<open>get(key).and_then(Value::as_f64).filter(is_finite).map(as i64)\<close>.\<close>

definition int_arg :: "Json \<Rightarrow> string \<Rightarrow> int option" where
  "int_arg params key =
    (case value_get params key of
       Some (JNumber n) \<Rightarrow> if f64_is_finite (as_f64 n) then Some (f64_as_i64 (as_f64 n)) else None
     | _ \<Rightarrow> None)"

definition blank_lines :: string where "blank_lines = [newline, newline]"

definition single_quote :: string where "single_quote = [char_of (39 :: nat)]"

definition oversized_notice :: "nat \<Rightarrow> nat \<Rightarrow> string \<Rightarrow> string" where
  "oversized_notice start_line_display line_size path =
    ''[Line '' @ show_nat start_line_display @ '' is '' @ format_size line_size @ '', exceeds '' @
    format_size DEFAULT_MAX_BYTES @
    '' limit. Only if no available tool can read this oversized line, use bash: sed -n '' @ single_quote @
    show_nat start_line_display @ ''p'' @ single_quote @ '' '' @ path @ '' | head -c '' @ show_nat DEFAULT_MAX_BYTES @ '']''"

definition continue_notice :: "TruncationResult \<Rightarrow> nat \<Rightarrow> nat \<Rightarrow> string" where
  "continue_notice t start_line_display total_file_lines =
    (let end_line_display = start_line_display + output_lines t - 1;
         next_offset = end_line_display + 1
     in blank_lines @ ''[Showing lines '' @ show_nat start_line_display @ ''-'' @ show_nat end_line_display @ '' of '' @
        show_nat total_file_lines @
        (if truncated_by t = Some ByLines then [] else '' ('' @ format_size DEFAULT_MAX_BYTES @ '' limit)'') @
        ''. Use offset='' @ show_nat next_offset @ '' to continue.]'')"

text \<open>
  The text branch of \<open>execute\<close>, from the bytes of the file to the output text and the details. The
  offset is 64 bits wide and wraps around below its minimum.
\<close>

definition read_text ::
  "ReadEnv \<Rightarrow> bool \<Rightarrow> bool \<Rightarrow> string \<Rightarrow> int option \<Rightarrow> int option \<Rightarrow> string \<Rightarrow> (string + string \<times> Json) option" where
  "read_text env original keep_comments path offset limit bytes =
    (if starts_with bytes ''%PDF-'' then
       Some (Inl ''PDF reading is not supported. Provide extracted text or rendered page images.'')
     else
     let all_lines = split_on newline (from_utf8_lossy bytes);
         total_file_lines = length all_lines;
         start_line = (case offset of Some o1 \<Rightarrow> nat (max (wrap_i64 (o1 - 1)) 0) | None \<Rightarrow> 0);
         start_line_display = start_line + 1
     in if start_line \<ge> total_file_lines then
          Some (Inl (''Offset '' @ show_int (unwrap_or offset 0) @ '' is beyond end of file ('' @
            show_nat total_file_lines @ '' lines total)''))
        else
          let end_line = (case limit of Some l \<Rightarrow> min (start_line + nat (max l 0)) total_file_lines
                          | None \<Rightarrow> total_file_lines);
              user_limited_lines = map_option (\<lambda>_. end_line - start_line) limit;
              selected_content = join [newline] (take (end_line - start_line) (drop start_line all_lines))
          in Option.bind (truncate_head selected_content \<lparr>opt_max_lines = None, opt_max_bytes = None\<rparr>) (\<lambda>truncation.
            let compact = (if original then None else re_minify_for_path env path (tr_content truncation) keep_comments);
                minified = (compact \<noteq> None);
                shown = unwrap_or compact (tr_content truncation);
                details =
                  [(''minified'', JBool minified), (''view'', JString (if original then ''original'' else ''compact'')),
                   (''startLine'', JNumber (PosInt start_line_display)),
                   (''endLine'', JNumber (PosInt (start_line + output_lines truncation))),
                   (''totalFileLines'', JNumber (PosInt total_file_lines))];
                with_truncation = details @ [(''truncation'', truncation_json truncation)]
            in Some (Inr
              (if first_line_exceeds_limit truncation then
                 (oversized_notice start_line_display (length (all_lines ! start_line)) path, JObject with_truncation)
               else if truncated truncation then
                 (shown @ continue_notice truncation start_line_display total_file_lines, JObject with_truncation)
               else (case user_limited_lines of
                  Some n \<Rightarrow>
                    if start_line + n < total_file_lines then
                      (shown @ blank_lines @ ''['' @ show_nat (total_file_lines - (start_line + n)) @
                         '' more lines in file. Use offset='' @ show_nat (start_line + n + 1) @ '' to continue.]'',
                       JObject details)
                    else (shown, JObject details)
                | None \<Rightarrow> (shown, JObject details))))))"

text \<open>\<open>image_input\<close>: \<open>None\<close> without a model, else whether the model takes images.\<close>

definition get_non_vision_image_note :: "bool option \<Rightarrow> string option" where
  "get_non_vision_image_note image_input =
    (if image_input = Some False then
       Some ''[Current model does not support images. The image will be omitted from this request.]''
     else None)"

definition read_image :: "ReadEnv \<Rightarrow> ReadToolDefinition \<Rightarrow> bool option \<Rightarrow> string \<Rightarrow> string \<Rightarrow> TextOrImageContent list" where
  "read_image env tool image_input bytes mime =
    (let note = (case get_non_vision_image_note image_input of Some n \<Rightarrow> newline # n | None \<Rightarrow> [])
     in (case re_process_image env bytes mime (rt_auto_resize_images tool) of
        ImageFailed message \<Rightarrow>
          [Text (TextContent_new (''Read image file ['' @ mime @ '']'' @ [newline] @ message @ note))]
      | ImageOk img image_mime hints \<Rightarrow>
          [Text (TextContent_new (''Read image file ['' @ image_mime @ '']'' @
             (if hints = [] then [] else newline # join [newline] hints) @ note)),
           Image \<lparr>image_data = img, mime_type = image_mime\<rparr>]))"


definition operation_aborted :: string where "operation_aborted = ''Operation aborted''"

definition tool_result :: "TextOrImageContent list \<Rightarrow> Json option \<Rightarrow> AgentToolResult" where
  "tool_result blocks details = \<lparr>atr_content = blocks, atr_details = details, atr_usage = None,
     atr_added_tool_names = None, terminate = None\<rparr>"

definition read_view :: "ReadEnv \<Rightarrow> bool \<Rightarrow> Json \<Rightarrow> string + bool" where
  "read_view env plain params =
    (if plain then Inr True
     else (case get_str params ''view'' of
        None \<Rightarrow> Inr False
      | Some v \<Rightarrow>
          if v = ''compact'' then Inr False
          else if v = ''original'' then
            (case get_str params ''reason'' of
               Some reason \<Rightarrow>
                 if trim reason = [] then Inl ''view=original requires a concrete reason. For comments, use keep_comments=true with the default compact view.''
                 else Inr True
             | None \<Rightarrow> Inl ''view=original requires a concrete reason. For comments, use keep_comments=true with the default compact view.'')
          else Inl (''Unknown read view '' @ re_debug env v @ ''; use compact or original'')))"

definition read_execute ::
  "ReadEnv \<Rightarrow> ReadToolDefinition \<Rightarrow> (nat \<Rightarrow> bool) \<Rightarrow> bool option \<Rightarrow> Json \<Rightarrow> (string + AgentToolResult) option" where
  "read_execute env tool aborted image_input params =
    (if aborted 0 then Some (Inl operation_aborted)
     else (case read_view env (rt_plain tool) params of
        Inl e \<Rightarrow> Some (Inl e)
      | Inr original \<Rightarrow>
        let keep_comments = unwrap_or (Option.bind (value_get params ''keep_comments'') as_bool) False;
            path = unwrap_or (get_str params ''path'') [];
            offset = int_arg params ''offset'';
            limit = int_arg params ''limit'';
            absolute_path = re_resolve_read_path env path (rt_cwd tool)
        in if aborted 1 then Some (Inl operation_aborted)
        else (case re_access env absolute_path of
           Inl e \<Rightarrow> Some (Inl e)
         | Inr _ \<Rightarrow>
        if aborted 2 then Some (Inl operation_aborted)
        else (case re_detect_image_mime_type env absolute_path of
           Some mime \<Rightarrow>
             (case re_read_file env absolute_path of
                Inl e \<Rightarrow> Some (Inl e)
              | Inr bytes \<Rightarrow>
                  if aborted 3 then Some (Inl operation_aborted)
                  else Some (Inr (tool_result (read_image env tool image_input bytes mime) None)))
         | None \<Rightarrow>
             (case re_read_file env absolute_path of
                Inl e \<Rightarrow> Some (Inl e)
              | Inr bytes \<Rightarrow>
                  if aborted 3 then Some (Inl operation_aborted)
                  else (case read_text env original keep_comments path offset limit bytes of
                     None \<Rightarrow> None
                   | Some (Inl e) \<Rightarrow> Some (Inl e)
                   | Some (Inr (output_text, details)) \<Rightarrow>
                       if aborted 4 then Some (Inl operation_aborted)
                       else Some (Inr (tool_result [Text (TextContent_new output_text)] (Some details)))))))))"

section \<open>Reading a file page by page\<close>

text \<open>
  What a model sees that reads a file from the first line and follows the announced offsets: the text
  of a truncated page is the \<open>content\<close> of its details, and the next page starts after its last line.
\<close>

fun read_pages :: "nat \<Rightarrow> ReadEnv \<Rightarrow> string \<Rightarrow> string \<Rightarrow> nat \<Rightarrow> string list option" where
  "read_pages 0 env path bytes offset = None"
| "read_pages (Suc fuel) env path bytes offset =
    (case read_text env True False path (Some (int offset)) None bytes of
       Some (Inr (page, details)) \<Rightarrow>
         (case value_get details ''truncation'' of
            None \<Rightarrow> Some [page]
          | Some t \<Rightarrow>
              (case (get_str t ''content'', Option.bind (value_get details ''endLine'') as_u64) of
                 (Some page', Some end_line) \<Rightarrow>
                   map_option (\<lambda>pages. page' # pages) (read_pages fuel env path bytes (Suc end_line))
               | _ \<Rightarrow> None))
     | _ \<Rightarrow> None)"

lemma split_lines_of_join:
  assumes "L \<noteq> []" and "list_all (\<lambda>l. newline \<notin> set l) L"
  shows "split_lines_for_counting (join [newline] L) = (if last L = [] then butlast L else L)"
proof -
  have split: "split_on newline (join [newline] L) = L" by (rule split_on_join [OF assms])
  show ?thesis
  proof (cases "join [newline] L = []")
    case True
    then have "L = [[]]" using split by simp
    then show ?thesis by simp
  next
    case False
    have "last (join [newline] L) = newline \<longleftrightarrow> last L = []"
    proof (cases "butlast L = []")
      case True
      then obtain x where x: "L = [x]" using assms(1) by (metis append_butlast_last_id append_Nil)
      then show ?thesis using False assms(2) by (auto dest: last_in_set)
    next
      case F: False
      then have "join [newline] L = join [newline] (butlast L) @ [newline] @ last L"
        using join_append [of "butlast L" "[last L]" "[newline]"] assms(1) by simp
      moreover have "newline \<notin> set (last L)" using assms by (simp add: list_all_iff)
      ultimately show ?thesis by (auto dest: last_in_set)
    qed
    then show ?thesis using False split by (simp add: split_lines_for_counting_def ends_with_newline_def)
  qed
qed

text \<open>One page: at least one line, and a following page exists when it is truncated.\<close>

lemma default_limits: "resolve \<lparr>opt_max_lines = None, opt_max_bytes = None\<rparr> = (DEFAULT_MAX_LINES, DEFAULT_MAX_BYTES)"
  by (simp add: resolve_def)

lemma truncate_page:
  assumes L: "L \<noteq> []" "list_all (\<lambda>l. newline \<notin> set l) L" "list_all (\<lambda>l. length l \<le> DEFAULT_MAX_BYTES) L"
  obtains (all) r where "truncate_head (join [newline] L) \<lparr>opt_max_lines = None, opt_max_bytes = None\<rparr> = Some r"
      "\<not> truncated r" "\<not> first_line_exceeds_limit r" "tr_content r = join [newline] L"
  | (page) r k where "truncate_head (join [newline] L) \<lparr>opt_max_lines = None, opt_max_bytes = None\<rparr> = Some r"
      "truncated r" "\<not> first_line_exceeds_limit r" "tr_content r = join [newline] (take k L)"
      "output_lines r = k" "0 < k" "k < length L"
proof -
  let ?s = "join [newline] L"
  have lines: "split_lines_for_counting ?s = (if last L = [] then butlast L else L)"
    by (rule split_lines_of_join [OF L(1,2)])
  from default_limits refl [of "split_lines_for_counting ?s"] show ?thesis
  proof (cases rule: truncate_head_cases)
    case whole
    show ?thesis by (rule all [OF whole(3)]) (simp_all add: untruncated_def)
  next
    case (first r line rest)
    have "line \<in> set L" using first(2) lines L(1)
      by (metis in_set_butlastD list.set_intros(1))
    then show ?thesis using first(3) L(3) by (auto simp: list_all_iff)
  next
    case (part r k)
    have take: "take k (split_lines_for_counting ?s) = take k L"
      using part(5) lines L(1) by (cases L rule: rev_cases) (auto split: if_splits)
    have pos: "0 < k" using part(12) by (simp add: DEFAULT_MAX_LINES_def)
    have "k < length L"
    proof (cases "last L = []")
      case True
      then show ?thesis using part(5) lines L(1) pos by simp
    next
      case False
      have "k \<noteq> length L"
      proof
        assume "k = length L"
        then show False using part(1,6,7,9,10) take lines False by auto
      qed
      then show ?thesis using part(5) lines False by simp
    qed
    then show ?thesis using part take pos by (intro page [of r k]) simp_all
  qed
qed


lemma read_text_page:
  assumes "\<not> starts_with bytes ''%PDF-''" and lines: "lines = split_on newline (from_utf8_lossy bytes)"
    and small: "list_all (\<lambda>l. length l \<le> DEFAULT_MAX_BYTES) lines"
    and start: "start < length lines" "start < 2 ^ 63 - 1"
  obtains (all) d where "read_text env True keep path (Some (int (Suc start))) None bytes =
        Some (Inr (join [newline] (drop start lines), d))" "value_get d ''truncation'' = None"
  | (page) out d t k where "read_text env True keep path (Some (int (Suc start))) None bytes = Some (Inr (out, d))"
      "value_get d ''truncation'' = Some t" "get_str t ''content'' = Some (join [newline] (take k (drop start lines)))"
      "Option.bind (value_get d ''endLine'') as_u64 = Some (start + k)" "0 < k" "start + k < length lines"
proof -
  let ?L = "drop start lines"
  have st: "wrap_i64 (int start) = int start"
    using start(2) by (simp add: wrap_i64_def I64_MIN_def)
  have L: "?L \<noteq> []" "list_all (\<lambda>l. newline \<notin> set l) ?L" "list_all (\<lambda>l. length l \<le> DEFAULT_MAX_BYTES) ?L"
    using start(1) lines small split_on_pieces by (auto simp: list_all_iff dest: in_set_dropD)
  have sel: "take (length lines - start) ?L = ?L" by simp
  note eval = read_text_def assms(1) lines [symmetric] Let_def st sel value_get_def json_get_def
    get_str_def truncation_json_def
  from L show ?thesis
  proof (cases rule: truncate_page)
    case (all r)
    then have "\<exists>d. read_text env True keep path (Some (int (Suc start))) None bytes =
        Some (Inr (join [newline] ?L, d)) \<and> value_get d ''truncation'' = None"
      using start(1) by (simp add: eval)
    then show ?thesis using that(1) by blast
  next
    case (page r k)
    then have "\<exists>out d. read_text env True keep path (Some (int (Suc start))) None bytes = Some (Inr (out, d)) \<and>
        value_get d ''truncation'' = Some (truncation_json r) \<and>
        Option.bind (value_get d ''endLine'') as_u64 = Some (start + k)"
      using start(1) by (simp add: eval)
    moreover have "get_str (truncation_json r) ''content'' = Some (join [newline] (take k ?L))"
      using page(4) by (simp add: eval)
    moreover have "start + k < length lines" using page(7) by simp
    ultimately show ?thesis using that(2) page(6) by blast
  qed
qed


lemma read_pages_from:
  assumes "\<not> starts_with bytes ''%PDF-''" and "lines = split_on newline (from_utf8_lossy bytes)"
    and "list_all (\<lambda>l. length l \<le> DEFAULT_MAX_BYTES) lines" and "length lines < 2 ^ 63"
    and "start < length lines" and "length lines - start \<le> fuel"
  shows "\<exists>pages. read_pages fuel env path bytes (Suc start) = Some pages \<and> pages \<noteq> [] \<and>
    join [newline] pages = join [newline] (drop start lines)"
  using assms(5,6)
proof (induction fuel arbitrary: start)
  case (Suc fuel)
  have bound: "start < 2 ^ 63 - 1" using Suc.prems(1) assms(4) by simp
  from assms(1-3) Suc.prems(1) bound show ?case
  proof (cases rule: read_text_page [where env = env and keep = False and path = path])
    case (all d)
    then show ?thesis by simp
  next
    case (page out d t k)
    have "length lines - (start + k) \<le> fuel" using Suc.prems(2) page(5) by linarith
    then obtain pages where p: "read_pages fuel env path bytes (Suc (start + k)) = Some pages" "pages \<noteq> []"
      "join [newline] pages = join [newline] (drop (start + k) lines)"
      using Suc.IH [OF page(6)] by blast
    have "drop start lines = take k (drop start lines) @ drop (start + k) lines"
      by (metis append_take_drop_id drop_drop add.commute)
    moreover have "take k (drop start lines) \<noteq> []" "drop (start + k) lines \<noteq> []" using page(5,6) by auto
    ultimately have "join [newline] (drop start lines) =
        join [newline] (take k (drop start lines)) @ [newline] @ join [newline] (drop (start + k) lines)"
      using join_append by metis
    then show ?thesis using p page by (simp add: join_Cons_if)
  qed
qed simp


definition sample_read_env :: ReadEnv where
  "sample_read_env = \<lparr>re_access = (\<lambda>_. Inr ()), re_detect_image_mime_type = (\<lambda>_. None), re_read_file = (\<lambda>_. Inr []),
     re_process_image = (\<lambda>_ _ _. ImageFailed []), re_minify_for_path = (\<lambda>_ _ _. None),
     re_resolve_read_path = (\<lambda>p _. p), re_debug = (\<lambda>s. s)\<rparr>"

definition blank_file :: string where "blank_file = replicate 3000 newline"

lemma split_on_replicate: "split_on c (replicate n c) = replicate (Suc n) []"
  by (induction n) simp_all

lemma lossy_newlines: "from_utf8_lossy (replicate n newline) = replicate n newline"
proof (rule from_utf8_lossy_valid)
  show "utf8_valid (replicate n newline)" by (induction n) (simp_all add: utf8_valid_def newline_def)
qed


end
