(* ===== verification/Bash_Tool.thy ===== *)
theory Bash_Tool
  imports Output_Proofs Read_Tool
begin

text \<open>
  What the shell tool does with the output of a command (\<open>core/tools/bash.rs\<close>): the final snapshot,
  the notice about output that was cut off, the bash filter, the exit status, and the foreground run
  of a managed task. Running the command, the filter, the task manager and the printing of floats are
  parameters; a run is the list of the chunks that arrived, each with the state of the temporary file
  system at that moment. \<open>None\<close> stands for a panic.
\<close>

section \<open>Formatting the output\<close>

datatype BashExecError = BashAborted | BashTimeout f64 | BashOther string

datatype ForegroundRelease = Terminal | Detached | TimeoutDetached

datatype TaskStatus = TaskRunning | TaskCompleted | TaskFailed | TaskTimedOut | TaskKilled | TaskLost

record 'p BashFilter =
  bf_prepare :: "string \<Rightarrow> 'p"
  bf_execution :: "'p \<Rightarrow> string"
  bf_original :: "'p \<Rightarrow> string"
  bf_uses_execution_override :: "'p \<Rightarrow> bool"
  bf_execute_override :: "'p \<Rightarrow> string \<Rightarrow> (string \<times> string \<times> int option) option"
  bf_filter_with_cwd :: "'p \<Rightarrow> string \<Rightarrow> string \<Rightarrow> string \<Rightarrow> int option \<Rightarrow> bool \<times> string"
  bf_should_retry_original :: "'p \<Rightarrow> string \<Rightarrow> int option \<Rightarrow> bool"

definition estimate_tokens :: "string \<Rightarrow> nat" where
  "estimate_tokens s = (length s + 3) div 4"

text \<open>\<open>OutputPipeline::finish\<close> and \<open>persist_full_output\<close>, without the live updates.\<close>

definition pipeline_finish :: "Sink \<Rightarrow> OutputAccumulator \<Rightarrow> OutputSnapshot \<times> OutputAccumulator" where
  "pipeline_finish io acc =
    (case accumulator_snapshot io True (accumulator_finish io acc) of (snap, acc1) \<Rightarrow> (snap, close_temp_file acc1))"

definition persist_full_output :: "Sink \<Rightarrow> OutputAccumulator \<Rightarrow> string option \<times> OutputAccumulator" where
  "persist_full_output io acc =
    (let acc1 = close_temp_file (accumulator_persist io acc) in (temp_file_path acc1, acc1))"

definition details_value :: "OutputSnapshot \<Rightarrow> Json" where
  "details_value snap = JObject
    ((if truncated (truncation snap) then [(''truncation'', truncation_json (truncation snap))] else []) @
     (case snap_full_output_path snap of Some path \<Rightarrow> [(''fullOutputPath'', JString path)] | None \<Rightarrow> []))"

definition format_output :: "OutputAccumulator \<Rightarrow> OutputSnapshot \<Rightarrow> string \<Rightarrow> (string \<times> Json option) option" where
  "format_output acc snap empty_text =
    (let t = truncation snap;
         body = (if snap_content snap = [] then empty_text else snap_content snap)
     in if \<not> truncated t then Some (body, None)
        else if output_lines t > total_lines t then None
        else
          let start_line = total_lines t - output_lines t + 1;
              end_line = total_lines t;
              path = unwrap_or (snap_full_output_path snap) [];
              notice =
                (if last_line_partial t then
                   ''[Showing last '' @ format_size (output_bytes t) @ '' of line '' @ show_nat end_line @
                   '' (line is '' @ format_size (get_last_line_bytes acc) @ ''). Full output: '' @ path @ '']''
                 else if truncated_by t = Some ByLines then
                   ''[Showing lines '' @ show_nat start_line @ ''-'' @ show_nat end_line @ '' of '' @
                   show_nat (total_lines t) @ ''. Full output: '' @ path @ '']''
                 else
                   ''[Showing lines '' @ show_nat start_line @ ''-'' @ show_nat end_line @ '' of '' @
                   show_nat (total_lines t) @ '' ('' @ format_size DEFAULT_MAX_BYTES @ '' limit). Full output: '' @ path @ '']'')
          in Some (body @ blank_lines @ notice, Some (details_value snap)))"

text \<open>The third component is the temporary file that is removed again.\<close>

definition format_output_with_filter ::
  "'p BashFilter \<Rightarrow> Sink \<Rightarrow> OutputAccumulator \<Rightarrow> OutputSnapshot \<Rightarrow> 'p option \<Rightarrow> string \<Rightarrow> int option \<Rightarrow> string
   \<Rightarrow> (string \<times> Json option \<times> string option) option" where
  "format_output_with_filter flt io acc snap prepared cwd exit_val empty_text =
    (let raw = map_option (\<lambda>(s, d). (s, d, None)) (format_output acc snap empty_text)
     in (case prepared of
        None \<Rightarrow> raw
      | Some p \<Rightarrow>
          if truncated (truncation snap) then raw
          else
            (case bf_filter_with_cwd flt p cwd (snap_content snap) [] exit_val of
               (changed, stdout) \<Rightarrow>
                 if \<not> changed then raw
                 else
                   let body = (if stdout = [] then empty_text else stdout);
                       created_temp_file = (snap_full_output_path snap = None)
                   in (case fst (persist_full_output io acc) of
                      None \<Rightarrow> Some (body, None, None)
                    | Some path \<Rightarrow>
                        let annotated = body @ blank_lines @ ''[Compacted by the bash filter. Full output: '' @ path @ '']''
                        in if estimate_tokens annotated \<ge> estimate_tokens (snap_content snap) then
                             map_option (\<lambda>(s, d). (s, d, if created_temp_file then Some path else None))
                               (format_output acc snap empty_text)
                           else Some (annotated, Some (JObject [(''fullOutputPath'', JString path)]), None)))))"

definition append_status :: "string \<Rightarrow> string \<Rightarrow> string" where
  "append_status s status = (if s = [] then status else s @ blank_lines @ status)"

definition exit_status :: "string \<Rightarrow> Json option \<Rightarrow> int option \<Rightarrow> string + AgentToolResult" where
  "exit_status output_text details exit_val =
    (case exit_val of
       Some code \<Rightarrow>
         if code \<noteq> 0 then Inl (append_status output_text (''Command exited with code '' @ show_int code))
         else Inr (tool_result [Text (TextContent_new output_text)] details)
     | None \<Rightarrow> Inr (tool_result [Text (TextContent_new output_text)] details))"

section \<open>Running a command\<close>

record Execution =
  ex_chunks :: "(Sink \<times> string) list"
  ex_result :: "BashExecError + int option"
  ex_finish :: Sink

record BashToolDefinition =
  bt_cwd :: string
  bt_command_prefix :: "string option"
  bt_exec :: "string \<Rightarrow> string \<Rightarrow> f64 \<Rightarrow> Execution"
  bt_show_f64 :: "f64 \<Rightarrow> string"

definition pipeline_options :: OutputAccumulatorOptions where
  "pipeline_options = OutputAccumulatorOptions_default\<lparr>oo_temp_file_prefix := ''notagent-bash''\<rparr>"

definition with_prefix :: "BashToolDefinition \<Rightarrow> string \<Rightarrow> string" where
  "with_prefix tool command =
    (case bt_command_prefix tool of Some prefix \<Rightarrow> prefix @ [newline] @ command | None \<Rightarrow> command)"

text \<open>The outer \<open>None\<close> is a panic, the inner one that there is nothing to retry.\<close>

definition rerun_original ::
  "'p BashFilter \<Rightarrow> BashToolDefinition \<Rightarrow> 'p option \<Rightarrow> OutputSnapshot \<Rightarrow> f64 \<Rightarrow> int option
   \<Rightarrow> (string + AgentToolResult) option option" where
  "rerun_original flt tool prepared snap timeout exit_val =
    (case prepared of
       None \<Rightarrow> Some None
     | Some p \<Rightarrow>
         if \<not> bf_should_retry_original flt p (snap_content snap) exit_val then Some None
         else
           let run = bt_exec tool (with_prefix tool (bf_original flt p)) (bt_cwd tool) timeout
           in (case append_all (ex_chunks run) (accumulator_new pipeline_options) of
              None \<Rightarrow> None
            | Some acc \<Rightarrow>
                (case ex_result run of
                   Inl _ \<Rightarrow> Some None
                 | Inr code \<Rightarrow>
                     (case pipeline_finish (ex_finish run) acc of (snap', acc') \<Rightarrow>
                        (case format_output acc' snap' ''(no output)'' of
                           None \<Rightarrow> None
                         | Some (output_text, details) \<Rightarrow> Some (Some (exit_status output_text details code)))))))"

text \<open>The path of \<open>execute\<close> without a task manager and without an execution override.\<close>

definition bash_run_direct ::
  "'p BashFilter \<Rightarrow> BashToolDefinition \<Rightarrow> 'p option \<Rightarrow> string \<Rightarrow> f64 \<Rightarrow> (string + AgentToolResult) option" where
  "bash_run_direct flt tool prepared command timeout =
    (let execution_command = (case prepared of Some p \<Rightarrow> bf_execution flt p | None \<Rightarrow> command);
         run = bt_exec tool (with_prefix tool execution_command) (bt_cwd tool) timeout
     in (case append_all (ex_chunks run) (accumulator_new pipeline_options) of
        None \<Rightarrow> None
      | Some acc \<Rightarrow>
          (case pipeline_finish (ex_finish run) acc of (snap, acc') \<Rightarrow>
             (case ex_result run of
                Inl error \<Rightarrow>
                  (case format_output_with_filter flt (ex_finish run) acc' snap prepared (bt_cwd tool) None [] of
                     None \<Rightarrow> None
                   | Some (output_text, _, _) \<Rightarrow>
                       Some (Inl (case error of
                          BashAborted \<Rightarrow> append_status output_text ''Command aborted''
                        | BashTimeout seconds \<Rightarrow>
                            append_status output_text (''Command timed out after '' @ bt_show_f64 tool seconds @ '' seconds'')
                        | BashOther message \<Rightarrow> message)))
              | Inr exit_val \<Rightarrow>
                  (case rerun_original flt tool prepared snap timeout exit_val of
                     None \<Rightarrow> None
                   | Some (Some retried) \<Rightarrow> Some retried
                   | Some None \<Rightarrow>
                       (case format_output_with_filter flt (ex_finish run) acc' snap prepared (bt_cwd tool) exit_val ''(no output)'' of
                          None \<Rightarrow> None
                        | Some (output_text, details, _) \<Rightarrow> Some (exit_status output_text details exit_val)))))))"

text \<open>The override branch: the answer of the filter instead of a process.\<close>

definition bash_run_override ::
  "'p BashFilter \<Rightarrow> BashToolDefinition \<Rightarrow> 'p \<Rightarrow> Sink \<Rightarrow> (string + AgentToolResult) option" where
  "bash_run_override flt tool p io =
    (case bf_execute_override flt p (bt_cwd tool) of
       None \<Rightarrow> Some (Inl ''bash filter declared an execution override but produced none'')
     | Some (stdout, stderr, exit_val) \<Rightarrow>
         (case append_all [(io, stdout), (io, stderr)] (accumulator_new pipeline_options) of
            None \<Rightarrow> None
          | Some acc \<Rightarrow>
              (case pipeline_finish io acc of (snap, acc') \<Rightarrow>
                 (case format_output_with_filter flt io acc' snap (Some p) (bt_cwd tool) exit_val ''(no output)'' of
                    None \<Rightarrow> None
                  | Some (output_text, details, _) \<Rightarrow> Some (exit_status output_text details exit_val)))))"

section \<open>Managed runs\<close>

definition render_detached_result :: "string \<Rightarrow> string \<Rightarrow> ForegroundRelease \<Rightarrow> string" where
  "render_detached_result task_id description reason =
    join [newline]
      [''task_id: '' @ task_id, ''status: running'', ''description: '' @ description,
       (case reason of
          TimeoutDetached \<Rightarrow> ''The command reached its foreground deadline and was moved to the background.''
        | Detached \<Rightarrow> ''The command was moved to the background.''
        | Terminal \<Rightarrow> ''Started in the background.''),
       ''next_step: its result arrives on its own in a later turn '' @ em_dash @
         '' do not wait for it or poll task_output; carry on with other work.'',
       ''next_step: use task_stop only if it must be cancelled.'']"

definition truncate_command_label :: "string \<Rightarrow> string" where
  "truncate_command_label command =
    (if length (chars command) > 60 then concat (take 60 (chars command)) @ ellipsis else command)"

record ManagedTaskSnapshot =
  mt_status :: TaskStatus
  mt_stop_reason :: "string option"
  mt_exit_code :: "int option"

text \<open>
  What the task manager answers: the id of the registered task, the chunks that arrived until the
  foreground was released, why it was released, and the task as it is then.
\<close>

record ManagedRun =
  mr_register :: "string + string"
  mr_chunks :: "(Sink \<times> string) list"
  mr_release :: "ForegroundRelease option"
  mr_task :: "ManagedTaskSnapshot option"
  mr_finish :: Sink

definition managed_result ::
  "'p BashFilter \<Rightarrow> BashToolDefinition \<Rightarrow> 'p option \<Rightarrow> f64 \<Rightarrow> ManagedRun \<Rightarrow> OutputSnapshot \<Rightarrow> OutputAccumulator
   \<Rightarrow> (string + AgentToolResult) option" where
  "managed_result flt tool prepared timeout run snap acc =
    (let exit_val = Option.bind (mr_task run) mt_exit_code
     in (case rerun_original flt tool prepared snap timeout exit_val of
        None \<Rightarrow> None
      | Some (Some retried) \<Rightarrow> Some retried
      | Some None \<Rightarrow>
          (case format_output_with_filter flt (mr_finish run) acc snap prepared (bt_cwd tool) exit_val ''(no output)'' of
             None \<Rightarrow> None
           | Some (output_text, details, _) \<Rightarrow>
               Some (case mr_task run of
                  None \<Rightarrow> exit_status output_text details exit_val
                | Some task \<Rightarrow>
                    if mt_status task = TaskTimedOut then
                      Inl (append_status output_text (''Command timed out after '' @ bt_show_f64 tool timeout @ '' seconds''))
                    else if mt_status task = TaskKilled then
                      Inl (append_status output_text (unwrap_or (mt_stop_reason task) ''Command aborted''))
                    else if mt_status task = TaskFailed \<and> exit_val = None then
                      Inl (append_status output_text (unwrap_or (mt_stop_reason task) ''Command failed''))
                    else exit_status output_text details exit_val))))"

definition run_managed ::
  "'p BashFilter \<Rightarrow> BashToolDefinition \<Rightarrow> 'p option \<Rightarrow> string \<Rightarrow> bool \<Rightarrow> f64 \<Rightarrow> ManagedRun \<Rightarrow> (string + AgentToolResult) option" where
  "run_managed flt tool prepared description starts_in_background timeout run =
    (case mr_register run of
       Inl e \<Rightarrow> Some (Inl e)
     | Inr task_id \<Rightarrow>
         if starts_in_background then
           Some (Inr (tool_result [Text (TextContent_new (render_detached_result task_id description Terminal))] None))
         else (case append_all (mr_chunks run) (accumulator_new pipeline_options) of
            None \<Rightarrow> None
          | Some acc \<Rightarrow>
         (case pipeline_finish (mr_finish run) acc of (snap, acc') \<Rightarrow>
           (case mr_release run of
              Some reason \<Rightarrow>
                if reason \<in> {Detached, TimeoutDetached} then
                  (case format_output_with_filter flt (mr_finish run) acc' snap prepared (bt_cwd tool) None [] of
                     None \<Rightarrow> None
                   | Some (output_text, _, _) \<Rightarrow>
                       let header = render_detached_result task_id description reason
                       in Some (Inr (tool_result [Text (TextContent_new
                            (if output_text = [] then header
                             else header @ blank_lines @ ''output so far:'' @ [newline] @ output_text))] None)))
                else managed_result flt tool prepared timeout run snap acc'
            | None \<Rightarrow> managed_result flt tool prepared timeout run snap acc'))))"


section \<open>The tool returns\<close>

text \<open>The text shown of a finished output never has more lines than the output.\<close>

lemma output_lines_le: "output_lines (truncate_tail s opts) \<le> length (split_lines_for_counting s)"
proof -
  obtain ml mb where r: "resolve opts = (ml, mb)" by fastforce
  let ?L = "split_lines_for_counting s"
  obtain out n by0 p where loop: "tail_loop ml mb [] 0 (rev ?L) = (out, n, by0, p)" by (metis prod_cases4)
  have "length out \<le> length ?L" using tail_loop_lines [OF loop] by (auto simp: Suc_le_eq)
  then show ?thesis using r loop by (simp add: truncate_tail_def Let_def untruncated_def)
qed

lemma split_lines_suffix_le:
  "length (split_lines_for_counting t) \<le> length (split_lines_for_counting (a @ t))"
  by (auto simp: count_lines last_split_on_append)

lemma snapshot_text_suffix:
  assumes "keeps_tail gone out acc"
  shows "\<exists>a. out = a @ snapshot_text acc"
proof -
  have "out = gone @ tail_text acc" using assms by (simp add: keeps_tail_def)
  moreover have "\<exists>a. tail_text acc = a @ drop (Suc i) (tail_text acc)" for i by (metis append_take_drop_id)
  ultimately show ?thesis by (auto simp: snapshot_text_def split: option.splits) (metis append_assoc)+
qed

lemma complete_output_lines:
  assumes "complete raw acc" and "accumulator_snapshot io persist acc = (snap, acc')"
  shows "output_lines (truncation snap) \<le> total_lines (truncation snap)"
proof -
  obtain gone where k: "keeps_tail gone (from_utf8_lossy raw) acc" and c: "counts (from_utf8_lossy raw) acc"
    using assms(1) by (auto simp: complete_def)
  obtain a where a: "from_utf8_lossy raw = a @ snapshot_text acc" using snapshot_text_suffix [OF k] by blast
  have "output_lines (truncation snap) \<le> length (split_lines_for_counting (snapshot_text acc))"
    unfolding snapshot_fields(3) [OF assms(2)] by (rule output_lines_le)
  also have "\<dots> \<le> total_lines (truncation snap)"
    using split_lines_suffix_le [of "snapshot_text acc" a] a snapshot_fields(6) [OF assms(2)] c by (simp add: counts_def)
  finally show ?thesis .
qed

lemma run_finishes:
  obtains acc snap acc' where "append_all chunks (accumulator_new opts) = Some acc"
    "pipeline_finish io acc = (snap, acc')" "output_lines (truncation snap) \<le> total_lines (truncation snap)"
proof -
  obtain acc where a: "append_all chunks (accumulator_new opts) = Some acc" "tracks (concat (map snd chunks)) acc" "\<not> finished acc"
    using append_all_tracks [OF tracks_new [of opts], of chunks] by auto
  obtain snap acc' where s: "accumulator_snapshot io True (accumulator_finish io acc) = (snap, acc')" by fastforce
  show ?thesis
    using that [OF a(1), of snap] complete_output_lines [OF complete_finish [OF a(2,3)] s] s by (simp add: pipeline_finish_def)
qed

lemma format_output_returns:
  "output_lines (truncation snap) \<le> total_lines (truncation snap) \<Longrightarrow> \<exists>r. format_output acc snap e = Some r"
  by (auto simp: format_output_def Let_def)

lemma format_output_with_filter_returns:
  assumes "output_lines (truncation snap) \<le> total_lines (truncation snap)"
  shows "\<exists>s d f. format_output_with_filter flt io acc snap prepared cwd code e = Some (s, d, f)"
proof -
  obtain s d where "format_output acc snap e = Some (s, d)" using format_output_returns [OF assms] by fast
  then show ?thesis by (auto simp: format_output_with_filter_def Let_def split: option.splits prod.splits)
qed

lemma rerun_returns: "rerun_original flt tool prepared snap timeout code \<noteq> None"
proof (cases prepared)
  case (Some p)
  let ?run = "bt_exec tool (with_prefix tool (bf_original flt p)) (bt_cwd tool) timeout"
  obtain acc snap' acc' where r: "append_all (ex_chunks ?run) (accumulator_new pipeline_options) = Some acc"
      "pipeline_finish (ex_finish ?run) acc = (snap', acc')" "output_lines (truncation snap') \<le> total_lines (truncation snap')"
    by (rule run_finishes)
  obtain s d where "format_output acc' snap' ''(no output)'' = Some (s, d)" using format_output_returns [OF r(3)] by fast
  then show ?thesis using Some r by (simp add: rerun_original_def Let_def split: sum.split)
qed (simp add: rerun_original_def)



section \<open>A line longer than the tail\<close>

lemma utf8_error_ok: "utf8_ok bs \<Longrightarrow> utf8_error bs = None"
proof (cases "utf8_error bs")
  case (Some x)
  assume ok: "utf8_ok bs"
  obtain v e where x: "x = (v, e)" by fastforce
  have t: "utf8_ok (take v bs)" "v < length bs" "utf8_step (drop v bs) = (case e of None \<Rightarrow> Unfinished | Some n \<Rightarrow> Malformed n)"
    using utf8_error_Some [of bs v e] Some x by auto
  have "utf8_ok (drop v bs)" using utf8_ok_append_cancel [OF t(1), of "drop v bs"] ok by simp
  then show ?thesis using utf8_ok_step [of "drop v bs"] t(2,3) by (auto split: option.splits)
qed

definition one_line :: "nat \<Rightarrow> string" where
  "one_line n = replicate n CHR ''x'' @ [newline]"

lemma one_line_valid: "utf8_valid (one_line n)"
  unfolding one_line_def by (induction n) (simp_all add: utf8_valid_def newline_chr)

lemma one_line_lines: "split_lines_for_counting (one_line n) = [replicate n CHR ''x'']"
proof -
  have "newline \<notin> set (replicate n CHR ''x'')" by (simp add: newline_chr)
  then have "split_on newline (one_line n) = [replicate n CHR ''x'', []]"
    unfolding one_line_def using split_on_cut [of newline "replicate n CHR ''x''" "[]"] by simp
  then show ?thesis by (simp add: split_lines_for_counting_def ends_with_newline_def one_line_def)
qed

lemma one_line_snapshot:
  assumes "4 * oo_max_bytes opts \<le> n" and "0 < oo_max_bytes opts" and "create_path io = Some path"
  shows "\<exists>acc snap acc'. append_all [(io, one_line n)] (accumulator_new opts) = Some acc \<and>
    accumulator_snapshot io True (accumulator_finish io acc) = (snap, acc') \<and> snap_content snap = [] \<and>
    truncated (truncation snap) \<and> output_lines (truncation snap) = 0 \<and> total_lines (truncation snap) = 1 \<and>
    truncated_by (truncation snap) = Some ByBytes \<and> \<not> last_line_partial (truncation snap) \<and>
    snap_full_output_path snap = Some path"
proof -
  let ?new = "accumulator_new opts"
  have dec: "decode_streaming (one_line n) = (one_line n, [])"
    using utf8_error_ok one_line_valid [of n] by (simp add: decode_streaming.simps utf8_valid_def)
  let ?a = "append_decoded_text (one_line n) (?new\<lparr>total_raw_bytes := length (one_line n), pending_bytes := []\<rparr>)"
  have empty: "snapshot_text ?a = []"
    unfolding one_line_def using assms(2) by (intro long_line_trimmed [OF assms(2,1)]) (simp_all add: accumulator_new_def)
  have new: "pending_bytes ?new = []" "total_raw_bytes ?new = 0" "temp_file_path ?new = None" "\<not> temp_file ?new"
    by (simp_all add: accumulator_new_def)
  have big: "should_use_temp_file ?a" using assms(1,2) by (simp add: should_use_temp_file_def one_line_def)
  define acc where "acc = (ensure_temp_file io ?a)\<lparr>temp_data := temp_data (ensure_temp_file io ?a) @ write_all io (one_line n)\<rparr>"
  have same: "snapshot_text (x\<lparr>temp_data := d\<rparr>) = snapshot_text x" "snapshot_text (x\<lparr>finished := f, pending_bytes := q\<rparr>) = snapshot_text x" for x d f q
    by (simp_all add: snapshot_text_def split: option.split)
  have gone: "snapshot_text acc = []" unfolding acc_def using same(1) empty by simp
  have path: "temp_file_path acc = Some path" "temp_file acc" "pending_bytes acc = []" "\<not> finished acc"
    using new assms(3) unfolding acc_def by (simp_all add: ensure_temp_file_def)
  have app: "append_all [(io, one_line n)] ?new = Some acc"
    using new dec big path(2) assms(3) by (simp add: accumulator_append_def acc_def ensure_temp_file_def)
  have fin: "snapshot_text (accumulator_finish io acc) = []" "temp_file_path (accumulator_finish io acc) = Some path"
    using path gone same(2) by (simp_all add: accumulator_finish_def Let_def ensure_temp_file_def)
  obtain snap acc' where s: "accumulator_snapshot io True (accumulator_finish io acc) = (snap, acc')" by fastforce
  have raw: "from_utf8_lossy (concat (map snd [(io, one_line n)])) = one_line n"
    using from_utf8_lossy_valid [OF one_line_valid] by simp
  have len: "length (one_line n) = n + 1" by (simp add: one_line_def)
  have "accumulator_append io (one_line n) ?new = Some acc" using app by (simp split: bind_splits)
  then have max: "acc_max_bytes acc = oo_max_bytes opts" using append_not_finished by fastforce
  have t: "total_lines (truncation snap) = 1" "truncated (truncation snap)"
      "total_decoded_bytes (accumulator_finish io acc) > acc_max_bytes (accumulator_finish io acc)"
    using finished_totals [OF app s] snapshot_fields(7) [OF s] assms(1,2) max unfolding raw len
    by (simp_all add: one_line_lines)
  have "snap_content snap = []" "output_lines (truncation snap) = 0" "\<not> last_line_partial (truncation snap)"
      "truncated_by (truncation snap) = Some ByBytes" "snap_full_output_path snap = Some path"
    using s t(3) fin by (auto simp: accumulator_snapshot_def Let_def truncate_tail_def untruncated_def ensure_temp_file_def resolve_def)
  then show ?thesis using app s t by blast
qed


text \<open>
  A command that prints one line of at least four times the byte limit, with a line feed at its
  end, appears to have printed nothing: the rolling tail starts in the middle of that line, the rest of
  the line is dropped as incomplete, and the result reads as below, with lines 2 to 1 of 1 shown. Where
  the tail has not been trimmed, the end of such a line is shown instead.
\<close>

theorem long_line_output_vanishes:
  assumes "4 * DEFAULT_MAX_BYTES \<le> n" and "create_path io = Some path"
    and "bt_exec tool (with_prefix tool cmd) (bt_cwd tool) timeout =
      \<lparr>ex_chunks = [(io, one_line n)], ex_result = Inr (Some 0), ex_finish = io\<rparr>"
  shows "\<exists>details. bash_run_direct flt tool None cmd timeout =
    Some (Inr (tool_result [Text (TextContent_new
      (''(no output)'' @ blank_lines @ ''[Showing lines 2-1 of 1 (50.0KB limit). Full output: '' @ path @ '']''))] details))"
proof -
  have m: "oo_max_bytes pipeline_options = DEFAULT_MAX_BYTES"
    by (simp add: pipeline_options_def OutputAccumulatorOptions_default_def)
  obtain acc snap acc' where s: "append_all [(io, one_line n)] (accumulator_new pipeline_options) = Some acc"
      "accumulator_snapshot io True (accumulator_finish io acc) = (snap, acc')" "snap_content snap = []"
      "truncated (truncation snap)" "output_lines (truncation snap) = 0" "total_lines (truncation snap) = 1"
      "truncated_by (truncation snap) = Some ByBytes" "\<not> last_line_partial (truncation snap)"
      "snap_full_output_path snap = Some path"
    using one_line_snapshot [of pipeline_options n io path] assms(1,2) m by (auto simp: DEFAULT_MAX_BYTES_def)
  have digits: "show_nat 2 = ''2''" "show_nat 1 = ''1''" "show_nat 0 = ''0''" "show_nat 50 = ''50''" by code_simp+
  then have size: "format_size DEFAULT_MAX_BYTES = ''50.0KB''"
    by (simp add: format_size_def DEFAULT_MAX_BYTES_def tenths_def show_tenths_def Let_def)
  then have "format_output (close_temp_file acc') snap ''(no output)'' =
      Some (''(no output)'' @ blank_lines @ ''[Showing lines 2-1 of 1 (50.0KB limit). Full output: '' @ path @ '']'',
        Some (details_value snap))"
    using s digits by (simp add: format_output_def Let_def numeral_2_eq_2)
  then show ?thesis
    using s(1,2) assms(3)
    by (simp add: bash_run_direct_def Let_def pipeline_finish_def rerun_original_def format_output_with_filter_def exit_status_def
        del: append_all.simps) (rule exI, rule refl)
qed

definition sample_tool :: BashToolDefinition where
  "sample_tool = \<lparr>bt_cwd = ''/w'', bt_command_prefix = None,
     bt_exec = (\<lambda>_ _ _. \<lparr>ex_chunks = [(good_sink, one_line 204800)], ex_result = Inr (Some 0), ex_finish = good_sink\<rparr>),
     bt_show_f64 = (\<lambda>_. ''1'')\<rparr>"

definition no_filter :: "unit BashFilter" where
  "no_filter = \<lparr>bf_prepare = (\<lambda>_. ()), bf_execution = (\<lambda>_. []), bf_original = (\<lambda>_. []),
     bf_uses_execution_override = (\<lambda>_. False), bf_execute_override = (\<lambda>_ _. None),
     bf_filter_with_cwd = (\<lambda>_ _ s _ _. (False, s)), bf_should_retry_original = (\<lambda>_ _ _. False)\<rparr>"

theorem long_line_output_vanishes_witness:
  "\<exists>details. bash_run_direct no_filter sample_tool None ''cat big.json'' 0 =
    Some (Inr (tool_result [Text (TextContent_new
      (''(no output)'' @ blank_lines @ ''[Showing lines 2-1 of 1 (50.0KB limit). Full output: '' @ ''/tmp/out.log'' @ '']''))] details))"
  by (rule long_line_output_vanishes [of 204800 good_sink])
    (simp_all add: DEFAULT_MAX_BYTES_def good_sink_def sample_tool_def)

end
