(* ===== verification/Output_Pipeline.thy ===== *)
theory Output_Pipeline
  imports Output_Proofs
begin

text \<open>
  The output pipeline of the shell tool (\<open>OutputPipeline\<close> in \<open>core/tools/bash.rs\<close>) as its threads run
  it: readers hand over chunks, timer tasks and the readers emit live updates, and the tool finishes
  the pipeline while a detached command may still be writing. Each step is what happens under one
  lock or one atomic access, so the steps of different threads interleave freely. A \<open>handle_data\<close> call
  goes from the check of \<open>accepting\<close> (\<open>pl_loaded\<close>) over \<open>append\<close> (\<open>pl_appended\<close>) to
  \<open>schedule_update\<close>; \<open>pl_timers\<close> counts the sleeping timer tasks, \<open>pl_due\<close> the \<open>emit_update\<close> calls that
  have not reached the throttle yet, \<open>pl_emitting\<close> those about to take a snapshot.
\<close>

definition BASH_UPDATE_THROTTLE_MS :: nat where "BASH_UPDATE_THROTTLE_MS = 100"

datatype FinishPhase = Running | Stopped | Flushed | Closing | Emitting | Emitted | Finished

record Pipeline =
  pl_acc :: OutputAccumulator
  pl_on_update :: bool
  pl_dirty :: bool
  pl_last_update_at :: "nat option"
  pl_timer_armed :: bool
  pl_accepting :: bool
  pl_closed :: bool
  pl_loaded :: "string list"
  pl_appended :: nat
  pl_timers :: nat
  pl_due :: nat
  pl_emitting :: nat
  pl_phase :: FinishPhase
  pl_updates :: "OutputSnapshot list"
  pl_panicked :: bool

definition pipeline_new :: "OutputAccumulatorOptions \<Rightarrow> bool \<Rightarrow> Pipeline" where
  "pipeline_new opts on_update =
    \<lparr>pl_acc = accumulator_new opts, pl_on_update = on_update, pl_dirty = False, pl_last_update_at = None,
     pl_timer_armed = False, pl_accepting = True, pl_closed = False, pl_loaded = [], pl_appended = 0,
     pl_timers = 0, pl_due = 0, pl_emitting = 0, pl_phase = Running, pl_updates = [], pl_panicked = False\<rparr>"

section \<open>The operations\<close>

definition schedule_update :: "nat \<Rightarrow> Pipeline \<Rightarrow> Pipeline" where
  "schedule_update now p =
    (if \<not> pl_on_update p then p
     else
       let p1 = p\<lparr>pl_dirty := True\<rparr>;
           window_over = (case pl_last_update_at p of None \<Rightarrow> True | Some t \<Rightarrow> now - t \<ge> BASH_UPDATE_THROTTLE_MS)
       in if window_over then p1\<lparr>pl_timer_armed := False, pl_due := Suc (pl_due p1)\<rparr>
          else if pl_timer_armed p1 then p1
          else p1\<lparr>pl_timer_armed := True, pl_timers := Suc (pl_timers p1)\<rparr>)"

text \<open>The throttle section of \<open>emit_update\<close>: whether a snapshot is to be emitted.\<close>

definition claim_update :: "nat \<Rightarrow> Pipeline \<Rightarrow> bool \<times> Pipeline" where
  "claim_update now p =
    (if pl_on_update p \<and> pl_dirty p then (True, p\<lparr>pl_dirty := False, pl_last_update_at := Some now\<rparr>)
     else (False, p))"

definition send_update :: "Sink \<Rightarrow> Pipeline \<Rightarrow> Pipeline" where
  "send_update io p =
    (case accumulator_snapshot io True (pl_acc p) of
       (snap, acc) \<Rightarrow> p\<lparr>pl_acc := acc, pl_updates := pl_updates p @ [snap]\<rparr>)"

definition append_chunk :: "Sink \<Rightarrow> string \<Rightarrow> Pipeline \<Rightarrow> Pipeline" where
  "append_chunk io chunk p =
    (case accumulator_append io chunk (pl_acc p) of
       None \<Rightarrow> p\<lparr>pl_panicked := True\<rparr>
     | Some acc \<Rightarrow> p\<lparr>pl_acc := acc, pl_appended := Suc (pl_appended p)\<rparr>)"

text \<open>
  \<open>quiet\<close> restricts the pipeline to being finished when no chunk is between the check and the
  accumulator, as after a command whose readers have ended.
\<close>

inductive pipe_step :: "bool \<Rightarrow> Pipeline \<Rightarrow> Pipeline \<Rightarrow> bool" for quiet where
  load: "pl_accepting p \<Longrightarrow> pipe_step quiet p (p\<lparr>pl_loaded := pl_loaded p @ [chunk]\<rparr>)"
| append: "chunk \<in> set (pl_loaded p) \<Longrightarrow>
    pipe_step quiet p (append_chunk io chunk (p\<lparr>pl_loaded := remove1 chunk (pl_loaded p)\<rparr>))"
| schedule: "pl_appended p = Suc n \<Longrightarrow> pipe_step quiet p (schedule_update now (p\<lparr>pl_appended := n\<rparr>))"
| timer: "pl_timers p = Suc n \<Longrightarrow>
    pipe_step quiet p (p\<lparr>pl_timers := n, pl_timer_armed := False, pl_due := Suc (pl_due p)\<rparr>)"
| timer_closed: "pl_timers p = Suc n \<Longrightarrow> pl_closed p \<Longrightarrow> pipe_step quiet p (p\<lparr>pl_timers := n\<rparr>)"
| claim: "pl_due p = Suc n \<Longrightarrow> claim_update now (p\<lparr>pl_due := n\<rparr>) = (claimed, p') \<Longrightarrow>
    pipe_step quiet p (if claimed then p'\<lparr>pl_emitting := Suc (pl_emitting p')\<rparr> else p')"
| send: "pl_emitting p = Suc n \<Longrightarrow> pipe_step quiet p (send_update io (p\<lparr>pl_emitting := n\<rparr>))"
| stop: "pl_phase p = Running \<Longrightarrow> quiet \<longrightarrow> pl_loaded p = [] \<Longrightarrow>
    pipe_step quiet p (p\<lparr>pl_accepting := False, pl_phase := Stopped\<rparr>)"
| flush: "pl_phase p = Stopped \<Longrightarrow>
    pipe_step quiet p (p\<lparr>pl_acc := accumulator_finish io (pl_acc p), pl_phase := Flushed\<rparr>)"
| close: "pl_phase p = Flushed \<Longrightarrow> pipe_step quiet p (p\<lparr>pl_closed := True, pl_phase := Closing\<rparr>)"
| last_claim: "pl_phase p = Closing \<Longrightarrow> claim_update now p = (claimed, p') \<Longrightarrow>
    pipe_step quiet p (p'\<lparr>pl_phase := if claimed then Emitting else Emitted\<rparr>)"
| last_send: "pl_phase p = Emitting \<Longrightarrow> pipe_step quiet p ((send_update io p)\<lparr>pl_phase := Emitted\<rparr>)"
| final: "pl_phase p = Emitted \<Longrightarrow> accumulator_snapshot io True (pl_acc p) = (snap, acc) \<Longrightarrow>
    pipe_step quiet p (p\<lparr>pl_acc := close_temp_file acc, pl_phase := Finished\<rparr>)"

inductive_cases pipe_stepE: "pipe_step quiet p q"

section \<open>No update is lost\<close>

definition update_pending :: "Pipeline \<Rightarrow> bool" where
  "update_pending p \<longleftrightarrow> pl_closed p \<or>
    ((pl_timer_armed p \<longrightarrow> 0 < pl_timers p) \<and>
     (pl_dirty p \<longrightarrow> pl_on_update p \<and> (0 < pl_timers p \<or> 0 < pl_due p)))"

lemma update_pending_step: "pipe_step quiet p q \<Longrightarrow> update_pending p \<Longrightarrow> update_pending q"
  by (induction rule: pipe_step.induct)
    (auto simp: update_pending_def append_chunk_def schedule_update_def claim_update_def send_update_def Let_def
      split: option.splits if_splits prod.splits)


section \<open>Output that arrives while the pipeline is finished\<close>

definition quiet_invariant :: "Pipeline \<Rightarrow> bool" where
  "quiet_invariant p \<longleftrightarrow> \<not> pl_panicked p \<and> (pl_phase p = Running \<longleftrightarrow> pl_accepting p) \<and>
    (pl_accepting p \<longrightarrow> \<not> finished (pl_acc p)) \<and> (\<not> pl_accepting p \<longrightarrow> pl_loaded p = [])"

lemma snapshot_keeps_finished:
  "accumulator_snapshot io persist acc = (snap, acc') \<Longrightarrow> finished acc' = finished acc"
  by (drule snapshot_fields(8)) simp

lemma append_before_finish: "\<not> finished acc \<Longrightarrow> \<exists>acc'. accumulator_append io bytes acc = Some acc' \<and> \<not> finished acc'"
proof -
  assume f: "\<not> finished acc"
  obtain d p where "decode_streaming (pending_bytes acc @ bytes) = (d, p)" by fastforce
  then obtain acc' where "accumulator_append io bytes acc = Some acc'"
    using f by (simp add: accumulator_append_def Let_def)
  then show ?thesis using append_not_finished by blast
qed

lemma quiet_step:
  assumes "pipe_step True p q" and "quiet_invariant p"
  shows "quiet_invariant q"
  using assms
proof (induction rule: pipe_step.induct)
  case (append chunk p io)
  then have "pl_accepting p" by (auto simp: quiet_invariant_def)
  then obtain acc where "accumulator_append io chunk (pl_acc p) = Some acc" "\<not> finished acc"
    using append append_before_finish [of "pl_acc p" io chunk] by (auto simp: quiet_invariant_def)
  then show ?case using append by (simp add: quiet_invariant_def append_chunk_def)
next
  case (schedule p n now)
  then show ?case by (auto simp: quiet_invariant_def schedule_update_def Let_def split: if_splits option.splits)
next
  case (claim p n now claimed p')
  then show ?case by (auto simp: quiet_invariant_def claim_update_def split: if_splits)
next
  case (last_claim p now claimed p')
  then show ?case by (auto simp: quiet_invariant_def claim_update_def split: if_splits)
next
  case (send p n io)
  then show ?case by (auto simp: quiet_invariant_def send_update_def dest: snapshot_keeps_finished split: prod.splits)
next
  case (last_send p io)
  then show ?case by (auto simp: quiet_invariant_def send_update_def dest: snapshot_keeps_finished split: prod.splits)
qed (auto simp: quiet_invariant_def)

text \<open>
  The check of \<open>accepting\<close> and the append are two steps. As long as the pipeline is finished only
  when no chunk is between them, no interleaving makes \<open>append\<close> panic. A command that is moved to the
  background is still writing when its pipeline is finished, and there one chunk that has passed the
  check is enough: it is appended to the finished accumulator, which panics.
\<close>

theorem late_chunk_panics:
  "(\<forall>p. (pipe_step True)\<^sup>*\<^sup>* (pipeline_new opts on_update) p \<longrightarrow> \<not> pl_panicked p) \<and>
   (\<exists>p. (pipe_step False)\<^sup>*\<^sup>* (pipeline_new opts on_update) p \<and> pl_panicked p)"
proof (intro conjI allI impI)
  fix p
  assume "(pipe_step True)\<^sup>*\<^sup>* (pipeline_new opts on_update) p"
  moreover have "quiet_invariant (pipeline_new opts on_update)"
    by (simp add: quiet_invariant_def pipeline_new_def)
  ultimately have "quiet_invariant p" by (induction rule: rtranclp_induct) (auto intro: quiet_step)
  then show "\<not> pl_panicked p" by (simp add: quiet_invariant_def)
next
  let ?p0 = "pipeline_new opts on_update"
  let ?p1 = "?p0\<lparr>pl_loaded := pl_loaded ?p0 @ [''x'']\<rparr>"
  let ?p2 = "?p1\<lparr>pl_accepting := False, pl_phase := Stopped\<rparr>"
  let ?p3 = "?p2\<lparr>pl_acc := accumulator_finish good_sink (pl_acc ?p2), pl_phase := Flushed\<rparr>"
  let ?p4 = "append_chunk good_sink ''x'' (?p3\<lparr>pl_loaded := remove1 ''x'' (pl_loaded ?p3)\<rparr>)"
  have s1: "pipe_step False ?p0 ?p1" by (rule load) (simp add: pipeline_new_def)
  have s2: "pipe_step False ?p1 ?p2" by (rule stop) (simp_all add: pipeline_new_def)
  have s3: "pipe_step False ?p2 ?p3" by (rule flush) simp
  have s4: "pipe_step False ?p3 ?p4" by (rule append) (simp add: pipeline_new_def)
  note run = rtranclp.rtrancl_into_rtrancl [where r = "pipe_step False"]
  have "(pipe_step False)\<^sup>*\<^sup>* ?p0 ?p4" by (rule run [OF run [OF run [OF r_into_rtranclp [where r = "pipe_step False", OF s1] s2] s3] s4])
  moreover have "finished (accumulator_finish good_sink (accumulator_new opts))"
    by (simp add: accumulator_finish_def Let_def)
  then have "pl_panicked ?p4" by (simp add: append_chunk_def accumulator_append_def pipeline_new_def)
  ultimately show "\<exists>p. (pipe_step False)\<^sup>*\<^sup>* ?p0 p \<and> pl_panicked p" by blast
qed



end
