(* ===== verification/Edit_Diff.thy ===== *)
theory Edit_Diff
  imports Text_Lines
begin

text \<open>
  Exact and fuzzy text replacement (\<open>core/tools/edit_diff.rs\<close>). Strings are their UTF-8 bytes, indices
  are byte offsets. A string slice panics at an index that is out of range or inside a character, and
  so does the subtraction of an offset that is larger: such operations return \<open>None\<close>. \<open>nfkc\<close> stands for
  the normalization of the \<open>unicode_normalization\<close> crate.
\<close>

section \<open>Line endings\<close>

definition carriage_return :: char where "carriage_return = char_of (13 :: nat)"

datatype LineEnding = Lf | Crlf

fun ending_str :: "LineEnding \<Rightarrow> string" where
  "ending_str Lf = [newline]"
| "ending_str Crlf = [carriage_return, newline]"

definition detect_line_ending :: "string \<Rightarrow> LineEnding" where
  "detect_line_ending content =
    (case find_str content [newline] of
       None \<Rightarrow> Lf
     | Some lf_index \<Rightarrow>
         (case find_str content [carriage_return, newline] of
            Some crlf_index \<Rightarrow> if crlf_index < lf_index then Crlf else Lf
          | None \<Rightarrow> Lf))"

definition normalize_to_lf :: "string \<Rightarrow> string" where
  "normalize_to_lf s = replace_char carriage_return [newline] (replace_str [carriage_return, newline] [newline] s)"

fun restore_line_endings :: "string \<Rightarrow> LineEnding \<Rightarrow> string" where
  "restore_line_endings s Crlf = replace_char newline [carriage_return, newline] s"
| "restore_line_endings s Lf = s"

definition bom :: string where "bom = map char_of [0xEF, 0xBB, 0xBF :: nat]"

definition strip_bom :: "string \<Rightarrow> string \<times> string" where
  "strip_bom content = (case strip_prefix content bom of Some rest \<Rightarrow> (bom, rest) | None \<Rightarrow> ([], content))"

section \<open>Fuzzy normalization\<close>

definition trim_end :: "string \<Rightarrow> string" where
  "trim_end s = concat (rev (dropWhile is_whitespace (rev (chars s))))"

text \<open>The folding of one character, given as its bytes.\<close>

definition fold_char :: "string \<Rightarrow> string" where
  "fold_char ch =
    (case map of_char ch :: nat list of
       [b, c] \<Rightarrow> if b = 0xC2 \<and> c = 0xA0 then '' '' else ch
     | [b, c, d] \<Rightarrow>
         if b = 0xE2 \<and> c = 0x80 \<and> 0x98 \<le> d \<and> d \<le> 0x9B then [char_of (39 :: nat)]
         else if b = 0xE2 \<and> c = 0x80 \<and> 0x9C \<le> d \<and> d \<le> 0x9F then [char_of (34 :: nat)]
         else if b = 0xE2 \<and> c = 0x80 \<and> 0x90 \<le> d \<and> d \<le> 0x95 then ''-''
         else if b = 0xE2 \<and> c = 0x88 \<and> d = 0x92 then ''-''
         else if b = 0xE2 \<and> c = 0x80 \<and> (d = 0xAF \<or> (0x82 \<le> d \<and> d \<le> 0x8A)) then '' ''
         else if b = 0xE2 \<and> c = 0x81 \<and> d = 0x9F then '' ''
         else if b = 0xE3 \<and> c = 0x80 \<and> d = 0x80 then '' ''
         else ch
     | _ \<Rightarrow> ch)"

definition normalize_for_fuzzy_match :: "(string \<Rightarrow> string) \<Rightarrow> string \<Rightarrow> string" where
  "normalize_for_fuzzy_match nfkc s =
    concat (map fold_char (chars (join [newline] (map trim_end (split_on newline (nfkc s))))))"

section \<open>Lines and replacements\<close>

fun split_inclusive :: "string \<Rightarrow> string \<Rightarrow> string list" where
  "split_inclusive line [] = (if line = [] then [] else [line])"
| "split_inclusive line (c # s) =
    (if c = newline then (line @ [c]) # split_inclusive [] s else split_inclusive (line @ [c]) s)"

definition split_lines_with_endings :: "string \<Rightarrow> string list" where
  "split_lines_with_endings s = split_inclusive [] s"

record LineSpan =
  span_start :: nat
  span_end :: nat

record TextReplacement =
  match_index :: nat
  match_length :: nat
  new_text :: string

record MatchedEdit =
  edit_index :: nat
  edit_replacement :: TextReplacement

fun spans_from :: "nat \<Rightarrow> string list \<Rightarrow> LineSpan list" where
  "spans_from offset [] = []"
| "spans_from offset (line # lines) =
    \<lparr>span_start = offset, span_end = offset + length line\<rparr> # spans_from (offset + length line) lines"

definition get_line_spans :: "string \<Rightarrow> LineSpan list" where
  "get_line_spans s = spans_from 0 (split_lines_with_endings s)"

definition OUTSIDE_BASE_CONTENT :: string where
  "OUTSIDE_BASE_CONTENT = ''Replacement range is outside the base content.''"

text \<open>\<open>position\<close>, and the loop that looks for the line in which the match ends.\<close>

fun first_index :: "('a \<Rightarrow> bool) \<Rightarrow> 'a list \<Rightarrow> nat option" where
  "first_index P [] = None"
| "first_index P (x # xs) = (if P x then Some 0 else map_option Suc (first_index P xs))"

function end_line_from :: "LineSpan list \<Rightarrow> nat \<Rightarrow> nat \<Rightarrow> nat" where
  "end_line_from lines replacement_end i =
    (if i < length lines \<and> span_end (lines ! i) < replacement_end
     then end_line_from lines replacement_end (Suc i) else i)"
  by pat_completeness auto
termination
  by (relation "measure (\<lambda>(lines, e, i). length lines - i)") auto

declare end_line_from.simps [simp del]

definition get_replacement_line_range :: "LineSpan list \<Rightarrow> TextReplacement \<Rightarrow> string + nat \<times> nat" where
  "get_replacement_line_range lines r =
    (let replacement_start = match_index r; replacement_end = match_index r + match_length r
     in (case first_index (\<lambda>l. span_start l \<le> replacement_start \<and> replacement_start < span_end l) lines of
        None \<Rightarrow> Inl OUTSIDE_BASE_CONTENT
      | Some start_line \<Rightarrow>
          let end_line = end_line_from lines replacement_end start_line
          in if end_line \<ge> length lines then Inl OUTSIDE_BASE_CONTENT else Inr (start_line, Suc end_line)))"

text \<open>\<open>&s[i..j]\<close> on a string and on a list of lines.\<close>

definition str_slice :: "string \<Rightarrow> nat \<Rightarrow> nat \<Rightarrow> string option" where
  "str_slice s i j =
    (if i \<le> j \<and> is_char_boundary s i \<and> is_char_boundary s j then Some (take (j - i) (drop i s)) else None)"

definition list_slice :: "'a list \<Rightarrow> nat \<Rightarrow> nat \<Rightarrow> 'a list option" where
  "list_slice xs i j = (if i \<le> j \<and> j \<le> length xs then Some (take (j - i) (drop i xs)) else None)"

definition replace_at :: "nat \<Rightarrow> TextReplacement \<Rightarrow> string \<Rightarrow> string option" where
  "replace_at offset r result =
    (if match_index r < offset then None
     else
       let i = match_index r - offset
       in (case (str_slice result 0 i, str_slice result (i + match_length r) (length result)) of
          (Some a, Some b) \<Rightarrow> Some (a @ new_text r @ b)
        | _ \<Rightarrow> None))"

fun replace_all :: "nat \<Rightarrow> TextReplacement list \<Rightarrow> string \<Rightarrow> string option" where
  "replace_all offset [] result = Some result"
| "replace_all offset (r # rs) result = Option.bind (replace_at offset r result) (replace_all offset rs)"

definition apply_replacements :: "string \<Rightarrow> TextReplacement list \<Rightarrow> nat \<Rightarrow> string option" where
  "apply_replacements content replacements offset = replace_all offset (rev replacements) content"

record Group =
  g_start_line :: nat
  g_end_line :: nat
  g_replacements :: "TextReplacement list"

text \<open>The grouping loop; the groups are kept latest first.\<close>

fun group_replacements :: "LineSpan list \<Rightarrow> Group list \<Rightarrow> TextReplacement list \<Rightarrow> string + Group list" where
  "group_replacements lines groups [] = Inr (rev groups)"
| "group_replacements lines groups (r # rs) =
    (case get_replacement_line_range lines r of
       Inl e \<Rightarrow> Inl e
     | Inr (start_line, end_line) \<Rightarrow>
         (case groups of
            current # earlier \<Rightarrow>
              if start_line < g_end_line current then
                group_replacements lines
                  (current\<lparr>g_end_line := max (g_end_line current) end_line,
                     g_replacements := g_replacements current @ [r]\<rparr> # earlier) rs
              else group_replacements lines
                (\<lparr>g_start_line = start_line, g_end_line = end_line, g_replacements = [r]\<rparr> # groups) rs
          | [] \<Rightarrow> group_replacements lines
              (\<lparr>g_start_line = start_line, g_end_line = end_line, g_replacements = [r]\<rparr> # groups) rs))"

fun overlay_groups :: "string list \<Rightarrow> string \<Rightarrow> LineSpan list \<Rightarrow> nat \<Rightarrow> string \<Rightarrow> Group list \<Rightarrow> string option" where
  "overlay_groups original_lines base base_lines index result [] =
    map_option (\<lambda>ls. result @ concat ls) (list_slice original_lines index (length original_lines))"
| "overlay_groups original_lines base base_lines index result (g # gs) =
    (case list_slice original_lines index (g_start_line g) of
       None \<Rightarrow> None
     | Some kept \<Rightarrow>
         if g_end_line g = 0 \<or> g_end_line g > length base_lines \<or> g_start_line g \<ge> length base_lines then None
         else
           let start = span_start (base_lines ! g_start_line g);
               stop = span_end (base_lines ! (g_end_line g - 1))
           in (case Option.bind (str_slice base start stop) (\<lambda>part. apply_replacements part (g_replacements g) start) of
              None \<Rightarrow> None
            | Some replaced \<Rightarrow>
                overlay_groups original_lines base base_lines (g_end_line g) (result @ concat kept @ replaced) gs))"

definition apply_replacements_preserving_unchanged_lines ::
  "string \<Rightarrow> string \<Rightarrow> TextReplacement list \<Rightarrow> (string + string) option" where
  "apply_replacements_preserving_unchanged_lines original base replacements =
    (let original_lines = split_lines_with_endings original; base_lines = get_line_spans base
     in if length original_lines \<noteq> length base_lines then
          Some (Inl ''Cannot preserve unchanged lines because the base content has a different line count.'')
        else (case group_replacements base_lines [] (sort_key match_index replacements) of
           Inl e \<Rightarrow> Some (Inl e)
         | Inr groups \<Rightarrow> map_option Inr (overlay_groups original_lines base base_lines 0 [] groups)))"

section \<open>Matching\<close>

record FuzzyMatchResult =
  fm_found :: bool
  fm_index :: nat
  fm_match_length :: nat
  used_fuzzy_match :: bool
  content_for_replacement :: string

record Edit =
  old_text :: string
  edit_new_text :: string

record AppliedEditsResult =
  base_content :: string
  new_content :: string

definition fuzzy_find_text :: "(string \<Rightarrow> string) \<Rightarrow> string \<Rightarrow> string \<Rightarrow> FuzzyMatchResult" where
  "fuzzy_find_text nfkc content old =
    (case find_str content old of
       Some i \<Rightarrow> \<lparr>fm_found = True, fm_index = i, fm_match_length = length old, used_fuzzy_match = False,
                content_for_replacement = content\<rparr>
     | None \<Rightarrow>
         let fuzzy_content = normalize_for_fuzzy_match nfkc content;
             fuzzy_old_text = normalize_for_fuzzy_match nfkc old
         in (case find_str fuzzy_content fuzzy_old_text of
            Some i \<Rightarrow> \<lparr>fm_found = True, fm_index = i, fm_match_length = length fuzzy_old_text, used_fuzzy_match = True,
                     content_for_replacement = fuzzy_content\<rparr>
          | None \<Rightarrow> \<lparr>fm_found = False, fm_index = 0, fm_match_length = 0, used_fuzzy_match = False,
                   content_for_replacement = content\<rparr>))"

definition count_occurrences :: "(string \<Rightarrow> string) \<Rightarrow> string \<Rightarrow> string \<Rightarrow> nat" where
  "count_occurrences nfkc content old =
    (let fuzzy_content = normalize_for_fuzzy_match nfkc content;
         fuzzy_old_text = normalize_for_fuzzy_match nfkc old
     in if fuzzy_old_text = [] then length (chars fuzzy_content)
        else count_matches fuzzy_content fuzzy_old_text)"

definition not_found_error :: "string \<Rightarrow> nat \<Rightarrow> nat \<Rightarrow> string" where
  "not_found_error path index total_edits =
    (if total_edits = 1 then
       ''Could not find the exact text in '' @ path @ ''. The old text must match exactly including all whitespace and newlines.''
     else ''Could not find edits['' @ show_nat index @ ''] in '' @ path @
       ''. The old_string must match exactly including all whitespace and newlines.'')"

definition duplicate_error :: "string \<Rightarrow> nat \<Rightarrow> nat \<Rightarrow> nat \<Rightarrow> string" where
  "duplicate_error path index total_edits occurrences =
    (if total_edits = 1 then
       ''Found '' @ show_nat occurrences @ '' occurrences of the text in '' @ path @
       ''. The text must be unique. Please provide more context to make it unique.''
     else ''Found '' @ show_nat occurrences @ '' occurrences of edits['' @ show_nat index @ ''] in '' @ path @
       ''. Each old_string must be unique. Please provide more context to make it unique.'')"

definition empty_old_text_error :: "string \<Rightarrow> nat \<Rightarrow> nat \<Rightarrow> string" where
  "empty_old_text_error path index total_edits =
    (if total_edits = 1 then ''old_string must not be empty in '' @ path @ ''.''
     else ''edits['' @ show_nat index @ ''].old_string must not be empty in '' @ path @ ''.'')"

definition no_change_error :: "string \<Rightarrow> nat \<Rightarrow> string" where
  "no_change_error path total_edits =
    (if total_edits = 1 then
       ''No changes made to '' @ path @ ''. The replacement produced identical content. This might indicate an issue with special characters or the text not existing as expected.''
     else ''No changes made to '' @ path @ ''. The replacements produced identical content.'')"

definition overlap_error :: "string \<Rightarrow> nat \<Rightarrow> nat \<Rightarrow> string" where
  "overlap_error path previous current =
    ''edits['' @ show_nat previous @ ''] and edits['' @ show_nat current @ ''] overlap in '' @ path @
    ''. Merge them into one edit or target disjoint regions.''"

text \<open>The loops of \<open>apply_edits_to_normalized_content\<close>: empty texts, matching, overlaps.\<close>

fun check_empty :: "string \<Rightarrow> nat \<Rightarrow> nat \<Rightarrow> Edit list \<Rightarrow> string option" where
  "check_empty path total_edits index [] = None"
| "check_empty path total_edits index (e # es) =
    (if old_text e = [] then Some (empty_old_text_error path index total_edits) else check_empty path total_edits (Suc index) es)"

fun match_edits :: "(string \<Rightarrow> string) \<Rightarrow> string \<Rightarrow> string \<Rightarrow> nat \<Rightarrow> nat \<Rightarrow> Edit list \<Rightarrow> string + MatchedEdit list" where
  "match_edits nfkc base path total_edits index [] = Inr []"
| "match_edits nfkc base path total_edits index (e # es) =
    (let match_result = fuzzy_find_text nfkc base (old_text e)
     in if \<not> fm_found match_result then Inl (not_found_error path index total_edits)
        else
          let occurrences = count_occurrences nfkc base (old_text e)
          in if occurrences > 1 then Inl (duplicate_error path index total_edits occurrences)
             else map_ok (\<lambda>ms. \<lparr>edit_index = index,
                    edit_replacement = \<lparr>match_index = fm_index match_result, match_length = fm_match_length match_result,
                      new_text = edit_new_text e\<rparr>\<rparr> # ms) (match_edits nfkc base path total_edits (Suc index) es))"

fun check_overlap :: "string \<Rightarrow> MatchedEdit list \<Rightarrow> string option" where
  "check_overlap path (a # b # rest) =
    (if match_index (edit_replacement a) + match_length (edit_replacement a) > match_index (edit_replacement b)
     then Some (overlap_error path (edit_index a) (edit_index b))
     else check_overlap path (b # rest))"
| "check_overlap path _ = None"

definition apply_edits_to_normalized_content ::
  "(string \<Rightarrow> string) \<Rightarrow> string \<Rightarrow> Edit list \<Rightarrow> string \<Rightarrow> (string + AppliedEditsResult) option" where
  "apply_edits_to_normalized_content nfkc content edits path =
    (let normalized_edits = map (\<lambda>e. \<lparr>old_text = normalize_to_lf (old_text e),
           edit_new_text = normalize_to_lf (edit_new_text e)\<rparr>) edits;
         total_edits = length normalized_edits
     in (case check_empty path total_edits 0 normalized_edits of
        Some e \<Rightarrow> Some (Inl e)
      | None \<Rightarrow>
          let fuzzy = list_ex (\<lambda>e. used_fuzzy_match (fuzzy_find_text nfkc content (old_text e))) normalized_edits;
              base = (if fuzzy then normalize_for_fuzzy_match nfkc content else content)
          in (case match_edits nfkc base path total_edits 0 normalized_edits of
             Inl e \<Rightarrow> Some (Inl e)
           | Inr matched_edits \<Rightarrow>
               let sorted_edits = sort_key (\<lambda>m. match_index (edit_replacement m)) matched_edits
               in (case check_overlap path sorted_edits of
                  Some e \<Rightarrow> Some (Inl e)
                | None \<Rightarrow>
                    let replacements = map edit_replacement sorted_edits
                    in (case (if fuzzy then apply_replacements_preserving_unchanged_lines content base replacements
                              else map_option Inr (apply_replacements base replacements 0)) of
                       None \<Rightarrow> None
                     | Some (Inl e) \<Rightarrow> Some (Inl e)
                     | Some (Inr result) \<Rightarrow>
                         if content = result then Some (Inl (no_change_error path total_edits))
                         else Some (Inr \<lparr>base_content = content, new_content = result\<rparr>))))))"

end
