(* ===== verification/Edit_Proofs.thy ===== *)
theory Edit_Proofs
  imports Edit_Diff "HOL-Library.Multiset"
begin

text \<open>
  Replacing texts from the back to the front is the same as rewriting the content once from the front;
  matches of a text end on character boundaries; and what follows for edits.
\<close>

section \<open>Character boundaries\<close>

definition char_led :: "string \<Rightarrow> bool" where
  "char_led s \<longleftrightarrow> s = [] \<or> \<not> cont_char (hd s)"

lemma char_led_simps [simp]: "char_led []" "char_led (c # s) \<longleftrightarrow> \<not> cont_char c"
  by (simp_all add: char_led_def)

lemma char_led_append: "char_led a \<Longrightarrow> char_led b \<Longrightarrow> char_led (a @ b)"
  by (cases a) simp_all

lemma char_led_valid: "utf8_valid s \<Longrightarrow> char_led s"
  by (cases s) (auto simp: utf8_valid_def simp del: utf8_ok.simps dest: utf8_ok_Cons_lead)

lemma boundary_drop: "is_char_boundary s i \<longleftrightarrow> i \<le> length s \<and> char_led (drop i s)"
  by (cases "i < length s") (auto simp: is_char_boundary_def char_led_def hd_drop_conv_nth)

lemma boundary_le: "is_char_boundary s i \<Longrightarrow> i \<le> length s"
  by (auto simp: is_char_boundary_def)

lemma boundary_split: "utf8_valid s \<Longrightarrow> is_char_boundary s i \<Longrightarrow> utf8_valid (take i s) \<and> utf8_valid (drop i s)"
  using utf8_valid_split [of "take i s" "drop i s"] by (auto simp: boundary_drop char_led_def)

text \<open>A match of a valid text in a valid text begins and ends on a boundary.\<close>

lemma match_boundaries:
  assumes "utf8_valid s" and "utf8_valid p" and "find_str s p = Some i"
  shows "is_char_boundary s i" "is_char_boundary s (i + length p)" "take (length p) (drop i s) = p"
proof -
  obtain b where b: "s = take i s @ p @ b" "i + length p \<le> length s" using find_str_SomeD [OF assms(3)] by blast
  have d: "drop i s = p @ b" using b by (metis append_eq_conv_conj append_same_eq append_take_drop_id)
  show i: "is_char_boundary s i"
  proof (cases "p = []")
    case True
    then have "i = 0" using assms(3) by (cases s) (auto simp: starts_with_def split: if_splits)
    then show ?thesis using char_led_valid [OF assms(1)] by (simp add: boundary_drop)
  next
    case False
    then show ?thesis using d b(2) char_led_valid [OF assms(2)] by (cases p) (simp_all add: boundary_drop)
  qed
  then have "utf8_valid (p @ b)" using boundary_split [OF assms(1)] d by metis
  then have "utf8_valid b" using utf8_valid_append [OF assms(2)] by blast
  moreover have "drop (i + length p) s = b" using d by (metis add.commute append_eq_conv_conj drop_drop)
  ultimately show "is_char_boundary s (i + length p)" using b(2) char_led_valid by (simp add: boundary_drop)
  show "take (length p) (drop i s) = p" using d by simp
qed

section \<open>Back to front is front to back\<close>

text \<open>The reference: copy up to the next match, write its new text, go on after the match.\<close>

fun weave :: "nat \<Rightarrow> string \<Rightarrow> TextReplacement list \<Rightarrow> string" where
  "weave pos s [] = drop pos s"
| "weave pos s (r # rs) =
    take (match_index r - pos) (drop pos s) @ new_text r @ weave (match_index r + match_length r) s rs"

fun spaced :: "nat \<Rightarrow> TextReplacement list \<Rightarrow> bool" where
  "spaced pos [] = True"
| "spaced pos (r # rs) = (pos \<le> match_index r \<and> spaced (match_index r + match_length r) rs)"

definition fits :: "string \<Rightarrow> TextReplacement \<Rightarrow> bool" where
  "fits s r \<longleftrightarrow> is_char_boundary s (match_index r) \<and> is_char_boundary s (match_index r + match_length r) \<and>
    utf8_valid (new_text r)"

lemma replace_all_append:
  "replace_all offset (xs @ ys) s = Option.bind (replace_all offset xs s) (replace_all offset ys)"
  by (induction xs arbitrary: s) (auto split: bind_splits)

lemma replace_at_ok:
  assumes "is_char_boundary t 0" "is_char_boundary t i" "is_char_boundary t (i + match_length r)" and "match_index r = offset + i"
  shows "replace_at offset r t = Some (take i t @ new_text r @ drop (i + match_length r) t)"
proof -
  have "is_char_boundary t (length t)" by (simp add: is_char_boundary_def)
  then show ?thesis using assms boundary_le [OF assms(3)] by (simp add: replace_at_def str_slice_def Let_def)
qed

lemma weave_led:
  assumes "is_char_boundary s pos" and "spaced pos rs" and "list_all (fits s) rs"
  shows "char_led (weave pos s rs)"
  using assms
proof (induction rs arbitrary: pos)
  case Nil
  then show ?case by (simp add: boundary_drop)
next
  case (Cons r rs)
  have "char_led (weave (match_index r + match_length r) s rs)"
    using Cons by (simp add: fits_def)
  then have "char_led (new_text r @ weave (match_index r + match_length r) s rs)"
    using Cons.prems(3) char_led_valid by (intro char_led_append) (simp_all add: fits_def)
  moreover have "char_led (take (match_index r - pos) (drop pos s))"
    using Cons.prems(1) by (cases "drop pos s") (auto simp: boundary_drop take_Cons')
  ultimately show ?case using char_led_append by simp
qed

lemma replace_all_weave:
  assumes "utf8_valid s" and "is_char_boundary s pos" and "spaced pos rs" and "list_all (fits s) rs"
  shows "replace_all 0 (rev rs) s = Some (take pos s @ weave pos s rs)"
  using assms(2-)
proof (induction rs arbitrary: pos)
  case Nil
  then show ?case by simp
next
  case (Cons r rs)
  let ?i = "match_index r" and ?j = "match_index r + match_length r"
  let ?t = "take ?j s @ weave ?j s rs"
  have f: "fits s r" "spaced ?j rs" "list_all (fits s) rs" "pos \<le> ?i" using Cons.prems by auto
  have b: "is_char_boundary s ?i" "is_char_boundary s ?j" "?j \<le> length s" using f(1) by (auto simp: fits_def is_char_boundary_def)
  have IH: "replace_all 0 (rev rs) s = Some ?t" using Cons.IH [OF b(2) f(2,3)] .
  have led: "char_led (weave ?j s rs)" by (rule weave_led [OF b(2) f(2,3)])
  have i: "is_char_boundary ?t ?i"
  proof (cases "match_length r = 0")
    case True
    then show ?thesis using led b(3) by (simp add: boundary_drop)
  next
    case False
    then show ?thesis using b(1,3) by (auto simp: is_char_boundary_def nth_append)
  qed
  have j: "is_char_boundary ?t ?j" using led b(3) by (simp add: boundary_drop)
  have zero: "is_char_boundary ?t 0"
  proof (cases "?j = 0")
    case False
    then show ?thesis using char_led_valid [OF assms(1)] b(3) by (cases s) (auto simp: boundary_drop take_Cons')
  qed (use led in \<open>simp add: boundary_drop\<close>)
  have "replace_at 0 r ?t = Some (take ?i ?t @ new_text r @ drop ?j ?t)"
    using replace_at_ok [OF zero i j] by simp
  moreover have "take ?i ?t = take pos s @ take (?i - pos) (drop pos s)"
    using f(4) b(3) by (simp add: take_add [symmetric] min_def)
  moreover have "drop ?j ?t = weave ?j s rs" using b(3) by simp
  ultimately show ?case using IH by (simp add: replace_all_append)
qed


section \<open>Line endings\<close>

lemma carriage_return_chr: "carriage_return = CHR 0x0D"
  by code_simp

lemma cr_lf [simp]: "carriage_return \<noteq> newline" "newline \<noteq> carriage_return"
  by (simp_all add: carriage_return_chr newline_chr)

lemma ascii_ends [simp]: "\<not> cont_char carriage_return" "\<not> cont_char newline" "utf8_valid [newline]" "utf8_valid [carriage_return]"
  by (simp_all add: carriage_return_chr newline_chr utf8_cont_def utf8_valid_def)

lemma normalize_to_lf_simps [simp]:
  "normalize_to_lf [] = []"
  "normalize_to_lf (c # s) =
    (if c = carriage_return then
       newline # normalize_to_lf (case s of d # s' \<Rightarrow> if d = newline then s' else s | [] \<Rightarrow> s)
     else c # normalize_to_lf s)"
  by (auto simp: normalize_to_lf_def replace_str.simps [of _ _ "c # s"] replace_str.simps [of _ _ "[]"]
      starts_with_def split: list.split)

lemma normalize_to_lf_plain: "carriage_return \<notin> set a \<Longrightarrow> normalize_to_lf (a @ b) = a @ normalize_to_lf b"
  by (induction a) auto

lemma normalize_to_lf_id: "carriage_return \<notin> set s \<Longrightarrow> normalize_to_lf s = s"
  using normalize_to_lf_plain [of s "[]"] by simp

lemma utf8_valid_ascii:
  assumes "utf8_valid (a @ c # b)" and "\<not> cont_char c" and "utf8_valid [c]"
  shows "utf8_valid a" "utf8_valid b"
proof -
  have v: "utf8_valid a \<and> utf8_valid (c # b)" using utf8_valid_split [of a "c # b"] assms by simp
  then show "utf8_valid a" "utf8_valid b" using utf8_valid_append [OF assms(3), of b] by simp_all
qed

lemma utf8_valid_normalize: "utf8_valid s \<Longrightarrow> utf8_valid (normalize_to_lf s)"
proof (induction s rule: length_induct)
  case (1 s)
  show ?case
  proof (cases "carriage_return \<in> set s")
    case True
    then obtain a b where s: "s = a @ carriage_return # b" "carriage_return \<notin> set a" by (meson split_list_first)
    let ?b = "case b of d # b' \<Rightarrow> if d = newline then b' else b | [] \<Rightarrow> b"
    have v: "utf8_valid a" "utf8_valid b" using utf8_valid_ascii [of a carriage_return b] 1(2) s(1) by simp_all
    have "utf8_valid ?b"
    proof (cases b)
      case (Cons d b')
      then show ?thesis using utf8_valid_ascii(2) [of "[]" newline b'] v(2) by (cases "d = newline") simp_all
    qed (simp add: v(2))
    moreover have "length ?b < length s" using s(1) by (auto split: list.split)
    ultimately have "utf8_valid (normalize_to_lf ?b)" using 1(1) by blast
    then show ?thesis using s v(1) utf8_valid_append [of "[newline]"] by (simp add: normalize_to_lf_plain utf8_valid_append)
  qed (use 1(2) in \<open>simp add: normalize_to_lf_id\<close>)
qed

text \<open>A text that uses one kind of line ending throughout.\<close>

fun crlf_only :: "string \<Rightarrow> bool" where
  "crlf_only [] = True"
| "crlf_only (c # s) =
    (if c = carriage_return then (case s of d # s' \<Rightarrow> d = newline \<and> crlf_only s' | [] \<Rightarrow> False)
     else c \<noteq> newline \<and> crlf_only s)"

definition uniform :: "string \<Rightarrow> bool" where
  "uniform s \<longleftrightarrow> carriage_return \<notin> set s \<or> crlf_only s"

lemma crlf_found:
  "crlf_only s \<Longrightarrow> find_str s [newline] = map_option Suc (find_str s [carriage_return, newline])"
proof (induction s rule: crlf_only.induct)
  case (2 c s)
  show ?case
  proof (cases "c = carriage_return")
    case True
    then obtain s' where "s = newline # s'" using 2 by (auto split: list.splits)
    then show ?thesis using True by (simp add: starts_with_def)
  next
    case False
    then have "find_str s [newline] = map_option Suc (find_str s [carriage_return, newline])" using 2 by simp
    then show ?thesis using False 2(3) by (simp add: starts_with_def)
  qed
qed simp

lemma restore_crlf: "crlf_only s \<Longrightarrow> restore_line_endings (normalize_to_lf s) Crlf = s"
proof (induction s rule: crlf_only.induct)
  case (2 c s)
  then show ?case by (auto split: list.splits if_splits)
qed simp

lemma crlf_without_lf: "crlf_only s \<Longrightarrow> find_str s [newline] = None \<Longrightarrow> carriage_return \<notin> set s"
proof (induction s rule: crlf_only.induct)
  case (2 c s)
  then show ?case by (cases "c = carriage_return") (auto simp: starts_with_def split: list.splits)
qed simp

lemma find_crlf_needs_cr: "carriage_return \<notin> set s \<Longrightarrow> find_str s [carriage_return, newline] = None"
  by (auto simp: find_str_None)

lemma restore_normalize:
  assumes "uniform s"
  shows "restore_line_endings (normalize_to_lf s) (detect_line_ending s) = s"
proof (cases "carriage_return \<in> set s")
  case True
  then have c: "crlf_only s" using assms by (simp add: uniform_def)
  then obtain l where "find_str s [carriage_return, newline] = Some l" "find_str s [newline] = Some (Suc l)"
    using crlf_found [OF c] crlf_without_lf [OF c] True by (cases "find_str s [carriage_return, newline]") auto
  then have "detect_line_ending s = Crlf" by (simp add: detect_line_ending_def)
  then show ?thesis using restore_crlf [OF c] by simp
next
  case False
  then have "detect_line_ending s = Lf"
    using find_crlf_needs_cr by (simp add: detect_line_ending_def split: option.split)
  then show ?thesis using False by (simp add: normalize_to_lf_id)
qed

lemma restore_append: "restore_line_endings (a @ b) e = restore_line_endings a e @ restore_line_endings b e"
  by (cases e) simp_all


section \<open>Matching\<close>

definition matched :: "(string \<Rightarrow> string) \<Rightarrow> string \<Rightarrow> Edit \<Rightarrow> MatchedEdit \<Rightarrow> bool" where
  "matched nfkc base e m \<longleftrightarrow>
    (let f = fuzzy_find_text nfkc base (old_text e)
     in fm_found f \<and> count_occurrences nfkc base (old_text e) \<le> 1 \<and>
        edit_replacement m = \<lparr>match_index = fm_index f, match_length = fm_match_length f, new_text = edit_new_text e\<rparr>)"

lemma match_edits_Inr:
  assumes "match_edits nfkc base path n index es = Inr ms"
  shows "list_all2 (matched nfkc base) es ms \<and> map edit_index ms = [index..<index + length es]"
  using assms
proof (induction es arbitrary: index ms)
  case (Cons e es)
  then obtain ms' where ms': "match_edits nfkc base path n (Suc index) es = Inr ms'" "ms \<noteq> []" "tl ms = ms'"
      "edit_index (hd ms) = index" "matched nfkc base e (hd ms)"
    by (auto simp: Let_def matched_def map_ok_def split: if_splits sum.splits)
  have "[index..<index + length (e # es)] = index # [Suc index..<Suc index + length es]"
    by (simp add: upt_conv_Cons del: upt_Suc)
  then show ?case using Cons.IH [OF ms'(1)] ms' by (cases ms) (simp_all del: upt_Suc)
qed simp

lemma check_overlap_spaced:
  assumes "check_overlap path ms = None" and "ms \<noteq> [] \<Longrightarrow> pos \<le> match_index (edit_replacement (hd ms))"
  shows "spaced pos (map edit_replacement ms)"
  using assms by (induction path ms arbitrary: pos rule: check_overlap.induct) (auto split: if_splits)

lemma check_empty_None: "check_empty path n index es = None \<longleftrightarrow> list_all (\<lambda>e. old_text e \<noteq> []) es"
  by (induction es arbitrary: index) auto

text \<open>An exact match of a valid text.\<close>

lemma exact_match:
  assumes "utf8_valid content" and "utf8_valid (old_text e)" "utf8_valid (edit_new_text e)"
    and "matched nfkc content e m" and "\<not> used_fuzzy_match (fuzzy_find_text nfkc content (old_text e))"
  shows "fits content (edit_replacement m)" "new_text (edit_replacement m) = edit_new_text e"
    "take (match_length (edit_replacement m)) (drop (match_index (edit_replacement m)) content) = old_text e"
    "find_str content (old_text e) = Some (match_index (edit_replacement m))"
    "match_length (edit_replacement m) = length (old_text e)"
proof -
  obtain i where i: "find_str content (old_text e) = Some i"
    using assms(4,5) by (auto simp: matched_def fuzzy_find_text_def Let_def split: option.splits)
  then have r: "edit_replacement m = \<lparr>match_index = i, match_length = length (old_text e), new_text = edit_new_text e\<rparr>"
    using assms(4) by (simp add: matched_def fuzzy_find_text_def)
  show "fits content (edit_replacement m)" "new_text (edit_replacement m) = edit_new_text e"
    "take (match_length (edit_replacement m)) (drop (match_index (edit_replacement m)) content) = old_text e"
    "find_str content (old_text e) = Some (match_index (edit_replacement m))"
    "match_length (edit_replacement m) = length (old_text e)"
    using match_boundaries [OF assms(1,2) i] assms(3) i by (simp_all add: r fits_def)
qed

definition normalize_edit :: "Edit \<Rightarrow> Edit" where
  "normalize_edit e = \<lparr>old_text = normalize_to_lf (old_text e), edit_new_text = normalize_to_lf (edit_new_text e)\<rparr>"

definition valid_edit :: "Edit \<Rightarrow> bool" where
  "valid_edit e \<longleftrightarrow> utf8_valid (old_text e) \<and> utf8_valid (edit_new_text e)"

text \<open>What an exact application has done, and that it does not panic.\<close>

lemma exact_edits:
  assumes "utf8_valid content" and "list_all valid_edit edits"
    and exact: "\<not> list_ex (\<lambda>e. used_fuzzy_match (fuzzy_find_text nfkc content (old_text e))) (map normalize_edit edits)"
    and m: "match_edits nfkc content path n 0 (map normalize_edit edits) = Inr ms"
    and ov: "check_overlap path (sort_key (\<lambda>m. match_index (edit_replacement m)) ms) = None"
    and rs: "rs = map edit_replacement (sort_key (\<lambda>m. match_index (edit_replacement m)) ms)"
  shows "apply_replacements content rs 0 = Some (weave 0 content rs)" "spaced 0 rs"
    "mset rs = image_mset edit_replacement (mset ms)"
    "list_all2 (\<lambda>e m. new_text (edit_replacement m) = normalize_to_lf (edit_new_text e) \<and>
        find_str content (normalize_to_lf (old_text e)) = Some (match_index (edit_replacement m)) \<and>
        match_length (edit_replacement m) = length (normalize_to_lf (old_text e))) edits ms"
proof -
  have l2: "list_all2 (matched nfkc content) (map normalize_edit edits) ms" using match_edits_Inr [OF m] by blast
  have each: "matched nfkc content (normalize_edit (edits ! k)) (ms ! k) \<and> valid_edit (edits ! k) \<and>
      \<not> used_fuzzy_match (fuzzy_find_text nfkc content (old_text (normalize_edit (edits ! k))))" if "k < length edits" for k
    using that l2 assms(2) exact by (auto simp: list_all2_conv_all_nth list_all_length list_ex_length)
  have len: "length ms = length edits" using list_all2_lengthD [OF l2] by simp
  have valid: "utf8_valid (old_text (normalize_edit e))" "utf8_valid (edit_new_text (normalize_edit e))" if "valid_edit e" for e
    using that utf8_valid_normalize by (simp_all add: normalize_edit_def valid_edit_def)
  have all: "fits content (edit_replacement (ms ! k)) \<and>
      new_text (edit_replacement (ms ! k)) = normalize_to_lf (edit_new_text (edits ! k)) \<and>
      find_str content (normalize_to_lf (old_text (edits ! k))) = Some (match_index (edit_replacement (ms ! k))) \<and>
      match_length (edit_replacement (ms ! k)) = length (normalize_to_lf (old_text (edits ! k)))" if "k < length edits" for k
  proof -
    have e: "matched nfkc content (normalize_edit (edits ! k)) (ms ! k)" "valid_edit (edits ! k)"
        "\<not> used_fuzzy_match (fuzzy_find_text nfkc content (old_text (normalize_edit (edits ! k))))"
      using each [OF that] by blast+
    show ?thesis using exact_match [OF assms(1) valid(1,2) [OF e(2)] e(1,3)] by (simp add: normalize_edit_def)
  qed
  show "list_all2 (\<lambda>e m. new_text (edit_replacement m) = normalize_to_lf (edit_new_text e) \<and>
        find_str content (normalize_to_lf (old_text e)) = Some (match_index (edit_replacement m)) \<and>
        match_length (edit_replacement m) = length (normalize_to_lf (old_text e))) edits ms"
    unfolding list_all2_conv_all_nth using len all by simp
  have "list_all (fits content \<circ> edit_replacement) ms"
    unfolding list_all_length using len all by simp
  then have f: "list_all (fits content) rs" unfolding rs by (simp add: list_all_iff)
  show sp: "spaced 0 rs" unfolding rs by (rule check_overlap_spaced [OF ov]) simp
  show "apply_replacements content rs 0 = Some (weave 0 content rs)"
    using replace_all_weave [OF assms(1) _ sp f] char_led_valid [OF assms(1)] by (simp add: apply_replacements_def boundary_drop)
  show "mset rs = image_mset edit_replacement (mset ms)" unfolding rs by simp
qed

end
