(* ===== verification/Edit_Fuzzy.thy ===== *)
theory Edit_Fuzzy
  imports Edit_Proofs
begin

text \<open>
  Replacing in the normalized text while the lines that are not touched keep their own bytes:
  \<open>apply_replacements_preserving_unchanged_lines\<close> for one replacement.
\<close>

section \<open>Lines with their endings\<close>

lemma concat_split_inclusive: "concat (split_inclusive line s) = line @ s"
  by (induction line s rule: split_inclusive.induct) auto

lemma concat_lines [simp]: "concat (split_lines_with_endings s) = s"
  by (simp add: split_lines_with_endings_def concat_split_inclusive)

lemma split_inclusive_nonempty: "l \<in> set (split_inclusive line s) \<Longrightarrow> l \<noteq> []"
  by (induction line s arbitrary: l rule: split_inclusive.induct) (auto split: if_splits)

lemma split_inclusive_valid:
  "utf8_valid (line @ s) \<Longrightarrow> l \<in> set (split_inclusive line s) \<Longrightarrow> utf8_valid l"
proof (induction line s rule: split_inclusive.induct)
  case (2 line c s)
  show ?case
  proof (cases "c = newline")
    case True
    have "utf8_valid line" "utf8_valid s" using utf8_valid_ascii [of line newline s] 2(3) True by simp_all
    moreover have "utf8_valid (line @ [newline])" using calculation(1) by (simp add: utf8_valid_append)
    ultimately show ?thesis using 2(1,4) True by auto
  next
    case False
    then show ?thesis using 2(2) [OF False] 2(3,4) by simp
  qed
qed (auto split: if_splits)

lemma lines_valid: "utf8_valid s \<Longrightarrow> l \<in> set (split_lines_with_endings s) \<Longrightarrow> utf8_valid l"
  using split_inclusive_valid [of "[]" s l] by (simp add: split_lines_with_endings_def)

lemma valid_concat: "(\<And>l. l \<in> set ls \<Longrightarrow> utf8_valid l) \<Longrightarrow> utf8_valid (concat ls)"
  by (induction ls) (auto simp: utf8_valid_append)

lemma spans_from_nth:
  "k < length ls \<Longrightarrow> spans_from offset ls ! k =
    \<lparr>span_start = offset + length (concat (take k ls)), span_end = offset + length (concat (take (Suc k) ls))\<rparr>"
proof (induction ls arbitrary: offset k)
  case (Cons l ls)
  then show ?case by (cases k) (simp_all add: add.assoc)
qed simp

lemma length_spans [simp]: "length (spans_from offset ls) = length ls"
  by (induction ls arbitrary: offset) simp_all

section \<open>The lines a replacement touches\<close>

lemma first_index_Some: "first_index P xs = Some i \<Longrightarrow> i < length xs \<and> P (xs ! i)"
proof (induction xs arbitrary: i)
  case (Cons x xs)
  then show ?case by (cases i) (auto split: if_splits)
qed simp

lemma first_index_None: "first_index P xs = None \<longleftrightarrow> (\<forall>x \<in> set xs. \<not> P x)"
  by (induction xs) auto

lemma end_line_from_spec:
  "i \<le> end_line_from lines e i \<and> (end_line_from lines e i < length lines \<longrightarrow> e \<le> span_end (lines ! end_line_from lines e i)) \<and>
   (\<forall>k. i \<le> k \<and> k < end_line_from lines e i \<longrightarrow> k < length lines \<and> span_end (lines ! k) < e)"
proof (induction lines e i rule: end_line_from.induct)
  case (1 lines e i)
  show ?case
  proof (cases "i < length lines \<and> span_end (lines ! i) < e")
    case True
    then have eq: "end_line_from lines e i = end_line_from lines e (Suc i)" by (subst end_line_from.simps) simp
    have IH: "Suc i \<le> end_line_from lines e (Suc i)"
      "end_line_from lines e (Suc i) < length lines \<longrightarrow> e \<le> span_end (lines ! end_line_from lines e (Suc i))"
      "\<And>k. Suc i \<le> k \<Longrightarrow> k < end_line_from lines e (Suc i) \<Longrightarrow> k < length lines \<and> span_end (lines ! k) < e"
      using 1 [OF True] by blast+
    have "k < length lines \<and> span_end (lines ! k) < e" if "i \<le> k" "k < end_line_from lines e (Suc i)" for k
      using IH(3) [of k] True that by (cases "k = i") auto
    then show ?thesis unfolding eq using IH(1,2) by auto
  next
    case False
    have "end_line_from lines e i = i" unfolding end_line_from.simps [of lines e i] by (rule if_not_P [OF False])
    then show ?thesis using False by (auto simp: not_less)
  qed
qed

lemma position_in_line:
  "n < length (concat ls) \<Longrightarrow> \<exists>k < length ls. length (concat (take k ls)) \<le> n \<and> n < length (concat (take (Suc k) ls))"
proof (induction ls arbitrary: n)
  case (Cons l ls)
  show ?case
  proof (cases "n < length l")
    case False
    then obtain k where "k < length ls" "length (concat (take k ls)) \<le> n - length l" "n - length l < length (concat (take (Suc k) ls))"
      using Cons.IH [of "n - length l"] Cons.prems by fastforce
    then show ?thesis using False by (intro exI [of _ "Suc k"]) auto
  qed (auto intro: exI [of _ 0])
qed simp

lemma concat_take_mono: "j \<le> k \<Longrightarrow> length (concat (take j ls)) \<le> length (concat (take k ls))"
  by (metis append_take_drop_id concat_append le_add1 length_append min.absorb1 take_take)

lemma line_range:
  assumes "L = split_lines_with_endings base" and "match_index r < length base"
    and "match_index r + match_length r \<le> length base"
  shows "\<exists>a b. get_replacement_line_range (get_line_spans base) r = Inr (a, b) \<and> a < b \<and> b \<le> length L \<and>
    length (concat (take a L)) \<le> match_index r \<and> match_index r < length (concat (take (Suc a) L)) \<and>
    match_index r + match_length r \<le> length (concat (take b L)) \<and>
    (Suc a < b \<longrightarrow> length (concat (take (b - 1) L)) < match_index r + match_length r)"
proof -
  let ?S = "get_line_spans base" and ?e = "match_index r + match_length r"
  have S: "?S = spans_from 0 L" "length ?S = length L" using assms(1) by (simp_all add: get_line_spans_def)
  have nth: "?S ! k = \<lparr>span_start = length (concat (take k L)), span_end = length (concat (take (Suc k) L))\<rparr>" if "k < length L" for k
    using spans_from_nth [OF that, of 0] S by simp
  have total: "length (concat L) = length base" using assms(1) by simp
  let ?P = "\<lambda>l. span_start l \<le> match_index r \<and> match_index r < span_end l"
  obtain k where "k < length L" "?P (?S ! k)" using position_in_line [of "match_index r" L] assms(2) total nth by auto
  then obtain a where a: "first_index ?P ?S = Some a"
    using first_index_None [of ?P ?S] S(2) by (metis nth_mem not_None_eq)
  then have pa: "a < length L" "?P (?S ! a)" using first_index_Some S(2) by fastforce+
  let ?b = "end_line_from ?S ?e a"
  note spec = end_line_from_spec [of a ?S ?e]
  have less: "?b < length L"
  proof (rule ccontr)
    assume "\<not> ?b < length L"
    then have ge: "length L - 1 < ?b" "a \<le> length L - 1" using pa(1) by auto
    then have "span_end (?S ! (length L - 1)) < ?e" using spec by blast
    then show False using nth [of "length L - 1"] pa(1) assms(3) total by simp
  qed
  have "get_replacement_line_range ?S r = Inr (a, Suc ?b)"
    using a less S(2) by (simp add: get_replacement_line_range_def Let_def)
  moreover have "length (concat (take ?b L)) < ?e" if "a < ?b"
  proof -
    have "span_end (?S ! (?b - 1)) < ?e" using spec that by auto
    then show ?thesis using nth [of "?b - 1"] less that by simp
  qed
  ultimately show ?thesis
    using spec less pa nth [OF less] nth [OF pa(1)] S(2) by (intro exI [of _ a] exI [of _ "Suc ?b"]) auto
qed


section \<open>One replacement\<close>

lemma drop_concat_lines: "drop (length (concat (take k ls))) (concat ls) = concat (drop k ls)"
  by (metis append_eq_conv_conj append_take_drop_id concat_append)

lemma line_boundary:
  assumes "utf8_valid base" and "L = split_lines_with_endings base"
  shows "is_char_boundary base (length (concat (take k L)))"
proof -
  have base: "base = concat L" using assms(2) by simp
  have "utf8_valid (concat (drop k L))"
    using lines_valid [OF assms(1)] assms(2) by (intro valid_concat) (auto dest: in_set_dropD)
  then show ?thesis
    unfolding boundary_drop base drop_concat_lines
    using char_led_valid concat_take_mono [of k "max k (length L)" L] by simp
qed

lemma slice_boundary:
  "is_char_boundary (pre @ part @ post) (length pre + k) \<Longrightarrow> k \<le> length part \<Longrightarrow> is_char_boundary part k"
  by (cases "drop k part") (auto simp: boundary_drop)

lemma replace_in_part:
  assumes base: "base = pre @ part @ post" and "fits base r" and "is_char_boundary base (length pre)"
    and "length pre \<le> match_index r" and "match_index r + match_length r \<le> length pre + length part"
  obtains X where "apply_replacements part [r] (length pre) = Some X"
    "pre @ X @ post = take (match_index r) base @ new_text r @ drop (match_index r + match_length r) base"
proof -
  define i where "i = match_index r - length pre"
  have i: "match_index r = length pre + i" "i + match_length r \<le> length part" using assms(4,5) by (simp_all add: i_def)
  have "is_char_boundary base (length pre + 0)" "is_char_boundary base (length pre + i)"
      "is_char_boundary base (length pre + (i + match_length r))"
    using assms(2,3) i(1) by (simp_all add: fits_def add.assoc)
  then have "is_char_boundary part 0" "is_char_boundary part i" "is_char_boundary part (i + match_length r)"
    unfolding base using slice_boundary i(2) by fastforce+
  then have "apply_replacements part [r] (length pre) = Some (take i part @ new_text r @ drop (i + match_length r) part)"
    using replace_at_ok [of part i r "length pre"] i(1) by (simp add: apply_replacements_def)
  moreover have "pre @ (take i part @ new_text r @ drop (i + match_length r) part) @ post =
      take (match_index r) base @ new_text r @ drop (match_index r + match_length r) base"
    using i by (simp add: base)
  ultimately show ?thesis by (rule that)
qed

lemma preserve_one:
  assumes "utf8_valid base" and "fits base r" and "match_index r < length base"
    and L: "L = split_lines_with_endings base" and O: "OL = split_lines_with_endings original"
    and same: "length OL = length L"
  shows "\<exists>a b X. a < b \<and> b \<le> length L \<and>
    apply_replacements_preserving_unchanged_lines original base [r] = Some (Inr (concat (take a OL) @ X @ concat (drop b OL))) \<and>
    concat (take a L) @ X @ concat (drop b L) =
      take (match_index r) base @ new_text r @ drop (match_index r + match_length r) base \<and>
    length (concat (take a L)) \<le> match_index r \<and> match_index r < length (concat (take (Suc a) L)) \<and>
    (Suc a < b \<longrightarrow> length (concat (take (b - 1) L)) < match_index r + match_length r)"
proof -
  have end_le: "match_index r + match_length r \<le> length base" using assms(2) boundary_le by (auto simp: fits_def)
  obtain a b where ab: "get_replacement_line_range (get_line_spans base) r = Inr (a, b)" "a < b" "b \<le> length L"
      "length (concat (take a L)) \<le> match_index r" "match_index r < length (concat (take (Suc a) L))"
      "match_index r + match_length r \<le> length (concat (take b L))"
      "Suc a < b \<longrightarrow> length (concat (take (b - 1) L)) < match_index r + match_length r"
    using line_range [OF L assms(3) end_le] by blast
  let ?pre = "concat (take a L)" and ?part = "concat (take (b - a) (drop a L))" and ?post = "concat (drop b L)"
  have split_b: "take b L = take a L @ take (b - a) (drop a L)" using ab(2) by (metis le_add_diff_inverse less_imp_le take_add)
  have base: "base = ?pre @ ?part @ ?post"
    using L split_b by (metis append_assoc append_take_drop_id concat_append concat_lines)
  have len: "length (concat (take b L)) = length ?pre + length ?part" using split_b by simp
  have slice: "str_slice base (length ?pre) (length (concat (take b L))) = Some ?part"
    using line_boundary [OF assms(1) L, of a] line_boundary [OF assms(1) L, of b] unfolding len
    by (simp add: str_slice_def) (simp add: base)
  obtain X where X: "apply_replacements ?part [r] (length ?pre) = Some X"
      "?pre @ X @ ?post = take (match_index r) base @ new_text r @ drop (match_index r + match_length r) base"
    using replace_in_part [OF base assms(2) line_boundary [OF assms(1) L] ab(4)] ab(6) len by metis
  have nth: "get_line_spans base ! k = \<lparr>span_start = length (concat (take k L)), span_end = length (concat (take (Suc k) L))\<rparr>"
    if "k < length L" for k using spans_from_nth [OF that, of 0] L by (simp add: get_line_spans_def)
  have spans: "length (get_line_spans base) = length L" using L by (simp add: get_line_spans_def)
  have "apply_replacements_preserving_unchanged_lines original base [r] = Some (Inr (concat (take a OL) @ X @ concat (drop b OL)))"
    using ab(1-3) spans same slice X(1) nth [of a] nth [of "b - 1"] O
    by (simp add: apply_replacements_preserving_unchanged_lines_def Let_def list_slice_def)
  then show ?thesis using ab X(2) by blast
qed

end
