(* ===== verification/Diff_Render.thy ===== *)
theory Diff_Render
  imports Text_Lines "HOL-Library.Sublist"
begin

text \<open>
  The diff shown after an edit (\<open>diff_parts\<close> and \<open>generate_diff_string\<close> of \<open>core/tools/edit_diff.rs\<close>). The line
  changes come from the \<open>similar\<close> crate and are an argument. The rows that the code prints at once are
  kept as values here, with \<open>show_row\<close> as their text.
\<close>

section \<open>The rows of a diff\<close>

datatype ChangeTag = Equal | Delete | Insert

type_synonym Change = "ChangeTag \<times> string"

record DiffPart =
  dp_lines :: "string list"
  dp_added :: bool
  dp_removed :: bool

definition strip_newline :: "string \<Rightarrow> string" where
  "strip_newline s = (if s \<noteq> [] \<and> last s = newline then butlast s else s)"

text \<open>The loop of \<open>diff_parts\<close>; the parts are kept latest first.\<close>

definition push_change :: "Change \<Rightarrow> DiffPart list \<Rightarrow> DiffPart list" where
  "push_change change parts =
    (let added = (fst change = Insert); removed = (fst change = Delete); line = strip_newline (snd change)
     in (case parts of
        part # earlier \<Rightarrow>
          if dp_added part = added \<and> dp_removed part = removed then part\<lparr>dp_lines := dp_lines part @ [line]\<rparr> # earlier
          else \<lparr>dp_lines = [line], dp_added = added, dp_removed = removed\<rparr> # parts
      | [] \<Rightarrow> [\<lparr>dp_lines = [line], dp_added = added, dp_removed = removed\<rparr>]))"

definition diff_parts :: "Change list \<Rightarrow> DiffPart list" where
  "diff_parts changes = rev (fold push_change changes [])"

datatype DiffRow = AddedRow nat string | RemovedRow nat string | ContextRow nat string | Ellipsis

definition pad_left :: "nat \<Rightarrow> string \<Rightarrow> string" where
  "pad_left width s = replicate (width - length s) CHR '' '' @ s"

fun show_row :: "nat \<Rightarrow> DiffRow \<Rightarrow> string" where
  "show_row width (AddedRow n line) = ''+'' @ pad_left width (show_nat n) @ '' '' @ line"
| "show_row width (RemovedRow n line) = ''-'' @ pad_left width (show_nat n) @ '' '' @ line"
| "show_row width (ContextRow n line) = '' '' @ pad_left width (show_nat n) @ '' '' @ line"
| "show_row width Ellipsis = '' '' @ pad_left width [] @ '' ...''"

definition number_rows :: "(nat \<Rightarrow> string \<Rightarrow> DiffRow) \<Rightarrow> nat \<Rightarrow> string list \<Rightarrow> DiffRow list" where
  "number_rows row n lines = map (\<lambda>(i, line). row i line) (enumerate n lines)"

definition is_change_part :: "DiffPart \<Rightarrow> bool" where
  "is_change_part part \<longleftrightarrow> dp_added part \<or> dp_removed part"

text \<open>The rows of a run of unchanged lines that starts with old line \<open>n\<close>.\<close>

definition context_rows :: "nat \<Rightarrow> bool \<Rightarrow> bool \<Rightarrow> nat \<Rightarrow> string list \<Rightarrow> DiffRow list" where
  "context_rows context_lines has_leading_change has_trailing_change n raw =
    (if has_leading_change \<and> has_trailing_change then
       if length raw \<le> context_lines * 2 then number_rows ContextRow n raw
       else
         let skipped = length raw - context_lines * 2
         in number_rows ContextRow n (take context_lines raw) @ [Ellipsis] @
            number_rows ContextRow (n + context_lines + skipped) (drop (length raw - context_lines) raw)
     else if has_leading_change then
       let shown = min (length raw) context_lines; skipped = length raw - shown
       in number_rows ContextRow n (take shown raw) @ (if skipped > 0 then [Ellipsis] else [])
     else if has_trailing_change then
       let skipped = length raw - context_lines
       in (if skipped > 0 then [Ellipsis] else []) @ number_rows ContextRow (n + skipped) (drop skipped raw)
     else [])"

fun next_is_change :: "DiffPart list \<Rightarrow> bool" where
  "next_is_change [] = False"
| "next_is_change (part # _) = is_change_part part"

text \<open>The loop of \<open>generate_diff_string\<close>.\<close>

fun diff_rows :: "nat \<Rightarrow> bool \<Rightarrow> nat \<Rightarrow> nat \<Rightarrow> nat option \<Rightarrow> DiffPart list \<Rightarrow> DiffRow list \<times> nat option" where
  "diff_rows context_lines last_was_change old_no new_no first_changed [] = ([], first_changed)"
| "diff_rows context_lines last_was_change old_no new_no first_changed (part # parts) =
    (if is_change_part part then
       let first = (if first_changed = None then Some new_no else first_changed);
           k = length (dp_lines part);
           rows = (if dp_added part then number_rows AddedRow new_no (dp_lines part)
                   else number_rows RemovedRow old_no (dp_lines part));
           (rest, result) = (if dp_added part then diff_rows context_lines True old_no (new_no + k) first parts
                   else diff_rows context_lines True (old_no + k) new_no first parts)
       in (rows @ rest, result)
     else
       let k = length (dp_lines part);
           (rest, result) = diff_rows context_lines False (old_no + k) (new_no + k) first_changed parts
       in (context_rows context_lines last_was_change (next_is_change parts) old_no (dp_lines part) @ rest, result))"

record DiffString =
  diff :: string
  first_changed_line :: "nat option"

definition generate_diff_string :: "(string \<Rightarrow> string \<Rightarrow> Change list) \<Rightarrow> string \<Rightarrow> string \<Rightarrow> nat \<Rightarrow> DiffString" where
  "generate_diff_string from_lines old_content new_content context_lines =
    (let old_lines = length (split_on newline old_content);
         new_lines = length (split_on newline new_content);
         line_number_width = length (show_nat (max old_lines new_lines));
         (rows, first) = diff_rows context_lines False 1 1 None (diff_parts (from_lines old_content new_content))
     in \<lparr>diff = join [newline] (map (show_row line_number_width) rows), first_changed_line = first\<rparr>)"

text \<open>\<open>unified_diff\<close> is the crate's printer, given the path of the header, the contents and the context radius.\<close>

definition generate_unified_patch ::
  "(string \<Rightarrow> string \<Rightarrow> string \<Rightarrow> nat \<Rightarrow> string) \<Rightarrow> string \<Rightarrow> string \<Rightarrow> string \<Rightarrow> nat \<Rightarrow> string" where
  "generate_unified_patch unified_diff path old_content new_content context_lines =
    (let patch = unified_diff path old_content new_content context_lines
     in if patch \<noteq> [] \<and> last patch \<noteq> newline then patch @ [newline] else patch)"

section \<open>Every change is shown with its line number\<close>

text \<open>The reference: every change with its number, and unchanged lines with their old number.\<close>

fun numbered :: "nat \<Rightarrow> nat \<Rightarrow> Change list \<Rightarrow> DiffRow list" where
  "numbered old_no new_no [] = []"
| "numbered old_no new_no ((tag, value0) # changes) =
    (case tag of
       Equal \<Rightarrow> ContextRow old_no (strip_newline value0) # numbered (Suc old_no) (Suc new_no) changes
     | Delete \<Rightarrow> RemovedRow old_no (strip_newline value0) # numbered (Suc old_no) new_no changes
     | Insert \<Rightarrow> AddedRow new_no (strip_newline value0) # numbered old_no (Suc new_no) changes)"

fun is_change_row :: "DiffRow \<Rightarrow> bool" where
  "is_change_row (AddedRow _ _) = True"
| "is_change_row (RemovedRow _ _) = True"
| "is_change_row _ = False"

fun old_count :: "DiffPart list \<Rightarrow> nat" where
  "old_count [] = 0"
| "old_count (part # parts) = (if dp_added part then 0 else length (dp_lines part)) + old_count parts"

fun new_count :: "DiffPart list \<Rightarrow> nat" where
  "new_count [] = 0"
| "new_count (part # parts) = (if dp_added part \<or> \<not> dp_removed part then length (dp_lines part) else 0) + new_count parts"

definition part_rows :: "nat \<Rightarrow> nat \<Rightarrow> DiffPart \<Rightarrow> DiffRow list" where
  "part_rows old_no new_no part =
    (if dp_added part then number_rows AddedRow new_no (dp_lines part)
     else if dp_removed part then number_rows RemovedRow old_no (dp_lines part)
     else number_rows ContextRow old_no (dp_lines part))"

fun all_rows :: "nat \<Rightarrow> nat \<Rightarrow> DiffPart list \<Rightarrow> DiffRow list" where
  "all_rows old_no new_no [] = []"
| "all_rows old_no new_no (part # parts) =
    part_rows old_no new_no part @ all_rows (old_no + old_count [part]) (new_no + new_count [part]) parts"

lemma number_rows_append: "number_rows row n (xs @ ys) = number_rows row n xs @ number_rows row (n + length xs) ys"
  by (simp add: number_rows_def enumerate_append_eq)

lemma number_rows_Cons [simp]: "number_rows row n (x # xs) = row n x # number_rows row (Suc n) xs" "number_rows row n [] = []"
  by (simp_all add: number_rows_def)

lemma part_counts_append: "old_count (xs @ ys) = old_count xs + old_count ys" "new_count (xs @ ys) = new_count xs + new_count ys"
  by (induction xs) simp_all

lemma all_rows_append:
  "all_rows old_no new_no (xs @ ys) = all_rows old_no new_no xs @ all_rows (old_no + old_count xs) (new_no + new_count xs) ys"
  by (induction xs arbitrary: old_no new_no) (simp_all add: add.assoc)

definition proper :: "DiffPart list \<Rightarrow> bool" where
  "proper parts \<longleftrightarrow> list_all (\<lambda>p. \<not> (dp_added p \<and> dp_removed p)) parts"

lemma push_change_rows:
  assumes "proper parts"
  shows "proper (push_change (tag, v) parts)"
    "old_count (rev (push_change (tag, v) parts)) = old_count (rev parts) + (if tag = Insert then 0 else 1)"
    "new_count (rev (push_change (tag, v) parts)) = new_count (rev parts) + (if tag = Delete then 0 else 1)"
    "all_rows old_no new_no (rev (push_change (tag, v) parts)) =
      all_rows old_no new_no (rev parts) @ numbered (old_no + old_count (rev parts)) (new_no + new_count (rev parts)) [(tag, v)]"
  using assms
  by (cases tag; cases parts; auto simp: push_change_def Let_def proper_def part_counts_append all_rows_append part_rows_def
      number_rows_append)+

lemma diff_parts_rows:
  assumes "proper parts"
  shows "all_rows old_no new_no (rev (fold push_change changes parts)) =
    all_rows old_no new_no (rev parts) @ numbered (old_no + old_count (rev parts)) (new_no + new_count (rev parts)) changes"
  using assms
proof (induction changes arbitrary: parts)
  case (Cons change changes)
  obtain tag v where c: "change = (tag, v)" by fastforce
  note p = push_change_rows [OF Cons.prems, where tag = tag and v = v]
  show ?case using Cons.IH [OF p(1)] p(2-4) c by (cases tag) simp_all
qed simp

lemma numbered_all_rows: "all_rows old_no new_no (diff_parts changes) = numbered old_no new_no changes"
  using diff_parts_rows [of "[]" old_no new_no changes] by (simp add: diff_parts_def proper_def)

lemma number_rows_filter:
  "filter (\<lambda>r. r \<noteq> Ellipsis) (number_rows ContextRow n xs) = number_rows ContextRow n xs"
  "filter is_change_row (number_rows ContextRow n xs) = []"
  "filter (\<lambda>r. r \<noteq> Ellipsis) (number_rows AddedRow n xs) = number_rows AddedRow n xs"
  "filter is_change_row (number_rows AddedRow n xs) = number_rows AddedRow n xs"
  "filter (\<lambda>r. r \<noteq> Ellipsis) (number_rows RemovedRow n xs) = number_rows RemovedRow n xs"
  "filter is_change_row (number_rows RemovedRow n xs) = number_rows RemovedRow n xs"
  by (induction xs arbitrary: n) simp_all

lemma number_rows_take_drop:
  "number_rows row n xs = number_rows row n (take k xs) @ number_rows row (n + min k (length xs)) (drop k xs)"
  using number_rows_append [of row n "take k xs" "drop k xs"] by (simp add: min.commute)

lemma subseq_take_rows: "subseq (number_rows row n (take k xs)) (number_rows row n xs)"
  using number_rows_take_drop [of row n xs k] by (intro prefix_imp_subseq) (metis prefixI)

lemma context_rows_shown:
  "subseq (filter (\<lambda>r. r \<noteq> Ellipsis) (context_rows c lead trail n raw)) (number_rows ContextRow n raw)"
  "filter is_change_row (context_rows c lead trail n raw) = []"
proof -
  have "subseq (number_rows ContextRow n (take c raw) @ number_rows ContextRow (n + (length raw - c)) (drop (length raw - c) raw))
      (number_rows ContextRow n raw)" if "c * 2 < length raw"
  proof -
    let ?m = "length raw - c"
    have "number_rows ContextRow n raw = number_rows ContextRow n (take ?m raw) @ number_rows ContextRow (n + ?m) (drop ?m raw)"
      using number_rows_take_drop [of ContextRow n raw ?m] by simp
    moreover have "subseq (number_rows ContextRow n (take c raw)) (number_rows ContextRow n (take ?m raw))"
      using subseq_take_rows [of ContextRow n c "take ?m raw"] that by (simp add: min.absorb1)
    ultimately show ?thesis by (metis list_emb_append_mono subseq_order.order_refl)
  qed
  moreover have "subseq (number_rows ContextRow (n + k) (drop k raw)) (number_rows ContextRow n raw)" if "k \<le> length raw" for k
    using that number_rows_take_drop [of ContextRow n raw k] by (intro suffix_imp_subseq) (metis min.absorb1 suffixI)
  ultimately show "subseq (filter (\<lambda>r. r \<noteq> Ellipsis) (context_rows c lead trail n raw)) (number_rows ContextRow n raw)"
    by (auto simp: context_rows_def Let_def number_rows_filter subseq_take_rows)
  show "filter is_change_row (context_rows c lead trail n raw) = []"
    by (auto simp: context_rows_def Let_def number_rows_filter)
qed

lemma diff_rows_shown:
  assumes "diff_rows c lead old_no new_no first parts = (rows, result)"
  shows "subseq (filter (\<lambda>r. r \<noteq> Ellipsis) rows) (all_rows old_no new_no parts) \<and>
    filter is_change_row rows = filter is_change_row (all_rows old_no new_no parts)"
  using assms
proof (induction parts arbitrary: lead old_no new_no first rows result)
  case (Cons part parts)
  let ?o = "old_no + old_count [part]" and ?n = "new_no + new_count [part]"
  obtain shown rest where r: "rows = shown @ rest" "\<exists>f'. diff_rows c (is_change_part part) ?o ?n f' parts = (rest, result)"
      "shown = (if is_change_part part then part_rows old_no new_no part
        else context_rows c lead (next_is_change parts) old_no (dp_lines part))"
    using Cons.prems by (cases "dp_added part"; cases "dp_removed part")
      (auto simp: is_change_part_def part_rows_def Let_def split: prod.splits)
  have part: "subseq (filter (\<lambda>r. r \<noteq> Ellipsis) shown) (part_rows old_no new_no part)"
      "filter is_change_row shown = filter is_change_row (part_rows old_no new_no part)"
    using context_rows_shown [of c lead "next_is_change parts" old_no "dp_lines part"]
    by (auto simp: r(3) is_change_part_def part_rows_def number_rows_filter)
  obtain f' where "diff_rows c (is_change_part part) ?o ?n f' parts = (rest, result)" using r(2) by blast
  from Cons.IH [OF this] show ?case using r(1) part by (simp add: list_emb_append_mono)
qed simp

text \<open>
  C22: The diff shown after an edit is right. Its rows, without the ellipses, are a part of the complete
  numbered diff in the same order, and no changed line is left out: the added and removed rows are exactly
  the insertions and deletions that were found, each with its line number in the new and the old file.
\<close>

theorem diff_shows_every_change:
  "case diff_rows context_lines False 1 1 None (diff_parts changes) of (rows, first) \<Rightarrow>
    subseq (filter (\<lambda>r. r \<noteq> Ellipsis) rows) (numbered 1 1 changes) \<and>
    filter is_change_row rows = filter is_change_row (numbered 1 1 changes)"
proof -
  obtain rows first where r: "diff_rows context_lines False 1 1 None (diff_parts changes) = (rows, first)" by fastforce
  show ?thesis using diff_rows_shown [OF r] r by (simp add: numbered_all_rows)
qed

end
