(* ===== verification/Snapshot.thy ===== *)
theory Snapshot
  imports File_Lease Text_Lines "HOL-Library.AList"
begin

unbundle bit_operations_syntax

text \<open>
  Copies of files taken before a change (\<open>core/snapshots.rs\<close>). The disk is the list of its files, each
  with its bytes, and the set of directories made by the store; a path names the file with that text.
  Every file operation of a call is numbered, and \<open>Faults\<close> says whether the operation with that number
  fails: with an error text and, for a write, what the file holds afterwards (\<open>None\<close>: no file).
  \<open>canonicalize\<close> stands for \<open>Path::canonicalize\<close> on a directory given by its components, the stamp for
  the formatted time.
\<close>

section \<open>Files\<close>

record Disk =
  files :: "(string \<times> string) list"
  directories :: "string set"

type_synonym Faults = "nat \<Rightarrow> (string \<times> string option) option"

definition no_such_file :: string where "no_such_file = ''No such file or directory (os error 2)''"

definition content_at :: "Disk \<Rightarrow> string \<Rightarrow> string option" where
  "content_at d path = map_of (files d) path"

definition set_content :: "string \<Rightarrow> string option \<Rightarrow> Disk \<Rightarrow> Disk" where
  "set_content path content d = d\<lparr>files := (case content of
     Some bytes \<Rightarrow> AList.update path bytes (files d) | None \<Rightarrow> AList.delete path (files d))\<rparr>"

definition read_op :: "Faults \<Rightarrow> nat \<Rightarrow> string \<Rightarrow> Disk \<Rightarrow> string + string" where
  "read_op flt i path d =
    (case flt i of Some (e, _) \<Rightarrow> Inl e
     | None \<Rightarrow> (case content_at d path of Some bytes \<Rightarrow> Inr bytes | None \<Rightarrow> Inl no_such_file))"

definition write_op :: "Faults \<Rightarrow> nat \<Rightarrow> string \<Rightarrow> string \<Rightarrow> Disk \<Rightarrow> (string + unit) \<times> Disk" where
  "write_op flt i path bytes d =
    (case flt i of
       Some (e, left) \<Rightarrow> (Inl e, set_content path left d)
     | None \<Rightarrow> (Inr (), set_content path (Some bytes) d))"

definition mkdir_op :: "Faults \<Rightarrow> nat \<Rightarrow> string \<Rightarrow> Disk \<Rightarrow> (string + unit) \<times> Disk" where
  "mkdir_op flt i dir d =
    (case flt i of Some (e, _) \<Rightarrow> (Inl e, d) | None \<Rightarrow> (Inr (), d\<lparr>directories := insert dir (directories d)\<rparr>))"

definition remove_op :: "Faults \<Rightarrow> nat \<Rightarrow> string \<Rightarrow> Disk \<Rightarrow> (string + unit) \<times> Disk" where
  "remove_op flt i path d =
    (case flt i of
       Some (e, _) \<Rightarrow> (Inl e, d)
     | None \<Rightarrow> if content_at d path = None then (Inl no_such_file, d) else (Inr (), set_content path None d))"

definition exists_op :: "Faults \<Rightarrow> nat \<Rightarrow> string \<Rightarrow> Disk \<Rightarrow> bool" where
  "exists_op flt i path d \<longleftrightarrow> flt i = None \<and> (content_at d path \<noteq> None \<or> path \<in> directories d)"

text \<open>\<open>Path::join\<close> with a relative name.\<close>

definition path_join :: "string \<Rightarrow> string \<Rightarrow> string" where
  "path_join dir name = (if dir = [] \<or> last dir = CHR ''/'' then dir @ name else dir @ ''/'' @ name)"

definition names_in :: "string \<Rightarrow> Disk \<Rightarrow> string list" where
  "names_in dir d = filter (\<lambda>n. CHR ''/'' \<notin> set n \<and> n \<noteq> [])
    (List.map_filter (\<lambda>(p, _). strip_prefix p (path_join dir [])) (files d))"

definition list_op :: "Faults \<Rightarrow> nat \<Rightarrow> string \<Rightarrow> Disk \<Rightarrow> string + string list" where
  "list_op flt i dir d = (case flt i of Some (e, _) \<Rightarrow> Inl e | None \<Rightarrow> Inr (names_in dir d))"

text \<open>Operations that return an error or a value and change the state.\<close>

definition then_step :: "('e + 'a) \<times> 's \<Rightarrow> ('a \<Rightarrow> 's \<Rightarrow> ('e + 'b) \<times> 's) \<Rightarrow> ('e + 'b) \<times> 's" where
  "then_step r f = (case r of (Inl e, s) \<Rightarrow> (Inl e, s) | (Inr x, s) \<Rightarrow> f x s)"

lemma then_step_simps [simp]: "then_step (Inl e, s) f = (Inl e, s)" "then_step (Inr x, s) f = f x s"
  by (simp_all add: then_step_def)

section \<open>The store\<close>

definition SNAPSHOT_EXTENSION :: string where "SNAPSHOT_EXTENSION = ''snap''"

definition ORIGIN_MARKER :: string where "ORIGIN_MARKER = ''path''"

definition fnv1a_64 :: "u8 list \<Rightarrow> u64" where
  "fnv1a_64 bytes = fold (\<lambda>byte hash. (hash XOR ucast byte) * 0x00000100000001b3) bytes 0xcbf29ce484222325"

fun show_hex :: "nat \<Rightarrow> string" where
  "show_hex n = (if n < 16 then [hex_digit n] else show_hex (n div 16) @ [hex_digit (n mod 16)])"

declare show_hex.simps [simp del]

type_synonym Canonicalize = "Component list \<Rightarrow> string option"

definition canonical_key :: "Canonicalize \<Rightarrow> string \<Rightarrow> string + string" where
  "canonical_key canonicalize path =
    (if \<not> starts_with path ''/'' then
       Inl (''Snapshot paths must be absolute, got '' @ [char_of (34 :: nat)] @ path @ [char_of (34 :: nat)] @ ''.'')
     else
       let components = path_components path
       in (case last components of
          Normal name \<Rightarrow>
            (case canonicalize (butlast components) of
               Some parent \<Rightarrow> Inr (path_join parent name)
             | None \<Rightarrow> Inr path)
        | _ \<Rightarrow> Inr path))"

definition path_hash :: "string \<Rightarrow> string" where
  "path_hash key = show_hex (unat (fnv1a_64 (as_bytes key)))"

definition snapshot_file_name :: "string \<Rightarrow> string" where
  "snapshot_file_name stamp = stamp @ ''.'' @ SNAPSHOT_EXTENSION"

record SnapshotStore =
  snap_base :: string
  snap_canonicalize :: Canonicalize

record Restored =
  restored_bytes :: string
  more_remain :: bool

definition directory_for :: "SnapshotStore \<Rightarrow> string \<Rightarrow> string" where
  "directory_for store key = path_join (snap_base store) (path_hash key)"

definition snapshot_capture ::
  "SnapshotStore \<Rightarrow> Faults \<Rightarrow> string \<Rightarrow> string \<Rightarrow> Disk \<Rightarrow> (string + string option) \<times> Disk" where
  "snapshot_capture store flt stamp path d =
    (case canonical_key (snap_canonicalize store) path of
       Inl e \<Rightarrow> (Inl e, d)
     | Inr key \<Rightarrow>
         if \<not> exists_op flt 0 path d then (Inr None, d)
         else (case read_op flt 1 path d of
            Inl e \<Rightarrow> (Inl e, d)
          | Inr bytes \<Rightarrow>
              let directory = directory_for store key;
                  target = path_join directory (snapshot_file_name stamp)
              in then_step (mkdir_op flt 2 directory d) (\<lambda>_ d1.
                 then_step (write_op flt 3 (path_join directory ORIGIN_MARKER) key d1) (\<lambda>_ d2.
                 then_step (write_op flt 4 target bytes d2) (\<lambda>_ d3. (Inr (Some target), d3))))))"

text \<open>\<open>Iterator::max\<close>.\<close>

fun max_name :: "string list \<Rightarrow> string option" where
  "max_name [] = None"
| "max_name (n # ns) = Some (fold max ns n)"

definition is_snapshot_name :: "string \<Rightarrow> bool" where
  "is_snapshot_name name \<longleftrightarrow>
    length SNAPSHOT_EXTENSION < length name \<and> drop (length name - Suc (length SNAPSHOT_EXTENSION)) name = ''.'' @ SNAPSHOT_EXTENSION"

definition newest :: "SnapshotStore \<Rightarrow> Faults \<Rightarrow> nat \<Rightarrow> string \<Rightarrow> Disk \<Rightarrow> string + string option" where
  "newest store flt i key d =
    (let directory = directory_for store key
     in if \<not> exists_op flt i directory d then Inr None
        else (case list_op flt (Suc i) directory d of
           Inl e \<Rightarrow> Inl e
         | Inr names \<Rightarrow> Inr (map_option (path_join directory) (max_name (filter is_snapshot_name names)))))"

definition belongs_to :: "SnapshotStore \<Rightarrow> Faults \<Rightarrow> nat \<Rightarrow> string \<Rightarrow> Disk \<Rightarrow> string + bool" where
  "belongs_to store flt i key d =
    (let marker = path_join (directory_for store key) ORIGIN_MARKER
     in if \<not> exists_op flt i marker d then Inr True
        else (case read_op flt (Suc i) marker d of
           Inl e \<Rightarrow> Inl e
         | Inr recorded \<Rightarrow> Inr (from_utf8_lossy recorded = key)))"

definition snapshot_restore ::
  "SnapshotStore \<Rightarrow> Faults \<Rightarrow> string \<Rightarrow> Disk \<Rightarrow> (string + Restored option) \<times> Disk" where
  "snapshot_restore store flt path d =
    (case canonical_key (snap_canonicalize store) path of
       Inl e \<Rightarrow> (Inl e, d)
     | Inr key \<Rightarrow>
         (case newest store flt 0 key d of
            Inl e \<Rightarrow> (Inl e, d)
          | Inr None \<Rightarrow> (Inr None, d)
          | Inr (Some snapshot) \<Rightarrow>
              (case belongs_to store flt 2 key d of
                 Inl e \<Rightarrow> (Inl e, d)
               | Inr False \<Rightarrow>
                   (Inl (''The snapshot directory for '' @ [char_of (34 :: nat)] @ path @ [char_of (34 :: nat)] @
                      '' records a different file. Refusing to restore.''), d)
               | Inr True \<Rightarrow>
                   (case read_op flt 4 snapshot d of
                      Inl e \<Rightarrow> (Inl e, d)
                    | Inr bytes \<Rightarrow>
                        then_step (write_op flt 5 path bytes d) (\<lambda>_ d1.
                        then_step (remove_op flt 6 snapshot d1) (\<lambda>_ d2.
                          (case newest store flt 7 key d2 of
                             Inl e \<Rightarrow> (Inl e, d2)
                           | Inr next_one \<Rightarrow>
                               (Inr (Some \<lparr>restored_bytes = bytes, more_remain = (next_one \<noteq> None)\<rparr>), d2))))))))"

definition capture_before_mutation ::
  "SnapshotStore option \<Rightarrow> Faults \<Rightarrow> string \<Rightarrow> string \<Rightarrow> Disk \<Rightarrow> (string + unit) \<times> Disk" where
  "capture_before_mutation store flt stamp path d =
    (case store of
       None \<Rightarrow> (Inr (), d)
     | Some st \<Rightarrow>
         (case snapshot_capture st flt stamp path d of
            (Inl e, d1) \<Rightarrow>
              (Inl (''Could not snapshot '' @ [char_of (34 :: nat)] @ path @ [char_of (34 :: nat)] @
                 '' before changing it, so the change was not made: '' @ e), d1)
          | (Inr _, d1) \<Rightarrow> (Inr (), d1)))"

end
