(* ===== verification/Snapshot_Proofs.thy ===== *)
theory Snapshot_Proofs
  imports Snapshot
begin

text \<open>
  The snapshots of a file are a stack: taking one pushes the content of the file, restoring pops it.
\<close>

section \<open>Files\<close>

lemma content_set [simp]:
  "content_at (set_content path content d) p = (if p = path then content else content_at d p)"
  by (cases content) (auto simp: content_at_def set_content_def update_conv' delete_conv')

lemma set_content_directories [simp]: "directories (set_content path content d) = directories d"
  by (simp add: set_content_def)

lemma content_directories [simp]: "content_at (d\<lparr>directories := ds\<rparr>) p = content_at d p"
  by (simp add: content_at_def)

lemma path_join_prefix: "path_join dir name = path_join dir [] @ name"
  by (simp add: path_join_def)

lemma path_join_inj [simp]: "path_join dir a = path_join dir b \<longleftrightarrow> a = b"
  using path_join_prefix by (metis same_append_eq)

lemma strip_prefix_Some: "strip_prefix p q = Some n \<longleftrightarrow> p = q @ n"
  by (auto simp: strip_prefix_def starts_with_def) (metis append_take_drop_id)

lemma strip_prefix_append [simp]: "strip_prefix (q @ n) q = Some n"
  by (simp add: strip_prefix_Some)

lemma in_names: "n \<in> set (names_in dir d) \<longleftrightarrow> CHR ''/'' \<notin> set n \<and> n \<noteq> [] \<and> content_at d (path_join dir n) \<noteq> None"
proof -
  have "content_at d (path_join dir n) \<noteq> None \<longleftrightarrow> (\<exists>c. (path_join dir [] @ n, c) \<in> set (files d))"
    unfolding content_at_def path_join_prefix [of dir n] by (force simp: map_of_eq_None_iff)
  moreover have "n \<in> set (List.map_filter (\<lambda>(p, _). strip_prefix p (path_join dir [])) (files d)) \<longleftrightarrow>
      (\<exists>c. (path_join dir [] @ n, c) \<in> set (files d))"
    by (force simp: set_map_filter strip_prefix_Some)
  ultimately show ?thesis by (auto simp: names_in_def)
qed

lemma max_name_Max: "max_name ns = (if ns = [] then None else Some (Max (set ns)))"
  by (cases ns) (simp_all add: Max.set_eq_fold [symmetric] del: Max_insert)

section \<open>The stack of snapshots\<close>

definition snapshot_names :: "SnapshotStore \<Rightarrow> string \<Rightarrow> Disk \<Rightarrow> string set" where
  "snapshot_names store key d = set (filter is_snapshot_name (names_in (directory_for store key) d))"

definition history :: "SnapshotStore \<Rightarrow> string \<Rightarrow> Disk \<Rightarrow> string list" where
  "history store key d =
    map (\<lambda>n. the (content_at d (path_join (directory_for store key) n)))
      (rev (sorted_list_of_set (snapshot_names store key d)))"

lemma names_iff:
  "n \<in> snapshot_names store key d \<longleftrightarrow>
    is_snapshot_name n \<and> CHR ''/'' \<notin> set n \<and> content_at d (path_join (directory_for store key) n) \<noteq> None"
  by (auto simp: snapshot_names_def in_names is_snapshot_name_def)

lemma finite_names [simp]: "finite (snapshot_names store key d)"
  by (simp add: snapshot_names_def)

lemma sorted_list_of_set_last:
  assumes "finite A" and "\<And>a. a \<in> A \<Longrightarrow> a < (m :: 'a :: linorder)"
  shows "sorted_list_of_set (insert m A) = sorted_list_of_set A @ [m]"
proof (rule sorted_distinct_set_unique)
  show "sorted (sorted_list_of_set A @ [m])" using assms by (auto simp: sorted_append intro: less_imp_le)
  show "distinct (sorted_list_of_set A @ [m])" using assms by auto
  show "sorted (sorted_list_of_set (insert m A))" "distinct (sorted_list_of_set (insert m A))"
    by (rule sorted_sorted_list_of_set, rule distinct_sorted_list_of_set)
  show "set (sorted_list_of_set (insert m A)) = set (sorted_list_of_set A @ [m])"
    using assms(1) by (simp add: set_sorted_list_of_set del: sorted_list_of_set_insert_remove)
qed

text \<open>The history depends on the snapshot files only.\<close>

lemma history_cong:
  assumes "\<And>n. is_snapshot_name n \<Longrightarrow>
    content_at d' (path_join (directory_for store key) n) = content_at d (path_join (directory_for store key) n)"
  shows "history store key d' = history store key d" "snapshot_names store key d' = snapshot_names store key d"
proof -
  show names: "snapshot_names store key d' = snapshot_names store key d" using assms by (auto simp: names_iff)
  show "history store key d' = history store key d"
    unfolding history_def names by (auto simp: assms names_iff)
qed

lemma history_push:
  assumes "is_snapshot_name n" and "CHR ''/'' \<notin> set n" and "\<And>m. m \<in> snapshot_names store key d \<Longrightarrow> m < n"
  shows "history store key (set_content (path_join (directory_for store key) n) (Some b) d) = b # history store key d"
    "snapshot_names store key (set_content (path_join (directory_for store key) n) (Some b) d) = insert n (snapshot_names store key d)"
proof -
  let ?d = "set_content (path_join (directory_for store key) n) (Some b) d"
  show names: "snapshot_names store key ?d = insert n (snapshot_names store key d)" using assms(1,2) by (auto simp: names_iff split: if_splits)
  have "n \<notin> snapshot_names store key d" using assms(3) by blast
  then show "history store key ?d = b # history store key d"
    unfolding history_def names using assms(3) by (subst sorted_list_of_set_last) auto
qed

lemma history_pop:
  assumes "history store key d = b # bs"
  obtains n where "n = Max (snapshot_names store key d)" "n \<in> snapshot_names store key d"
    "content_at d (path_join (directory_for store key) n) = Some b"
    "history store key (set_content (path_join (directory_for store key) n) None d) = bs"
    "snapshot_names store key (set_content (path_join (directory_for store key) n) None d) = snapshot_names store key d - {n}"
proof -
  let ?A = "snapshot_names store key d"
  have ne: "?A \<noteq> {}" using assms by (auto simp: history_def)
  define n where "n = Max ?A"
  let ?d = "set_content (path_join (directory_for store key) n) None d"
  have n: "n \<in> ?A" using ne by (simp add: n_def)
  have "m < n" if "m \<in> ?A - {n}" for m using that by (simp add: n_def order.strict_iff_order)
  then have "sorted_list_of_set (insert n (?A - {n})) = sorted_list_of_set (?A - {n}) @ [n]"
    by (intro sorted_list_of_set_last) auto
  then have split_n: "sorted_list_of_set ?A = sorted_list_of_set (?A - {n}) @ [n]" using n by (simp add: insert_absorb)
  have names: "snapshot_names store key ?d = ?A - {n}" by (auto simp: names_iff split: if_splits)
  have "content_at d (path_join (directory_for store key) n) = Some b"
    using assms n split_n by (auto simp: history_def names_iff)
  moreover have "history store key ?d = bs"
    using assms split_n unfolding history_def names by auto
  ultimately show ?thesis using that n names n_def by blast
qed

section \<open>Taking and restoring a snapshot\<close>

definition no_io_faults :: Faults where "no_io_faults = (\<lambda>_. None)"

lemma no_fault_ops [simp]:
  "read_op no_io_faults i path d = (case content_at d path of Some bytes \<Rightarrow> Inr bytes | None \<Rightarrow> Inl no_such_file)"
  "write_op no_io_faults i path bytes d = (Inr (), set_content path (Some bytes) d)"
  "mkdir_op no_io_faults i dir d = (Inr (), d\<lparr>directories := insert dir (directories d)\<rparr>)"
  "remove_op no_io_faults i path d =
    (if content_at d path = None then (Inl no_such_file, d) else (Inr (), set_content path None d))"
  "exists_op no_io_faults i path d \<longleftrightarrow> content_at d path \<noteq> None \<or> path \<in> directories d"
  "list_op no_io_faults i dir d = Inr (names_in dir d)"
  by (simp_all add: no_io_faults_def read_op_def write_op_def mkdir_op_def remove_op_def exists_op_def list_op_def)

text \<open>A file that the store may keep snapshots of: it is not itself one of the files of the store.\<close>

definition tracked :: "SnapshotStore \<Rightarrow> string \<Rightarrow> string \<Rightarrow> bool" where
  "tracked store path key \<longleftrightarrow> canonical_key (snap_canonicalize store) path = Inr key \<and> utf8_valid key \<and>
    strip_prefix path (path_join (directory_for store key) []) = None"

lemma tracked_path: "tracked store path key \<Longrightarrow> path \<noteq> path_join (directory_for store key) n"
  unfolding tracked_def path_join_prefix [of _ n] by auto

definition origin_recorded :: "SnapshotStore \<Rightarrow> string \<Rightarrow> Disk \<Rightarrow> bool" where
  "origin_recorded store key d \<longleftrightarrow> directory_for store key \<in> directories d \<and>
    content_at d (path_join (directory_for store key) ORIGIN_MARKER) = Some key"

lemma marker_no_snapshot: "\<not> is_snapshot_name ORIGIN_MARKER"
  by (simp add: is_snapshot_name_def ORIGIN_MARKER_def SNAPSHOT_EXTENSION_def)

lemma snapshot_name [simp]: "is_snapshot_name (snapshot_file_name stamp)"
  by (simp add: is_snapshot_name_def snapshot_file_name_def SNAPSHOT_EXTENSION_def)

definition later :: "SnapshotStore \<Rightarrow> string \<Rightarrow> Disk \<Rightarrow> string \<Rightarrow> bool" where
  "later store key d stamp \<longleftrightarrow> CHR ''/'' \<notin> set stamp \<and>
    (\<forall>n \<in> snapshot_names store key d. n < snapshot_file_name stamp)"

lemma capture_pushes:
  assumes "tracked store path key" and "content_at d path = Some b" and "later store key d stamp"
  obtains t d' where "snapshot_capture store no_io_faults stamp path d = (Inr (Some t), d')"
    "history store key d' = b # history store key d"
    "snapshot_names store key d' = insert (snapshot_file_name stamp) (snapshot_names store key d)"
    "origin_recorded store key d'" "content_at d' path = Some b"
proof -
  let ?dir = "directory_for store key"
  let ?t = "path_join ?dir (snapshot_file_name stamp)"
  let ?d1 = "d\<lparr>directories := insert ?dir (directories d)\<rparr>"
  let ?d2 = "set_content (path_join ?dir ORIGIN_MARKER) (Some key) ?d1"
  have key: "canonical_key (snap_canonicalize store) path = Inr key" using assms(1) by (simp add: tracked_def)
  have run: "snapshot_capture store no_io_faults stamp path d = (Inr (Some ?t), set_content ?t (Some b) ?d2)"
    using key assms(2) by (simp add: snapshot_capture_def Let_def)
  have "content_at ?d2 (path_join ?dir m) = content_at d (path_join ?dir m)" if "is_snapshot_name m" for m
    using that marker_no_snapshot by auto
  note same = history_cong [OF this]
  have slash: "CHR ''/'' \<notin> set (snapshot_file_name stamp)"
    using assms(3) by (simp add: later_def snapshot_file_name_def SNAPSHOT_EXTENSION_def)
  have less: "m < snapshot_file_name stamp" if "m \<in> snapshot_names store key ?d2" for m
    using assms(3) that same(2) by (simp add: later_def)
  note push = history_push [OF snapshot_name slash less, of store key ?d2 b]
  have "snapshot_file_name stamp \<noteq> ORIGIN_MARKER" using marker_no_snapshot snapshot_name by metis
  then have "origin_recorded store key (set_content ?t (Some b) ?d2)" by (auto simp: origin_recorded_def)
  moreover have "content_at (set_content ?t (Some b) ?d2) path = Some b"
    using assms(2) tracked_path [OF assms(1)] by simp
  ultimately show ?thesis using that run push same by simp
qed

lemma restore_pops:
  assumes "tracked store path key" and "origin_recorded store key d" and "history store key d = b # bs"
  obtains d' where "snapshot_restore store no_io_faults path d = (Inr (Some \<lparr>restored_bytes = b, more_remain = (bs \<noteq> [])\<rparr>), d')"
    "content_at d' path = Some b" "history store key d' = bs" "origin_recorded store key d'"
    "\<And>p. p \<noteq> path \<Longrightarrow> strip_prefix p (path_join (directory_for store key) []) = None \<Longrightarrow> content_at d' p = content_at d p"
proof -
  let ?dir = "directory_for store key"
  obtain n where n: "n = Max (snapshot_names store key d)" "n \<in> snapshot_names store key d"
      "content_at d (path_join ?dir n) = Some b" "history store key (set_content (path_join ?dir n) None d) = bs"
      "snapshot_names store key (set_content (path_join ?dir n) None d) = snapshot_names store key d - {n}"
    using history_pop [OF assms(3)] .
  let ?d1 = "set_content path (Some b) d"
  let ?d2 = "set_content (path_join ?dir n) None ?d1"
  have key: "canonical_key (snap_canonicalize store) path = Inr key" "from_utf8_lossy key = key"
    using assms(1) by (simp_all add: tracked_def from_utf8_lossy_valid)
  have new: "newest store no_io_faults i key x = Inr (if snapshot_names store key x = {} then None
      else Some (path_join ?dir (Max (snapshot_names store key x))))" if "?dir \<in> directories x" for x i
    using that by (auto simp: newest_def Let_def max_name_Max snapshot_names_def filter_empty_conv)
  have dir: "?dir \<in> directories d" "?dir \<in> directories ?d2" using assms(2) by (simp_all add: origin_recorded_def)
  have belongs: "belongs_to store no_io_faults 2 key d = Inr True"
    using assms(2) key(2) by (auto simp: belongs_to_def origin_recorded_def Let_def)
  have "content_at ?d2 (path_join ?dir m) = content_at (set_content (path_join ?dir n) None d) (path_join ?dir m)" for m
    using tracked_path [OF assms(1), of m] by auto
  then have same: "history store key ?d2 = bs" "snapshot_names store key ?d2 = snapshot_names store key d - {n}"
    using history_cong [of ?d2 store key "set_content (path_join ?dir n) None d"] n(4,5) by simp_all
  have more: "snapshot_names store key ?d2 = {} \<longleftrightarrow> bs = []" using same(1) by (auto simp: history_def)
  have "snapshot_restore store no_io_faults path d =
      (Inr (Some \<lparr>restored_bytes = b, more_remain = (bs \<noteq> [])\<rparr>), ?d2)"
    using key(1) new [OF dir(1), of 0] new [OF dir(2), of 7] n(1-3) belongs more tracked_path [OF assms(1), of n]
    by (auto simp: snapshot_restore_def)
  moreover have "origin_recorded store key ?d2"
    using assms(2) n(2) marker_no_snapshot tracked_path [OF assms(1), of ORIGIN_MARKER]
    by (auto simp: origin_recorded_def names_iff)
  moreover have "content_at ?d2 path = Some b" using tracked_path [OF assms(1), of n] by simp
  moreover have "content_at ?d2 p = content_at d p"
    if "p \<noteq> path" "strip_prefix p (path_join ?dir []) = None" for p
    using that path_join_prefix [of ?dir n] by (auto simp: strip_prefix_Some)
  ultimately show ?thesis using that same(1) by blast
qed

section \<open>Walking back\<close>

text \<open>A series of changes, each after its snapshot, and a series of restorations.\<close>

fun make_changes :: "SnapshotStore \<Rightarrow> string \<Rightarrow> (string \<times> string) list \<Rightarrow> Disk \<Rightarrow> Disk" where
  "make_changes store path [] d = d"
| "make_changes store path ((stamp, bytes) # changes) d =
    make_changes store path changes
      (snd (write_op no_io_faults 0 path bytes (snd (snapshot_capture store no_io_faults stamp path d))))"

fun restore_times :: "SnapshotStore \<Rightarrow> string \<Rightarrow> nat \<Rightarrow> Disk \<Rightarrow> Disk" where
  "restore_times store path 0 d = d"
| "restore_times store path (Suc n) d = restore_times store path n (snd (snapshot_restore store no_io_faults path d))"

lemma write_keeps_history:
  assumes "tracked store path key"
  shows "history store key (set_content path c d) = history store key d"
    "snapshot_names store key (set_content path c d) = snapshot_names store key d"
    "origin_recorded store key (set_content path c d) = origin_recorded store key d"
proof -
  have "content_at (set_content path c d) (path_join (directory_for store key) m) =
      content_at d (path_join (directory_for store key) m)" for m
    using tracked_path [OF assms, of m] by auto
  then show "history store key (set_content path c d) = history store key d"
    "snapshot_names store key (set_content path c d) = snapshot_names store key d"
    "origin_recorded store key (set_content path c d) = origin_recorded store key d"
    using history_cong [of "set_content path c d" store key d] by (simp_all add: origin_recorded_def)
qed

lemma changes_push:
  assumes "tracked store path key" and "content_at d path = Some c" and "changes \<noteq> []"
    and "later store key d (fst (hd changes))"
    and "sorted_wrt (\<lambda>a b. snapshot_file_name a < snapshot_file_name b) (map fst changes)"
    and "list_all (\<lambda>(stamp, _). CHR ''/'' \<notin> set stamp) changes"
  shows "history store key (make_changes store path changes d) = rev (c # map snd (butlast changes)) @ history store key d \<and>
    content_at (make_changes store path changes d) path = Some (snd (last changes)) \<and>
    origin_recorded store key (make_changes store path changes d)"
  using assms(2-)
proof (induction changes arbitrary: d c)
  case (Cons change changes)
  obtain stamp bytes where ch: "change = (stamp, bytes)" by fastforce
  obtain t d' where cap: "snapshot_capture store no_io_faults stamp path d = (Inr (Some t), d')"
      "history store key d' = c # history store key d"
      "snapshot_names store key d' = insert (snapshot_file_name stamp) (snapshot_names store key d)"
      "origin_recorded store key d'"
    using capture_pushes [OF assms(1) Cons.prems(1)] Cons.prems(3) ch by (metis fst_conv list.sel(1))
  let ?d = "set_content path (Some bytes) d'"
  have step: "make_changes store path (change # changes) d = make_changes store path changes ?d" using ch cap(1) by simp
  note keep = write_keeps_history [OF assms(1), of "Some bytes" d']
  show ?case
  proof (cases "changes = []")
    case True
    then show ?thesis using step keep cap ch by simp
  next
    case False
    have lt: "snapshot_file_name stamp < snapshot_file_name (fst (hd changes))" "CHR ''/'' \<notin> set (fst (hd changes))"
      using Cons.prems(4,5) False ch by (cases changes; fastforce)+
    then have "later store key ?d (fst (hd changes))"
      using Cons.prems(3) cap(3) keep(2) ch less_trans by (fastforce simp: later_def)
    moreover have "content_at ?d path = Some bytes" by simp
    ultimately have "history store key (make_changes store path changes ?d) =
        rev (bytes # map snd (butlast changes)) @ history store key ?d \<and>
      content_at (make_changes store path changes ?d) path = Some (snd (last changes)) \<and>
      origin_recorded store key (make_changes store path changes ?d)"
      using Cons.IH [of ?d bytes] Cons.prems(4,5) False by simp
    then show ?thesis using step keep cap(2) ch False by simp
  qed
qed simp

text \<open>What going back needs of the store: a state with a past goes to its newest element and forgets it.\<close>

locale undoable =
  fixes ok :: "'s \<Rightarrow> bool" and go_back :: "'s \<Rightarrow> 's" and past :: "'s \<Rightarrow> 'v list" and cur :: "'s \<Rightarrow> 'v option"
  assumes back_step: "ok s \<Longrightarrow> past s = b # bs \<Longrightarrow> cur (go_back s) = Some b \<and> past (go_back s) = bs \<and> ok (go_back s)"
begin

lemma back_times:
  "ok s \<Longrightarrow> n \<le> length (past s) \<Longrightarrow> past ((go_back ^^ n) s) = drop n (past s) \<and> ok ((go_back ^^ n) s) \<and>
    cur ((go_back ^^ n) s) = (if n = 0 then cur s else Some (past s ! (n - 1)))"
proof (induction n)
  case (Suc n)
  let ?s = "(go_back ^^ n) s"
  have IH: "past ?s = drop n (past s)" "ok ?s" using Suc by simp_all
  have "past ?s = past s ! n # drop (Suc n) (past s)" using IH(1) Suc.prems(2) by (simp add: Cons_nth_drop_Suc)
  then show ?case using back_step [OF IH(2)] by simp
qed simp

end

interpretation store_undo: undoable "\<lambda>d. tracked store path key \<and> origin_recorded store key d"
  "\<lambda>d. snd (snapshot_restore store no_io_faults path d)" "history store key" "\<lambda>d. content_at d path" for store path key
proof unfold_locales
  fix d b bs
  assume "tracked store path key \<and> origin_recorded store key d" and h: "history store key d = b # bs"
  then have t: "tracked store path key" "origin_recorded store key d" by simp_all
  obtain d' where "snd (snapshot_restore store no_io_faults path d) = d'" "content_at d' path = Some b"
      "history store key d' = bs" "origin_recorded store key d'"
    using restore_pops [OF t h] by (metis snd_conv)
  then show "content_at (snd (snapshot_restore store no_io_faults path d)) path = Some b \<and>
      history store key (snd (snapshot_restore store no_io_faults path d)) = bs \<and>
      tracked store path key \<and> origin_recorded store key (snd (snapshot_restore store no_io_faults path d))"
    using t(1) by simp
qed

lemma restore_times_iterates: "restore_times store path n d = ((\<lambda>d. snd (snapshot_restore store no_io_faults path d)) ^^ n) d"
  by (induction n arbitrary: d) (simp_all add: funpow_Suc_right del: funpow.simps(2))

lemma restores_pop:
  assumes "tracked store path key" and "origin_recorded store key d" and "n \<le> length (history store key d)"
  shows "history store key (restore_times store path n d) = drop n (history store key d) \<and>
    origin_recorded store key (restore_times store path n d) \<and>
    content_at (restore_times store path n d) path =
      (if n = 0 then content_at d path else Some (history store key d ! (n - 1)))"
  using store_undo.back_times [of store path key d n] assms by (simp add: restore_times_iterates)

text \<open>
  C17: Undo walks back through the history of a file. After any series of changes, each made after a
  snapshot as the mutating tools do, restoring \<open>k\<close> times puts back exactly the bytes the file had before
  the last \<open>k\<close> changes, whatever those bytes are, and the snapshots taken before the series are still there,
  to be restored afterwards. The stamps have to grow and the file must not lie in the directory of its own
  snapshots.
\<close>

theorem undo_walks_back:
  assumes "tracked store path key" and "content_at d path = Some c" and "changes \<noteq> []"
    and "later store key d (fst (hd changes))"
    and "sorted_wrt (\<lambda>a b. snapshot_file_name a < snapshot_file_name b) (map fst changes)"
    and "list_all (\<lambda>(stamp, _). CHR ''/'' \<notin> set stamp) changes" and "k \<le> length changes"
  shows "content_at (restore_times store path k (make_changes store path changes d)) path =
      Some ((c # map snd changes) ! (length changes - k)) \<and>
    history store key (restore_times store path (length changes) (make_changes store path changes d)) = history store key d"
proof -
  let ?d = "make_changes store path changes d" and ?L = "c # map snd (butlast changes)"
  note push = changes_push [OF assms(1-6)]
  have len: "length ?L = length changes" using assms(3) by simp
  have k: "k \<le> length (history store key ?d)" "length changes \<le> length (history store key ?d)" using push len assms(7) by auto
  have all: "c # map snd changes = ?L @ [snd (last changes)]"
    using assms(3) by (cases changes rule: rev_cases) simp_all
  have "history store key ?d ! (k - 1) = (c # map snd changes) ! (length changes - k)" if "k \<noteq> 0"
  proof -
    have "k - 1 < length (rev ?L)" using len assms(7) that by simp
    then have "history store key ?d ! (k - 1) = rev ?L ! (k - 1)" using push by (simp add: nth_append del: rev.simps)
    also have "\<dots> = ?L ! (length changes - k)" using len assms(7) that by (subst rev_nth) (auto simp del: rev.simps)
    also have "\<dots> = (?L @ [snd (last changes)]) ! (length changes - k)"
      using len that assms(3) by (intro nth_append_left [symmetric]) auto
    finally show ?thesis unfolding all .
  qed
  moreover have "(c # map snd changes) ! length changes = snd (last changes)"
    unfolding all using nth_append_length [of ?L "snd (last changes)" "[]"] len by metis
  ultimately show ?thesis
    using restores_pop [OF assms(1) _ k(1)] restores_pop [OF assms(1) _ k(2)] push len by (cases "k = 0") (simp_all del: rev.simps)
qed

definition sample_store :: SnapshotStore where
  "sample_store = \<lparr>snap_base = ''/s'', snap_canonicalize = (\<lambda>_. None)\<rparr>"

definition sample_disk :: Disk where
  "sample_disk = \<lparr>files = [(''/w/a'', ''one'')], directories = {}\<rparr>"

lemma sample_tracked: "tracked sample_store ''/w/a'' ''/w/a''"
proof -
  have "canonical_key (snap_canonicalize sample_store) ''/w/a'' = Inr ''/w/a''"
    by (simp add: canonical_key_def sample_store_def starts_with_def split: Component.splits)
  moreover have "strip_prefix ''/w/a'' (path_join (directory_for sample_store ''/w/a'') []) = None"
    by (simp add: directory_for_def sample_store_def path_join_def strip_prefix_def starts_with_def)
  moreover have "utf8_valid ''/w/a''" by (simp add: utf8_valid_def)
  ultimately show ?thesis by (simp add: tracked_def)
qed

lemma sample_empty: "snapshot_names sample_store ''/w/a'' sample_disk = {}"
  by (auto simp: names_iff sample_disk_def sample_store_def content_at_def directory_for_def path_join_def split: if_splits)

theorem undo_walks_back_witness:
  "content_at (restore_times sample_store ''/w/a'' 2
      (make_changes sample_store ''/w/a'' [(''1'', ''two''), (''2'', ''three'')] sample_disk)) ''/w/a'' = Some ''one''"
proof -
  have "content_at sample_disk ''/w/a'' = Some ''one''" by (simp add: sample_disk_def content_at_def)
  moreover have "later sample_store ''/w/a'' sample_disk ''1''" by (simp add: later_def sample_empty)
  moreover have "snapshot_file_name ''1'' < snapshot_file_name ''2''"
    by (simp add: snapshot_file_name_def SNAPSHOT_EXTENSION_def less_char_def)
  ultimately show ?thesis
    using undo_walks_back [OF sample_tracked, of sample_disk "''one''" "[(''1'', ''two''), (''2'', ''three'')]" 2] by simp
qed

end
