(* ===== verification/Edit_Tool.thy ===== *)
theory Edit_Tool
  imports Edit_Fuzzy Diff_Render Read_Tool Snapshot_Proofs File_Lease_Proofs
begin

text \<open>
  The tools that change files: \<open>patch\<close> (\<open>core/tools/edit.rs\<close>), \<open>write\<close> (\<open>write.rs\<close>) and \<open>undo\<close> (\<open>undo.rs\<close>), with
  their snapshots and leases. The world of a call is the disk and the directory of leases. What a call
  meets is the record \<open>FileCall\<close>: the answers of the clock, the faults, by number, of its file operations and
  of the lease store, what the cancellation signal says at the \<open>i\<close>-th check, and what other processes do to
  the world before its \<open>i\<close>-th step. The mutation queue only orders the calls of one process. Resolving a
  path, NFKC and the diff of two texts are parameters of the tool. A capture and a restoration are one step.
\<close>

section \<open>Calls\<close>

record World =
  disk :: Disk
  lease_dir :: LeaseDir

datatype Failure = Failed string | Panicked

record FileCall =
  fc_lease_env :: LeaseEnv
  fc_gate :: "bool option"
  fc_pid :: u32
  fc_uuid :: string
  fc_reserve_time :: u64
  fc_commit_time :: u64
  fc_lease_io :: "nat \<Rightarrow> Io"
  fc_faults :: Faults
  fc_snapshot_faults :: Faults
  fc_stamp :: string
  fc_aborted :: "nat \<Rightarrow> bool"
  fc_others :: "nat \<Rightarrow> World \<Rightarrow> World"
  fc_between_lookups :: "LeaseDir \<Rightarrow> LeaseDir"

record FileTool =
  ft_resolve_to_cwd :: "string \<Rightarrow> string"
  ft_snapshots :: "SnapshotStore option"
  ft_nfkc :: "string \<Rightarrow> string"
  ft_from_lines :: "string \<Rightarrow> string \<Rightarrow> Change list"
  ft_unified_diff :: "string \<Rightarrow> string \<Rightarrow> string \<Rightarrow> nat \<Rightarrow> string"

definition on_disk :: "(Disk \<Rightarrow> (string + 'a) \<times> Disk) \<Rightarrow> World \<Rightarrow> (Failure + 'a) \<times> World" where
  "on_disk f w = (case f (disk w) of (r, d) \<Rightarrow> (map_err Failed r, w\<lparr>disk := d\<rparr>))"

definition on_leases :: "(LeaseDir \<Rightarrow> 'a outcome) \<Rightarrow> World \<Rightarrow> (Failure + 'a) \<times> World" where
  "on_leases f w = (case f (lease_dir w) of (r, ld) \<Rightarrow> (map_err (\<lambda>e. Failed (lease_error_text e)) r, w\<lparr>lease_dir := ld\<rparr>))"

definition throw_if_aborted :: "FileCall \<Rightarrow> nat \<Rightarrow> World \<Rightarrow> (Failure + unit) \<times> World" where
  "throw_if_aborted call i w = (if fc_aborted call i then Inl (Failed operation_aborted) else Inr (), w)"

text \<open>What \<open>read_hash\<close> gets of the file.\<close>

definition hashed_content :: "FileCall \<Rightarrow> nat \<Rightarrow> string \<Rightarrow> World \<Rightarrow> u8 list option" where
  "hashed_content call i path w =
    (case read_op (fc_faults call) i path (disk w) of Inr bytes \<Rightarrow> Some (as_bytes bytes) | Inl _ \<Rightarrow> None)"

definition reserve_file :: "FileCall \<Rightarrow> string \<Rightarrow> string \<Rightarrow> u64 \<Rightarrow> World \<Rightarrow> (Failure + FileLease option) \<times> World" where
  "reserve_file call path tool_name duration w =
    on_leases (reserve (fc_lease_env call) (fc_lease_io call 0) (fc_gate call) (fc_reserve_time call)
      (hashed_content call 0 path w) (fc_uuid call) (fc_pid call) path tool_name duration) w"

definition commit_file :: "FileCall \<Rightarrow> string \<Rightarrow> FileLease \<Rightarrow> World \<Rightarrow> (Failure + FileLease) \<times> World" where
  "commit_file call path l w =
    on_leases (prepare_commit (fc_lease_env call) (fc_lease_io call 1) (fc_lease_io call 2) (fc_commit_time call)
      (hashed_content call 1 path w) (fc_between_lookups call) l) w"

definition commit_if_leased :: "FileCall \<Rightarrow> string \<Rightarrow> FileLease option \<Rightarrow> World \<Rightarrow> (Failure + FileLease option) \<times> World" where
  "commit_if_leased call path lease w =
    (case lease of
       Some l \<Rightarrow> then_step (commit_file call path l w) (\<lambda>l' w1. (Inr (Some l'), w1))
     | None \<Rightarrow> (Inr None, w))"

definition release_if_leased :: "FileCall \<Rightarrow> FileLease option \<Rightarrow> World \<Rightarrow> (Failure + unit) \<times> World" where
  "release_if_leased call committed w =
    (case committed of
       Some l \<Rightarrow> on_leases (release_lease (fc_lease_env call) (fc_lease_io call 3) l) w
     | None \<Rightarrow> (Inr (), w))"

text \<open>The end of a call: a panic unwinds past \<open>release_on_error\<close>.\<close>

definition finish_call :: "FileCall \<Rightarrow> FileLease option \<Rightarrow> (Failure + 'a) \<times> World \<Rightarrow> (Failure + 'a) \<times> World" where
  "finish_call call lease outcome =
    (case outcome of (r, w) \<Rightarrow>
       if r = Inl Panicked then (r, w)
       else (case release_on_error (fc_lease_env call) (fc_lease_io call 4) lease r (lease_dir w) of
          (r', ld) \<Rightarrow> (r', w\<lparr>lease_dir := ld\<rparr>)))"

section \<open>The patch tool\<close>

definition EDIT_LEASE_DURATION_MS :: u64 where "EDIT_LEASE_DURATION_MS = 30000"

definition validate_edit_input :: "Json \<Rightarrow> string + string \<times> Edit list" where
  "validate_edit_input input =
    (if value_get input ''edits'' \<noteq> None then
       Inl ''Patch accepts one replacement. Supply path, old_string and new_string directly, not edits.''
     else (case get_str input ''path'' of
        None \<Rightarrow> Inl ''Patch requires path to be a string.''
      | Some path \<Rightarrow> (case get_str input ''old_string'' of
           None \<Rightarrow> Inl ''Patch requires old_string to be a string.''
         | Some old \<Rightarrow> (case get_str input ''new_string'' of
              None \<Rightarrow> Inl ''Patch requires new_string to be a string.''
            | Some new \<Rightarrow>
                if path = [] \<or> old = [] then Inl ''Patch requires non-empty path and old_string.''
                else Inr (path, [\<lparr>old_text = old, edit_new_text = new\<rparr>])))))"

definition access_op :: "Faults \<Rightarrow> nat \<Rightarrow> string \<Rightarrow> Disk \<Rightarrow> string + unit" where
  "access_op flt i path d =
    (case flt i of Some (e, _) \<Rightarrow> Inl e
     | None \<Rightarrow> if content_at d path = None then Inl ''Error code: ENOENT'' else Inr ())"

definition not_utf8_error :: "string \<Rightarrow> string" where
  "not_utf8_error path = ''Could not edit file: '' @ path @
     ''. The file is not valid UTF-8 (binary or unsupported encoding); editing it would corrupt bytes outside the edited range.''"

text \<open>From the text of the file to the text to be written.\<close>

definition patch_content ::
  "(string \<Rightarrow> string) \<Rightarrow> string \<Rightarrow> Edit list \<Rightarrow> string \<Rightarrow> Failure + string \<times> AppliedEditsResult" where
  "patch_content nfkc path edits raw_content =
    (case strip_bom raw_content of (bom0, content) \<Rightarrow>
       (case apply_edits_to_normalized_content nfkc (normalize_to_lf content) edits path of
          None \<Rightarrow> Inl Panicked
        | Some (Inl e) \<Rightarrow> Inl (Failed e)
        | Some (Inr applied) \<Rightarrow>
            Inr (bom0 @ restore_line_endings (new_content applied) (detect_line_ending content), applied)))"

definition edit_details :: "FileTool \<Rightarrow> string \<Rightarrow> AppliedEditsResult \<Rightarrow> Json" where
  "edit_details tool path applied =
    (let d = generate_diff_string (ft_from_lines tool) (base_content applied) (new_content applied) 4;
         patch = generate_unified_patch (ft_unified_diff tool) path (base_content applied) (new_content applied) 4
     in JObject ([(''diff'', JString (diff d)), (''patch'', JString patch)] @
          (case first_changed_line d of Some n \<Rightarrow> [(''firstChangedLine'', JNumber (PosInt n))] | None \<Rightarrow> [])))"

text \<open>The part of the call between the snapshot and the release, which \<open>write\<close> shares.\<close>

definition guarded_write ::
  "FileTool \<Rightarrow> FileCall \<Rightarrow> string \<Rightarrow> FileLease option \<Rightarrow> string \<Rightarrow> nat \<Rightarrow> World \<Rightarrow> (Failure + unit) \<times> World" where
  "guarded_write tool call path lease content i w =
    then_step (on_disk (capture_before_mutation (ft_snapshots tool) (fc_snapshot_faults call) (fc_stamp call) path)
        (fc_others call 2 w)) (\<lambda>_ w1.
    then_step (throw_if_aborted call i w1) (\<lambda>_ w2.
    then_step (commit_if_leased call path lease (fc_others call 3 w2)) (\<lambda>committed w3.
    then_step (on_disk (write_op (fc_faults call) 2 path content) (fc_others call 4 w3)) (\<lambda>_ w4.
    then_step (release_if_leased call committed (fc_others call 5 w4)) (\<lambda>_ w5.
      throw_if_aborted call (Suc i) w5)))))"

definition edit_body ::
  "FileTool \<Rightarrow> FileCall \<Rightarrow> string \<Rightarrow> string \<Rightarrow> Edit list \<Rightarrow> FileLease option \<Rightarrow> World \<Rightarrow> (Failure + AgentToolResult) \<times> World" where
  "edit_body tool call path absolute_path edits lease w =
    then_step (throw_if_aborted call 1 w) (\<lambda>_ w1.
      (case access_op (fc_faults call) 3 absolute_path (disk (fc_others call 0 w1)) of
         Inl e \<Rightarrow>
           then_step (throw_if_aborted call 2 (fc_others call 0 w1)) (\<lambda>_ w2.
             (Inl (Failed (''Could not edit file: '' @ path @ ''. '' @ e @ ''.'')), w2))
       | Inr _ \<Rightarrow>
           then_step (throw_if_aborted call 2 (fc_others call 0 w1)) (\<lambda>_ w2.
             let w3 = fc_others call 1 w2
             in (case read_op (fc_faults call) 4 absolute_path (disk w3) of
                Inl e \<Rightarrow> (Inl (Failed e), w3)
              | Inr bytes \<Rightarrow>
                  if \<not> utf8_valid bytes then (Inl (Failed (not_utf8_error path)), w3)
                  else then_step (throw_if_aborted call 3 w3) (\<lambda>_ w4.
                    (case patch_content (ft_nfkc tool) path edits bytes of
                       Inl e \<Rightarrow> (Inl e, w4)
                     | Inr (final_content, applied) \<Rightarrow>
                         then_step (throw_if_aborted call 4 w4) (\<lambda>_ w5.
                         then_step (guarded_write tool call absolute_path lease final_content 5 w5) (\<lambda>_ w6.
                           (Inr (tool_result [Text (TextContent_new
                              (''Successfully replaced '' @ show_nat (length edits) @ '' block(s) in '' @ path @ ''.''))]
                              (Some (edit_details tool path applied))), w6)))))))))"

definition edit_execute :: "FileTool \<Rightarrow> FileCall \<Rightarrow> Json \<Rightarrow> World \<Rightarrow> (Failure + AgentToolResult) \<times> World" where
  "edit_execute tool call params w =
    (case validate_edit_input params of
       Inl e \<Rightarrow> (Inl (Failed e), w)
     | Inr (path, edits) \<Rightarrow>
         let absolute_path = ft_resolve_to_cwd tool path
         in then_step (throw_if_aborted call 0 w) (\<lambda>_ w1.
            then_step (reserve_file call absolute_path ''patch'' EDIT_LEASE_DURATION_MS w1) (\<lambda>lease w2.
              finish_call call lease (edit_body tool call path absolute_path edits lease w2))))"

section \<open>The write tool\<close>

definition WRITE_LEASE_DURATION_MS :: u64 where "WRITE_LEASE_DURATION_MS = 15000"

text \<open>\<open>Path::parent\<close> of an absolute path: up to its last separator.\<close>

definition parent_directory :: "string \<Rightarrow> string" where
  "parent_directory path =
    (if list_all (\<lambda>c. c = CHR ''/'') path then ''.''
     else case rev (dropWhile (\<lambda>c. c = CHR ''/'') (dropWhile (\<lambda>c. c \<noteq> CHR ''/'') (dropWhile (\<lambda>c. c = CHR ''/'') (rev path)))) of
       [] \<Rightarrow> ''/'' | dir \<Rightarrow> dir)"

definition write_body ::
  "FileTool \<Rightarrow> FileCall \<Rightarrow> string \<Rightarrow> string \<Rightarrow> string \<Rightarrow> FileLease option \<Rightarrow> World \<Rightarrow> (Failure + AgentToolResult) \<times> World" where
  "write_body tool call path absolute_path content lease w =
    then_step (throw_if_aborted call 1 w) (\<lambda>_ w1.
    then_step (on_disk (mkdir_op (fc_faults call) 3 (parent_directory absolute_path)) (fc_others call 0 w1)) (\<lambda>_ w2.
    then_step (throw_if_aborted call 2 w2) (\<lambda>_ w3.
    then_step (guarded_write tool call absolute_path lease content 3 w3) (\<lambda>_ w4.
      (Inr (tool_result [Text (TextContent_new (''Successfully wrote '' @ show_nat (utf16_units (chars content)) @
          '' bytes to '' @ path))] None), w4)))))"

definition write_execute :: "FileTool \<Rightarrow> FileCall \<Rightarrow> Json \<Rightarrow> World \<Rightarrow> (Failure + AgentToolResult) \<times> World" where
  "write_execute tool call params w =
    (let path = unwrap_or (get_str params ''path'') [];
         content = unwrap_or (get_str params ''content'') [];
         absolute_path = ft_resolve_to_cwd tool path
     in then_step (throw_if_aborted call 0 w) (\<lambda>_ w1.
        then_step (reserve_file call absolute_path ''write'' WRITE_LEASE_DURATION_MS w1) (\<lambda>lease w2.
          finish_call call lease (write_body tool call path absolute_path content lease w2))))"

section \<open>The undo tool\<close>

definition UNDO_LEASE_DURATION_MS :: u64 where "UNDO_LEASE_DURATION_MS = 15000"

datatype UndoOutcome = NothingToUndo | Recreated nat | RestoredLines nat

definition undo_describe :: "string \<Rightarrow> UndoOutcome \<Rightarrow> bool \<Rightarrow> string" where
  "undo_describe path outcome remain =
    (let step = (if remain then '' There is an earlier change that can be undone as well.'' else [])
     in (case outcome of
        NothingToUndo \<Rightarrow> ''Nothing to undo for '' @ path @
          ''. No change to this file was recorded, so there is no earlier content to restore.''
      | Recreated lines \<Rightarrow> ''Restored '' @ path @ '' ('' @ show_nat lines @
          '' lines). The file had been removed; its recorded content is back.'' @ step
      | RestoredLines lines \<Rightarrow> ''Reverted the last change to '' @ path @ '' ('' @ show_nat lines @ '' lines).'' @ step))"

fun undo_status :: "UndoOutcome \<Rightarrow> string" where
  "undo_status NothingToUndo = ''no_changes''"
| "undo_status (Recreated _) = ''created''"
| "undo_status (RestoredLines _) = ''restored''"

text \<open>The result of the commit and of the release is dropped.\<close>

definition undo_release :: "FileCall \<Rightarrow> string \<Rightarrow> FileLease option \<Rightarrow> World \<Rightarrow> World" where
  "undo_release call path lease w =
    (case lease of
       None \<Rightarrow> w
     | Some l \<Rightarrow>
         (case commit_file call path l w of
            (Inr committed, w1) \<Rightarrow> snd (on_leases (release_lease (fc_lease_env call) (fc_lease_io call 3) committed) w1)
          | (Inl _, w1) \<Rightarrow> w1))"

definition undo_execute :: "FileTool \<Rightarrow> FileCall \<Rightarrow> Json \<Rightarrow> World \<Rightarrow> (Failure + AgentToolResult) \<times> World" where
  "undo_execute tool call params w =
    (case map_option trim (get_str params ''path'') of
       None \<Rightarrow> (Inl (Failed ''undo requires a path.''), w)
     | Some path \<Rightarrow>
         if path = [] then (Inl (Failed ''undo requires a path.''), w)
         else
           let absolute_path = ft_resolve_to_cwd tool path
           in (case ft_snapshots tool of
              None \<Rightarrow> (Inl (Failed ''Undo is not available in this session: no snapshots are being kept.''), w)
            | Some store \<Rightarrow>
                let existed_before = exists_op (fc_faults call) 3 absolute_path (disk w)
                in then_step (reserve_file call absolute_path ''undo'' UNDO_LEASE_DURATION_MS (fc_others call 0 w)) (\<lambda>lease w1.
                   (case on_disk (snapshot_restore store (fc_snapshot_faults call) absolute_path) (fc_others call 1 w1) of
                      (restored, w2) \<Rightarrow>
                        let w3 = undo_release call absolute_path lease (fc_others call 2 w2)
                        in (case restored of
                           Inl e \<Rightarrow> (Inl e, w3)
                         | Inr found \<Rightarrow>
                             let (outcome, remain) = (case found of
                                   None \<Rightarrow> (NothingToUndo, False)
                                 | Some r \<Rightarrow>
                                     let lines = length (split_lines_for_counting (from_utf8_lossy (restored_bytes r)))
                                     in (if existed_before then RestoredLines lines else Recreated lines, more_remain r))
                             in (Inr (tool_result [Text (TextContent_new (undo_describe path outcome remain))]
                                  (Some (JObject [(''path'', JString absolute_path), (''status'', JString (undo_status outcome)),
                                     (''moreRemain'', JBool remain)]))), w3))))))"

end
