(* ===== verification/Edit_Normalize.thy ===== *)
theory Edit_Normalize
  imports Edit_Fuzzy
begin

text \<open>
  The text in which fuzzy matches are sought: it is a valid text again, and normalizing it once more
  changes nothing.
\<close>

section \<open>Characters\<close>

definition is_char :: "string \<Rightarrow> bool" where
  "is_char ch \<longleftrightarrow> ch \<noteq> [] \<and> \<not> cont_char (hd ch) \<and> list_all cont_char (tl ch)"

lemma cut_at_first:
  "list_all P r \<Longrightarrow> s = [] \<or> \<not> P (hd s) \<Longrightarrow> takeWhile P (r @ s) = r \<and> dropWhile P (r @ s) = s"
proof (induction r)
  case Nil
  then show ?case by (cases s) auto
qed simp

lemma list_all_takeWhile: "list_all P (takeWhile P xs)"
  by (induction xs) auto

lemma chars_concat: "list_all is_char cs \<Longrightarrow> chars (concat cs) = cs"
proof (induction cs)
  case (Cons ch cs)
  obtain c r where ch: "ch = c # r" "list_all cont_char r" using Cons.prems by (cases ch) (auto simp: is_char_def)
  have "concat cs = [] \<or> \<not> cont_char (hd (concat cs))" using Cons.prems by (cases cs) (auto simp: is_char_def)
  then show ?case using Cons ch cut_at_first [OF ch(2)] by simp
qed simp

lemma led_after_run: "char_led (dropWhile cont_char cs)"
  by (induction cs) auto

lemma chars_are_chars: "char_led s \<Longrightarrow> list_all is_char (chars s)"
proof (induction s rule: chars.induct)
  case (2 c cs)
  then show ?case using led_after_run [of cs] by (simp add: is_char_def list_all_takeWhile)
qed simp

lemma chars_valid: "utf8_valid s \<Longrightarrow> list_all utf8_valid (chars s)"
proof (induction s rule: chars.induct)
  case (2 c cs)
  let ?a = "c # takeWhile cont_char cs" and ?b = "dropWhile cont_char cs"
  have "utf8_valid (?a @ ?b)" using 2(2) by simp
  then have "utf8_valid ?a \<and> utf8_valid ?b"
    using led_after_run [of cs] by (intro utf8_valid_split) (auto simp: char_led_def)
  then show ?case using 2(1) by simp
qed simp

section \<open>Folding and trimming\<close>

lemma fold_char_ascii [simp]: "fold_char [c] = [c]"
  by (simp add: fold_char_def)

definition folded_forms :: "string \<Rightarrow> string set" where
  "folded_forms ch = {ch, '' '', ''-'', [char_of (39 :: nat)], [char_of (34 :: nat)]}"

lemma if_member: "x \<in> A \<Longrightarrow> y \<in> A \<Longrightarrow> (if b then x else y) \<in> A"
  by simp

lemma folded_member:
  "ch \<in> folded_forms ch" "'' '' \<in> folded_forms ch" "''-'' \<in> folded_forms ch" "[char_of (39 :: nat)] \<in> folded_forms ch"
  "[char_of (34 :: nat)] \<in> folded_forms ch"
  by (simp_all add: folded_forms_def)

lemma fold_char_forms: "fold_char ch \<in> folded_forms ch"
proof -
  consider "ch = []" | a where "ch = [a]" | a b where "ch = [a, b]" | a b c where "ch = [a, b, c]"
    | a b c d r where "ch = a # b # c # d # r"
    by (metis neq_Nil_conv)
  then show ?thesis
    by cases (simp_all add: fold_char_def folded_member split del: if_split, (intro if_member folded_member)+)
qed

lemma fold_char_valid: "utf8_valid ch \<Longrightarrow> utf8_valid (fold_char ch)"
  using fold_char_forms [of ch] by (auto simp: folded_forms_def utf8_valid_def)

lemma fold_char_idem: "fold_char (fold_char ch) = fold_char ch"
  using fold_char_forms [of ch] by (auto simp: folded_forms_def)

lemma fold_char_is_char: "is_char ch \<Longrightarrow> is_char (fold_char ch)"
  using fold_char_forms [of ch] by (auto simp: folded_forms_def is_char_def utf8_cont_def)

lemma quote_marks: "char_of (39 :: nat) = CHR 0x27" "char_of (34 :: nat) = CHR 0x22"
  by code_simp+

lemma fold_char_newline: "newline \<notin> set ch \<Longrightarrow> newline \<notin> set (fold_char ch)"
  using fold_char_forms [of ch] by (auto simp: folded_forms_def newline_chr quote_marks)

lemma fold_to_space: "fold_char ch = '' '' \<Longrightarrow> is_whitespace ch"
proof -
  assume f: "fold_char ch = '' ''"
  consider "ch = []" | a where "ch = [a]" | a b where "ch = [a, b]" | a b c where "ch = [a, b, c]"
    | a b c d r where "ch = a # b # c # d # r"
    by (metis neq_Nil_conv)
  then show ?thesis
    using f by cases (auto simp: fold_char_def is_whitespace_def quote_marks split: if_splits)
qed

lemma fold_char_whitespace: "is_whitespace (fold_char ch) \<Longrightarrow> is_whitespace ch"
  using fold_char_forms [of ch] fold_to_space [of ch]
  by (auto simp: folded_forms_def is_whitespace_def [of "''-''"] is_whitespace_def [of "[_]"] quote_marks)

section \<open>Folding a text\<close>

definition fold_text :: "string \<Rightarrow> string" where
  "fold_text s = concat (map fold_char (chars s))"

lemma valid_chars: "utf8_valid s \<Longrightarrow> list_all is_char (chars s)"
  using chars_are_chars char_led_valid by blast

lemma chars_append_valid: "utf8_valid a \<Longrightarrow> utf8_valid b \<Longrightarrow> chars (a @ b) = chars a @ chars b"
  using chars_concat [of "chars a @ chars b"] valid_chars by simp

lemma chars_fold: "utf8_valid s \<Longrightarrow> chars (fold_text s) = map fold_char (chars s)"
  unfolding fold_text_def using valid_chars [of s] fold_char_is_char by (intro chars_concat) (auto simp: list_all_iff)

lemma fold_text_valid: "utf8_valid s \<Longrightarrow> utf8_valid (fold_text s)"
  unfolding fold_text_def using chars_valid [of s] fold_char_valid by (intro valid_concat) (auto simp: list_all_iff)

lemma fold_text_idem: "utf8_valid s \<Longrightarrow> fold_text (fold_text s) = fold_text s"
  unfolding fold_text_def [of "fold_text s"] by (simp add: chars_fold comp_def fold_char_idem) (simp add: fold_text_def)

lemma fold_text_append: "utf8_valid a \<Longrightarrow> utf8_valid b \<Longrightarrow> fold_text (a @ b) = fold_text a @ fold_text b"
  by (simp add: fold_text_def chars_append_valid)

lemma fold_text_newline: "fold_text [newline] = [newline]"
  by (simp add: fold_text_def)

lemma fold_text_no_newline: "newline \<notin> set s \<Longrightarrow> newline \<notin> set (fold_text s)"
proof -
  assume "newline \<notin> set s"
  then have "\<forall>ch \<in> set (chars s). newline \<notin> set ch" using concat_chars [of s] by (metis set_concat UN_I)
  then show ?thesis using fold_char_newline by (auto simp: fold_text_def)
qed

lemma join_valid: "list_all utf8_valid ls \<Longrightarrow> utf8_valid (join [newline] ls)"
  by (induction ls) (auto simp: join_Cons_if utf8_valid_append utf8_valid_append [of "[newline]", simplified])

lemma fold_text_join: "list_all utf8_valid ls \<Longrightarrow> fold_text (join [newline] ls) = join [newline] (map fold_text ls)"
proof (induction ls)
  case (Cons l ls)
  have v: "utf8_valid ([newline] @ join [newline] ls)" using join_valid Cons.prems utf8_valid_append [of "[newline]"] by simp
  then show ?case
    using Cons fold_text_append [of l "[newline] @ join [newline] ls"] fold_text_append [of "[newline]" "join [newline] ls"] join_valid [of ls]
    by (auto simp: join_Cons_if fold_text_newline)
qed (simp add: fold_text_def)

lemma split_on_valid: "utf8_valid s \<Longrightarrow> list_all utf8_valid (split_on newline s)"
proof (induction s rule: length_induct)
  case (1 s)
  show ?case
  proof (cases "newline \<in> set s")
    case True
    then obtain a b where s: "s = a @ newline # b" "newline \<notin> set a" by (meson split_list_first)
    then have v: "utf8_valid a" "utf8_valid b" using utf8_valid_ascii [of a newline b] 1(2) by simp_all
    have "list_all utf8_valid (split_on newline b)" using 1(1) v(2) s(1) by simp
    then show ?thesis using s v(1) by (simp add: split_on_cut)
  qed (use 1(2) in \<open>simp add: split_on_plain\<close>)
qed

section \<open>Trimming\<close>

lemma trim_end_chars: "utf8_valid s \<Longrightarrow> chars (trim_end s) = rev (dropWhile is_whitespace (rev (chars s)))"
  unfolding trim_end_def using valid_chars [of s] by (intro chars_concat) (auto simp: list_all_iff dest: set_dropWhileD)

lemma trim_end_valid: "utf8_valid s \<Longrightarrow> utf8_valid (trim_end s)"
  unfolding trim_end_def using chars_valid [of s] by (intro valid_concat) (auto simp: list_all_iff dest: set_dropWhileD)

lemma trim_end_no_newline: "newline \<notin> set s \<Longrightarrow> newline \<notin> set (trim_end s)"
proof -
  assume "newline \<notin> set s"
  then have "\<forall>ch \<in> set (chars s). newline \<notin> set ch" using concat_chars [of s] by (metis set_concat UN_I)
  then show ?thesis by (auto simp: trim_end_def dest: set_dropWhileD)
qed

lemma trim_end_folded: "utf8_valid s \<Longrightarrow> trim_end (fold_text (trim_end s)) = fold_text (trim_end s)"
proof -
  assume s: "utf8_valid s"
  let ?cs = "dropWhile is_whitespace (rev (chars s))"
  have c: "chars (fold_text (trim_end s)) = rev (map fold_char ?cs)"
    using s by (simp add: chars_fold trim_end_valid trim_end_chars rev_map)
  have "dropWhile is_whitespace (map fold_char ?cs) = map fold_char ?cs"
  proof (cases ?cs)
    case (Cons x xs)
    then have "\<not> is_whitespace x" using hd_dropWhile [of is_whitespace "rev (chars s)"] by simp
    then show ?thesis using Cons fold_char_whitespace by auto
  qed (simp only: list.map dropWhile.simps)
  then have "trim_end (fold_text (trim_end s)) = concat (chars (fold_text (trim_end s)))"
    unfolding trim_end_def [of "fold_text (trim_end s)"] c by simp
  then show ?thesis by simp
qed

section \<open>The normalized text\<close>

lemma normalize_lines:
  assumes "utf8_valid (nfkc s)"
  shows "normalize_for_fuzzy_match nfkc s = join [newline] (map (fold_text \<circ> trim_end) (split_on newline (nfkc s)))"
proof -
  have "list_all utf8_valid (map trim_end (split_on newline (nfkc s)))"
    using split_on_valid [OF assms] trim_end_valid by (auto simp: list_all_iff)
  then show ?thesis
    unfolding normalize_for_fuzzy_match_def fold_text_def [symmetric] by (simp add: fold_text_join)
qed

lemma normalize_valid: "utf8_valid (nfkc s) \<Longrightarrow> utf8_valid (normalize_for_fuzzy_match nfkc s)"
  using split_on_valid [of "nfkc s"] trim_end_valid fold_text_valid
  by (auto simp: normalize_lines list_all_iff intro!: join_valid)

lemma normalize_stable:
  assumes "utf8_valid (nfkc s)" and "nfkc (normalize_for_fuzzy_match nfkc s) = normalize_for_fuzzy_match nfkc s"
  shows "normalize_for_fuzzy_match nfkc (normalize_for_fuzzy_match nfkc s) = normalize_for_fuzzy_match nfkc s"
proof -
  let ?ls = "map (fold_text \<circ> trim_end) (split_on newline (nfkc s))"
  note v = split_on_valid [OF assms(1), unfolded list_all_iff]
  have lines: "split_on newline (join [newline] ?ls) = ?ls"
    using fold_text_no_newline trim_end_no_newline split_on_pieces
    by (intro split_on_join) (auto simp: list_all_iff)
  have "fold_text (trim_end (fold_text (trim_end l))) = fold_text (trim_end l)" if "l \<in> set (split_on newline (nfkc s))" for l
    using that v by (simp add: trim_end_folded fold_text_idem trim_end_valid)
  then have same: "map (fold_text \<circ> trim_end) ?ls = ?ls" by simp
  have "utf8_valid (nfkc (normalize_for_fuzzy_match nfkc s))" using normalize_valid [of nfkc s] assms by simp
  then have "normalize_for_fuzzy_match nfkc (normalize_for_fuzzy_match nfkc s) =
      join [newline] (map (fold_text \<circ> trim_end) (split_on newline (normalize_for_fuzzy_match nfkc s)))"
    using normalize_lines [of nfkc "normalize_for_fuzzy_match nfkc s"] assms(2) by metis
  also have "\<dots> = join [newline] ?ls" unfolding normalize_lines [of nfkc s, OF assms(1)] lines same ..
  finally show ?thesis using normalize_lines [of nfkc s, OF assms(1)] by metis
qed

end
