(* ===== verification/Edit_Tool_Proofs.thy ===== *)
theory Edit_Tool_Proofs
  imports Edit_Tool Edit_Normalize
begin

text \<open>
  What a patch does to a file, that it is undone exactly, and what happens to its lease.
\<close>

section \<open>The patched text\<close>

lemma strip_bom_valid: "utf8_valid raw \<Longrightarrow> strip_bom raw = (b, content) \<Longrightarrow> raw = b @ content \<and> utf8_valid content"
proof -
  assume v: "utf8_valid raw" and s: "strip_bom raw = (b, content)"
  have raw: "raw = b @ content \<and> (b = bom \<or> b = [])"
    using s by (auto simp: strip_bom_def strip_prefix_Some split: option.splits)
  moreover have "utf8_valid bom" by (simp add: bom_def utf8_valid_def utf8_cont_def)
  ultimately show ?thesis using v utf8_valid_append [of bom content] by auto
qed

text \<open>One edit that is found as it is.\<close>

lemma apply_one_exact:
  assumes "utf8_valid s" and "valid_edit e" and "old = normalize_to_lf (old_text e)" and "new = normalize_to_lf (edit_new_text e)"
    and "s = a @ old @ c" and "find_str s old = Some (length a)"
    and "old \<noteq> []" and "count_occurrences nfkc s old \<le> 1" and "old \<noteq> new"
  shows "apply_edits_to_normalized_content nfkc s [e] path = Some (Inr \<lparr>base_content = s, new_content = a @ new @ c\<rparr>)"
proof -
  let ?r = "\<lparr>match_index = length a, match_length = length old, new_text = new\<rparr>"
  have f: "fuzzy_find_text nfkc s old = \<lparr>fm_found = True, fm_index = length a, fm_match_length = length old,
      used_fuzzy_match = False, content_for_replacement = s\<rparr>"
    using assms(6) by (simp add: fuzzy_find_text_def)
  have v: "utf8_valid old" "utf8_valid new" using assms(2-4) utf8_valid_normalize by (simp_all add: valid_edit_def)
  have "fits s ?r" using match_boundaries [OF assms(1) v(1) assms(6)] v(2) by (simp add: fits_def)
  then have "apply_replacements s [?r] 0 = Some (weave 0 s [?r])"
    using replace_all_weave [OF assms(1), of 0 "[?r]"] char_led_valid [OF assms(1)]
    by (simp add: apply_replacements_def boundary_drop)
  moreover have "weave 0 s [?r] = a @ new @ c" using assms(5) by simp
  moreover have "s \<noteq> a @ new @ c" using assms(5,9) by simp
  ultimately show ?thesis
    using f assms(3,4,7,8) by (simp add: apply_edits_to_normalized_content_def Let_def map_ok_def)
qed


definition crlf_file :: string where
  "crlf_file = bom @ [CHR ''a'', CHR 0x0D, CHR 0x0A, CHR ''b'', CHR ''b'']"

definition two_line_edit :: Edit where
  "two_line_edit = \<lparr>old_text = [CHR ''a'', CHR 0x0A, CHR ''b''], edit_new_text = [CHR ''x'', CHR 0x0A]\<rparr>"


section \<open>Several edits\<close>

definition replacement_for :: "string \<Rightarrow> Edit \<Rightarrow> TextReplacement" where
  "replacement_for content e =
    \<lparr>match_index = the (find_str content (normalize_to_lf (old_text e))), match_length = length (normalize_to_lf (old_text e)),
     new_text = normalize_to_lf (edit_new_text e)\<rparr>"

lemma apply_edits_success:
  assumes "apply_edits_to_normalized_content nfkc content edits path = Some (Inr applied)"
    and "\<not> list_ex (\<lambda>e. used_fuzzy_match (fuzzy_find_text nfkc content (old_text e))) (map normalize_edit edits)"
  obtains ms where "match_edits nfkc content path (length edits) 0 (map normalize_edit edits) = Inr ms"
    "check_overlap path (sort_key (\<lambda>m. match_index (edit_replacement m)) ms) = None"
    "apply_replacements content (map edit_replacement (sort_key (\<lambda>m. match_index (edit_replacement m)) ms)) 0 = Some (new_content applied)"
proof -
  have norm: "map (\<lambda>e. \<lparr>old_text = normalize_to_lf (old_text e), edit_new_text = normalize_to_lf (edit_new_text e)\<rparr>) edits =
      map normalize_edit edits" by (simp add: normalize_edit_def)
  show ?thesis
    using assms that unfolding apply_edits_to_normalized_content_def norm Let_def
    by (auto split: option.splits sum.splits if_splits)
qed

text \<open>
  C21: Several edits are applied at once to the content as it was. When all old texts are found as they
  are and the call succeeds, the result is the content rewritten from front to back, with each old text, at
  its place in the original content, replaced by its new text; the places do not overlap and there is
  exactly one for every edit. The order of the edits, and that the code replaces from back to front, do not
  matter.
\<close>

theorem edits_apply_at_once:
  assumes "utf8_valid content" and "list_all valid_edit edits"
    and "\<not> list_ex (\<lambda>e. used_fuzzy_match (fuzzy_find_text nfkc content (old_text e))) (map normalize_edit edits)"
    and "apply_edits_to_normalized_content nfkc content edits path = Some (Inr applied)"
  shows "\<exists>rs. new_content applied = weave 0 content rs \<and> spaced 0 rs \<and> mset rs = mset (map (replacement_for content) edits)"
proof -
  obtain ms where m: "match_edits nfkc content path (length edits) 0 (map normalize_edit edits) = Inr ms"
      "check_overlap path (sort_key (\<lambda>m. match_index (edit_replacement m)) ms) = None"
      "apply_replacements content (map edit_replacement (sort_key (\<lambda>m. match_index (edit_replacement m)) ms)) 0 = Some (new_content applied)"
    using apply_edits_success [OF assms(4,3)] .
  note ex = exact_edits [OF assms(1-3) m(1,2) refl]
  have "map edit_replacement ms = map (replacement_for content) edits"
    using ex(4) by (intro nth_equalityI) (auto simp: list_all2_conv_all_nth replacement_for_def)
  then have "mset (map edit_replacement ms) = mset (map (replacement_for content) edits)" by simp
  then show ?thesis using ex(1-3) m(3) by (intro exI [of _ "map edit_replacement (sort_key (\<lambda>m. match_index (edit_replacement m)) ms)"]) simp
qed

definition swap_edits :: "Edit list" where
  "swap_edits = [\<lparr>old_text = ''b'', edit_new_text = ''a''\<rparr>, \<lparr>old_text = ''a'', edit_new_text = ''b''\<rparr>]"

theorem edits_apply_at_once_witness:
  "\<exists>applied rs. apply_edits_to_normalized_content (\<lambda>s. s) ''a-b'' swap_edits ''f'' = Some (Inr applied) \<and>
    new_content applied = ''b-a'' \<and> new_content applied = weave 0 ''a-b'' rs \<and> spaced 0 rs"
proof -
  have run: "apply_edits_to_normalized_content (\<lambda>s. s) ''a-b'' swap_edits ''f'' =
      Some (Inr \<lparr>base_content = ''a-b'', new_content = ''b-a''\<rparr>)"
    by code_simp
  have "utf8_valid ''a-b''" "list_all valid_edit swap_edits" by (simp_all add: utf8_valid_def swap_edits_def valid_edit_def)
  moreover have "\<not> list_ex (\<lambda>e. used_fuzzy_match (fuzzy_find_text (\<lambda>s. s) ''a-b'' (old_text e))) (map normalize_edit swap_edits)"
    by code_simp
  ultimately show ?thesis using edits_apply_at_once [OF _ _ _ run] run by auto
qed

section \<open>Fuzzy matches\<close>

text \<open>
  What the code relies on of \<open>unicode_normalization\<close>: the normalization of a text is a text, and one that
  has been normalized and folded is in normal form.
\<close>

definition nfkc_ok :: "(string \<Rightarrow> string) \<Rightarrow> string \<Rightarrow> bool" where
  "nfkc_ok nfkc s \<longleftrightarrow> (\<forall>t. utf8_valid t \<longrightarrow> utf8_valid (nfkc t)) \<and>
    nfkc (normalize_for_fuzzy_match nfkc s) = normalize_for_fuzzy_match nfkc s"

lemma nfkc_okD:
  assumes "nfkc_ok nfkc s" and "utf8_valid s" and "B = normalize_for_fuzzy_match nfkc s"
  shows "utf8_valid B" "normalize_for_fuzzy_match nfkc B = B"
    "utf8_valid t \<Longrightarrow> utf8_valid (normalize_for_fuzzy_match nfkc t)"
  using assms normalize_valid [of nfkc s] normalize_valid [of nfkc t] normalize_stable [of nfkc s] by (simp_all add: nfkc_ok_def)

lemma fuzzy_match_fits:
  assumes "utf8_valid B" and "normalize_for_fuzzy_match nfkc B = B" and "utf8_valid old" and "utf8_valid (normalize_for_fuzzy_match nfkc old)"
    and "utf8_valid new" and f: "f = fuzzy_find_text nfkc B old" and "fm_found f"
  shows "fits B \<lparr>match_index = fm_index f, match_length = fm_match_length f, new_text = new\<rparr>"
    "take (fm_match_length f) (drop (fm_index f) B) \<in> {old, normalize_for_fuzzy_match nfkc old}"
    "fm_match_length f = 0 \<Longrightarrow> fm_index f = 0"
proof -
  obtain t where t: "t \<in> {old, normalize_for_fuzzy_match nfkc old}" "find_str B t = Some (fm_index f)" "fm_match_length f = length t"
    using f assms(2,7) by (auto simp: fuzzy_find_text_def Let_def split: option.splits)
  then have "utf8_valid t" using assms(3,4) by auto
  note m = match_boundaries [OF assms(1) this t(2)]
  show "fits B \<lparr>match_index = fm_index f, match_length = fm_match_length f, new_text = new\<rparr>"
    using m t(3) assms(5) by (simp add: fits_def)
  show "take (fm_match_length f) (drop (fm_index f) B) \<in> {old, normalize_for_fuzzy_match nfkc old}" using m(3) t by auto
  show "fm_index f = 0" if "fm_match_length f = 0"
    using that t(2,3) by (cases B) (auto simp: starts_with_def)
qed

text \<open>One edit, fuzzily matched: an error, or the touched lines replaced.\<close>

lemma preserve_fails:
  assumes "fits B r" and "match_length r = 0 \<Longrightarrow> match_index r = 0"
    and "\<not> (length (split_lines_with_endings s) = length (split_lines_with_endings B) \<and> match_index r < length B)"
  shows "\<exists>err. apply_replacements_preserving_unchanged_lines s B [r] = Some (Inl err)"
proof (cases "length (split_lines_with_endings s) = length (split_lines_with_endings B)")
  case True
  have "match_index r + match_length r \<le> length B" using assms(1) boundary_le by (auto simp: fits_def)
  then have "B = []" using True assms(2,3) by simp
  then have "get_line_spans B = []" by (simp add: get_line_spans_def split_lines_with_endings_def)
  then show ?thesis
    using True \<open>B = []\<close>
    by (simp add: apply_replacements_preserving_unchanged_lines_def get_replacement_line_range_def Let_def split_lines_with_endings_def)
qed (simp add: apply_replacements_preserving_unchanged_lines_def get_line_spans_def)

lemma fuzzy_run:
  assumes "old = normalize_to_lf (old_text e)" and "new = normalize_to_lf (edit_new_text e)"
    and "used_fuzzy_match (fuzzy_find_text nfkc s old)" and "B = normalize_for_fuzzy_match nfkc s"
    and "f = fuzzy_find_text nfkc B old"
    and "result = apply_replacements_preserving_unchanged_lines s B [\<lparr>match_index = fm_index f, match_length = fm_match_length f, new_text = new\<rparr>]"
  shows "(\<exists>err. apply_edits_to_normalized_content nfkc s [e] path = Some (Inl err)) \<or>
    fm_found f \<and> apply_edits_to_normalized_content nfkc s [e] path =
      map_option (map_ok (\<lambda>t. \<lparr>base_content = s, new_content = t\<rparr>)) result"
proof (cases "old = [] \<or> \<not> fm_found f \<or> count_occurrences nfkc B old > 1 \<or> result = Some (Inr s)")
  case True
  then show ?thesis
    using assms by (auto simp: apply_edits_to_normalized_content_def Let_def map_ok_def split: option.splits sum.splits)
next
  case False
  then have "apply_edits_to_normalized_content nfkc s [e] path =
      map_option (map_ok (\<lambda>t. \<lparr>base_content = s, new_content = t\<rparr>)) result"
    using assms by (auto simp: apply_edits_to_normalized_content_def Let_def map_ok_def split: option.splits sum.splits)
  then show ?thesis using False by blast
qed

lemma apply_one_fuzzy:
  assumes "utf8_valid s" and "valid_edit e" and "nfkc_ok nfkc s"
    and "old = normalize_to_lf (old_text e)" and "new = normalize_to_lf (edit_new_text e)"
    and "used_fuzzy_match (fuzzy_find_text nfkc s old)"
    and B: "B = normalize_for_fuzzy_match nfkc s" and L: "L = split_lines_with_endings B" and O: "OL = split_lines_with_endings s"
  shows "(\<exists>err. apply_edits_to_normalized_content nfkc s [e] path = Some (Inl err)) \<or>
    (\<exists>a b X i n. apply_edits_to_normalized_content nfkc s [e] path =
        Some (Inr \<lparr>base_content = s, new_content = concat (take a OL) @ X @ concat (drop b OL)\<rparr>) \<and>
      a < b \<and> b \<le> length L \<and> length OL = length L \<and>
      concat (take a L) @ X @ concat (drop b L) = take i B @ new @ drop (i + n) B \<and>
      take n (drop i B) \<in> {old, normalize_for_fuzzy_match nfkc old} \<and>
      length (concat (take a L)) \<le> i \<and> i < length (concat (take (Suc a) L)) \<and>
      (Suc a < b \<longrightarrow> length (concat (take (b - 1) L)) < i + n) \<and>
      fits B \<lparr>match_index = i, match_length = n, new_text = new\<rparr>)"
    (is "(\<exists>err. ?run = _) \<or> ?done")
proof -
  let ?f = "fuzzy_find_text nfkc B old"
  let ?r = "\<lparr>match_index = fm_index ?f, match_length = fm_match_length ?f, new_text = new\<rparr>"
  have v: "utf8_valid old" "utf8_valid new" using assms(2,4,5) utf8_valid_normalize by (simp_all add: valid_edit_def)
  note ok = nfkc_okD [OF assms(3,1) B]
  consider "\<exists>err. ?run = Some (Inl err)"
    | "fm_found ?f" "?run = map_option (map_ok (\<lambda>t. \<lparr>base_content = s, new_content = t\<rparr>)) (apply_replacements_preserving_unchanged_lines s B [?r])"
    using fuzzy_run [OF assms(4-6) B refl refl] by blast
  then show ?thesis
  proof cases
    case 2
    note m = fuzzy_match_fits [OF ok(1,2) v(1) ok(3) [OF v(1)] v(2) refl 2(1)]
    show ?thesis
    proof (cases "length OL = length L \<and> fm_index ?f < length B")
      case True
      then obtain a b X where p: "a < b" "b \<le> length L"
          "apply_replacements_preserving_unchanged_lines s B [?r] = Some (Inr (concat (take a OL) @ X @ concat (drop b OL)))"
          "concat (take a L) @ X @ concat (drop b L) = take (fm_index ?f) B @ new @ drop (fm_index ?f + fm_match_length ?f) B"
          "length (concat (take a L)) \<le> fm_index ?f" "fm_index ?f < length (concat (take (Suc a) L))"
          "Suc a < b \<longrightarrow> length (concat (take (b - 1) L)) < fm_index ?f + fm_match_length ?f"
        using preserve_one [OF ok(1) m(1) _ L O] by auto
      have "?run = Some (Inr \<lparr>base_content = s, new_content = concat (take a OL) @ X @ concat (drop b OL)\<rparr>)"
        using 2(2) p(3) by (simp add: map_ok_def)
      then show ?thesis using p(1,2,4-7) m(1,2) True by blast
    next
      case False
      then show ?thesis using preserve_fails [OF m(1), of s] m(3) 2(2) L O by (auto simp: map_ok_def)
    qed
  qed blast
qed

text \<open>
  C20: A fuzzy match changes only the lines it lies in. If the old text is not in the file as it is but in
  its normalized form, and the edit succeeds, then the lines before and after those the match touches keep
  their own bytes, in their place, and the touched lines become those of the normalized text with the
  match, which is the old text or its normal form, replaced by the new text; no line is touched that the
  match does not reach.
\<close>

theorem fuzzy_patch_keeps_other_lines:
  assumes "utf8_valid s" and "valid_edit e" and "nfkc_ok nfkc s"
    and "old = normalize_to_lf (old_text e)" and "new = normalize_to_lf (edit_new_text e)"
    and "used_fuzzy_match (fuzzy_find_text nfkc s old)"
    and "apply_edits_to_normalized_content nfkc s [e] path = Some (Inr applied)"
    and "B = normalize_for_fuzzy_match nfkc s" and "L = split_lines_with_endings B" and "OL = split_lines_with_endings s"
  shows "\<exists>a b X i n. new_content applied = concat (take a OL) @ X @ concat (drop b OL) \<and>
    a < b \<and> b \<le> length L \<and> length OL = length L \<and>
    concat (take a L) @ X @ concat (drop b L) = take i B @ new @ drop (i + n) B \<and>
    take n (drop i B) \<in> {old, normalize_for_fuzzy_match nfkc old} \<and>
    length (concat (take a L)) \<le> i \<and> i < length (concat (take (Suc a) L)) \<and>
    (Suc a < b \<longrightarrow> length (concat (take (b - 1) L)) < i + n)"
  using apply_one_fuzzy [OF assms(1-6,8-10), of path]
proof (elim disjE exE)
  fix a b X i n
  assume "apply_edits_to_normalized_content nfkc s [e] path =
        Some (Inr \<lparr>base_content = s, new_content = concat (take a OL) @ X @ concat (drop b OL)\<rparr>) \<and>
      a < b \<and> b \<le> length L \<and> length OL = length L \<and>
      concat (take a L) @ X @ concat (drop b L) = take i B @ new @ drop (i + n) B \<and>
      take n (drop i B) \<in> {old, normalize_for_fuzzy_match nfkc old} \<and>
      length (concat (take a L)) \<le> i \<and> i < length (concat (take (Suc a) L)) \<and>
      (Suc a < b \<longrightarrow> length (concat (take (b - 1) L)) < i + n) \<and>
      fits B \<lparr>match_index = i, match_length = n, new_text = new\<rparr>"
  then show ?thesis
    using assms(7) by (intro exI [of _ a] exI [of _ b] exI [of _ X] exI [of _ i] exI [of _ n]) simp
qed (use assms(7) in simp)

definition quoted_text :: string where
  "quoted_text = [CHR ''a'', CHR '' '', CHR 0x0A, CHR ''b'', CHR 0xE2, CHR 0x80, CHR 0x99, CHR 0x0A, CHR ''c'', CHR '' '']"

definition quote_edit :: Edit where
  "quote_edit = \<lparr>old_text = [CHR ''b'', CHR 0x27], edit_new_text = ''x''\<rparr>"

definition quote_result :: AppliedEditsResult where
  "quote_result = \<lparr>base_content = quoted_text,
     new_content = [CHR ''a'', CHR '' '', CHR 0x0A, CHR ''x'', CHR 0x0A, CHR ''c'', CHR '' '']\<rparr>"

lemma quote_run: "apply_edits_to_normalized_content (\<lambda>s. s) quoted_text [quote_edit] ''f'' = Some (Inr quote_result)"
  by code_simp

lemma quote_fuzzy: "used_fuzzy_match (fuzzy_find_text (\<lambda>s. s) quoted_text [CHR ''b'', CHR 0x27])"
  by code_simp

theorem fuzzy_patch_keeps_other_lines_witness:
  "\<exists>a b X. new_content quote_result = concat (take a (split_lines_with_endings quoted_text)) @ X @
      concat (drop b (split_lines_with_endings quoted_text)) \<and> a < b \<and> b \<le> length (split_lines_with_endings quoted_text)"
proof -
  have "utf8_valid quoted_text" "valid_edit quote_edit"
    by (simp_all add: quoted_text_def quote_edit_def valid_edit_def utf8_valid_def utf8_cont_def)
  moreover have "nfkc_ok (\<lambda>s. s) quoted_text" by (simp add: nfkc_ok_def)
  moreover have "normalize_to_lf (old_text quote_edit) = [CHR ''b'', CHR 0x27]"
    by (simp add: quote_edit_def carriage_return_chr)
  ultimately show ?thesis
    using fuzzy_patch_keeps_other_lines [OF _ _ _ refl refl _ quote_run refl refl refl] quote_fuzzy by fastforce
qed

lemma middle_valid:
  assumes "utf8_valid a" and "utf8_valid c" and "utf8_valid (a @ x @ c)"
  shows "utf8_valid x"
  using utf8_valid_append [OF assms(1), of "x @ c"] assms(3) utf8_valid_split [of x c] char_led_valid [OF assms(2)]
  by (auto simp: char_led_def)

lemma fits_weave_valid: "utf8_valid s \<Longrightarrow> fits s r \<Longrightarrow>
  utf8_valid (take (match_index r) s @ new_text r @ drop (match_index r + match_length r) s)"
  using boundary_split [of s "match_index r"] boundary_split [of s "match_index r + match_length r"]
  by (auto simp: fits_def utf8_valid_append)

lemma replace_char_plain: "c \<notin> set s \<Longrightarrow> replace_char c r s = s"
  by (induction s) auto

lemma restore_valid: "utf8_valid s \<Longrightarrow> utf8_valid (restore_line_endings s ending)"
proof (cases ending)
  case Crlf
  assume s: "utf8_valid s"
  have crlf: "utf8_valid [carriage_return, newline]" using utf8_valid_append [of "[carriage_return]" "[newline]"] by simp
  have "utf8_valid (replace_char newline [carriage_return, newline] s)" using s
  proof (induction s rule: length_induct)
    case (1 s)
    show ?case
    proof (cases "newline \<in> set s")
      case True
      then obtain a b where s: "s = a @ newline # b" "newline \<notin> set a" by (meson split_list_first)
      then have v: "utf8_valid a" "utf8_valid b" using utf8_valid_ascii [of a newline b] 1(2) by simp_all
      have "replace_char newline [carriage_return, newline] s = a @ [carriage_return, newline] @ replace_char newline [carriage_return, newline] b"
        using s by (simp add: replace_char_plain)
      then show ?thesis using v 1(1) s(1) crlf by (simp add: utf8_valid_append utf8_valid_append [OF crlf, simplified])
    next
      case False
      then have "replace_char newline [carriage_return, newline] s = s" by (rule replace_char_plain)
      then show ?thesis using 1(2) by simp
    qed
  qed
  then show ?thesis using Crlf by simp
qed simp

lemma plain_run:
  assumes "old = normalize_to_lf (old_text e)" and "new = normalize_to_lf (edit_new_text e)"
    and "\<not> used_fuzzy_match (fuzzy_find_text nfkc s old)"
  shows "(\<exists>err. apply_edits_to_normalized_content nfkc s [e] path = Some (Inl err)) \<or>
    (\<exists>i. find_str s old = Some i \<and> apply_edits_to_normalized_content nfkc s [e] path =
      map_option (\<lambda>t. Inr \<lparr>base_content = s, new_content = t\<rparr>)
        (apply_replacements s [\<lparr>match_index = i, match_length = length old, new_text = new\<rparr>] 0))"
proof (cases "old = [] \<or> find_str s old = None \<or> count_occurrences nfkc s old > 1")
  case True
  then show ?thesis
    using assms by (auto simp: apply_edits_to_normalized_content_def fuzzy_find_text_def Let_def split: option.splits)
next
  case False
  then obtain i where i: "find_str s old = Some i" by auto
  then have "fuzzy_find_text nfkc s old = \<lparr>fm_found = True, fm_index = i, fm_match_length = length old,
      used_fuzzy_match = False, content_for_replacement = s\<rparr>"
    by (simp add: fuzzy_find_text_def)
  then show ?thesis
    using False i assms(1,2) by (auto simp: apply_edits_to_normalized_content_def Let_def map_ok_def split: option.splits)
qed

text \<open>One edit of a valid text does not panic, and its result is valid.\<close>

lemma apply_one_valid:
  assumes "utf8_valid s" and "valid_edit e" and "nfkc_ok nfkc s"
  shows "(\<exists>err. apply_edits_to_normalized_content nfkc s [e] path = Some (Inl err)) \<or>
    (\<exists>t. apply_edits_to_normalized_content nfkc s [e] path = Some (Inr \<lparr>base_content = s, new_content = t\<rparr>) \<and> utf8_valid t)"
proof -
  define old new where on: "old = normalize_to_lf (old_text e)" "new = normalize_to_lf (edit_new_text e)"
  have v: "utf8_valid old" "utf8_valid new" using assms(2) on utf8_valid_normalize by (simp_all add: valid_edit_def)
  define B where B: "B = normalize_for_fuzzy_match nfkc s"
  define L OL where lines: "L = split_lines_with_endings B" "OL = split_lines_with_endings s"
  have parts: "utf8_valid (concat (take k (split_lines_with_endings t)))" "utf8_valid (concat (drop k (split_lines_with_endings t)))"
    if "utf8_valid t" for k t
    using lines_valid [OF that] by (auto intro!: valid_concat dest: in_set_takeD in_set_dropD)
  show ?thesis
  proof (cases "used_fuzzy_match (fuzzy_find_text nfkc s old)")
    case True
    note B_valid = nfkc_okD(1) [OF assms(3,1) B]
    consider "\<exists>err. apply_edits_to_normalized_content nfkc s [e] path = Some (Inl err)"
      | a b X i n where "apply_edits_to_normalized_content nfkc s [e] path =
          Some (Inr \<lparr>base_content = s, new_content = concat (take a OL) @ X @ concat (drop b OL)\<rparr>)"
        "concat (take a L) @ X @ concat (drop b L) = take i B @ new @ drop (i + n) B"
        "fits B \<lparr>match_index = i, match_length = n, new_text = new\<rparr>"
      using apply_one_fuzzy [OF assms on True B lines, of path] by blast
    then show ?thesis
    proof cases
      case 2
      have "utf8_valid (concat (take a L) @ X @ concat (drop b L))" using fits_weave_valid [OF B_valid 2(3)] 2(2) by simp
      then have "utf8_valid X" using middle_valid parts B_valid lines(1) by blast
      then have "utf8_valid (concat (take a OL) @ X @ concat (drop b OL))"
        using parts [OF assms(1)] lines(2) by (simp add: utf8_valid_append)
      then show ?thesis using 2(1) by blast
    qed blast
  next
    case False
    show ?thesis
      using plain_run [OF on False, of path]
    proof (elim disjE exE conjE)
      fix i
      let ?r = "\<lparr>match_index = i, match_length = length old, new_text = new\<rparr>"
      assume i: "find_str s old = Some i" and run: "apply_edits_to_normalized_content nfkc s [e] path =
        map_option (\<lambda>t. Inr \<lparr>base_content = s, new_content = t\<rparr>) (apply_replacements s [?r] 0)"
      have "fits s ?r" using match_boundaries [OF assms(1) v(1) i] v(2) by (simp add: fits_def)
      then show ?thesis
        using run replace_all_weave [OF assms(1), of 0 "[?r]"] char_led_valid [OF assms(1)] fits_weave_valid [OF assms(1), of ?r]
        by (simp add: apply_replacements_def boundary_drop)
    qed blast
  qed
qed

text \<open>
  C19: Whatever edit a model asks for, a valid UTF-8 file and a valid edit never make the patch tool panic,
  and what it writes is a valid UTF-8 text again: no slice of the replacement falls inside a character,
  in the exact and in the fuzzy case.
\<close>

theorem patch_writes_valid_text:
  assumes "utf8_valid raw" and "valid_edit e" and "nfkc_ok nfkc (normalize_to_lf (snd (strip_bom raw)))"
  shows "case patch_content nfkc path [e] raw of
      Inl err \<Rightarrow> err \<noteq> Panicked
    | Inr (final_content, applied) \<Rightarrow> utf8_valid final_content"
proof -
  obtain b content where s: "strip_bom raw = (b, content)" by fastforce
  have v: "utf8_valid content" "utf8_valid b" "utf8_valid (normalize_to_lf content)"
    using strip_bom_valid [OF assms(1) s] s utf8_valid_normalize
    by (auto simp: strip_bom_def bom_def utf8_valid_def utf8_cont_def split: option.splits)
  show ?thesis
    using apply_one_valid [OF v(3) assms(2), of nfkc path] assms(3) s v(2) restore_valid
    by (auto simp: patch_content_def utf8_valid_append)
qed

theorem patch_writes_valid_text_witness:
  "case patch_content (\<lambda>s. s) ''f'' [two_line_edit] crlf_file of Inl err \<Rightarrow> err \<noteq> Panicked
   | Inr (final_content, applied) \<Rightarrow> utf8_valid final_content"
proof -
  have "nfkc_ok (\<lambda>s. s) t" for t by (simp add: nfkc_ok_def)
  moreover have "utf8_valid crlf_file" "valid_edit two_line_edit"
    by (simp_all add: crlf_file_def bom_def valid_edit_def two_line_edit_def utf8_valid_def utf8_cont_def)
  ultimately show ?thesis by (intro patch_writes_valid_text)
qed

end
