(* ===== verification/File_Tool_Proofs.thy ===== *)
theory File_Tool_Proofs
  imports Edit_Tool
begin

text \<open>
  Calls of the file tools as a whole: what a call leaves in the file, that undo takes a change back
  exactly, and what becomes of the lease.
\<close>

section \<open>Steps\<close>

lemma then_stepE:
  assumes "then_step r f = (x, w')"
  obtains (stop) e where "r = (Inl e, w')" "x = Inl e" | (go) a w1 where "r = (Inr a, w1)" "f a w1 = (x, w')"
  using assms by (cases r; cases "fst r") auto

lemma then_step_Inr: "then_step r f = (Inr y, w') \<longleftrightarrow> (\<exists>a w1. r = (Inr a, w1) \<and> f a w1 = (Inr y, w'))"
  by (cases r; cases "fst r") auto

lemma throw_if_aborted_world: "throw_if_aborted call i w = (r, w') \<Longrightarrow> w' = w"
  by (simp add: throw_if_aborted_def)

lemma throw_ok: "throw_if_aborted call i w = (Inr x, w') \<longleftrightarrow> \<not> fc_aborted call i \<and> w' = w"
  by (auto simp: throw_if_aborted_def)

lemma on_leases_disk: "on_leases f w = (r, w') \<Longrightarrow> disk w' = disk w"
  by (auto simp: on_leases_def split: prod.splits)

lemma on_disk_leases: "on_disk f w = (r, w') \<Longrightarrow> lease_dir w' = lease_dir w"
  by (auto simp: on_disk_def split: prod.splits)

lemma commit_disk: "commit_if_leased call path lease w = (r, w') \<Longrightarrow> disk w' = disk w"
  by (auto simp: commit_if_leased_def commit_file_def split: option.splits elim!: then_stepE dest: on_leases_disk)

lemma release_disk: "release_if_leased call lease w = (r, w') \<Longrightarrow> disk w' = disk w"
  by (auto simp: release_if_leased_def split: option.splits dest: on_leases_disk)

lemma reserve_disk: "reserve_file call path name duration w = (r, w') \<Longrightarrow> disk w' = disk w"
  by (auto simp: reserve_file_def dest: on_leases_disk)

lemma finish_disk: "finish_call call lease (r, w) = (r', w') \<Longrightarrow> r' = r \<and> disk w' = disk w"
  by (auto simp: finish_call_def release_on_error_def split: if_splits prod.splits option.splits)

section \<open>The file after a call\<close>

text \<open>Other processes do not touch the file, and it is not one of its own snapshots.\<close>

definition leaves_alone :: "FileCall \<Rightarrow> string \<Rightarrow> bool" where
  "leaves_alone call path \<longleftrightarrow> (\<forall>i w. content_at (disk (fc_others call i w)) path = content_at (disk w) path)"

definition snapshots_apart :: "FileTool \<Rightarrow> string \<Rightarrow> bool" where
  "snapshots_apart tool path \<longleftrightarrow> (\<forall>store key. ft_snapshots tool = Some store \<longrightarrow>
     canonical_key (snap_canonicalize store) path = Inr key \<longrightarrow>
     strip_prefix path (path_join (directory_for store key) []) = None)"

lemma write_op_other: "write_op flt i p bytes d = (r, d') \<Longrightarrow> path \<noteq> p \<Longrightarrow> content_at d' path = content_at d path"
  by (auto simp: write_op_def split: option.splits)

lemma mkdir_content: "mkdir_op flt i dir d = (r, d') \<Longrightarrow> content_at d' path = content_at d path"
  by (auto simp: mkdir_op_def split: option.splits)

lemma capture_keeps_file:
  assumes "snapshot_capture store flt stamp path d = (r, d')"
    and "\<And>key. canonical_key (snap_canonicalize store) path = Inr key \<Longrightarrow>
      strip_prefix path (path_join (directory_for store key) []) = None"
  shows "content_at d' path = content_at d path"
proof (cases "canonical_key (snap_canonicalize store) path")
  case (Inr key)
  have ne: "path \<noteq> path_join (directory_for store key) n" for n
    using assms(2) [OF Inr] path_join_prefix [of "directory_for store key" n] by auto
  show ?thesis
    using assms(1) Inr
    by (auto simp: snapshot_capture_def Let_def split: if_splits sum.splits elim!: then_stepE
        dest!: mkdir_content [where path = path] write_op_other [where path = path] simp: ne)
qed (use assms(1) in \<open>simp add: snapshot_capture_def\<close>)

lemma capture_before_keeps:
  assumes "snapshots_apart tool path"
    and "on_disk (capture_before_mutation (ft_snapshots tool) flt stamp path) w = (r, w')"
  shows "content_at (disk w') path = content_at (disk w) path"
  using assms capture_keeps_file
  by (fastforce simp: on_disk_def capture_before_mutation_def snapshots_apart_def split: option.splits prod.splits sum.splits)

lemma write_effect:
  "on_disk (write_op flt i path content) w = (r, w') \<Longrightarrow>
    r = Inr () \<and> content_at (disk w') path = Some content \<or>
    r \<noteq> Inr () \<and> (\<exists>e left. flt i = Some (e, left) \<and> content_at (disk w') path = left)"
  by (auto simp: on_disk_def write_op_def split: prod.splits option.splits)

lemma guarded_write_effect:
  assumes "leaves_alone call path" and "snapshots_apart tool path"
    and "guarded_write tool call path lease content i w = (r, w')"
  shows "content_at (disk w') path = content_at (disk w) path \<and> r \<noteq> Inr () \<or>
    content_at (disk w') path = Some content \<or>
    (\<exists>e left. fc_faults call 2 = Some (e, left) \<and> content_at (disk w') path = left \<and> r \<noteq> Inr ())"
proof -
  have alone: "content_at (disk (fc_others call j x)) path = content_at (disk x) path" for j x
    using assms(1) by (simp add: leaves_alone_def)
  show ?thesis
    using assms(3) unfolding guarded_write_def
    by (elim then_stepE)
      (auto simp: alone dest!: capture_before_keeps [OF assms(2)] throw_if_aborted_world commit_disk release_disk write_effect)
qed

text \<open>What an edit may have read and computed when it reaches its write.\<close>

definition computes :: "FileTool \<Rightarrow> string \<Rightarrow> Edit list \<Rightarrow> string option \<Rightarrow> string \<Rightarrow> bool" where
  "computes tool path edits before final_content \<longleftrightarrow> (\<exists>bytes applied. before = Some bytes \<and> utf8_valid bytes \<and>
     patch_content (ft_nfkc tool) path edits bytes = Inr (final_content, applied))"

lemma edit_body_effect:
  assumes "leaves_alone call p" and "snapshots_apart tool p"
    and "edit_body tool call path p edits lease w = (r, w')"
  shows "content_at (disk w') p = content_at (disk w) p \<and> (\<exists>e. r = Inl e) \<or>
    (\<exists>final_content. computes tool path edits (content_at (disk w) p) final_content \<and>
       (content_at (disk w') p = Some final_content \<or>
        (\<exists>e left. fc_faults call 2 = Some (e, left) \<and> content_at (disk w') p = left \<and> (\<exists>e. r = Inl e))))"
proof -
  have alone: "content_at (disk (fc_others call j x)) p = content_at (disk x) p" for j x
    using assms(1) by (simp add: leaves_alone_def)
  have read: "content_at (disk x) p = Some bytes" if "read_op (fc_faults call) 4 p (disk x) = Inr bytes" for x bytes
    using that by (auto simp: read_op_def split: option.splits)
  note guarded = guarded_write_effect [OF assms(1,2)]
  show ?thesis
    using assms(3) unfolding edit_body_def Let_def
    by (elim then_stepE)
      (auto simp: alone computes_def split: sum.splits if_splits prod.splits elim!: then_stepE
        dest!: throw_if_aborted_world read guarded)
qed

text \<open>
  C15: A patch is all or nothing. Whatever fails, is cancelled or is refused during the call, the file
  afterwards holds either the bytes it had, or the complete patched text of those bytes, or what a failed
  write of that text left; and a call that reports success has written the complete text. Other processes
  may do anything but change the file.
\<close>

theorem edit_all_or_nothing:
  assumes "validate_edit_input params = Inr (path, edits)" and "p = ft_resolve_to_cwd tool path"
    and "leaves_alone call p" and "snapshots_apart tool p" and "edit_execute tool call params w = (r, w')"
  shows "content_at (disk w') p = content_at (disk w) p \<and> (\<exists>e. r = Inl e) \<or>
    (\<exists>final_content. computes tool path edits (content_at (disk w) p) final_content \<and>
       (content_at (disk w') p = Some final_content \<or>
        (\<exists>e left. fc_faults call 2 = Some (e, left) \<and> content_at (disk w') p = left \<and> (\<exists>e. r = Inl e))))"
  using assms(5) unfolding edit_execute_def assms(1) assms(2) [symmetric] Let_def sum.case prod.case
proof (elim then_stepE)
  fix a w1 lease w2
  assume "throw_if_aborted call 0 w = (Inr a, w1)" "reserve_file call p ''patch'' EDIT_LEASE_DURATION_MS w1 = (Inr lease, w2)"
    and fin: "finish_call call lease (edit_body tool call path p edits lease w2) = (r, w')"
  then have "disk w2 = disk w" using throw_if_aborted_world reserve_disk by metis
  moreover obtain r1 w3 where body: "edit_body tool call path p edits lease w2 = (r1, w3)" by fastforce
  ultimately show ?thesis
    using edit_body_effect [OF assms(3,4) body] finish_disk [of call lease r1 w3 r w'] fin by auto
qed (auto dest!: throw_if_aborted_world reserve_disk)

section \<open>Undo takes a change back\<close>

definition undisturbed :: "FileCall \<Rightarrow> bool" where
  "undisturbed call \<longleftrightarrow> fc_others call = (\<lambda>_ w. w) \<and> fc_snapshot_faults call = no_io_faults"

lemma guarded_write_snapshot:
  assumes "undisturbed call" and "ft_snapshots tool = Some store" and "tracked store p key"
    and "content_at (disk w) p = Some b" and "later store key (disk w) (fc_stamp call)"
    and "guarded_write tool call p lease content i w = (Inr (), w')"
  shows "history store key (disk w') = b # history store key (disk w) \<and> origin_recorded store key (disk w') \<and>
    content_at (disk w') p = Some content"
proof -
  have u: "fc_others call j x = x" "fc_snapshot_faults call = no_io_faults" for j x using assms(1) by (simp_all add: undisturbed_def)
  obtain t d where cap: "snapshot_capture store no_io_faults (fc_stamp call) p (disk w) = (Inr (Some t), d)"
      "history store key d = b # history store key (disk w)" "origin_recorded store key d"
    using capture_pushes [OF assms(3-5)] by metis
  obtain w1 w2 w3 w4 w5 cm where s: "on_disk (capture_before_mutation (Some store) no_io_faults (fc_stamp call) p) w = (Inr (), w1)"
      "throw_if_aborted call i w1 = (Inr (), w2)" "commit_if_leased call p lease w2 = (Inr cm, w3)"
      "on_disk (write_op (fc_faults call) 2 p content) w3 = (Inr (), w4)"
      "release_if_leased call cm w4 = (Inr (), w5)" "throw_if_aborted call (Suc i) w5 = (Inr (), w')"
    using assms(6) by (auto simp: guarded_write_def u assms(2) then_step_Inr)
  have "disk w1 = d" using s(1) cap(1) by (auto simp: on_disk_def capture_before_mutation_def split: prod.splits)
  then have "disk w3 = d" using throw_if_aborted_world [OF s(2)] commit_disk [OF s(3)] by simp
  then have "disk w4 = set_content p (Some content) d"
    using s(4) by (auto simp: on_disk_def write_op_def map_err_def split: prod.splits option.splits sum.splits)
  then have "disk w' = set_content p (Some content) d" using release_disk [OF s(5)] throw_if_aborted_world [OF s(6)] by simp
  then show ?thesis using cap write_keeps_history [OF assms(3)] by simp
qed

lemma edit_success:
  assumes "undisturbed call" and "validate_edit_input params = Inr (path, edits)" and "p = ft_resolve_to_cwd tool path"
    and "edit_execute tool call params w = (Inr r, w')"
  obtains bytes final_content applied lease w1 w2 where "content_at (disk w) p = Some bytes"
    "patch_content (ft_nfkc tool) path edits bytes = Inr (final_content, applied)"
    "disk w1 = disk w" "guarded_write tool call p lease final_content 5 w1 = (Inr (), w2)" "disk w' = disk w2"
proof -
  have u: "fc_others call j x = x" for j x using assms(1) by (simp add: undisturbed_def)
  obtain w0 lease w1 where start: "throw_if_aborted call 0 w = (Inr (), w0)"
      "reserve_file call p ''patch'' EDIT_LEASE_DURATION_MS w0 = (Inr lease, w1)"
      "finish_call call lease (edit_body tool call path p edits lease w1) = (Inr r, w')"
    using assms(4) by (auto simp: edit_execute_def assms(2) assms(3) [symmetric] then_step_Inr)
  have d1: "disk w1 = disk w" using throw_if_aborted_world [OF start(1)] reserve_disk [OF start(2)] by simp
  obtain r2 w2 where "edit_body tool call path p edits lease w1 = (r2, w2)" by fastforce
  with start(3) have body: "edit_body tool call path p edits lease w1 = (Inr r, w2)" "disk w' = disk w2"
    using finish_disk [of call lease r2 w2] by auto
  obtain bytes final_content applied where "read_op (fc_faults call) 4 p (disk w1) = Inr bytes"
      "patch_content (ft_nfkc tool) path edits bytes = Inr (final_content, applied)"
      "guarded_write tool call p lease final_content 5 w1 = (Inr (), w2)"
    using body(1) by (cases "access_op (fc_faults call) 3 p (disk w1)")
      (auto simp: edit_body_def Let_def u then_step_Inr throw_ok split: sum.splits if_splits prod.splits)
  then show ?thesis
    using that [of bytes final_content applied w1 lease w2] d1 body(2)
    by (auto simp: read_op_def split: option.splits)
qed

lemma undo_runs:
  assumes "undisturbed call" and "fc_gate call \<noteq> Some True" and "ft_snapshots tool = Some store" and "tracked store p key"
    and "get_str params ''path'' = Some path" and "trim path \<noteq> []" and "p = ft_resolve_to_cwd tool (trim path)"
    and "origin_recorded store key (disk w)" and "history store key (disk w) = b # bs"
  obtains r w' where "undo_execute tool call params w = (Inr r, w')" "content_at (disk w') p = Some b"
    "history store key (disk w') = bs"
proof -
  have u: "fc_others call j x = x" "fc_snapshot_faults call = no_io_faults" for j x using assms(1) by (simp_all add: undisturbed_def)
  obtain d where rest: "snapshot_restore store no_io_faults p (disk w) =
      (Inr (Some \<lparr>restored_bytes = b, more_remain = (bs \<noteq> [])\<rparr>), d)" "content_at d p = Some b" "history store key d = bs"
    using restore_pops [OF assms(4,8,9)] by metis
  have "reserve_file call p ''undo'' UNDO_LEASE_DURATION_MS w = (Inr None, w)"
    using assms(2) by (simp add: reserve_file_def on_leases_def reserve_def is_enabled_def)
  then obtain r where "undo_execute tool call params w = (Inr r, w\<lparr>disk := d\<rparr>)"
    using assms(3,5-7) rest(1) by (auto simp: undo_execute_def u on_disk_def undo_release_def Let_def split: if_splits)
  then show ?thesis using that rest by simp
qed

text \<open>
  C16: Undo takes a patch back exactly. After a successful patch, undo succeeds and the file holds the very
  bytes it had before, whatever the patch did to them, and the earlier snapshots are as they were. Here
  the calls are not disturbed, the store is not inside the file it protects, its clock moves on and
  leases are off for the undo.
\<close>

theorem undo_reverts_edit:
  assumes "undisturbed call" and "undisturbed undo_call" and "fc_gate undo_call \<noteq> Some True"
    and "ft_snapshots tool = Some store" and "tracked store p key" and "later store key (disk w) (fc_stamp call)"
    and "validate_edit_input params = Inr (path, edits)" and "p = ft_resolve_to_cwd tool path"
    and "get_str undo_params ''path'' = Some path'" and "trim path' \<noteq> []" and "p = ft_resolve_to_cwd tool (trim path')"
    and "edit_execute tool call params w = (Inr r, w1)"
  shows "\<exists>r' w2. undo_execute tool undo_call undo_params w1 = (Inr r', w2) \<and>
    content_at (disk w2) p = content_at (disk w) p \<and> history store key (disk w2) = history store key (disk w)"
proof -
  obtain bytes final_content applied lease v1 v2 where e: "content_at (disk w) p = Some bytes"
      "patch_content (ft_nfkc tool) path edits bytes = Inr (final_content, applied)"
      "disk v1 = disk w" "guarded_write tool call p lease final_content 5 v1 = (Inr (), v2)" "disk w1 = disk v2"
    using edit_success [OF assms(1,7,8,12)] by metis
  have h: "history store key (disk w1) = bytes # history store key (disk w)" "origin_recorded store key (disk w1)"
      "content_at (disk w1) p = Some final_content"
    using guarded_write_snapshot [OF assms(1,4,5) _ _ e(4)] e(1,3,5) assms(6) by auto
  obtain r' w2 where "undo_execute tool undo_call undo_params w1 = (Inr r', w2)" "content_at (disk w2) p = Some bytes"
      "history store key (disk w2) = history store key (disk w)"
    using undo_runs [OF assms(2-5,9-11) h(2,1)] .
  then show ?thesis using e(1) by auto
qed

section \<open>The lease after a call\<close>

definition ours :: "FileCall \<Rightarrow> string \<Rightarrow> World \<Rightarrow> bool" where
  "ours call path w \<longleftrightarrow> (\<exists>c. lease_at (fc_lease_env call) (lease_dir w) (lease_file_path (fc_lease_env call) path) = Some c \<and>
     lease_id c = fc_uuid call)"

text \<open>Other processes do not make up leases with the identifier of this call.\<close>

definition others_foreign :: "FileCall \<Rightarrow> string \<Rightarrow> bool" where
  "others_foreign call path \<longleftrightarrow> (\<forall>i w. ours call path (fc_others call i w) \<longrightarrow> ours call path w)"

lemma release_frees:
  assumes "lease_at env (snd (release env no_faults path lid d)) (lease_file_path env path) = Some c"
  shows "lease_id c \<noteq> lid"
proof
  assume id: "lease_id c = lid"
  let ?name = "lease_file_path env path"
  show False
  proof (cases "lease_at env d ?name")
    case None
    then have "lease_files (snd (release env no_faults path lid d)) = lease_files d"
      by (auto simp: release_def with_locked_file_no_faults read_lease_no_faults lease_at_def Let_def map_ok_def
          split: option.splits sum.splits)
    then show False using assms None by (simp add: lease_at_def)
  next
    case (Some x)
    show False
    proof (cases "lease_id x = lid")
      case True
      then show False using assms release_owner [OF Some True] by (simp add: lease_at_def)
    next
      case False
      then have "lease_files (snd (release env no_faults path lid d)) = lease_files d"
        using Some by (auto simp: release_def with_locked_file_no_faults read_lease_no_faults lease_at_def Let_def map_ok_def
            split: option.splits sum.splits)
      then show False using assms Some False id by (simp add: lease_at_def)
    qed
  qed
qed

lemma commit_same:
  assumes "commit_file call p l w = (Inr l', w')"
  shows "lease_id l' = lease_id l \<and> file_path l' = file_path l"
proof -
  obtain d d' l1 where "update (fc_lease_env call) (fc_lease_io call 2) l1 d = (Inr l', d')"
      "lease_id l1 = lease_id l" "file_path l1 = file_path l"
    using assms
    by (auto simp: commit_file_def on_leases_def prepare_commit_def then_do_def Let_def map_err_def split: prod.splits sum.splits if_splits option.splits)
  then show ?thesis using update_effect [of "fc_lease_env call" "fc_lease_io call 2" l1 d "Inr l'" d'] by auto
qed

lemma ours_cong: "lease_dir w' = lease_dir w \<Longrightarrow> ours call p w' = ours call p w"
  by (simp add: ours_def)

lemma release_if_frees:
  assumes "release_if_leased call (Some l) w = (r, w')" and "lease_id l = fc_uuid call" and "file_path l = p"
    and "fc_lease_io call 3 = no_faults"
  shows "\<not> ours call p w'"
  using assms release_frees [of "fc_lease_env call" p "fc_uuid call" "lease_dir w"]
  by (auto simp: release_if_leased_def on_leases_def release_lease_def ours_def split: prod.splits)

lemma guarded_write_frees:
  assumes "guarded_write tool call p (Some l) content i w = (Inr (), w')"
    and "lease_id l = fc_uuid call" and "file_path l = p" and "fc_lease_io call 3 = no_faults"
  shows "\<not> ours call p w'"
proof -
  obtain w1 l' w2 w3 w4 where s: "commit_file call p l w1 = (Inr l', w2)" "release_if_leased call (Some l') w3 = (Inr (), w4)"
      "throw_if_aborted call (Suc i) w4 = (Inr (), w')"
    using assms(1) by (auto simp: guarded_write_def then_step_Inr commit_if_leased_def)
  then show ?thesis
    using release_if_frees [OF s(2)] commit_same [OF s(1)] assms(2-4) throw_if_aborted_world [OF s(3)] by simp
qed

lemma on_disk_ours: "on_disk f w = (r, w') \<Longrightarrow> ours call p w' \<longleftrightarrow> ours call p w"
  using on_disk_leases ours_cong by blast

lemma others_ours: "others_foreign call p \<Longrightarrow> ours call p (fc_others call i w) \<Longrightarrow> ours call p w"
  by (auto simp: others_foreign_def)

lemma guarded_write_unleased:
  assumes "others_foreign call p" and "guarded_write tool call p None content i w = (r, w')" and "ours call p w'"
  shows "ours call p w"
  using assms(2,3) unfolding guarded_write_def
  by (elim then_stepE)
    (auto simp: commit_if_leased_def release_if_leased_def on_disk_ours dest!: throw_if_aborted_world others_ours [OF assms(1)])

lemma edit_body_unleased:
  assumes "others_foreign call p" and "edit_body tool call path p edits None w = (r, w')" and "ours call p w'"
  shows "ours call p w"
  using assms(2,3) unfolding edit_body_def Let_def
  by (elim then_stepE)
    (auto split: sum.splits if_splits prod.splits elim!: then_stepE
      dest!: throw_if_aborted_world others_ours [OF assms(1)] guarded_write_unleased [OF assms(1)])

lemma edit_body_frees:
  assumes "edit_body tool call path p edits (Some l) w = (Inr r, w')"
    and "lease_id l = fc_uuid call" and "file_path l = p" and "fc_lease_io call 3 = no_faults"
  shows "\<not> ours call p w'"
proof -
  obtain w1 content where "guarded_write tool call p (Some l) content 5 w1 = (Inr (), w')"
    using assms(1) by (cases "access_op (fc_faults call) 3 p (disk (fc_others call 0 w))")
      (auto simp: edit_body_def Let_def then_step_Inr throw_ok split: sum.splits if_splits prod.splits)
  then show ?thesis using guarded_write_frees assms(2-4) by blast
qed

lemma reserve_kinds:
  assumes "reserve_file call p name duration w = (r, w')"
  obtains (refused) e where "r = Inl e" "ours call p w' = ours call p w"
  | (off) "r = Inr None" "w' = w"
  | (granted) l where "r = Inr (Some l)" "lease_id l = fc_uuid call" "file_path l = p"
proof (cases "is_enabled (fc_gate call)")
  case True
  then have gate: "fc_gate call = Some True" by (simp add: is_enabled_def)
  obtain x ld where res: "reserve (fc_lease_env call) (fc_lease_io call 0) (fc_gate call) (fc_reserve_time call)
      (hashed_content call 0 p w) (fc_uuid call) (fc_pid call) p name duration (lease_dir w) = (x, ld)" by fastforce
  then have r: "r = map_err (\<lambda>e. Failed (lease_error_text e)) x" "w' = w\<lparr>lease_dir := ld\<rparr>"
    using assms by (auto simp: reserve_file_def on_leases_def)
  show ?thesis
  proof (cases x)
    case (Inl e)
    then obtain l where "try_acquire (fc_lease_env call) (fc_lease_io call 0) l (lease_dir w) = (Inl e, ld)"
      using res True by (auto simp: reserve_def then_do_def split: prod.splits sum.splits)
    then have "lease_files ld = lease_files (lease_dir w)" using try_acquire_effect by blast
    then show ?thesis using refused [of "Failed (lease_error_text e)"] r Inl by (simp add: ours_def lease_at_def)
  next
    case (Inr y)
    then obtain l where y: "y = Some l" using res True by (auto simp: reserve_def then_do_def split: prod.splits sum.splits)
    then show ?thesis using granted [of l] r Inr reserve_ok(1) [OF res [unfolded gate Inr y]] by simp
  qed
qed (use assms off in \<open>auto simp: reserve_file_def on_leases_def reserve_def\<close>)

lemma finish_unleased: "finish_call call None (r1, w1) = (r, w') \<Longrightarrow> w' = w1"
  by (auto simp: finish_call_def release_on_error_def split: if_splits)

lemma finish_frees:
  assumes "finish_call call (Some l) (edit_body tool call path p edits (Some l) w) = (r, w')" and "r \<noteq> Inl Panicked"
    and "lease_id l = fc_uuid call" and "file_path l = p" and "fc_lease_io call 3 = no_faults" and "fc_lease_io call 4 = no_faults"
  shows "\<not> ours call p w'"
proof -
  obtain r1 w3 where body: "edit_body tool call path p edits (Some l) w = (r1, w3)" by fastforce
  show ?thesis
  proof (cases r1)
    case (Inr y)
    then have "\<not> ours call p w3" using edit_body_frees body assms(3-5) by simp
    moreover have "w' = w3" using assms(1) body Inr by (simp add: finish_call_def release_on_error_def)
    ultimately show ?thesis by simp
  next
    case (Inl e)
    then have "w' = w3\<lparr>lease_dir := snd (release (fc_lease_env call) no_faults p (fc_uuid call) (lease_dir w3))\<rparr>"
      using assms body by (auto simp: finish_call_def release_on_error_def release_lease_def split: if_splits)
    then show ?thesis using release_frees by (auto simp: ours_def)
  qed
qed


section \<open>The lease of an undo\<close>

lemma commit_refused:
  assumes "holds (fc_lease_env call) l (lease_dir w)" and "file_path l = p" and "fc_lease_io call = (\<lambda>_. no_faults)"
    and "read_hash (fc_lease_env call) (hashed_content call 1 p w) \<noteq> base_hash l"
  obtains e w' where "commit_file call p l w = (Inl e, w')" "holds (fc_lease_env call) l (lease_dir w')" "disk w' = disk w"
proof -
  have at: "lease_at (fc_lease_env call) (lease_dir w) (lease_file_path (fc_lease_env call) p) = Some l"
    using assms(1,2) by (simp add: holds_def)
  obtain e d where "prepare_commit (fc_lease_env call) no_faults no_faults (fc_commit_time call)
      (hashed_content call 1 p w) (fc_between_lookups call) l (lease_dir w) = (Inl e, d)" "holds (fc_lease_env call) l d"
    using assms(1,2,4) get_by_path_stored [OF at]
    by (cases "is_expired l (fc_commit_time call)") (auto simp: prepare_commit_def then_do_def Let_def)
  then show ?thesis using that assms(3) by (simp add: commit_file_def on_leases_def)
qed

lemma edit_refused:
  assumes "holds (fc_lease_env call) l (lease_dir w)" and "file_path l = p" and "is_blocking (fc_lease_env call) l (fc_reserve_time call)"
    and "fc_gate call = Some True" and "fc_lease_io call 0 = no_faults" and "\<not> fc_aborted call 0"
    and "validate_edit_input params = Inr (path, edits)" and "p = ft_resolve_to_cwd tool path"
  shows "fst (edit_execute tool call params w) =
    Inl (Failed (lease_error_text (AlreadyLeased p (agent_id l) (remaining_secs l (fc_reserve_time call)))))"
proof -
  have at: "lease_at (fc_lease_env call) (lease_dir w) (lease_file_path (fc_lease_env call) p) = Some l"
    using assms(1,2) by (simp add: holds_def)
  define l2 where "l2 = (lease_new (fc_uuid call) p)\<lparr>agent_id := ''pid:'' @ show_nat (unat (fc_pid call)),
      lease_tool := ''patch'', base_hash := read_hash (fc_lease_env call) (hashed_content call 0 p w),
      acquired_at_ms := fc_reserve_time call, expected_duration_ms := EDIT_LEASE_DURATION_MS,
      lease_until_ms := fc_reserve_time call + EDIT_LEASE_DURATION_MS, status := Working\<rparr>"
  have l2: "file_path l2 = p" "acquired_at_ms l2 = fc_reserve_time call" by (simp_all add: l2_def lease_new_def)
  have "fst (try_acquire (fc_lease_env call) no_faults l2 (lease_dir w)) =
      Inl (AlreadyLeased p (agent_id l) (remaining_secs l (fc_reserve_time call)))"
    using try_acquire_blocked [of "fc_lease_env call" "lease_dir w" l2 l] at assms(3) l2 by simp
  then obtain d where "try_acquire (fc_lease_env call) no_faults l2 (lease_dir w) =
      (Inl (AlreadyLeased p (agent_id l) (remaining_secs l (fc_reserve_time call))), d)" by (metis prod.collapse)
  then show ?thesis
    using assms(4-8) unfolding l2_def
    by (simp add: edit_execute_def throw_if_aborted_def reserve_file_def on_leases_def reserve_def is_enabled_def then_do_def)
qed

definition undo_lease :: "FileCall \<Rightarrow> string \<Rightarrow> string \<Rightarrow> FileLease" where
  "undo_lease call p c =
    \<lparr>lease_id = fc_uuid call, agent_id = ''pid:'' @ show_nat (unat (fc_pid call)), file_path = p, lease_tool = ''undo'',
     base_hash = Some (compute_hash_bytes (fc_lease_env call) (as_bytes c)), acquired_at_ms = fc_reserve_time call,
     expected_duration_ms = UNDO_LEASE_DURATION_MS, lease_until_ms = fc_reserve_time call + UNDO_LEASE_DURATION_MS,
     status = Working\<rparr>"

lemma undo_reserves:
  assumes "fc_gate call = Some True" and "fc_lease_io call = (\<lambda>_. no_faults)" and "fc_faults call 0 = None"
    and "content_at (disk w) p = Some c" and "lease_files (lease_dir w) (lease_file_path (fc_lease_env call) p) = None"
    and "to_vec (fc_lease_env call) (undo_lease call p c) = Inr raw" and "survives_storage (fc_lease_env call) (undo_lease call p c)"
  obtains w' where "reserve_file call p ''undo'' UNDO_LEASE_DURATION_MS w = (Inr (Some (undo_lease call p c)), w')"
    "disk w' = disk w" "holds (fc_lease_env call) (undo_lease call p c) (lease_dir w')"
proof -
  let ?env = "fc_lease_env call" and ?l = "undo_lease call p c"
  have path: "file_path ?l = p" by (simp add: undo_lease_def)
  have hash: "hashed_content call 0 p w = Some (as_bytes c)" using assms(3,4) by (simp add: hashed_content_def read_op_def)
  have l: "(lease_new (fc_uuid call) p)\<lparr>agent_id := ''pid:'' @ show_nat (unat (fc_pid call)), lease_tool := ''undo'',
      base_hash := read_hash ?env (hashed_content call 0 p w), acquired_at_ms := fc_reserve_time call,
      expected_duration_ms := UNDO_LEASE_DURATION_MS, lease_until_ms := fc_reserve_time call + UNDO_LEASE_DURATION_MS,
      status := Working\<rparr> = ?l"
    by (simp add: undo_lease_def lease_new_def read_hash_def hash)
  have "read_lease ?env no_faults (lease_file_path ?env (file_path ?l)) (lease_dir w) = Inr None"
    using assms(5) path by (simp add: read_lease_no_faults)
  then obtain d where d: "try_acquire ?env no_faults ?l (lease_dir w) = (Inr ?l, d)"
      "lease_files d = (lease_files (lease_dir w))(lease_file_path ?env (file_path ?l) \<mapsto> raw)"
    using try_acquire_free [of ?env ?l "lease_dir w" None raw] assms(6) by auto
  then have "reserve_file call p ''undo'' UNDO_LEASE_DURATION_MS w = (Inr (Some ?l), w\<lparr>lease_dir := d\<rparr>)"
    using assms(1,2) d(1) unfolding l [symmetric]
    by (simp add: reserve_file_def on_leases_def reserve_def is_enabled_def then_do_def)
  moreover have "holds ?env ?l d" using stored_holds [OF assms(7,6) d(2)] .
  ultimately show ?thesis using that by simp
qed

text \<open>
  C23: An undo that changes the file keeps its lease. It releases the lease through the commit check, which
  compares the content with the hash taken before the restoration: they differ exactly when the undo has
  done something, so the check fails, the result is dropped and the lease stays. Although the undo reports
  success and no process holds the file, the next patch of the same agent is refused until the lease has
  expired.
\<close>

theorem undo_keeps_its_lease:
  assumes "undisturbed call" and "fc_gate call = Some True" and "fc_lease_io call = (\<lambda>_. no_faults)"
    and "fc_faults call 0 = None" and "fc_faults call 1 = None"
    and "ft_snapshots tool = Some store" and "tracked store p key"
    and "get_str params ''path'' = Some path" and "trim path \<noteq> []" and "p = ft_resolve_to_cwd tool (trim path)"
    and "origin_recorded store key (disk w)" and "history store key (disk w) = b # bs" and "content_at (disk w) p = Some c"
    and "compute_hash_bytes (fc_lease_env call) (as_bytes b) \<noteq> compute_hash_bytes (fc_lease_env call) (as_bytes c)"
    and "lease_files (lease_dir w) (lease_file_path (fc_lease_env call) p) = None"
    and "to_vec (fc_lease_env call) (undo_lease call p c) = Inr raw" and "survives_storage (fc_lease_env call) (undo_lease call p c)"
    and "fc_lease_env retry = fc_lease_env call" and "is_blocking (fc_lease_env call) (undo_lease call p c) (fc_reserve_time retry)"
    and "fc_gate retry = Some True" and "fc_lease_io retry 0 = no_faults" and "\<not> fc_aborted retry 0"
    and "validate_edit_input edit_params = Inr (edit_path, edits)" and "p = ft_resolve_to_cwd tool edit_path"
  shows "\<exists>r w'. undo_execute tool call params w = (Inr r, w') \<and> content_at (disk w') p = Some b \<and>
    holds (fc_lease_env call) (undo_lease call p c) (lease_dir w') \<and>
    fst (edit_execute tool retry edit_params w') = Inl (Failed (lease_error_text
      (AlreadyLeased p (agent_id (undo_lease call p c)) (remaining_secs (undo_lease call p c) (fc_reserve_time retry)))))"
proof -
  let ?env = "fc_lease_env call" and ?l = "undo_lease call p c"
  have u: "fc_others call j x = x" "fc_snapshot_faults call = no_io_faults" for j x using assms(1) by (simp_all add: undisturbed_def)
  have path: "file_path ?l = p" by (simp add: undo_lease_def)
  obtain w1 where w1: "reserve_file call p ''undo'' UNDO_LEASE_DURATION_MS w = (Inr (Some ?l), w1)"
      "disk w1 = disk w" "holds ?env ?l (lease_dir w1)"
    using undo_reserves [OF assms(2-4,13,15-17)] .
  obtain d where rest: "snapshot_restore store no_io_faults p (disk w) =
      (Inr (Some \<lparr>restored_bytes = b, more_remain = (bs \<noteq> [])\<rparr>), d)" "content_at d p = Some b"
    using restore_pops [OF assms(7,11,12)] by metis
  let ?w2 = "w1\<lparr>disk := d\<rparr>"
  have "read_hash ?env (hashed_content call 1 p ?w2) \<noteq> base_hash ?l"
    using rest(2) assms(5,14) by (simp add: hashed_content_def read_op_def read_hash_def undo_lease_def)
  then obtain e w3 where w3: "commit_file call p ?l ?w2 = (Inl e, w3)" "holds ?env ?l (lease_dir w3)" "disk w3 = d"
    using commit_refused [of call ?l ?w2 p] w1(3) path assms(3) by auto
  obtain r where "undo_execute tool call params w = (Inr r, w3)"
    using assms(6,8-10) w1(1,2) rest(1) w3(1)
    by (auto simp: undo_execute_def u on_disk_def undo_release_def Let_def split: if_splits)
  moreover have "fst (edit_execute tool retry edit_params w3) = Inl (Failed (lease_error_text
      (AlreadyLeased p (agent_id ?l) (remaining_secs ?l (fc_reserve_time retry)))))"
    using edit_refused [of retry ?l w3 p edit_params edit_path edits tool] w3(2) path assms(18-24) by simp
  ultimately show ?thesis using w3(2,3) rest(2) by auto
qed

section \<open>Examples\<close>

definition kept_lease :: FileLease where
  "kept_lease = \<lparr>lease_id = ''u'', agent_id = ''pid:'' @ show_nat 7, file_path = ''/w/a'', lease_tool = ''undo'',
     base_hash = Some (hex_encode (as_bytes ''two'')), acquired_at_ms = 100, expected_duration_ms = UNDO_LEASE_DURATION_MS,
     lease_until_ms = 100 + UNDO_LEASE_DURATION_MS, status = Working\<rparr>"

definition file_lease_env :: LeaseEnv where
  "file_lease_env = \<lparr>to_vec = (\<lambda>_. Inr ''1''), from_str = (\<lambda>_. Inr kept_lease), sha256 = (\<lambda>bs. bs), kill0 = (\<lambda>_. Signalled)\<rparr>"

definition sample_call :: "bool option \<Rightarrow> string \<Rightarrow> u64 \<Rightarrow> FileCall" where
  "sample_call gate stamp now =
    \<lparr>fc_lease_env = file_lease_env, fc_gate = gate, fc_pid = 7, fc_uuid = ''u'', fc_reserve_time = now, fc_commit_time = now,
     fc_lease_io = (\<lambda>_. no_faults), fc_faults = no_io_faults, fc_snapshot_faults = no_io_faults, fc_stamp = stamp,
     fc_aborted = (\<lambda>_. False), fc_others = (\<lambda>_ w. w), fc_between_lookups = (\<lambda>d. d)\<rparr>"

definition sample_file_tool :: FileTool where
  "sample_file_tool = \<lparr>ft_resolve_to_cwd = (\<lambda>p. p), ft_snapshots = Some sample_store, ft_nfkc = (\<lambda>s. s), ft_from_lines = (\<lambda>_ _. []), ft_unified_diff = (\<lambda>_ _ _ _. [])\<rparr>"

definition sample_params :: Json where
  "sample_params = JObject [(''path'', JString ''/w/a''), (''old_string'', JString ''one''), (''new_string'', JString ''two'')]"

definition sample_world :: World where
  "sample_world = \<lparr>disk = sample_disk, lease_dir = empty_dir\<rparr>"

lemmas sample_call_simps = sample_call_def sample_file_tool_def sample_world_def

definition one_to_two :: Edit where "one_to_two = \<lparr>old_text = ''one'', edit_new_text = ''two''\<rparr>"

lemma sample_patch:
  "patch_content (\<lambda>s. s) ''/w/a'' [one_to_two] ''one'' = Inr (''two'', \<lparr>base_content = ''one'', new_content = ''two''\<rparr>)"
  by code_simp

lemma sample_input: "validate_edit_input sample_params = Inr (''/w/a'', [one_to_two])"
  by code_simp

lemma sample_content [simp]: "content_at sample_disk ''/w/a'' = Some ''one''"
  by (simp add: sample_disk_def content_at_def)

lemma sample_later: "CHR ''/'' \<notin> set stamp \<Longrightarrow> later sample_store ''/w/a'' sample_disk stamp"
  by (simp add: later_def sample_empty)

lemma access_no_fault: "content_at d p = Some c \<Longrightarrow> access_op no_io_faults i p d = Inr ()"
  by (simp add: access_op_def no_io_faults_def)

lemma sample_edit_runs:
  "\<exists>r w1. edit_execute sample_file_tool (sample_call None ''1'' 100) sample_params sample_world = (Inr r, w1)"
proof -
  obtain t d where cap: "snapshot_capture sample_store no_io_faults ''1'' ''/w/a'' sample_disk = (Inr (Some t), d)"
    by (rule capture_pushes [OF sample_tracked sample_content sample_later, of "''1''"]) simp_all
  have "utf8_valid ''one''" by (simp add: utf8_valid_def)
  then show ?thesis
    using cap sample_patch
    by (simp add: edit_execute_def sample_input edit_body_def guarded_write_def sample_call_simps throw_if_aborted_def
        reserve_file_def reserve_def is_enabled_def on_leases_def access_no_fault
        on_disk_def capture_before_mutation_def commit_if_leased_def release_if_leased_def finish_call_def release_on_error_def Let_def)
qed

lemma sample_undisturbed: "undisturbed (sample_call gate stamp now)"
  by (simp add: undisturbed_def sample_call_def)

lemma sample_paths: "get_str sample_params ''path'' = Some ''/w/a''" "trim ''/w/a'' = ''/w/a''"
  by code_simp+

lemma sample_tool_simps [simp]:
  "ft_resolve_to_cwd sample_file_tool = (\<lambda>p. p)" "ft_snapshots sample_file_tool = Some sample_store" "ft_nfkc sample_file_tool = (\<lambda>s. s)"
  "disk sample_world = sample_disk" "fc_stamp (sample_call gate stamp now) = stamp" "fc_gate (sample_call gate stamp now) = gate"
  by (simp_all add: sample_call_simps)

theorem undo_reverts_edit_witness:
  "\<exists>r w1 r' w2. edit_execute sample_file_tool (sample_call None ''1'' 100) sample_params sample_world = (Inr r, w1) \<and>
    undo_execute sample_file_tool (sample_call None ''2'' 200) sample_params w1 = (Inr r', w2) \<and>
    content_at (disk w2) ''/w/a'' = Some ''one''"
proof -
  obtain r w1 where run: "edit_execute sample_file_tool (sample_call None ''1'' 100) sample_params sample_world = (Inr r, w1)"
    using sample_edit_runs by blast
  have "\<exists>r' w2. undo_execute sample_file_tool (sample_call None ''2'' 200) sample_params w1 = (Inr r', w2) \<and>
      content_at (disk w2) ''/w/a'' = content_at (disk sample_world) ''/w/a'' \<and>
      history sample_store ''/w/a'' (disk w2) = history sample_store ''/w/a'' (disk sample_world)"
    by (rule undo_reverts_edit [OF sample_undisturbed sample_undisturbed _ _ sample_tracked _ sample_input _ sample_paths(1) _ _ run])
      (simp_all add: sample_paths sample_later)
  then show ?thesis using run by auto
qed

lemma sample_apart: "leaves_alone (sample_call gate stamp now) ''/w/a''" "snapshots_apart sample_file_tool ''/w/a''"
  using sample_tracked by (auto simp: leaves_alone_def snapshots_apart_def sample_call_def tracked_def)

theorem edit_all_or_nothing_witness:
  "\<exists>r w1. edit_execute sample_file_tool (sample_call None ''1'' 100) sample_params sample_world = (Inr r, w1) \<and>
    content_at (disk w1) ''/w/a'' = Some ''two''"
proof -
  obtain r w1 where run: "edit_execute sample_file_tool (sample_call None ''1'' 100) sample_params sample_world = (Inr r, w1)"
    using sample_edit_runs by blast
  have "computes sample_file_tool ''/w/a'' [one_to_two] (Some ''one'') f \<longleftrightarrow> f = ''two''" for f
    using sample_patch by (auto simp: computes_def utf8_valid_def)
  then show ?thesis
    using edit_all_or_nothing [OF sample_input _ sample_apart run] run by simp
qed

definition aborted_call :: FileCall where
  "aborted_call = (sample_call (Some True) ''1'' 100)\<lparr>fc_aborted := (\<lambda>i. i = 1)\<rparr>"

lemma file_to_vec: "to_vec file_lease_env l = Inr ''1''"
  by (simp add: file_lease_env_def)

lemma aborted_run:
  "fst (edit_execute sample_file_tool aborted_call sample_params sample_world) = Inl (Failed operation_aborted)"
  by (simp add: edit_execute_def sample_input edit_body_def aborted_call_def sample_call_simps throw_if_aborted_def
      reserve_file_def reserve_def is_enabled_def on_leases_def then_do_def try_acquire_def with_locked_file_no_faults
      read_lease_no_faults write_lease_no_faults file_to_vec empty_dir_def finish_call_def release_on_error_def
      Let_def split: prod.splits)


lemma sample_kept_lease: "undo_lease (sample_call (Some True) ''2'' 100) ''/w/a'' ''two'' = kept_lease"
  by (simp add: undo_lease_def kept_lease_def sample_call_def compute_hash_bytes_def file_lease_env_def)

lemma sample_kept_blocks: "is_blocking file_lease_env kept_lease 200"
proof -
  have "holder_pid kept_lease = Some 7" by (rule holder_pid_of_agent) (simp add: kept_lease_def)
  then show ?thesis
    by (simp add: is_blocking_def is_expired_def kept_lease_def UNDO_LEASE_DURATION_MS_def is_process_alive_def file_lease_env_def)
qed

lemma sample_after_edit:
  obtains d where "history sample_store ''/w/a'' d = [''one'']" "origin_recorded sample_store ''/w/a'' d"
    "content_at d ''/w/a'' = Some ''two''"
proof -
  obtain t d where "history sample_store ''/w/a'' d = ''one'' # history sample_store ''/w/a'' sample_disk"
      "origin_recorded sample_store ''/w/a'' d"
    by (rule capture_pushes [OF sample_tracked sample_content sample_later, of "''1''"]) simp_all
  moreover have "history sample_store ''/w/a'' sample_disk = []" by (simp add: history_def sample_empty)
  ultimately show ?thesis
    using that [of "set_content ''/w/a'' (Some ''two'') d"] write_keeps_history [OF sample_tracked] by simp
qed

theorem undo_keeps_its_lease_witness:
  "\<exists>w r w'. undo_execute sample_file_tool (sample_call (Some True) ''2'' 100) sample_params w = (Inr r, w') \<and>
    lease_dir w = empty_dir \<and> content_at (disk w') ''/w/a'' = Some ''one'' \<and> holds file_lease_env kept_lease (lease_dir w') \<and>
    (\<exists>e. fst (edit_execute sample_file_tool (sample_call (Some True) ''3'' 200) sample_params w') = Inl e)"
proof -
  let ?c = "sample_call (Some True) ''2'' 100" and ?r = "sample_call (Some True) ''3'' 200"
  obtain d where d: "history sample_store ''/w/a'' d = [''one'']" "origin_recorded sample_store ''/w/a'' d"
      "content_at d ''/w/a'' = Some ''two''"
    by (rule sample_after_edit)
  let ?w = "\<lparr>disk = d, lease_dir = empty_dir\<rparr>"
  have env: "fc_lease_env (sample_call g st n) = file_lease_env" for g st n by (simp add: sample_call_def)
  have hash: "compute_hash_bytes file_lease_env (as_bytes ''one'') \<noteq> compute_hash_bytes file_lease_env (as_bytes ''two'')"
    unfolding compute_hash_bytes_def file_lease_env_def by code_simp
  have "\<exists>r w'. undo_execute sample_file_tool ?c sample_params ?w = (Inr r, w') \<and> content_at (disk w') ''/w/a'' = Some ''one'' \<and>
    holds (fc_lease_env ?c) (undo_lease ?c ''/w/a'' ''two'') (lease_dir w') \<and>
    fst (edit_execute sample_file_tool ?r sample_params w') = Inl (Failed (lease_error_text
      (AlreadyLeased ''/w/a'' (agent_id (undo_lease ?c ''/w/a'' ''two'')) (remaining_secs (undo_lease ?c ''/w/a'' ''two'') (fc_reserve_time ?r)))))"
    by (rule undo_keeps_its_lease [OF sample_undisturbed _ _ _ _ _ sample_tracked sample_paths(1) _ _ _ _ _ _ _ _ _ _ _ _ _ _ sample_input])
      (use d hash sample_kept_blocks in \<open>simp_all add: sample_paths sample_kept_lease env file_to_vec survives_storage_def
        empty_dir_def, simp_all add: sample_call_def no_io_faults_def file_lease_env_def\<close>)
  then show ?thesis using sample_kept_lease env by (intro exI [of _ ?w]) auto
qed

end
