(* ===== verification/Spec2Isabelle.thy ===== *)
theory Spec2Isabelle
  imports Codec Agent_Proofs Approval File_Lease_Proofs Goal_Proofs Session_Roundtrip Session_Reopen Compaction_Context Bash_Tool Output_Pipeline Edit_Tool_Proofs File_Tool_Proofs
begin

text \<open>
  \<^bold>\<open>Notagent: the core of a coding agent.\<close>

  Notagent is a terminal coding agent. A client and a server exchange messages over a byte stream
  (\<^verbatim>\<open>crates/notagent-protocol\<close>); the agent loop sends the conversation to a model, runs the tools the model
  calls and feeds the results back (\<^verbatim>\<open>crates/notagent-agent\<close>); the application around it decides which calls
  may run, keeps two agents from editing the same file, tracks tasks and goals, and writes every session
  to a file (\<^verbatim>\<open>crates/notagent/src/core\<close>). This development models these parts as functions on records and
  datatypes that keep the names of the code, and proves what makes them correct. Paths below are relative
  to \<^verbatim>\<open>src/crates\<close>.

  \<^bold>\<open>Foundations.\<close> \<^verbatim>\<open>Prelude\<close> holds the lemma collections and the facts on lists, options, machine integers,
  UTF-8 and UTF-16 that several components share. \<^verbatim>\<open>Float64\<close> reads IEEE doubles from 64-bit words; \<^verbatim>\<open>Json\<close> is
  the value type of serde_json with its insertion-ordered maps.

  \<^bold>\<open>Wire protocol.\<close>
  \<^item> \<^verbatim>\<open>Cbor_Value\<close>, \<^verbatim>\<open>Cbor\<close>, \<^verbatim>\<open>Cbor_Proofs\<close>: \<^verbatim>\<open>notagent-protocol/src/cbor\<close>, the limits, the writer and the reader.
    Decoding inverts encoding under any limits, every accepted value encodes again, and encoding succeeds
    exactly within the limits.
  \<^item> \<^verbatim>\<open>Framing\<close>: \<^verbatim>\<open>framing.rs\<close>, the incremental decoder of length-prefixed frames. It never panics, it refines
    the splitting of the whole byte stream, and the way the transport cuts the stream does not matter. The
    contract of such a decoder is the locale \<^verbatim>\<open>stream_decoder\<close>, interpreted here and for messages.
  \<^item> \<^verbatim>\<open>Codec\<close>: \<^verbatim>\<open>codec.rs\<close>, messages over frames: a round trip for both directions, and a decoder that stays
    failed after an error. The derived serde functions of the schemas are parameters.

  \<^bold>\<open>Agent loop.\<close>
  \<^item> \<^verbatim>\<open>Agent_Types\<close>, \<^verbatim>\<open>Messages\<close>: the messages, events and tools of \<^verbatim>\<open>notagent-ai/src/types.rs\<close>,
    \<^verbatim>\<open>notagent-agent/src/types.rs\<close> and \<^verbatim>\<open>harness/messages.rs\<close>, with the conversion of a context to what a model
    reads.
  \<^item> \<^verbatim>\<open>Repeat_Breaker\<close>: \<^verbatim>\<open>repeat_breaker.rs\<close>, the streaks of identical calls and the nudges they get.
  \<^item> \<^verbatim>\<open>Agent_Stream\<close>, \<^verbatim>\<open>Tool_Batch\<close>, \<^verbatim>\<open>Agent_Run\<close>, \<^verbatim>\<open>Agent_Proofs\<close>: \<^verbatim>\<open>agent_loop.rs\<close>. The model, the tools, the
    hooks and the cancellation token are parameters that answer as they like; parallel tool calls run under
    an arbitrary schedule. The run loop is a \<^theory_text>\<open>partial_function (option)\<close>, because the model may call tools for
    ever; a batch of tools always ends. Every call gets one result, in order; events are bracketed; the
    repeat counter stays bounded.

  \<^bold>\<open>Permissions.\<close>
  \<^item> \<^verbatim>\<open>Modes\<close>: \<^verbatim>\<open>core/tools.rs\<close>, \<^verbatim>\<open>core/modes\<close>: tool sets and the ring of modes.
  \<^item> \<^verbatim>\<open>Permission\<close>: \<^verbatim>\<open>core/permissions\<close>, each policy and the chain in its order. A chain whose last policy
    always decides is the locale \<^verbatim>\<open>closed_chain\<close>, interpreted for the shipped chain. Regular expressions, path
    functions, hooks and configured rules are parameters.
  \<^item> \<^verbatim>\<open>Approval\<close>: \<^verbatim>\<open>coordinator.rs\<close>, \<^verbatim>\<open>hook.rs\<close>, \<^verbatim>\<open>gate.rs\<close>: prompts, what is remembered, and teardown.

  \<^bold>\<open>File leases.\<close> \<^verbatim>\<open>File_Lease\<close>, \<^verbatim>\<open>File_Lease_Proofs\<close>: \<^verbatim>\<open>core/tools/file_lease.rs\<close>. Each store operation is an atomic
    step on a directory under an exclusive lock, with I/O faults as an argument; other processes step in
    between. Mutual exclusion is proved once in the locale \<^verbatim>\<open>exclusive_lease\<close> and for the store by
    interpretation.

  \<^bold>\<open>Tasks and goals.\<close> \<^verbatim>\<open>Todos\<close>: \<^verbatim>\<open>core/todos.rs\<close>. \<^verbatim>\<open>Goal\<close>, \<^verbatim>\<open>Goal_Proofs\<close>: \<^verbatim>\<open>core/goal.rs\<close>, \<^verbatim>\<open>core/tools/goal.rs\<close>, the
    command handler of \<^verbatim>\<open>interactive_mode.rs\<close> and the driver of \<^verbatim>\<open>agent_session.rs\<close>: a well-formedness
    invariant over all operations, the completion guard, and a bound on the reminders.

  \<^bold>\<open>Sessions.\<close>
  \<^item> \<^verbatim>\<open>Session_Types\<close>, \<^verbatim>\<open>Session_Roundtrip\<close>: the entries of \<^verbatim>\<open>core/session_manager.rs\<close> and their JSON form; reading
    back gives the entry again.
  \<^item> \<^verbatim>\<open>Session_File\<close>: identifiers, the migrations from older formats, the buffered readers of a session file.
    A read may be short or fail; what it returns is part of the \<^verbatim>\<open>Call\<close> record, which holds the environment of one call.
  \<^item> \<^verbatim>\<open>Session_Manager\<close>: the manager. Its state is the record \<^verbatim>\<open>SessionManager\<close>, the disk a map from paths to bytes;
    every operation returns its result, the manager and the disk, with partial writes and failed rollbacks
    among the outcomes. The walk to the root is a \<^theory_text>\<open>partial_function (option)\<close>, since a loaded file may have a
    cycle of parents; \<^verbatim>\<open>assemble\<close> takes the number of entries as fuel, which no path without repetition exceeds.
  \<^item> \<^verbatim>\<open>Session_Proofs\<close>, \<^verbatim>\<open>Session_Durability\<close>, \<^verbatim>\<open>Session_Properties\<close>: reachable sessions are trees, history is
    never rewritten, a session split off keeps its path, the file always reloads as a prefix of the memory
    and an acknowledged append is in it.
  \<^item> \<^verbatim>\<open>Session_Context\<close>: from the entries to the messages of the agent, with the entries a compaction left.
  \<^item> \<^verbatim>\<open>Session_Reopen\<close>: opening files the manager did not write itself: old versions, torn lines, cyclic parents.

  \<^bold>\<open>Compaction.\<close>
  \<^item> \<^verbatim>\<open>Token_Estimate\<close>, \<^verbatim>\<open>Retention\<close>, \<^verbatim>\<open>Summary_Text\<close>, \<^verbatim>\<open>Compaction\<close>: \<^verbatim>\<open>core/compaction\<close>. The size of a context in UTF-16 units
    by four, the choice of the user's messages that survive, the serialized conversation, the request with
    its retry, and summaries of abandoned branches. The model is a function from the number of the request and
    its prompt to a message.
  \<^item> \<^verbatim>\<open>Session_Compaction\<close>: the decision and the run of a compaction and the navigation in the tree, from
    \<^verbatim>\<open>core/agent_session.rs\<close>.
  \<^item> \<^verbatim>\<open>Retention_Proofs\<close>, \<^verbatim>\<open>Compaction_Proofs\<close>, \<^verbatim>\<open>Compaction_Context\<close>: what is kept fits its budget and is accounted for,
    the branch left behind is collected exactly, and the context after a compaction is the announced one, of
    exactly the estimated size. Two theorems show where the code falls short of its comments: a window not
    larger than the reserve removes the limit of the request, and a long branch forgets its files.

  \<^bold>\<open>File tools.\<close> Texts are their UTF-8 bytes; a panic is \<^verbatim>\<open>None\<close>.
  \<^item> \<^verbatim>\<open>Utf8\<close>, \<^verbatim>\<open>Text_Lines\<close>: decoding with replacement characters, searching and splitting, character boundaries.
  \<^item> \<^verbatim>\<open>Truncate\<close>, \<^verbatim>\<open>Read_Tool\<close>: \<^verbatim>\<open>core/tools/truncate.rs\<close> and \<^verbatim>\<open>read.rs\<close>. Truncation keeps as many lines as both limits
    allow, and following the offsets the read tool announces gives the whole file.
  \<^item> \<^verbatim>\<open>Output_Accumulator\<close>, \<^verbatim>\<open>Output_Proofs\<close>: \<^verbatim>\<open>output_accumulator.rs\<close>. The chunks of a command, decoded across their
    borders, in a rolling tail and a temporary file; the result does not depend on the chunks, and what is cut
    off is in the file.
  \<^item> \<^verbatim>\<open>Output_Pipeline\<close>: the threads of the live output in \<^verbatim>\<open>bash.rs\<close>, as a step relation with one step per lock or
    atomic access. No update is lost; a chunk that comes while the pipeline is finished panics.
  \<^item> \<^verbatim>\<open>Bash_Tool\<close>: what \<^verbatim>\<open>bash.rs\<close> makes of a finished, failed or detached command. It always returns; a theorem shows
    the one case in which it loses the output.
  \<^item> \<^verbatim>\<open>Edit_Diff\<close>, \<^verbatim>\<open>Edit_Proofs\<close>, \<^verbatim>\<open>Edit_Fuzzy\<close>, \<^verbatim>\<open>Edit_Normalize\<close>, \<^verbatim>\<open>Edit_Tool_Proofs\<close>: \<^verbatim>\<open>edit_diff.rs\<close>, exact and fuzzy replacement
    and line endings. Replacing from the back equals one rewrite from the front, an exact patch leaves every
    other byte alone, a fuzzy one every other line, and no slice falls inside a character. \<^verbatim>\<open>nfkc\<close> is a parameter.
  \<^item> \<^verbatim>\<open>Diff_Render\<close>: the diff shown for an edit; its rows are compared with the complete numbered diff.
  \<^item> \<^verbatim>\<open>Snapshot\<close>, \<^verbatim>\<open>Snapshot_Proofs\<close>: \<^verbatim>\<open>core/snapshots.rs\<close>. Snapshots are a stack; going back through one is the locale
    \<^verbatim>\<open>undoable\<close>, interpreted for the store.
  \<^item> \<^verbatim>\<open>Edit_Tool\<close>, \<^verbatim>\<open>File_Tool_Proofs\<close>: the calls of \<^verbatim>\<open>edit.rs\<close>, \<^verbatim>\<open>write.rs\<close> and \<^verbatim>\<open>undo.rs\<close> on a world of files and leases, with
    cancellation, faults and other processes between their steps. A patch is all or nothing, undo takes it
    back exactly, and it leaves no lease; an undo does leave one, against its comment.

  \<^bold>\<open>Not modelled.\<close> The HTTP clients of the model providers, the terminal user interface, the process handling
  of tools and background tasks, SQLite statements, telemetry and the command line: they are glue around
  libraries and I/O. The wiring of \<^verbatim>\<open>agent_session.rs\<close>, the listing of sessions, the search tools and the
  queueing of prompts (\<^verbatim>\<open>agent.rs\<close>) are left for later work.
\<close>

end
